(* ===== verification/Prelude.thy ===== *)
theory Prelude
  imports Main "HOL-Library.Word" "HOL-Library.Monad_Syntax"
begin

text \<open>
  Shared ground of the development: the machine integer types, the access
  functions for C objects (a C array is the list of its elements, an access
  outside the object is \<open>None\<close>), the loop combinators the models are
  written with, and the contract \<open>array_store\<close> that every indexed store of
  the kernel (byte buffers, bitmaps) satisfies.
\<close>

unbundle bit_operations_syntax

type_synonym u8 = "8 word"
type_synonym u16 = "16 word"
type_synonym u32 = "32 word"
type_synonym u64 = "64 word"

named_theorems access_simps \<open>reads and writes of C objects inside and outside their bounds\<close>

section \<open>Reading and writing C objects\<close>

definition rd :: "'a list \<Rightarrow> nat \<Rightarrow> 'a option" where
  "rd xs i = (if i < length xs then Some (xs ! i) else None)"

definition wr :: "'a list \<Rightarrow> nat \<Rightarrow> 'a \<Rightarrow> 'a list option" where
  "wr xs i v = (if i < length xs then Some (xs[i := v]) else None)"

lemma rd_Some [simp, access_simps]: "i < length xs \<Longrightarrow> rd xs i = Some (xs ! i)"
  by (simp add: rd_def)

lemma rd_None [simp, access_simps]: "length xs \<le> i \<Longrightarrow> rd xs i = None"
  by (simp add: rd_def)

lemma wr_Some [simp, access_simps]: "i < length xs \<Longrightarrow> wr xs i v = Some (xs[i := v])"
  by (simp add: wr_def)

lemma wr_None [simp, access_simps]: "length xs \<le> i \<Longrightarrow> wr xs i v = None"
  by (simp add: wr_def)

lemma rd_eq_Some_iff: "rd xs i = Some v \<longleftrightarrow> i < length xs \<and> xs ! i = v"
  by (auto simp: rd_def)

lemma wr_eq_Some_iff: "wr xs i v = Some ys \<longleftrightarrow> i < length xs \<and> ys = xs[i := v]"
  by (auto simp: wr_def)

lemma list_eq_rdI: "length xs = length ys \<Longrightarrow> (\<And>i. rd xs i = rd ys i) \<Longrightarrow> xs = ys"
  by (rule nth_equalityI) (simp_all add: rd_def split: if_splits, metis option.inject)

section \<open>Loops\<close>

text \<open>
  \<open>for_loop body lo n s\<close> is \<open>for (i = lo; i < lo + n; i++) s = body(i, s)\<close>; a body
  that faults (\<open>None\<close>) stops the loop with a fault. \<open>for_range body lo hi\<close> is the
  loop with the bounds as the code writes them.
\<close>

fun for_loop :: "(nat \<Rightarrow> 's \<Rightarrow> 's option) \<Rightarrow> nat \<Rightarrow> nat \<Rightarrow> 's \<Rightarrow> 's option" where
  "for_loop body i 0 s = Some s"
| "for_loop body i (Suc n) s = do { s' \<leftarrow> body i s; for_loop body (Suc i) n s' }"

abbreviation for_range :: "(nat \<Rightarrow> 's \<Rightarrow> 's option) \<Rightarrow> nat \<Rightarrow> nat \<Rightarrow> 's \<Rightarrow> 's option" where
  "for_range body lo hi s \<equiv> for_loop body lo (hi - lo) s"

text \<open>
  The same loop with an early exit: the body returns \<open>Inl r\<close> for a \<open>return r\<close> (or
  \<open>break\<close>) in the loop and \<open>Inr s\<close> to go on.
\<close>

fun for_until :: "(nat \<Rightarrow> 's \<Rightarrow> ('r + 's) option) \<Rightarrow> nat \<Rightarrow> nat \<Rightarrow> 's \<Rightarrow> ('r + 's) option" where
  "for_until body i 0 s = Some (Inr s)"
| "for_until body i (Suc n) s =
     (case body i s of
        None \<Rightarrow> None
      | Some (Inl r) \<Rightarrow> Some (Inl r)
      | Some (Inr s') \<Rightarrow> for_until body (Suc i) n s')"

text \<open>The total-correctness rules of the two loops: an invariant that every
  iteration establishes for the next index, without a fault.\<close>

lemma for_loop_rule:
  assumes "I lo s"
    and "\<And>i s. lo \<le> i \<Longrightarrow> i < lo + n \<Longrightarrow> I i s \<Longrightarrow> \<exists>s'. body i s = Some s' \<and> I (Suc i) s'"
  shows "\<exists>s'. for_loop body lo n s = Some s' \<and> I (lo + n) s'"
  using assms
proof (induction n arbitrary: lo s)
  case 0
  then show ?case by simp
next
  case (Suc n)
  from Suc.prems(2)[of lo s] Suc.prems(1) obtain s' where
    b: "body lo s = Some s'" and i: "I (Suc lo) s'" by auto
  have "\<exists>t. for_loop body (Suc lo) n s' = Some t \<and> I (Suc lo + n) t"
    by (rule Suc.IH[OF i]) (use Suc.prems(2) in auto)
  with b show ?case by auto
qed

lemma for_until_rule:
  assumes "I lo s"
    and "\<And>i s. lo \<le> i \<Longrightarrow> i < lo + n \<Longrightarrow> I i s \<Longrightarrow>
      (\<exists>s'. body i s = Some (Inr s') \<and> I (Suc i) s') \<or> (\<exists>r. body i s = Some (Inl r) \<and> Q r)"
  shows "(\<exists>s'. for_until body lo n s = Some (Inr s') \<and> I (lo + n) s') \<or>
         (\<exists>r. for_until body lo n s = Some (Inl r) \<and> Q r)"
  using assms
proof (induction n arbitrary: lo s)
  case 0
  then show ?case by simp
next
  case (Suc n)
  consider (go) s' where "body lo s = Some (Inr s')" "I (Suc lo) s'"
    | (stop) r where "body lo s = Some (Inl r)" "Q r"
    using Suc.prems(2)[of lo s] Suc.prems(1) by auto
  then show ?case
  proof cases
    case go
    have "(\<exists>t. for_until body (Suc lo) n s' = Some (Inr t) \<and> I (Suc lo + n) t) \<or>
          (\<exists>r. for_until body (Suc lo) n s' = Some (Inl r) \<and> Q r)"
      by (rule Suc.IH[OF go(2)]) (use Suc.prems(2) in auto)
    with go(1) show ?thesis by auto
  next
    case stop
    then show ?thesis by auto
  qed
qed

text \<open>A loop that is left by \<open>break\<close>: both exits give a state with \<open>Q\<close>.\<close>

lemma for_break_rule:
  fixes body :: "nat \<Rightarrow> 's \<Rightarrow> ('s + 's) option"
  assumes "I lo s"
    and "\<And>i s. lo \<le> i \<Longrightarrow> i < lo + n \<Longrightarrow> I i s \<Longrightarrow>
      (\<exists>s'. body i s = Some (Inr s') \<and> I (Suc i) s') \<or> (\<exists>r. body i s = Some (Inl r) \<and> Q r)"
    and "\<And>s. I (lo + n) s \<Longrightarrow> Q s"
  shows "\<exists>v. for_until body lo n s = Some v \<and> Q (case v of Inl r \<Rightarrow> r | Inr r \<Rightarrow> r)"
proof -
  from for_until_rule[where I = I and body = body and n = n and Q = Q, OF assms(1,2)]
  consider (fin) s' where "for_until body lo n s = Some (Inr s')" "I (lo + n) s'"
    | (out) r where "for_until body lo n s = Some (Inl r)" "Q r" by blast
  then show ?thesis
  proof cases
    case fin
    with assms(3)[OF fin(2)] show ?thesis by simp
  next
    case out
    then show ?thesis by simp
  qed
qed

lemma for_loop_add:
  "for_loop body lo (n + m) s = do { s' \<leftarrow> for_loop body lo n s; for_loop body (lo + n) m s' }"
  by (induction n arbitrary: lo s) (auto split: Option.bind_splits)

lemma for_loop_shift: "for_loop body (k + lo) n s = for_loop (\<lambda>i. body (k + i)) lo n s"
proof (induction n arbitrary: lo s)
  case (Suc n)
  have "for_loop body (Suc (k + lo)) n = for_loop (\<lambda>i. body (k + i)) (Suc lo) n"
    using Suc.IH[of "Suc lo"] by (intro ext) simp
  then show ?case by simp
qed simp

lemma for_loop_cong:
  assumes "\<And>i s. lo \<le> i \<Longrightarrow> i < lo + n \<Longrightarrow> f i s = g i s"
  shows "for_loop f lo n s = for_loop g lo n s"
  using assms
proof (induction n arbitrary: lo s)
  case (Suc n)
  then have "for_loop f (Suc lo) n t = for_loop g (Suc lo) n t" for t by simp
  with Suc.prems[of lo s] show ?case by (simp split: Option.bind_splits)
qed simp

lemma for_loop_fault:
  assumes "lo \<le> k" "k < lo + n" "\<And>s. body k s = None"
  shows "for_loop body lo n s = None"
  using assms
proof (induction n arbitrary: lo s)
  case (Suc n)
  show ?case
  proof (cases "lo = k")
    case True
    with Suc.prems show ?thesis by simp
  next
    case False
    with Suc.prems have "for_loop body (Suc lo) n t = None" for t by (intro Suc.IH) auto
    then show ?thesis by (simp split: Option.bind_splits)
  qed
qed simp

text \<open>A loop that carries its own running index next to the store.\<close>

lemma for_loop_counter:
  "for_loop (\<lambda>i (p, m). do { m' \<leftarrow> f p m; Some (Suc p, m') }) lo n (k + lo, m) =
   map_option (Pair (k + lo + n)) (for_loop (\<lambda>i m. f (k + i) m) lo n m)"
proof (induction n arbitrary: lo m)
  case (Suc n)
  show ?case
  proof (cases "f (k + lo) m")
    case (Some m')
    with Suc[of "Suc lo" m'] show ?thesis by simp
  qed simp
qed simp

section \<open>The contract of an indexed store\<close>

text \<open>
  What the kernel's loops over indexed storage rely on: a write inside the
  bounds succeeds, changes the one element and keeps the size; any access
  outside the bounds is a fault. The lemmas on range writes are proved once
  here and hold for byte buffers and for bitmaps.
\<close>

locale array_store =
  fixes get :: "'m \<Rightarrow> nat \<Rightarrow> 'v option"
    and put :: "'m \<Rightarrow> nat \<Rightarrow> 'v \<Rightarrow> 'm option"
    and size_of :: "'m \<Rightarrow> nat"
  assumes get_in: "i < size_of m \<Longrightarrow> get m i \<noteq> None"
    and get_out: "size_of m \<le> i \<Longrightarrow> get m i = None"
    and put_in: "i < size_of m \<Longrightarrow> \<exists>m'. put m i v = Some m' \<and> size_of m' = size_of m \<and>
      (\<forall>j. get m' j = (if j = i then Some v else get m j))"
    and put_out: "size_of m \<le> i \<Longrightarrow> put m i v = None"
begin

lemma put_range:
  assumes "n = 0 \<or> k + lo + n \<le> size_of m"
  shows "\<exists>m'. for_loop (\<lambda>i m. put m (k + i) (f i)) lo n m = Some m' \<and> size_of m' = size_of m \<and>
    (\<forall>j. get m' j = (if k + lo \<le> j \<and> j < k + lo + n then Some (f (j - k)) else get m j))"
proof -
  let ?I = "\<lambda>i m'. size_of m' = size_of m \<and>
    (\<forall>j. get m' j = (if k + lo \<le> j \<and> j < k + i then Some (f (j - k)) else get m j))"
  have "\<exists>m'. for_loop (\<lambda>i m. put m (k + i) (f i)) lo n m = Some m' \<and> ?I (lo + n) m'"
  proof (rule for_loop_rule[where I = ?I])
    show "?I lo m" by auto
  next
    fix i m1 assume i: "lo \<le> i" "i < lo + n" and I: "?I i m1"
    with assms have "k + i < size_of m1" by auto
    from put_in[OF this, of "f i"] obtain m2 where
      "put m1 (k + i) (f i) = Some m2" "size_of m2 = size_of m1"
      "\<forall>j. get m2 j = (if j = k + i then Some (f i) else get m1 j)" by blast
    with I i show "\<exists>s'. put m1 (k + i) (f i) = Some s' \<and> ?I (Suc i) s'"
      by (auto simp: less_Suc_eq)
  qed
  then show ?thesis by (simp add: add.assoc)
qed

lemma put_range_counter:
  assumes "n = 0 \<or> k + n \<le> size_of m"
  shows "\<exists>m'. for_loop (\<lambda>i (p, m). do { m' \<leftarrow> put m p v; Some (Suc p, m') }) 0 n (k, m) = Some (k + n, m') \<and>
    size_of m' = size_of m \<and>
    (\<forall>j. get m' j = (if k \<le> j \<and> j < k + n then Some v else get m j))"
  using for_loop_counter[of "\<lambda>p m. put m p v" 0 n k m] put_range[of n k 0 m "\<lambda>_. v"] assms
  by auto

lemma put_range_out:
  assumes "size_of m < k + lo + n" "0 < n"
  shows "for_loop (\<lambda>i m. put m (k + i) (f i)) lo n m = None"
proof -
  define a where "a = (if size_of m \<le> k + lo then 0 else size_of m - (k + lo))"
  have "n = a + Suc (n - a - 1)" using assms by (auto simp: a_def)
  then obtain b where b: "n = a + Suc b" by blast
  have "a = 0 \<or> k + lo + a \<le> size_of m" by (auto simp: a_def)
  from put_range[OF this, of f] obtain m' where
    m': "for_loop (\<lambda>i m. put m (k + i) (f i)) lo a m = Some m'" "size_of m' = size_of m" by auto
  have "put m' (k + (lo + a)) v = None" for v
    by (rule put_out) (simp add: m'(2) a_def)
  then show ?thesis unfolding b for_loop_add m'(1) by simp
qed

text \<open>Moving a range by one element: upwards from the top, downwards from the bottom.\<close>

lemma shift_up:
  assumes "hi < size_of m" and "n \<le> hi"
  shows "\<exists>m'. for_loop (\<lambda>k m. do { v \<leftarrow> get m (hi - k - 1); put m (hi - k) v }) 0 n m = Some m' \<and> size_of m' = size_of m \<and>
    (\<forall>j. get m' j = (if hi - n < j \<and> j \<le> hi then get m (j - 1) else get m j))"
proof -
  let ?I = "\<lambda>k m'. size_of m' = size_of m \<and>
    (\<forall>j. get m' j = (if hi - k < j \<and> j \<le> hi then get m (j - 1) else get m j))"
  have "\<exists>m'. for_loop (\<lambda>k m. do { v \<leftarrow> get m (hi - k - 1); put m (hi - k) v }) 0 n m = Some m' \<and> ?I (0 + n) m'"
  proof (rule for_loop_rule[where I = ?I])
    fix k m1 assume k: "k < 0 + n" and I: "?I k m1"
    have g: "get m1 (hi - k - 1) = get m (hi - k - 1)" using I by auto
    have "hi - k - 1 < size_of m" using assms by simp
    from get_in[OF this] obtain v where v: "get m (hi - k - 1) = Some v" by auto
    have "hi - k < size_of m1" using assms I by simp
    from put_in[OF this, of v] obtain m2 where m2: "put m1 (hi - k) v = Some m2" "size_of m2 = size_of m1"
      "\<forall>j. get m2 j = (if j = hi - k then Some v else get m1 j)" by blast
    have "get m2 j = (if hi - Suc k < j \<and> j \<le> hi then get m (j - 1) else get m j)" for j
      using m2(3) I v k assms(2) by auto
    with m2 I g v show "\<exists>s'. (do { v \<leftarrow> get m1 (hi - k - 1); put m1 (hi - k) v }) = Some s' \<and> ?I (Suc k) s'" by simp
  qed auto
  then show ?thesis by simp
qed

lemma shift_down:
  assumes "lo + n < size_of m"
  shows "\<exists>m'. for_loop (\<lambda>k m. do { v \<leftarrow> get m (lo + k + 1); put m (lo + k) v }) 0 n m = Some m' \<and> size_of m' = size_of m \<and>
    (\<forall>j. get m' j = (if lo \<le> j \<and> j < lo + n then get m (j + 1) else get m j))"
proof -
  let ?I = "\<lambda>k m'. size_of m' = size_of m \<and>
    (\<forall>j. get m' j = (if lo \<le> j \<and> j < lo + k then get m (j + 1) else get m j))"
  have "\<exists>m'. for_loop (\<lambda>k m. do { v \<leftarrow> get m (lo + k + 1); put m (lo + k) v }) 0 n m = Some m' \<and> ?I (0 + n) m'"
  proof (rule for_loop_rule[where I = ?I])
    fix k m1 assume k: "k < 0 + n" and I: "?I k m1"
    have g: "get m1 (lo + k + 1) = get m (lo + k + 1)" using I by auto
    have "lo + k + 1 < size_of m" using assms k by simp
    from get_in[OF this] obtain v where v: "get m (lo + k + 1) = Some v" by auto
    have "lo + k < size_of m1" using assms I k by simp
    from put_in[OF this, of v] obtain m2 where m2: "put m1 (lo + k) v = Some m2" "size_of m2 = size_of m1"
      "\<forall>j. get m2 j = (if j = lo + k then Some v else get m1 j)" by blast
    have "get m2 j = (if lo \<le> j \<and> j < lo + Suc k then get m (j + 1) else get m j)" for j
      using m2(3) I v by auto
    with m2 I g v show "\<exists>s'. (do { v \<leftarrow> get m1 (lo + k + 1); put m1 (lo + k) v }) = Some s' \<and> ?I (Suc k) s'" by simp
  qed auto
  then show ?thesis by simp
qed

end

interpretation buf: array_store "rd :: 'a list \<Rightarrow> nat \<Rightarrow> 'a option" wr length
  by unfold_locales (auto simp: rd_def wr_def nth_list_update)

section \<open>Word facts\<close>

lemma unat_of_nat_small: "n < 2 ^ LENGTH('a) \<Longrightarrow> unat (of_nat n :: 'a::len word) = n"
  by (simp add: unat_of_nat take_bit_nat_eq_self)

lemma unat_add_small:
  "unat a + unat b < 2 ^ LENGTH('a) \<Longrightarrow> unat (a + b) = unat a + unat (b :: 'a::len word)"
  by (simp add: unat_word_ariths)

lemma unat_diff_small: "b \<le> a \<Longrightarrow> unat (a - b) = unat a - unat (b :: 'a::len word)"
  by (rule unat_sub)

lemma unat_mult_small:
  "unat a * unat b < 2 ^ LENGTH('a) \<Longrightarrow> unat (a * b) = unat a * unat (b :: 'a::len word)"
  by (simp add: unat_word_ariths)

end
