(* ===== verification/MathLib.thy ===== *)
theory MathLib
  imports Prelude
begin

text \<open>
  \<^verbatim>\<open>kernel/math/math.h\<close>: the integer helpers every other component uses.
  \<open>uint64_t\<close> and \<open>int64_t\<close> are 64-bit words; the unsigned comparisons are
  \<open><\<close>, \<open>\<le>\<close> and the signed ones \<open><s\<close>, \<open>\<le>s\<close>.
\<close>

section \<open>The operations\<close>

definition divide_round_up :: "u64 \<Rightarrow> u64 \<Rightarrow> u64" where
  "divide_round_up a b = (if b = 0 then 0 else (a + b - 1) div b)"

definition min_i64 :: "u64 \<Rightarrow> u64 \<Rightarrow> u64" where
  "min_i64 a b = (if a \<le>s b then a else b)"

definition max_i64 :: "u64 \<Rightarrow> u64 \<Rightarrow> u64" where
  "max_i64 a b = (if b \<le>s a then a else b)"

definition abs_value :: "u64 \<Rightarrow> u64" where
  "abs_value n = (if 0 \<le>s n then n else - n)"

definition clamp :: "u64 \<Rightarrow> u64 \<Rightarrow> u64 \<Rightarrow> u64" where
  "clamp n lo hi =
     (if hi \<le>s lo then lo
      else if n \<le>s lo then lo
      else if hi \<le>s n then hi
      else n)"

definition is_power_of_two :: "u64 \<Rightarrow> bool" where
  "is_power_of_two n \<longleftrightarrow> 0 <s n \<and> n AND (n - 1) = 0"

definition is_aligned :: "u64 \<Rightarrow> u64 \<Rightarrow> bool" where
  "is_aligned addr align = (if align = 0 then addr = 0 else addr mod align = 0)"

definition align_up :: "u64 \<Rightarrow> u64 \<Rightarrow> u64" where
  "align_up addr align =
     (if align = 0 then addr
      else let remainder = addr mod align in
        if remainder = 0 then addr else addr + (align - remainder))"

definition align_down :: "u64 \<Rightarrow> u64 \<Rightarrow> u64" where
  "align_down addr align = (if align = 0 then addr else addr - addr mod align)"

section \<open>Rounding\<close>

lemma unat_divide_round_up:
  assumes "b \<noteq> 0" and "unat a + unat b \<le> 2 ^ 64"
  shows "unat (divide_round_up a b) = (unat a + unat b - 1) div unat b"
proof -
  have b: "1 \<le> unat b" using assms(1) by (metis One_nat_def Suc_leI unat_gt_0)
  have "a + b - 1 = of_nat (unat a + unat b - 1)"
    using b by (simp add: of_nat_diff)
  then have "unat (a + b - 1) = unat a + unat b - 1"
    using assms(2) b by (simp add: unat_of_nat_small del: of_nat_diff)
  with assms(1) show ?thesis by (simp add: divide_round_up_def unat_div_distrib)
qed

lemma ceil_div_least: "0 < (b::nat) \<Longrightarrow> a \<le> ((a + b - 1) div b) * b"
  using div_mult_mod_eq[of "a + b - 1" b] mod_less_divisor[of b "a + b - 1"] by linarith

lemma ceil_div_bound: "0 < (b::nat) \<Longrightarrow> a \<le> k * b \<Longrightarrow> (a + b - 1) div b \<le> k"
proof -
  assume b: "0 < b" and a: "a \<le> k * b"
  then have "a + b - 1 < (k + 1) * b" by (simp add: algebra_simps)
  then have "(a + b - 1) div b < k + 1" by (rule less_mult_imp_div_less)
  then show ?thesis by simp
qed

lemma divide_round_up_bounds:
  assumes "b \<noteq> 0" and "unat a + unat b \<le> 2 ^ 64"
  shows "unat a \<le> unat (divide_round_up a b) * unat b"
    and "unat a \<le> k * unat b \<Longrightarrow> unat (divide_round_up a b) \<le> k"
proof -
  have b: "0 < unat b" using assms(1) by (simp add: unat_gt_0)
  show "unat a \<le> unat (divide_round_up a b) * unat b"
    unfolding unat_divide_round_up[OF assms] by (rule ceil_div_least[OF b])
  show "unat a \<le> k * unat b \<Longrightarrow> unat (divide_round_up a b) \<le> k"
    unfolding unat_divide_round_up[OF assms] by (rule ceil_div_bound[OF b])
qed

lemma divide_round_up_wraps: "divide_round_up (- 1) 4096 = 0"
  by (simp add: divide_round_up_def)

lemma unat_align_down: "align \<noteq> 0 \<Longrightarrow> unat (align_down addr align) = unat addr - unat addr mod unat align"
proof -
  assume "align \<noteq> 0"
  have "addr mod align \<le> addr" by (simp add: word_le_nat_alt unat_mod_distrib)
  with \<open>align \<noteq> 0\<close> show ?thesis
    by (simp add: align_down_def unat_diff_small unat_mod_distrib)
qed

lemma unat_align_up:
  assumes "align \<noteq> 0" and "unat addr + unat align \<le> 2 ^ 64"
  shows "unat (align_up addr align) = (unat addr + unat align - 1) div unat align * unat align"
proof -
  let ?n = "unat addr" and ?k = "unat align"
  have k: "0 < ?k" using assms(1) by (simp add: unat_gt_0)
  have r: "unat (addr mod align) = ?n mod ?k" by (simp add: unat_mod_distrib)
  show ?thesis
  proof (cases "addr mod align = 0")
    case True
    then have "?n mod ?k = 0" using r by simp
    then obtain q where q: "?n = q * ?k" by (metis mod_0_imp_dvd dvd_def mult.commute)
    have "(q * ?k + ?k - 1) div ?k = q"
    proof (rule antisym)
      show "(q * ?k + ?k - 1) div ?k \<le> q" by (rule ceil_div_bound[OF k]) simp
      have "q * ?k div ?k \<le> (q * ?k + ?k - 1) div ?k" by (rule div_le_mono) (use k in simp)
      then show "q \<le> (q * ?k + ?k - 1) div ?k" using k by simp
    qed
    with q True assms(1) show ?thesis by (simp add: align_up_def)
  next
    case False
    then have nz: "0 < ?n mod ?k" using r by (metis gr0I unat_eq_zero)
    have lt: "?n mod ?k < ?k" using k by simp
    have "unat (align - addr mod align) = ?k - ?n mod ?k"
      using lt by (simp add: unat_diff_small word_le_nat_alt r)
    moreover have "unat (addr + (align - addr mod align)) =
        ?n + unat (align - addr mod align)" if "?n + unat (align - addr mod align) < 2 ^ 64"
      using that by (intro unat_add_small) simp
    moreover have "?n + (?k - ?n mod ?k) < 2 ^ 64"
      by (rule less_le_trans[OF _ assms(2)]) (use nz k in \<open>simp add: diff_less\<close>)
    ultimately have "unat (align_up addr align) = ?n + (?k - ?n mod ?k)"
      using False assms(1) by (simp add: align_up_def)
    also have "\<dots> = ?n div ?k * ?k + ?k"
      using lt div_mult_mod_eq[of ?n ?k] by linarith
    also have "\<dots> = (?n div ?k + 1) * ?k" by (simp add: algebra_simps)
    also have "?n div ?k + 1 = (?n + ?k - 1) div ?k"
    proof -
      have "?n + ?k - 1 = (?n mod ?k - 1) + (?n div ?k + 1) * ?k"
        using nz div_mult_mod_eq[of ?n ?k] by (simp only: add_mult_distrib)
      then have "(?n + ?k - 1) div ?k = (?n div ?k + 1) + (?n mod ?k - 1) div ?k"
        using k by (metis div_mult_self1 less_not_refl)
      also have "(?n mod ?k - 1) div ?k = 0" using lt by (intro div_less) linarith
      finally show ?thesis by simp
    qed
    finally show ?thesis .
  qed
qed

section \<open>Signed helpers\<close>

lemma sint_min_i64: "sint (min_i64 a b) = min (sint a) (sint b)"
  by (simp add: min_i64_def word_sle_eq min_def)

lemma sint_max_i64: "sint (max_i64 a b) = max (sint a) (sint b)"
  by (auto simp: max_i64_def word_sle_eq max_def)

lemma sint_clamp:
  "sint (clamp n lo hi) = (if sint hi \<le> sint lo then sint lo else max (sint lo) (min (sint n) (sint hi)))"
  by (auto simp: clamp_def word_sle_eq)

lemma sint_range64: "- (2 ^ 63) \<le> sint (n :: u64)" "sint (n :: u64) < 2 ^ 63"
  using sint_ge[of n] sint_lt[of n] by simp_all

lemma uint_sint_nonneg: "0 \<le> sint (n :: u64) \<Longrightarrow> uint n = sint n"
  using sint_range64[of n] by (simp add: uint_sint take_bit_int_eq_self)

lemma uint_abs_value: "uint (abs_value n) = \<bar>sint n\<bar>"
proof (cases "0 \<le> sint n")
  case True
  then show ?thesis by (simp add: abs_value_def word_sle_eq uint_sint_nonneg)
next
  case False
  then have "uint (- n) = (- sint n) mod 2 ^ 64"
  proof -
    have "uint n = sint n mod 2 ^ 64" by (simp only: uint_sint take_bit_eq_mod) simp
    then show ?thesis by (simp only: uint_word_ariths(4)) (simp add: mod_minus_eq)
  qed
  also have "\<dots> = - sint n"
    using False sint_range64(1)[of n] by (intro mod_pos_pos_trivial) auto
  finally have "uint (- n) = - sint n" .
  with False show ?thesis by (simp add: abs_value_def word_sle_eq)
qed

section \<open>Powers of two\<close>

lemma and_pred_nat_zero_iff: "0 < n \<Longrightarrow> n AND (n - 1) = 0 \<longleftrightarrow> (\<exists>k. n = 2 ^ k)" for n :: nat
proof (induction n rule: less_induct)
  case (less n)
  show ?case
  proof (cases "even n")
    case True
    with less.prems obtain m where m: "n = 2 * m" "0 < m" by (auto elim!: evenE)
    then have p: "n - 1 = 1 + 2 * (m - 1)" by simp
    have "n AND (n - 1) = 2 * (m AND (m - 1))"
      unfolding p unfolding m by (simp add: and_rec [of "2 * m"])
    moreover have "m AND (m - 1) = 0 \<longleftrightarrow> (\<exists>k. m = 2 ^ k)" using m by (intro less.IH) auto
    moreover have "(\<exists>k. n = 2 ^ k) \<longleftrightarrow> (\<exists>k. m = 2 ^ k)"
    proof
      assume "\<exists>k. n = 2 ^ k"
      then obtain k where k: "n = 2 ^ k" ..
      then show "\<exists>k. m = 2 ^ k" using m less.prems True by (cases k) auto
    next
      assume "\<exists>k. m = 2 ^ k"
      then show "\<exists>k. n = 2 ^ k" using m by (metis power_Suc)
    qed
    ultimately show ?thesis by simp
  next
    case False
    then obtain m where m: "n = 1 + 2 * m" by (metis oddE add.commute)
    have "n AND (n - 1) = 2 * m"
      unfolding m by (simp add: and_rec [of "Suc (2 * m)"])
    moreover have "(\<exists>k. n = 2 ^ k) \<longleftrightarrow> m = 0"
    proof
      assume "\<exists>k. n = 2 ^ k"
      then obtain k where "n = 2 ^ k" ..
      moreover have "k = 0" using False \<open>n = 2 ^ k\<close> by (cases k) auto
      ultimately show "m = 0" using m by simp
    next
      assume "m = 0"
      then have "n = 2 ^ 0" using m by simp
      then show "\<exists>k. n = 2 ^ k" ..
    qed
    ultimately show ?thesis by simp
  qed
qed

lemma is_power_of_two_iff: "is_power_of_two n \<longleftrightarrow> (\<exists>k. sint n = 2 ^ k)"
proof (cases "0 < sint n")
  case True
  then have u: "uint n = sint n" by (simp add: uint_sint_nonneg)
  then have un: "int (unat n) = sint n" by simp
  with True have n: "0 < unat n" by linarith
  have "n AND (n - 1) = 0 \<longleftrightarrow> unat (n AND (n - 1)) = 0" by (simp add: unat_eq_zero)
  also have "unat (n AND (n - 1)) = unat n AND (unat n - 1)"
    using n by (simp add: unsigned_and_eq unat_diff_small word_le_nat_alt unat_minus_one unat_gt_0)
  also have "\<dots> = 0 \<longleftrightarrow> (\<exists>k. unat n = 2 ^ k)" by (rule and_pred_nat_zero_iff[OF n])
  also have "\<dots> \<longleftrightarrow> (\<exists>k. sint n = 2 ^ k)"
    unfolding un[symmetric] by (metis of_nat_eq_iff of_nat_numeral of_nat_power)
  finally show ?thesis using True by (simp add: is_power_of_two_def word_sless_alt)
next
  case False
  then have "\<not> (\<exists>k. sint n = 2 ^ k)" by (metis zero_less_numeral zero_less_power)
  with False show ?thesis by (simp add: is_power_of_two_def word_sless_alt)
qed

end
