(* ===== verification/BitmapLib.thy ===== *)
theory BitmapLib
  imports Prelude
begin

text \<open>
  \<^verbatim>\<open>kernel/types/bit/bit.h\<close> and \<^verbatim>\<open>kernel/helper/bitmap\<close>: single bits of a byte
  array and the page bitmaps built on them. A bit index beyond the byte array
  is an access outside the object (\<open>None\<close>). The abstract view of a byte array
  is the list of its bits (\<open>bits_of\<close>); every operation refines the list
  operation, and the byte array with \<open>bit_read\<close>/\<open>bit_write\<close> is an
  \<open>array_store\<close>.
\<close>

section \<open>Bits\<close>

definition bit_set :: "u8 list \<Rightarrow> nat \<Rightarrow> u8 list option" where
  "bit_set bitmap page = do {
     b \<leftarrow> rd bitmap (page div 8);
     wr bitmap (page div 8) (b OR push_bit (page mod 8) 1) }"

definition bit_clear :: "u8 list \<Rightarrow> nat \<Rightarrow> u8 list option" where
  "bit_clear bitmap page = do {
     b \<leftarrow> rd bitmap (page div 8);
     wr bitmap (page div 8) (b AND NOT (push_bit (page mod 8) 1)) }"

definition bit_write :: "u8 list \<Rightarrow> nat \<Rightarrow> bool \<Rightarrow> u8 list option" where
  "bit_write bitmap page value = (if value then bit_set bitmap page else bit_clear bitmap page)"

definition bit_read :: "u8 list \<Rightarrow> nat \<Rightarrow> bool option" where
  "bit_read bitmap page = do {
     b \<leftarrow> rd bitmap (page div 8);
     Some (drop_bit (page mod 8) b AND 1 \<noteq> 0) }"

text \<open>The abstract view: bit \<open>i\<close> of the array is bit \<open>i mod 8\<close> of byte \<open>i div 8\<close>.\<close>

definition bits_of :: "u8 list \<Rightarrow> bool list" where
  "bits_of bitmap = map (\<lambda>i. bit (bitmap ! (i div 8)) (i mod 8)) [0..<8 * length bitmap]"

lemma length_bits_of [simp]: "length (bits_of bm) = 8 * length bm"
  by (simp add: bits_of_def)

lemma nth_bits_of: "i < 8 * length bm \<Longrightarrow> bits_of bm ! i = bit (bm ! (i div 8)) (i mod 8)"
  by (simp add: bits_of_def)

lemma div8_less_iff: "i div 8 < n \<longleftrightarrow> i < 8 * (n::nat)"
  by auto

lemma bit_read_eq: "bit_read bm i = rd (bits_of bm) i"
  by (simp add: bit_read_def rd_def div8_less_iff nth_bits_of and_one_eq odd_iff_mod_2_eq_one[symmetric]
      bit_iff_odd_drop_bit)

lemma bit_set_byte: "j < 8 \<Longrightarrow> bit ((b :: u8) OR push_bit k 1) j \<longleftrightarrow> j = k \<or> bit b j"
  by (auto simp: bit_simps)

lemma bit_clear_byte: "j < 8 \<Longrightarrow> bit ((b :: u8) AND NOT (push_bit k 1)) j \<longleftrightarrow> j \<noteq> k \<and> bit b j"
  by (auto simp: bit_simps)

lemma bits_of_update_byte:
  assumes "i < 8 * length bm"
    and "\<And>j. j < 8 \<Longrightarrow> bit w j \<longleftrightarrow> (if j = i mod 8 then v else bit (bm ! (i div 8)) j)"
  shows "bits_of (bm[i div 8 := w]) = (bits_of bm)[i := v]"
proof (rule nth_equalityI)
  fix j assume "j < length (bits_of (bm[i div 8 := w]))"
  then have j: "j < 8 * length bm" by simp
  have "j div 8 = i div 8 \<Longrightarrow> j mod 8 = i mod 8 \<Longrightarrow> j = i" by (metis div_mult_mod_eq)
  with j assms show "bits_of (bm[i div 8 := w]) ! j = (bits_of bm)[i := v] ! j"
    by (auto simp: nth_bits_of nth_list_update div8_less_iff)
qed simp

lemma bit_write_refines: "map_option bits_of (bit_write bm i v) = wr (bits_of bm) i v"
proof (cases "i < 8 * length bm")
  case True
  have "bits_of (bm[i div 8 := bm ! (i div 8) OR push_bit (i mod 8) 1]) = (bits_of bm)[i := True]"
    and "bits_of (bm[i div 8 := bm ! (i div 8) AND NOT (push_bit (i mod 8) 1)]) = (bits_of bm)[i := False]"
    by (rule bits_of_update_byte[OF True]; simp only: bit_set_byte bit_clear_byte; simp)+
  with True show ?thesis
    by (cases v) (simp_all add: bit_write_def bit_set_def bit_clear_def div8_less_iff)
next
  case False
  then show ?thesis by (simp add: bit_write_def bit_set_def bit_clear_def div8_less_iff rd_def)
qed

lemma bit_write_Some: "bit_write bm i v = Some bm' \<Longrightarrow> length bm' = length bm"
  by (auto simp: bit_write_def bit_set_def bit_clear_def wr_def split: Option.bind_splits if_splits)

interpretation bits: array_store bit_read bit_write "\<lambda>bm. 8 * length bm"
proof unfold_locales
  fix bm :: "u8 list" and i v
  assume i: "i < 8 * length bm"
  with bit_write_refines[of bm i v] obtain bm' where
    w: "bit_write bm i v = Some bm'" and b: "bits_of bm' = (bits_of bm)[i := v]" by auto
  have "bit_read bm' j = (if j = i then Some v else bit_read bm j)" for j
    using i by (auto simp: bit_read_eq b rd_def nth_list_update)
  with w show "\<exists>m'. bit_write bm i v = Some m' \<and> 8 * length m' = 8 * length bm \<and>
      (\<forall>j. bit_read m' j = (if j = i then Some v else bit_read bm j))"
    by (auto dest: bit_write_Some)
next
  fix bm :: "u8 list" and i v
  assume "8 * length bm \<le> i"
  then show "bit_write bm i v = None" using bit_write_refines[of bm i v] by simp
qed (auto simp: bit_read_eq rd_def)

text \<open>The bits determine the bytes.\<close>

lemma bits_of_inject:
  assumes "length xs = length ys" and "\<And>i. bit_read xs i = bit_read ys i"
  shows "xs = ys"
proof (rule nth_equalityI[OF assms(1)])
  fix i assume i: "i < length xs"
  show "xs ! i = ys ! i"
  proof (rule bit_word_eqI)
    fix j assume "j < LENGTH(8)"
    then have j: "8 * i + j < 8 * length xs" "(8 * i + j) div 8 = i" "(8 * i + j) mod 8 = j"
      using i by auto
    with assms(1) assms(2)[of "8 * i + j"] show "bit (xs ! i) j = bit (ys ! i) j"
      by (simp add: bit_read_eq nth_bits_of)
  qed
qed

section \<open>struct Bitmap\<close>

record Bitmap =
  bitmap :: "u8 list"
  count :: nat

definition bitmap_clear :: "Bitmap \<Rightarrow> Bitmap option" where
  "bitmap_clear b = do {
     bm \<leftarrow> for_range (\<lambda>i bm. bit_clear bm i) 0 (count b) (bitmap b);
     Some (b\<lparr>bitmap := bm\<rparr>) }"

text \<open>The result is the returned page and the out-parameter \<open>success\<close>.\<close>

definition find_free_range :: "Bitmap \<Rightarrow> nat \<Rightarrow> (nat \<times> bool) option" where
  "find_free_range b rng =
     (case for_until (\<lambda>i (foundFreeCounter, firstFreeOfSeries).
         (case bit_read (bitmap b) i of
            None \<Rightarrow> None
          | Some used \<Rightarrow>
              if \<not> used then
                let firstFreeOfSeries = (if foundFreeCounter = 0 then i else firstFreeOfSeries);
                    foundFreeCounter = foundFreeCounter + 1
                in if foundFreeCounter = rng then Some (Inl firstFreeOfSeries)
                   else Some (Inr (foundFreeCounter, firstFreeOfSeries))
              else Some (Inr (0, firstFreeOfSeries)))) 0 (count b) (0, 0) of
        None \<Rightarrow> None
      | Some (Inl first) \<Rightarrow> Some (first, True)
      | Some (Inr _) \<Rightarrow> Some (0, False))"

definition write_bits_in_range_from :: "Bitmap \<Rightarrow> nat \<Rightarrow> nat \<Rightarrow> bool \<Rightarrow> Bitmap option" where
  "write_bits_in_range_from b rng startBit state = do {
     bm \<leftarrow> for_range (\<lambda>i bm. bit_write bm i state) startBit ((rng + startBit) mod 2 ^ 64) (bitmap b);
     Some (b\<lparr>bitmap := bm\<rparr>) }"

text \<open>Well-formed: the byte array holds all \<open>count\<close> bits. A page is free when its bit is 0.\<close>

definition bitmap_wf :: "Bitmap \<Rightarrow> bool" where
  "bitmap_wf b \<longleftrightarrow> count b \<le> 8 * length (bitmap b)"

definition page_free :: "Bitmap \<Rightarrow> nat \<Rightarrow> bool" where
  "page_free b p \<longleftrightarrow> p < count b \<and> bit_read (bitmap b) p = Some False"

definition page_used :: "Bitmap \<Rightarrow> nat \<Rightarrow> bool" where
  "page_used b p \<longleftrightarrow> p < count b \<and> bit_read (bitmap b) p = Some True"

definition free_run :: "Bitmap \<Rightarrow> nat \<Rightarrow> nat \<Rightarrow> bool" where
  "free_run b s n \<longleftrightarrow> (\<forall>p. s \<le> p \<and> p < s + n \<longrightarrow> page_free b p)"

lemma bit_read_wf: "bitmap_wf b \<Longrightarrow> i < count b \<Longrightarrow> \<exists>v. bit_read (bitmap b) i = Some v"
  using bits.get_in[of i "bitmap b"] by (auto simp: bitmap_wf_def)

lemma page_free_iff_not_used: "bitmap_wf b \<Longrightarrow> i < count b \<Longrightarrow> page_free b i \<longleftrightarrow> \<not> page_used b i"
  using bit_read_wf[of b i] by (auto simp: page_free_def page_used_def)

section \<open>The first free range\<close>

text \<open>
  The scan keeps the length of the free run that ends just before page \<open>i\<close> and
  where it starts; no run of the wanted length ends at or before \<open>i\<close>.
\<close>

definition scan_inv :: "Bitmap \<Rightarrow> nat \<Rightarrow> nat \<Rightarrow> nat \<times> nat \<Rightarrow> bool" where
  "scan_inv b rng i st \<longleftrightarrow> (case st of (found, first) \<Rightarrow>
     found \<le> i \<and> free_run b (i - found) found \<and> (0 < found \<longrightarrow> first = i - found) \<and>
     (found < i \<longrightarrow> page_used b (i - found - 1)) \<and>
     (0 < rng \<longrightarrow> found < rng) \<and>
     (\<forall>s. 0 < rng \<and> s + rng \<le> i \<longrightarrow> \<not> free_run b s rng))"

lemma page_used_not_free: "page_used b p \<Longrightarrow> \<not> page_free b p"
  by (simp add: page_used_def page_free_def)

lemma free_run_Suc: "free_run b s n \<Longrightarrow> page_free b (s + n) \<Longrightarrow> free_run b s (Suc n)"
  by (auto simp: free_run_def less_Suc_eq)

lemma free_run_page: "free_run b s n \<Longrightarrow> s \<le> p \<Longrightarrow> p < s + n \<Longrightarrow> page_free b p"
  by (simp add: free_run_def)

lemma scan_inv_used:
  assumes "scan_inv b rng i (found, first)" and "page_used b i"
  shows "scan_inv b rng (Suc i) (0, first)"
proof -
  have "\<not> free_run b s rng" if "0 < rng" "s + rng \<le> Suc i" for s
  proof (cases "s + rng \<le> i")
    case True
    with assms(1) that show ?thesis by (simp add: scan_inv_def)
  next
    case False
    with that have "s \<le> i" "i < s + rng" by auto
    with page_used_not_free[OF assms(2)] show ?thesis by (auto dest: free_run_page)
  qed
  with assms show ?thesis by (simp add: scan_inv_def free_run_def)
qed

lemma scan_inv_free:
  assumes "scan_inv b rng i (found, first)" and "page_free b i" and "Suc found \<noteq> rng"
  shows "scan_inv b rng (Suc i) (Suc found, if found = 0 then i else first)"
proof -
  have f: "found \<le> i" and run: "free_run b (i - found) found"
    and usd: "found < i \<longrightarrow> page_used b (i - found - 1)"
    using assms(1) by (auto simp: scan_inv_def)
  have "\<not> free_run b s rng" if "0 < rng" "s + rng \<le> Suc i" for s
  proof (cases "s + rng \<le> i")
    case True
    with assms(1) that show ?thesis by (simp add: scan_inv_def)
  next
    case False
    have "found < rng" using assms(1) that by (simp add: scan_inv_def)
    with assms(3) False that have "s \<le> i - found - 1" "i - found - 1 < s + rng" "found < i" by auto
    with usd show ?thesis by (auto dest: free_run_page page_used_not_free)
  qed
  moreover have "free_run b (i - found) (Suc found)"
    by (rule free_run_Suc[OF run]) (use assms(2) f in simp)
  ultimately show ?thesis using assms f usd by (auto simp: scan_inv_def)
qed

lemma scan_inv_hit:
  assumes "scan_inv b rng i (found, first)" and "page_free b i" and "Suc found = rng"
  shows "free_run b (if found = 0 then i else first) rng \<and> 0 < rng \<and>
    (\<forall>s < (if found = 0 then i else first). \<not> free_run b s rng)"
proof -
  have f: "found \<le> i" and run: "free_run b (i - found) found"
    and fst: "(if found = 0 then i else first) = i - found"
    and none: "\<And>s. s + rng \<le> i \<Longrightarrow> \<not> free_run b s rng"
    using assms(1,3) by (auto simp: scan_inv_def)
  have "free_run b (i - found) (Suc found)"
    by (rule free_run_Suc[OF run]) (use assms(2) f in simp)
  moreover have "s + rng \<le> i" if "s < i - found" for s using that assms(3) f by linarith
  ultimately show ?thesis unfolding fst using none assms(3) by auto
qed

lemma find_free_range_cases:
  assumes "bitmap_wf b"
  shows "(\<exists>s. find_free_range b rng = Some (s, True) \<and> free_run b s rng \<and> 0 < rng \<and>
           (\<forall>s' < s. \<not> free_run b s' rng)) \<or>
         (find_free_range b rng = Some (0, False) \<and>
           (0 < rng \<longrightarrow> (\<forall>s. s + rng \<le> count b \<longrightarrow> \<not> free_run b s rng)))"
proof -
  let ?body = "\<lambda>i (found, first).
         (case bit_read (bitmap b) i of
            None \<Rightarrow> None
          | Some used \<Rightarrow>
              if \<not> used then
                let first = (if found = 0 then i else first);
                    found = found + 1
                in if found = rng then Some (Inl first) else Some (Inr (found, first))
              else Some (Inr (0, first)))"
  let ?Q = "\<lambda>s. free_run b s rng \<and> 0 < rng \<and> (\<forall>s' < s. \<not> free_run b s' rng)"
  have step: "(\<exists>st'. ?body i st = Some (Inr st') \<and> scan_inv b rng (Suc i) st') \<or>
      (\<exists>r. ?body i st = Some (Inl r) \<and> ?Q r)"
    if i: "i < 0 + count b" and inv: "scan_inv b rng i st" for i st
  proof -
    obtain found first where st: "st = (found, first)" by (cases st)
    obtain v where v: "bit_read (bitmap b) i = Some v" using bit_read_wf[OF assms, of i] i by auto
    show ?thesis
    proof (cases v)
      case True
      with v i have "page_used b i" by (simp add: page_used_def)
      with inv st v True show ?thesis by (auto intro: scan_inv_used)
    next
      case False
      with v i have fr: "page_free b i" by (simp add: page_free_def)
      show ?thesis
      proof (cases "Suc found = rng")
        case True
        from scan_inv_hit[OF inv[unfolded st] fr True] v False True st show ?thesis
          by (auto simp: Let_def)
      next
        case neq: False
        from scan_inv_free[OF inv[unfolded st] fr neq] v False neq st show ?thesis
          by (auto simp: Let_def)
      qed
    qed
  qed
  have init: "scan_inv b rng 0 (0, 0)" by (auto simp: scan_inv_def free_run_def)
  have "(\<exists>st. for_until ?body 0 (count b) (0, 0) = Some (Inr st) \<and> scan_inv b rng (0 + count b) st) \<or>
    (\<exists>r. for_until ?body 0 (count b) (0, 0) = Some (Inl r) \<and> ?Q r)"
    by (rule for_until_rule[where I = "scan_inv b rng", OF init]) (rule step)
  then consider (none) st where "for_until ?body 0 (count b) (0, 0) = Some (Inr st)"
      "scan_inv b rng (count b) st"
    | (hit) r where "for_until ?body 0 (count b) (0, 0) = Some (Inl r)" "?Q r"
    by auto
  then show ?thesis
  proof cases
    case none
    then show ?thesis by (auto simp: find_free_range_def scan_inv_def)
  next
    case hit
    then show ?thesis by (auto simp: find_free_range_def)
  qed
qed

lemma free_run_bound: "free_run b s n \<Longrightarrow> 0 < n \<Longrightarrow> s + n \<le> count b"
proof -
  assume "free_run b s n" "0 < n"
  then have "page_free b (s + n - 1)" by (auto intro: free_run_page)
  with \<open>0 < n\<close> show "s + n \<le> count b" by (simp add: page_free_def) arith
qed

section \<open>Range writes\<close>

lemma write_bits_range:
  assumes "bitmap_wf b" and "start + rng \<le> count b" and "count b < 2 ^ 64"
  shows "\<exists>b'. write_bits_in_range_from b rng start v = Some b' \<and> count b' = count b \<and> bitmap_wf b' \<and>
    (\<forall>p. bit_read (bitmap b') p = (if start \<le> p \<and> p < start + rng then Some v else bit_read (bitmap b) p))"
proof -
  have m: "(rng + start) mod 2 ^ 64 = rng + start" using assms(2,3) by simp
  have "rng = 0 \<or> 0 + start + rng \<le> 8 * length (bitmap b)"
    using assms(1,2) by (auto simp: bitmap_wf_def)
  from bits.put_range[OF this, of "\<lambda>_. v"] m assms(1) show ?thesis
    by (auto simp: write_bits_in_range_from_def bitmap_wf_def)
qed

lemma bitmap_clear_all:
  assumes "bitmap_wf b"
  shows "\<exists>b'. bitmap_clear b = Some b' \<and> count b' = count b \<and> bitmap_wf b' \<and>
    (\<forall>p < count b. page_free b' p)"
proof -
  have "(\<lambda>i bm. bit_clear bm i) = (\<lambda>i bm. bit_write bm (0 + i) False)"
    by (simp add: bit_write_def fun_eq_iff)
  moreover have "count b = 0 \<or> 0 + 0 + count b \<le> 8 * length (bitmap b)"
    using assms by (simp add: bitmap_wf_def)
  ultimately show ?thesis
    using bits.put_range[of "count b" 0 0 "bitmap b" "\<lambda>_. False"] assms
    by (auto simp: bitmap_clear_def bitmap_wf_def page_free_def)
qed

end
