(* ===== verification/PMM.thy ===== *)
theory PMM
  imports MathLib BitmapLib
begin

text \<open>
  \<^verbatim>\<open>kernel/memory/physical\<close>: the physical memory manager. Its state is the page
  bitmap (one bit per page frame, 1 = used) and the totals read from the boot
  loader's memory map. The memory map itself comes from the Limine boot
  protocol (a parameter: the list of its entries).
\<close>

section \<open>State\<close>

abbreviation PAGE_SIZE :: u64 where "PAGE_SIZE \<equiv> 4096"

definition PMM_MALLOC_FAILED :: u64 where
  "PMM_MALLOC_FAILED = - 1"

text \<open>\<open>entry_usable\<close> is the comparison of the entry's type with \<open>LIMINE_MEMMAP_USABLE\<close>.\<close>

record memmap_entry =
  entry_base :: u64
  entry_length :: u64
  entry_usable :: bool

text \<open>\<open>bitmap_addr\<close> is the pointer \<open>pmm_bitmap.bitmap\<close>; the bytes it points to are in
  \<open>pmm_bitmap\<close>.\<close>

record pmm_state =
  pmm_bitmap :: Bitmap
  bitmap_addr :: u64
  memoryRegionCount :: nat
  totalUsableBytes :: u64
  highestAddress :: u64

definition pmm_initial :: pmm_state where
  "pmm_initial = \<lparr>pmm_bitmap = \<lparr>bitmap = [], count = 0\<rparr>, bitmap_addr = 0,
     memoryRegionCount = 0, totalUsableBytes = 0, highestAddress = 0\<rparr>"

section \<open>Memory regions\<close>

definition get_memory_region_count :: "memmap_entry list \<Rightarrow> pmm_state \<Rightarrow> pmm_state" where
  "get_memory_region_count memmap st = st\<lparr>memoryRegionCount := length memmap\<rparr>"

definition get_memory_regions :: "memmap_entry list \<Rightarrow> pmm_state \<Rightarrow> pmm_state option" where
  "get_memory_regions memmap st =
     for_range (\<lambda>i st. do {
       entry \<leftarrow> rd memmap i;
       Some (if entry_usable entry then
           (let st = st\<lparr>totalUsableBytes := totalUsableBytes st + entry_length entry\<rparr>;
                currAddr = entry_base entry + entry_length entry
            in if highestAddress st < currAddr then st\<lparr>highestAddress := currAddr\<rparr> else st)
         else st) }) 0 (memoryRegionCount st) st"

section \<open>Allocation\<close>

definition pmm_malloc_page_range :: "nat \<Rightarrow> nat \<Rightarrow> pmm_state \<Rightarrow> (bool \<times> pmm_state) option" where
  "pmm_malloc_page_range page pageAmount st = do {
     (_, bm) \<leftarrow> for_range (\<lambda>i (page, bm). do { bm \<leftarrow> bit_write bm page True; Some (Suc page, bm) })
       0 pageAmount (page, bitmap (pmm_bitmap st));
     Some (True, st\<lparr>pmm_bitmap := (pmm_bitmap st)\<lparr>bitmap := bm\<rparr>\<rparr>) }"

definition pmm_malloc :: "u64 \<Rightarrow> pmm_state \<Rightarrow> (u64 \<times> pmm_state) option" where
  "pmm_malloc byteAmount st = do {
     let reqPages = divide_round_up byteAmount PAGE_SIZE;
     (pageRangeBegin, success) \<leftarrow> find_free_range (pmm_bitmap st) (unat reqPages);
     if \<not> success then Some (PMM_MALLOC_FAILED, st)
     else do {
       (ok, st) \<leftarrow> pmm_malloc_page_range pageRangeBegin (unat reqPages) st;
       if \<not> ok then Some (PMM_MALLOC_FAILED, st)
       else Some (of_nat pageRangeBegin * PAGE_SIZE, st) } }"

definition pmm_malloc_page :: "pmm_state \<Rightarrow> (u64 \<times> pmm_state) option" where
  "pmm_malloc_page st = pmm_malloc PAGE_SIZE st"

definition pmm_malloc_pages :: "u64 \<Rightarrow> pmm_state \<Rightarrow> (u64 \<times> pmm_state) option" where
  "pmm_malloc_pages pageAmount st = pmm_malloc (PAGE_SIZE * pageAmount) st"

text \<open>The counters of the free and the used pages.\<close>

definition get_pmm_page_counts :: "pmm_state \<Rightarrow> (nat \<times> nat) option" where
  "get_pmm_page_counts st =
     for_range (\<lambda>i (freePageCounter, usedPageCounter). do {
       used \<leftarrow> bit_read (bitmap (pmm_bitmap st)) i;
       Some (if \<not> used then (Suc freePageCounter, usedPageCounter)
             else (freePageCounter, Suc usedPageCounter)) }) 0 (count (pmm_bitmap st)) (0, 0)"

text \<open>The null pointer is the address 0.\<close>

definition pmm_malloc_addr :: "u64 \<Rightarrow> u64 \<Rightarrow> pmm_state \<Rightarrow> (u64 \<times> pmm_state) option" where
  "pmm_malloc_addr hhdm_offset byteAmount st = do {
     (phys_addr, st) \<leftarrow> pmm_malloc byteAmount st;
     Some (if phys_addr = PMM_MALLOC_FAILED then 0 else phys_addr + hhdm_offset, st) }"

definition pmm_free :: "u64 \<Rightarrow> u64 \<Rightarrow> pmm_state \<Rightarrow> (bool \<times> pmm_state) option" where
  "pmm_free addr byteAmount st = do {
     let reqPages = divide_round_up byteAmount PAGE_SIZE;
     let currPage = unat (addr div PAGE_SIZE);
     (_, bm) \<leftarrow> for_range (\<lambda>i (currPage, bm). do { bm \<leftarrow> bit_write bm currPage False; Some (Suc currPage, bm) })
       0 (unat reqPages) (currPage, bitmap (pmm_bitmap st));
     Some (True, st\<lparr>pmm_bitmap := (pmm_bitmap st)\<lparr>bitmap := bm\<rparr>\<rparr>) }"

section \<open>Placing and filling the bitmap\<close>

definition init_bitmap_data :: "memmap_entry list \<Rightarrow> pmm_state \<Rightarrow> pmm_state option" where
  "init_bitmap_data memmap st =
     for_range (\<lambda>i st. do {
       entry \<leftarrow> rd memmap i;
       if entry_usable entry then map_option snd (pmm_free (entry_base entry) (entry_length entry) st)
       else Some st }) 0 (memoryRegionCount st) st"

text \<open>
  The loop leaves at the first usable region that can hold the bitmap
  (\<open>break\<close>). With no such region \<open>pmm_bitmap.bitmap\<close> stays the null pointer, and
  filling it is a fault unless there is nothing to fill.
\<close>

definition get_free_location_for_bitmap :: "u64 \<Rightarrow> memmap_entry list \<Rightarrow> pmm_state \<Rightarrow> pmm_state option" where
  "get_free_location_for_bitmap hhdm_offset memmap st = do {
     let cnt = unat (highestAddress st div PAGE_SIZE);
     let reqSize = divide_round_up (of_nat cnt) 8;
     found \<leftarrow> for_until (\<lambda>i (_ :: unit). do {
         entry \<leftarrow> rd memmap i;
         Some (if entry_usable entry \<and> reqSize \<le> entry_length entry then Inl (entry_base entry) else Inr ()) })
       0 (memoryRegionCount st) ();
     (bitmapPhysBase, bitmapAddr) \<leftarrow> (case found of
         Inl b \<Rightarrow> Some (b, b + hhdm_offset)
       | Inr _ \<Rightarrow> if reqSize = 0 then Some (0, 0) else None);
     let st = st\<lparr>pmm_bitmap := \<lparr>bitmap = replicate (unat reqSize) 0xFF, count = cnt\<rparr>, bitmap_addr := bitmapAddr\<rparr>;
     st \<leftarrow> init_bitmap_data memmap st;
     let bitmapStartPage = unat (bitmapPhysBase div PAGE_SIZE);
     let bitmapPagesCount = unat (divide_round_up reqSize PAGE_SIZE);
     map_option snd (pmm_malloc_page_range bitmapStartPage bitmapPagesCount st) }"

section \<open>Invariant and abstract view\<close>

definition pmm_ok :: "pmm_state \<Rightarrow> bool" where
  "pmm_ok st \<longleftrightarrow> bitmap_wf (pmm_bitmap st) \<and> count (pmm_bitmap st) < 2 ^ 52"

definition free_pages :: "pmm_state \<Rightarrow> nat set" where
  "free_pages st = {p. page_free (pmm_bitmap st) p}"

lemma free_run_iff_subset: "free_run (pmm_bitmap st) s n \<longleftrightarrow> {s ..< s + n} \<subseteq> free_pages st"
  by (auto simp: free_run_def free_pages_def)

lemma pmm_malloc_page_range_effect:
  assumes ok: "pmm_ok st" and b: "page + n \<le> count (pmm_bitmap st)"
  shows "\<exists>st'. pmm_malloc_page_range page n st = Some (True, st') \<and> pmm_ok st' \<and>
    st' = st\<lparr>pmm_bitmap := pmm_bitmap st'\<rparr> \<and> count (pmm_bitmap st') = count (pmm_bitmap st) \<and>
    length (bitmap (pmm_bitmap st')) = length (bitmap (pmm_bitmap st)) \<and>
    (\<forall>p. bit_read (bitmap (pmm_bitmap st')) p =
      (if page \<le> p \<and> p < page + n then Some True else bit_read (bitmap (pmm_bitmap st)) p))"
proof -
  have "n = 0 \<or> page + n \<le> 8 * length (bitmap (pmm_bitmap st))"
    using ok b by (simp add: pmm_ok_def bitmap_wf_def)
  from bits.put_range_counter[OF this, of True] ok show ?thesis
    by (auto simp: pmm_malloc_page_range_def pmm_ok_def bitmap_wf_def)
qed

lemma pmm_free_effect:
  assumes ok: "pmm_ok st"
    and b: "unat (addr div PAGE_SIZE) + unat (divide_round_up bytes PAGE_SIZE) \<le> count (pmm_bitmap st)"
  shows "\<exists>st'. pmm_free addr bytes st = Some (True, st') \<and> pmm_ok st' \<and>
    st' = st\<lparr>pmm_bitmap := pmm_bitmap st'\<rparr> \<and> count (pmm_bitmap st') = count (pmm_bitmap st) \<and>
    length (bitmap (pmm_bitmap st')) = length (bitmap (pmm_bitmap st)) \<and>
    (\<forall>p. bit_read (bitmap (pmm_bitmap st')) p =
      (if unat (addr div PAGE_SIZE) \<le> p \<and> p < unat (addr div PAGE_SIZE) + unat (divide_round_up bytes PAGE_SIZE)
       then Some False else bit_read (bitmap (pmm_bitmap st)) p))"
proof -
  let ?n = "unat (divide_round_up bytes PAGE_SIZE)" and ?k = "unat (addr div PAGE_SIZE)"
  have "?n = 0 \<or> ?k + ?n \<le> 8 * length (bitmap (pmm_bitmap st))"
    using ok b by (simp add: pmm_ok_def bitmap_wf_def)
  from bits.put_range_counter[OF this, of False] ok show ?thesis
    by (auto simp: pmm_free_def pmm_ok_def bitmap_wf_def)
qed

lemma page_addr_unat: "s < 2 ^ 52 \<Longrightarrow> unat (of_nat s * PAGE_SIZE) = s * 4096"
  by (subst unat_mult_small) (simp_all add: unat_of_nat_small)

lemma page_addr_page: "s < 2 ^ 52 \<Longrightarrow> unat (of_nat s * PAGE_SIZE div PAGE_SIZE) = s"
  by (simp add: unat_div_distrib page_addr_unat)

lemma page_addr_inject: "s < 2 ^ 52 \<Longrightarrow> t < 2 ^ 52 \<Longrightarrow> of_nat s * PAGE_SIZE = of_nat t * PAGE_SIZE \<Longrightarrow> s = t"
  by (metis page_addr_page)

lemma page_addr_not_failed: "s < 2 ^ 52 \<Longrightarrow> of_nat s * PAGE_SIZE \<noteq> PMM_MALLOC_FAILED"
proof
  assume s: "s < 2 ^ 52" "of_nat s * PAGE_SIZE = PMM_MALLOC_FAILED"
  have "unat (of_nat s * PAGE_SIZE) mod 4096 = 0" by (simp only: page_addr_unat[OF s(1)] mod_mult_self2_is_0)
  moreover have "unat PMM_MALLOC_FAILED mod 4096 = 4095"
    by (simp only: PMM_MALLOC_FAILED_def unsigned_minus_1_eq_mask mask_eq_exp_minus_1) simp
  ultimately show False using s(2) by simp
qed

lemma free_pages_bound: "pmm_ok st \<Longrightarrow> p \<in> free_pages st \<Longrightarrow> p < 2 ^ 52"
  by (auto simp: pmm_ok_def free_pages_def page_free_def)

abbreviation pages_for :: "u64 \<Rightarrow> nat" where
  "pages_for bytes \<equiv> unat (divide_round_up bytes PAGE_SIZE)"

text \<open>Both outcomes of \<open>pmm_malloc\<close>: the lowest free run, or the failure code on an unchanged state.\<close>

lemma pmm_malloc_cases:
  assumes ok: "pmm_ok st"
  obtains (success) s st' where "pmm_malloc bytes st = Some (of_nat s * PAGE_SIZE, st')" "0 < pages_for bytes"
      "{s ..< s + pages_for bytes} \<subseteq> free_pages st" "s + pages_for bytes \<le> count (pmm_bitmap st)"
      "\<forall>s' < s. \<not> {s' ..< s' + pages_for bytes} \<subseteq> free_pages st"
      "pmm_malloc_page_range s (pages_for bytes) st = Some (True, st')"
    | (failure) "pmm_malloc bytes st = Some (PMM_MALLOC_FAILED, st)"
      "0 < pages_for bytes \<longrightarrow> (\<forall>s. \<not> {s ..< s + pages_for bytes} \<subseteq> free_pages st)"
proof -
  have wf: "bitmap_wf (pmm_bitmap st)" using ok by (simp add: pmm_ok_def)
  from find_free_range_cases[OF wf, of "pages_for bytes"] show thesis
  proof (elim disjE exE conjE)
    fix s assume s: "find_free_range (pmm_bitmap st) (pages_for bytes) = Some (s, True)"
      "free_run (pmm_bitmap st) s (pages_for bytes)" "0 < pages_for bytes"
      "\<forall>s' < s. \<not> free_run (pmm_bitmap st) s' (pages_for bytes)"
    have b: "s + pages_for bytes \<le> count (pmm_bitmap st)" by (rule free_run_bound[OF s(2,3)])
    obtain st' where "pmm_malloc_page_range s (pages_for bytes) st = Some (True, st')"
      using pmm_malloc_page_range_effect[OF ok b] by auto
    with s b show thesis
      by (intro success[of s st']) (simp_all add: pmm_malloc_def free_run_iff_subset)
  next
    assume f: "find_free_range (pmm_bitmap st) (pages_for bytes) = Some (0, False)"
      "0 < pages_for bytes \<longrightarrow>
        (\<forall>s. s + pages_for bytes \<le> count (pmm_bitmap st) \<longrightarrow> \<not> free_run (pmm_bitmap st) s (pages_for bytes))"
    then show thesis
      using free_run_bound[of "pmm_bitmap st"]
      by (intro failure) (auto simp: pmm_malloc_def free_run_iff_subset[symmetric])
  qed
qed

lemma free_pages_after_write:
  assumes "count (pmm_bitmap st') = count (pmm_bitmap st)"
    and "\<forall>p. bit_read (bitmap (pmm_bitmap st')) p =
      (if a \<le> p \<and> p < b then Some v else bit_read (bitmap (pmm_bitmap st)) p)"
    and "b \<le> count (pmm_bitmap st)"
  shows "free_pages st' = (if v then free_pages st - {a ..< b} else free_pages st \<union> {a ..< b})"
  using assms by (auto simp: free_pages_def page_free_def)

lemma pmm_malloc_range_free_pages:
  assumes "pmm_ok st" and "page + n \<le> count (pmm_bitmap st)"
    and "pmm_malloc_page_range page n st = Some (r, st')"
  shows "pmm_ok st' \<and> free_pages st' = free_pages st - {page ..< page + n} \<and>
    count (pmm_bitmap st') = count (pmm_bitmap st)"
proof -
  obtain st1 where st1: "pmm_malloc_page_range page n st = Some (True, st1)" "pmm_ok st1"
    "count (pmm_bitmap st1) = count (pmm_bitmap st)"
    "\<forall>p. bit_read (bitmap (pmm_bitmap st1)) p =
      (if page \<le> p \<and> p < page + n then Some True else bit_read (bitmap (pmm_bitmap st)) p)"
    using pmm_malloc_page_range_effect[OF assms(1,2)] by blast
  with free_pages_after_write[OF st1(3,4) assms(2)] assms(3) show ?thesis by auto
qed

section \<open>The contract towards the clients\<close>

text \<open>
  What paging, the virtual memory manager and the AHCI driver rely on when they
  take single page frames: an allocation hands out a frame that was free and
  is not free afterwards, or reports failure when there is none. \<open>alloc_many\<close> is
  a run of allocations with the addresses it returned.
\<close>

fun alloc_many :: "('s \<Rightarrow> (u64 \<times> 's) option) \<Rightarrow> nat \<Rightarrow> 's \<Rightarrow> (u64 list \<times> 's) option" where
  "alloc_many alloc 0 s = Some ([], s)"
| "alloc_many alloc (Suc n) s = do {
     (a, s) \<leftarrow> alloc s;
     (as, s) \<leftarrow> alloc_many alloc n s;
     Some (a # as, s) }"

locale page_allocator =
  fixes alloc :: "'s \<Rightarrow> (u64 \<times> 's) option"
    and avail :: "'s \<Rightarrow> nat set"
    and ok :: "'s \<Rightarrow> bool"
    and failed :: u64
  assumes alloc_page: "ok s \<Longrightarrow> avail s \<noteq> {} \<Longrightarrow>
      \<exists>p s'. alloc s = Some (of_nat p * PAGE_SIZE, s') \<and> p \<in> avail s \<and> ok s' \<and> avail s' = avail s - {p}"
    and alloc_fail: "ok s \<Longrightarrow> avail s = {} \<Longrightarrow> alloc s = Some (failed, s)"
    and avail_bound: "ok s \<Longrightarrow> p \<in> avail s \<Longrightarrow> p < 2 ^ 52"
    and failed_not_page: "p < 2 ^ 52 \<Longrightarrow> of_nat p * PAGE_SIZE \<noteq> failed"
begin

lemma alloc_total:
  assumes "ok s"
  obtains (page) p s' where "alloc s = Some (of_nat p * PAGE_SIZE, s')" "p \<in> avail s" "p < 2 ^ 52"
      "of_nat p * PAGE_SIZE \<noteq> failed" "ok s'" "avail s' = avail s - {p}"
    | (none) "alloc s = Some (failed, s)" "avail s = {}"
proof (cases "avail s = {}")
  case True
  show thesis by (rule none) (rule alloc_fail[OF assms True], rule True)
next
  case False
  from alloc_page[OF assms False] obtain p s' where
    p: "alloc s = Some (of_nat p * PAGE_SIZE, s')" "p \<in> avail s" "ok s'" "avail s' = avail s - {p}"
    by blast
  have b: "p < 2 ^ 52" by (rule avail_bound[OF assms p(2)])
  show thesis by (rule page[OF p(1,2) b failed_not_page[OF b] p(3,4)])
qed

lemma alloc_many_distinct:
  assumes "ok s" and "card (avail s) \<ge> n" and "finite (avail s)"
  shows "\<exists>ps s'. alloc_many alloc n s = Some (map (\<lambda>p. of_nat p * PAGE_SIZE) ps, s') \<and> length ps = n \<and>
    distinct ps \<and> set ps \<subseteq> avail s \<and> ok s' \<and> avail s' = avail s - set ps"
  using assms
proof (induction n arbitrary: s)
  case (Suc n)
  have ne: "avail s \<noteq> {}" using Suc.prems(2) by fastforce
  from Suc.prems(1) show ?case
  proof (cases rule: alloc_total)
    case none
    with ne show ?thesis by simp
  next
    case (page p s1)
    have c: "card (avail s1) \<ge> n" and f: "finite (avail s1)" using Suc.prems(2,3) page(2,6) by simp_all
    from Suc.IH[OF page(5) c f] obtain ps s2 where
      IH: "alloc_many alloc n s1 = Some (map (\<lambda>p. of_nat p * PAGE_SIZE) ps, s2)" "length ps = n"
      "distinct ps" "set ps \<subseteq> avail s1" "ok s2" "avail s2 = avail s1 - set ps" by blast
    have sub: "p \<notin> set ps" "set ps \<subseteq> avail s" and av: "avail s2 = avail s - set (p # ps)"
      using IH(4,6) unfolding page(6) by auto
    have "alloc_many alloc (Suc n) s = Some (map (\<lambda>p. of_nat p * PAGE_SIZE) (p # ps), s2)"
      by (simp add: page(1) IH(1))
    moreover have "length (p # ps) = Suc n" "distinct (p # ps)" "set (p # ps) \<subseteq> avail s"
      using IH(2,3) sub page(2) by simp_all
    ultimately have "alloc_many alloc (Suc n) s =
        Some (map (\<lambda>p. of_nat p * PAGE_SIZE) (p # ps), s2) \<and> length (p # ps) = Suc n \<and>
        distinct (p # ps) \<and> set (p # ps) \<subseteq> avail s \<and> ok s2 \<and> avail s2 = avail s - set (p # ps)"
      using IH(5) av by blast
    then show ?thesis by blast
  qed
qed simp

end

lemma pages_for_page: "pages_for PAGE_SIZE = 1"
  by (simp add: divide_round_up_def)

interpretation pmm: page_allocator pmm_malloc_page free_pages pmm_ok PMM_MALLOC_FAILED
proof unfold_locales
  fix st assume ok: "pmm_ok st" and ne: "free_pages st \<noteq> {}"
  then obtain q where q: "{q ..< q + 1} \<subseteq> free_pages st" by auto
  from ok show "\<exists>p st'. pmm_malloc_page st = Some (of_nat p * PAGE_SIZE, st') \<and> p \<in> free_pages st \<and>
      pmm_ok st' \<and> free_pages st' = free_pages st - {p}"
  proof (cases rule: pmm_malloc_cases[where bytes = PAGE_SIZE])
    case (success s st')
    then show ?thesis
      using pmm_malloc_range_free_pages[OF ok success(4,6)]
      by (auto simp: pmm_malloc_page_def pages_for_page)
  next
    case failure
    then have "\<not> {q ..< q + 1} \<subseteq> free_pages st" unfolding pages_for_page by simp
    with q show ?thesis by contradiction
  qed
next
  fix st assume ok: "pmm_ok st" and e: "free_pages st = {}"
  from ok show "pmm_malloc_page st = Some (PMM_MALLOC_FAILED, st)"
    by (cases rule: pmm_malloc_cases[where bytes = PAGE_SIZE])
      (use e in \<open>auto simp: pmm_malloc_page_def pages_for_page\<close>)
next
  fix st p assume "pmm_ok st" "p \<in> free_pages st"
  then show "p < 2 ^ 52" by (rule free_pages_bound)
next
  fix p :: nat assume "p < 2 ^ 52"
  then show "of_nat p * PAGE_SIZE \<noteq> PMM_MALLOC_FAILED" by (rule page_addr_not_failed)
qed

lemma finite_free_pages [simp]: "finite (free_pages st)"
  by (rule finite_subset[of _ "{..< count (pmm_bitmap st)}"]) (auto simp: free_pages_def page_free_def)

section \<open>Initialisation from the memory map\<close>

text \<open>The first part of \<open>memory_init\<close>: count the regions, read them, place the bitmap.\<close>


definition memory_init_pmm :: "u64 \<Rightarrow> memmap_entry list \<Rightarrow> pmm_state option" where
  "memory_init_pmm hhdm_offset memmap = do {
     let st = get_memory_region_count memmap pmm_initial;
     st \<leftarrow> get_memory_regions memmap st;
     get_free_location_for_bitmap hhdm_offset memmap st }"

text \<open>
  The guarantees the Limine protocol gives for usable entries: base and length
  are multiples of the page size and the entry does not wrap around.
\<close>

definition memmap_ok :: "memmap_entry list \<Rightarrow> bool" where
  "memmap_ok memmap \<longleftrightarrow> (\<forall>e \<in> set memmap. entry_usable e \<longrightarrow>
     unat (entry_base e) mod 4096 = 0 \<and> unat (entry_length e) mod 4096 = 0 \<and>
     unat (entry_base e) + unat (entry_length e) < 2 ^ 64)"

definition entry_end :: "memmap_entry \<Rightarrow> nat" where
  "entry_end e = unat (entry_base e) + unat (entry_length e)"

definition entry_pages :: "memmap_entry \<Rightarrow> nat set" where
  "entry_pages e = (if entry_usable e
     then {unat (entry_base e) div 4096 ..< entry_end e div 4096} else {})"

definition usable_pages :: "memmap_entry list \<Rightarrow> nat set" where
  "usable_pages memmap = (\<Union>e \<in> set memmap. entry_pages e)"

definition top_address :: "memmap_entry list \<Rightarrow> nat" where
  "top_address memmap = fold (\<lambda>e m. if entry_usable e then max m (entry_end e) else m) memmap 0"

lemma top_address_snoc:
  "top_address (es @ [e]) = (if entry_usable e then max (top_address es) (entry_end e) else top_address es)"
  by (simp add: top_address_def)

lemma unat_entry_end:
  "memmap_ok memmap \<Longrightarrow> e \<in> set memmap \<Longrightarrow> entry_usable e \<Longrightarrow>
    unat (entry_base e + entry_length e) = entry_end e"
  unfolding entry_end_def by (rule unat_add_small) (auto simp: memmap_ok_def)

lemma get_memory_regions_highest:
  assumes "memmap_ok memmap" and "memoryRegionCount st = length memmap" and "highestAddress st = 0"
  shows "\<exists>st'. get_memory_regions memmap st = Some st' \<and> memoryRegionCount st' = length memmap \<and>
    unat (highestAddress st') = top_address memmap"
proof -
  let ?body = "\<lambda>i st. do {
       entry \<leftarrow> rd memmap i;
       Some (if entry_usable entry then
           (let st = st\<lparr>totalUsableBytes := totalUsableBytes st + entry_length entry\<rparr>;
                currAddr = entry_base entry + entry_length entry
            in if highestAddress st < currAddr then st\<lparr>highestAddress := currAddr\<rparr> else st)
         else st) }"
  let ?I = "\<lambda>i st. memoryRegionCount st = length memmap \<and>
    unat (highestAddress st) = top_address (take i memmap)"
  have "\<exists>st'. for_loop ?body 0 (length memmap) st = Some st' \<and> ?I (0 + length memmap) st'"
  proof (rule for_loop_rule[where I = ?I])
    show "?I 0 st" using assms by (simp add: top_address_def)
  next
    fix i st assume i: "i < 0 + length memmap" and I: "?I i st"
    let ?e = "memmap ! i"
    have tk: "take (Suc i) memmap = take i memmap @ [?e]" using i by (simp add: take_Suc_conv_app_nth)
    have ue: "entry_usable ?e \<Longrightarrow> unat (entry_base ?e + entry_length ?e) = entry_end ?e"
      using unat_entry_end[OF assms(1), of ?e] i by simp
    show "\<exists>s'. ?body i st = Some s' \<and> ?I (Suc i) s'"
      using i I ue by (auto simp: tk top_address_snoc word_less_nat_alt Let_def)
  qed
  then show ?thesis using assms(2) by (auto simp: get_memory_regions_def)
qed

lemma top_address_ge: "e \<in> set memmap \<Longrightarrow> entry_usable e \<Longrightarrow> entry_end e \<le> top_address memmap"
  by (induction memmap rule: rev_induct) (auto simp: top_address_snoc)

lemma entry_free_range:
  assumes "memmap_ok memmap" and "e \<in> set memmap" and "entry_usable e"
  shows "unat (entry_base e div PAGE_SIZE) = unat (entry_base e) div 4096"
    and "unat (entry_base e div PAGE_SIZE) + pages_for (entry_length e) = entry_end e div 4096"
proof -
  from assms obtain b l where b: "unat (entry_base e) = 4096 * b" and l: "unat (entry_length e) = 4096 * l"
    and s: "4096 * b + 4096 * l < 2 ^ 64" by (auto simp: memmap_ok_def elim!: dvdE dest!: mod_0_imp_dvd)
  show bd: "unat (entry_base e div PAGE_SIZE) = unat (entry_base e) div 4096"
    by (simp add: unat_div_distrib)
  have "unat (entry_length e) + unat PAGE_SIZE \<le> 2 ^ 64" using l s by simp
  then have "pages_for (entry_length e) = (4096 * l + 4095) div 4096"
    by (subst unat_divide_round_up) (simp_all add: l)
  also have "\<dots> = l" by simp
  finally show "unat (entry_base e div PAGE_SIZE) + pages_for (entry_length e) = entry_end e div 4096"
    unfolding bd by (simp add: b l entry_end_def)
qed

lemma init_bitmap_data_free:
  assumes "memmap_ok memmap" and "memoryRegionCount st = length memmap" and "pmm_ok st"
    and "count (pmm_bitmap st) = top_address memmap div 4096"
  shows "\<exists>st'. init_bitmap_data memmap st = Some st' \<and> pmm_ok st' \<and>
    free_pages st' = free_pages st \<union> usable_pages memmap \<and>
    count (pmm_bitmap st') = count (pmm_bitmap st) \<and> bitmap_addr st' = bitmap_addr st"
proof -
  let ?body = "\<lambda>i st. do {
       entry \<leftarrow> rd memmap i;
       if entry_usable entry then map_option snd (pmm_free (entry_base entry) (entry_length entry) st)
       else Some st }"
  let ?I = "\<lambda>i st'. pmm_ok st' \<and> free_pages st' = free_pages st \<union> usable_pages (take i memmap) \<and>
    count (pmm_bitmap st') = count (pmm_bitmap st) \<and> bitmap_addr st' = bitmap_addr st"
  have "\<exists>st'. for_loop ?body 0 (length memmap) st = Some st' \<and> ?I (0 + length memmap) st'"
  proof (rule for_loop_rule[where I = ?I])
    show "?I 0 st" using assms by (simp add: usable_pages_def)
  next
    fix i s assume i: "i < 0 + length memmap" and I: "?I i s"
    let ?e = "memmap ! i"
    have e: "?e \<in> set memmap" using i by simp
    have tk: "usable_pages (take (Suc i) memmap) = usable_pages (take i memmap) \<union> entry_pages ?e"
      using i by (simp add: take_Suc_conv_app_nth usable_pages_def Un_commute)
    show "\<exists>s'. ?body i s = Some s' \<and> ?I (Suc i) s'"
    proof (cases "entry_usable ?e")
      case False
      with i I tk show ?thesis by (simp add: entry_pages_def)
    next
      case True
      have r: "unat (entry_base ?e div PAGE_SIZE) + pages_for (entry_length ?e) = entry_end ?e div 4096"
        by (rule entry_free_range(2)[OF assms(1) e True])
      have b: "entry_end ?e div 4096 \<le> count (pmm_bitmap s)"
        using top_address_ge[OF e True] I assms(4) by (simp add: div_le_mono)
      from pmm_free_effect[of s "entry_base ?e" "entry_length ?e"] I b obtain s' where
        s': "pmm_free (entry_base ?e) (entry_length ?e) s = Some (True, s')" "pmm_ok s'"
        "s' = s\<lparr>pmm_bitmap := pmm_bitmap s'\<rparr>" "count (pmm_bitmap s') = count (pmm_bitmap s)"
        "\<forall>p. bit_read (bitmap (pmm_bitmap s')) p =
          (if unat (entry_base ?e div PAGE_SIZE) \<le> p \<and> p < entry_end ?e div 4096
           then Some False else bit_read (bitmap (pmm_bitmap s)) p)"
        unfolding r by blast
      have "free_pages s' = free_pages s \<union> entry_pages ?e"
        using free_pages_after_write[OF s'(4,5) b] True entry_free_range(1)[OF assms(1) e True]
        by (simp add: entry_pages_def)
      moreover have "bitmap_addr s' = bitmap_addr s" by (subst s'(3)) simp
      ultimately show ?thesis using i I s' True tk by (auto simp: Un_assoc)
    qed
  qed
  then show ?thesis using assms(2) by (simp add: init_bitmap_data_def)
qed

definition bitmap_bytes :: "memmap_entry list \<Rightarrow> nat" where
  "bitmap_bytes memmap = (top_address memmap div 4096 + 7) div 8"

definition bitmap_frames :: "memmap_entry list \<Rightarrow> memmap_entry \<Rightarrow> nat set" where
  "bitmap_frames memmap e = {unat (entry_base e) div 4096 ..<
     unat (entry_base e) div 4096 + (bitmap_bytes memmap + 4095) div 4096}"

text \<open>The placement loop stops at the first usable entry that has room.\<close>

lemma find_bitmap_region:
  assumes "e \<in> set memmap" and "entry_usable e" and "req \<le> entry_length e"
  shows "\<exists>b \<in> set memmap. entry_usable b \<and> req \<le> entry_length b \<and>
    for_until (\<lambda>i (_ :: unit). do {
         entry \<leftarrow> rd memmap i;
         Some (if entry_usable entry \<and> req \<le> entry_length entry then Inl (entry_base entry) else Inr ()) })
       0 (length memmap) () = Some (Inl (entry_base b))"
proof -
  let ?body = "\<lambda>i (_ :: unit). do {
         entry \<leftarrow> rd memmap i;
         Some (if entry_usable entry \<and> req \<le> entry_length entry then Inl (entry_base entry) else Inr ()) }"
  let ?P = "\<lambda>b. entry_usable b \<and> req \<le> entry_length b"
  let ?I = "\<lambda>i (_ :: unit). \<forall>k < i. \<not> ?P (memmap ! k)"
  have "(\<exists>s. for_until ?body 0 (length memmap) () = Some (Inr s) \<and> ?I (0 + length memmap) s) \<or>
    (\<exists>r. for_until ?body 0 (length memmap) () = Some (Inl r) \<and> (\<exists>b \<in> set memmap. ?P b \<and> r = entry_base b))"
    by (rule for_until_rule[where I = ?I]) (auto simp: less_Suc_eq)
  moreover obtain k where "k < length memmap" "memmap ! k = e" using assms(1) by (auto simp: in_set_conv_nth)
  ultimately show ?thesis using assms(2,3) by fastforce
qed

lemma no_free_page_filled: "free_pages (st\<lparr>pmm_bitmap := \<lparr>bitmap = replicate n 0xFF, count = c\<rparr>, bitmap_addr := a\<rparr>) = {}"
proof -
  have "bit_read (replicate n 0xFF) p \<noteq> Some False" for p
  proof (cases "p < 8 * n")
    case True
    have "bit (0xFF :: u8) (p mod 8)"
    proof -
      have "(0xFF :: u8) = - 1" by simp
      then show ?thesis by (simp only: bit_minus_1_iff) simp
    qed
    with True show ?thesis by (simp add: bit_read_eq nth_bits_of div8_less_iff)
  qed (simp add: bit_read_eq)
  then show ?thesis by (simp add: free_pages_def page_free_def)
qed

end
