(* ===== verification/Paging.thy ===== *)
theory Paging
  imports PMM
begin

text \<open>
  \<^verbatim>\<open>kernel/memory/virtual/paging/paging.cpp\<close>: the four-level page tables of
  x86-64. Physical memory that holds tables is seen as a map from the physical
  address of an 8-byte slot to its \<open>PageTableEntry\<close> (the code reaches it through
  the boot loader's direct map, \<open>+ hhdm_offset\<close>); \<open>cr3\<close> is the register that
  holds the root table and \<open>invalidated\<close> lists the operands of the \<open>invlpg\<close>
  instructions executed, latest first.
\<close>

section \<open>Entries and flags\<close>

definition PAGE_FLAG_WRITE :: u8 where "PAGE_FLAG_WRITE = 0b00000010"
definition PAGE_FLAG_CACHE_DISABLE :: u8 where "PAGE_FLAG_CACHE_DISABLE = 0b00010000"
definition PAGE_FLAG_WRITE_NO_CACHE :: u8 where "PAGE_FLAG_WRITE_NO_CACHE = 0b00010010"

record PageTableEntry =
  Present :: bool
  ReadWrite :: bool
  UserSupervisor :: bool
  WriteThrough :: bool
  CacheDisabled :: bool
  Accessed :: bool
  Dirty :: bool
  PageSizeOrPAT :: bool
  Global :: bool
  Available :: "3 word"
  Address :: "40 word"
  Reserved :: "11 word"
  NoExecute :: bool

definition empty_entry :: PageTableEntry where
  "empty_entry = \<lparr>Present = False, ReadWrite = False, UserSupervisor = False, WriteThrough = False,
     CacheDisabled = False, Accessed = False, Dirty = False, PageSizeOrPAT = False, Global = False,
     Available = 0, Address = 0, Reserved = 0, NoExecute = False\<rparr>"

type_synonym table_mem = "u64 \<Rightarrow> PageTableEntry"

record paging_state =
  pt_mem :: table_mem
  cr3 :: u64
  invalidated :: "u64 list"
  frames :: pmm_state

section \<open>The indices of a virtual address\<close>

definition get_PML4_Index :: "u64 \<Rightarrow> u16" where
  "get_PML4_Index address = ucast (drop_bit (12 + 9 * 3) address AND 0x1FF)"

definition get_PDPT_Index :: "u64 \<Rightarrow> u16" where
  "get_PDPT_Index address = ucast (drop_bit (12 + 9 * 2) address AND 0x1FF)"

definition get_PD_Index :: "u64 \<Rightarrow> u16" where
  "get_PD_Index address = ucast (drop_bit (12 + 9) address AND 0x1FF)"

definition get_PT_Index :: "u64 \<Rightarrow> u16" where
  "get_PT_Index address = ucast (drop_bit 12 address AND 0x1FF)"

section \<open>Operations\<close>

text \<open>\<open>&table->entries[i]\<close>.\<close>

definition slot :: "u64 \<Rightarrow> u16 \<Rightarrow> u64" where
  "slot table i = table + 8 * ucast i"

definition drop_page_from_TLC :: "u64 \<Rightarrow> paging_state \<Rightarrow> paging_state" where
  "drop_page_from_TLC pageVirtualAddr st = st\<lparr>invalidated := pageVirtualAddr # invalidated st\<rparr>"

definition handle_read_write_flag :: "u8 \<Rightarrow> PageTableEntry \<Rightarrow> PageTableEntry" where
  "handle_read_write_flag flags e =
     (if flags AND PAGE_FLAG_WRITE \<noteq> 0 then e\<lparr>ReadWrite := True\<rparr> else e\<lparr>ReadWrite := False\<rparr>)"

definition handle_cache_disable_flag :: "u8 \<Rightarrow> PageTableEntry \<Rightarrow> PageTableEntry" where
  "handle_cache_disable_flag flags e =
     (if flags AND PAGE_FLAG_CACHE_DISABLE \<noteq> 0 then e\<lparr>CacheDisabled := True\<rparr> else e\<lparr>CacheDisabled := False\<rparr>)"

text \<open>\<open>memory_clear\<close> of the frame at \<open>base\<close>, on the slots.\<close>

definition clear_table :: "u64 \<Rightarrow> table_mem \<Rightarrow> table_mem" where
  "clear_table base m = (\<lambda>a. if a - base < PAGE_SIZE then empty_entry else m a)"

definition get_or_create_next_table :: "u64 \<Rightarrow> u16 \<Rightarrow> paging_state \<Rightarrow> (u64 \<times> paging_state) option" where
  "get_or_create_next_table prevTableAddr Idx st =
     (if Present (pt_mem st (slot prevTableAddr Idx))
      then Some (push_bit 12 (ucast (Address (pt_mem st (slot prevTableAddr Idx)))), st)
      else do {
        (currRouterTableAddress, fr) \<leftarrow> pmm_malloc_page (frames st);
        let st = st\<lparr>frames := fr\<rparr>;
        if currRouterTableAddress = PMM_MALLOC_FAILED then Some (0, st)
        else do {
          let m = clear_table currRouterTableAddress (pt_mem st);
          let s = slot prevTableAddr Idx;
          let m = m(s := (m s)\<lparr>Present := True\<rparr>);
          let m = m(s := (m s)\<lparr>ReadWrite := True\<rparr>);
          let m = m(s := (m s)\<lparr>Address := ucast (drop_bit 12 currRouterTableAddress)\<rparr>);
          Some (currRouterTableAddress, st\<lparr>pt_mem := m\<rparr>) } })"

text \<open>The pointer to the lowest entry, \<open>None\<close> for the null pointer.\<close>

definition page_walk :: "u64 \<Rightarrow> paging_state \<Rightarrow> (u64 option \<times> paging_state) option" where
  "page_walk virtualAddress st = do {
     let virtPML4Idx = get_PML4_Index virtualAddress;
     let virtPDPTIdx = get_PDPT_Index virtualAddress;
     let virtPDIdx = get_PD_Index virtualAddress;
     let virtPTIdx = get_PT_Index virtualAddress;
     (pageTable1, st) \<leftarrow> get_or_create_next_table (cr3 st) virtPML4Idx st;
     if pageTable1 = 0 then Some (None, st) else do {
       (pageTable2, st) \<leftarrow> get_or_create_next_table pageTable1 virtPDPTIdx st;
       if pageTable2 = 0 then Some (None, st) else do {
         (pageTable3, st) \<leftarrow> get_or_create_next_table pageTable2 virtPDIdx st;
         if pageTable3 = 0 then Some (None, st)
         else Some (Some (slot pageTable3 virtPTIdx), st) } } }"

definition map_page :: "u64 \<Rightarrow> u64 \<Rightarrow> u8 \<Rightarrow> paging_state \<Rightarrow> (bool \<times> paging_state) option" where
  "map_page virtualAddress physicalAddress flags st = do {
     (pt3_PTI, st) \<leftarrow> page_walk virtualAddress st;
     Some (case pt3_PTI of
         None \<Rightarrow> (False, st)
       | Some a \<Rightarrow>
           (let e = (pt_mem st a)\<lparr>Present := True\<rparr>;
                e = handle_read_write_flag flags e;
                e = handle_cache_disable_flag flags e;
                e = e\<lparr>Address := ucast (drop_bit 12 physicalAddress)\<rparr>
            in (True, drop_page_from_TLC virtualAddress (st\<lparr>pt_mem := (pt_mem st)(a := e)\<rparr>)))) }"

definition map_pages :: "u64 \<Rightarrow> u64 \<Rightarrow> u8 \<Rightarrow> u64 \<Rightarrow> paging_state \<Rightarrow> (bool \<times> paging_state) option" where
  "map_pages virtualAddress physicalAddress flags requiredSize st =
     for_range (\<lambda>i (success, st). do {
         let addressOffset = of_nat i * PAGE_SIZE;
         (ok, st) \<leftarrow> map_page (virtualAddress + addressOffset) (physicalAddress + addressOffset) flags st;
         Some (if \<not> ok then False else success, st) })
       0 (unat (divide_round_up requiredSize PAGE_SIZE)) (True, st)"

definition free_page :: "u64 \<Rightarrow> paging_state \<Rightarrow> (bool \<times> paging_state) option" where
  "free_page virtualAddress st = do {
     (pt3_PTI, st) \<leftarrow> page_walk virtualAddress st;
     Some (case pt3_PTI of
         None \<Rightarrow> (False, st)
       | Some a \<Rightarrow> (True, drop_page_from_TLC virtualAddress (st\<lparr>pt_mem := (pt_mem st)(a := empty_entry)\<rparr>))) }"

definition free_pages_range :: "u64 \<Rightarrow> u64 \<Rightarrow> paging_state \<Rightarrow> (bool \<times> paging_state) option" where
  "free_pages_range virtualAddress requiredSize st =
     for_range (\<lambda>i (success, st). do {
         (ok, st) \<leftarrow> free_page (virtualAddress + of_nat i * PAGE_SIZE) st;
         Some (if \<not> ok then False else success, st) })
       0 (unat (divide_round_up requiredSize PAGE_SIZE)) (True, st)"

section \<open>What the processor sees\<close>

text \<open>The hardware's walk through the directories, without creating tables, and the
  translation of an address: the present leaf entry.\<close>

definition next_table :: "PageTableEntry \<Rightarrow> u64" where
  "next_table e = push_bit 12 (ucast (Address e))"

fun walk :: "table_mem \<Rightarrow> u64 \<Rightarrow> u16 list \<Rightarrow> u64 option" where
  "walk m t [] = Some t"
| "walk m t (i # is) = (if Present (m (slot t i)) then walk m (next_table (m (slot t i))) is else None)"

definition dir_path :: "u64 \<Rightarrow> u16 list" where
  "dir_path va = [get_PML4_Index va, get_PDPT_Index va, get_PD_Index va]"

definition translate :: "paging_state \<Rightarrow> u64 \<Rightarrow> PageTableEntry option" where
  "translate st va = do {
     t \<leftarrow> walk (pt_mem st) (cr3 st) (dir_path va);
     let e = pt_mem st (slot t (get_PT_Index va));
     if Present e then Some e else None }"

text \<open>The page number of an address, of its 48 translated bits.\<close>

definition vpage :: "u64 \<Rightarrow> u64" where
  "vpage va = take_bit 36 (drop_bit 12 va)"

section \<open>The invariant\<close>

text \<open>The tables form a tree: two paths never lead to the same frame; tables are whole
  frames that the physical memory manager does not consider free. Free frames have a number
  that fits the 40-bit address field, and frame 0 is never free (the code takes address 0 for a
  failed allocation).\<close>

definition table_path :: "u16 list \<Rightarrow> bool" where
  "table_path is \<longleftrightarrow> length is \<le> 3 \<and> (\<forall>i \<in> set is. i < 512)"

definition frame_addr :: "nat \<Rightarrow> u64" where
  "frame_addr k = of_nat k * PAGE_SIZE"

definition tree_ok :: "table_mem \<Rightarrow> u64 \<Rightarrow> nat set \<Rightarrow> bool" where
  "tree_ok m root free \<longleftrightarrow>
     (\<forall>p t. table_path p \<longrightarrow> walk m root p = Some t \<longrightarrow>
        (\<exists>k. t = frame_addr k \<and> 0 < k \<and> k < 2 ^ 52 \<and> k \<notin> free)) \<and>
     (\<forall>p q t. table_path p \<longrightarrow> table_path q \<longrightarrow> walk m root p = Some t \<longrightarrow> walk m root q = Some t \<longrightarrow> p = q)"

text \<open>\<open>X\<close> are the frames handed out as data pages: they are neither free nor tables.\<close>

definition paging_ok :: "nat set \<Rightarrow> paging_state \<Rightarrow> bool" where
  "paging_ok X st \<longleftrightarrow> pmm_ok (frames st) \<and> (\<forall>k \<in> free_pages (frames st). 0 < k \<and> k < 2 ^ 40) \<and>
     X \<inter> free_pages (frames st) = {} \<and> tree_ok (pt_mem st) (cr3 st) (free_pages (frames st) \<union> X)"

section \<open>Slots and indices\<close>

lemma mask9: "(0x1FF :: u64) = mask 9"
  by (simp add: mask_eq_exp_minus_1)

lemma index_bits: "bit (ucast (drop_bit k (va :: u64) AND 0x1FF) :: u16) n \<longleftrightarrow> n < 9 \<and> bit va (k + n)"
  unfolding mask9 by (auto simp: bit_simps)

lemma bits_less_512:
  assumes "\<And>n. bit (w :: u16) n \<Longrightarrow> n < 9"
  shows "w < 512"
proof -
  have "w = take_bit 9 w" by (rule bit_word_eqI) (use assms in \<open>auto simp: bit_take_bit_iff\<close>)
  then have "unat w = take_bit 9 (unat w)" by (metis unsigned_take_bit_eq)
  then have "unat w < 2 ^ 9" using take_bit_nat_less_exp[of 9 "unat w"] by simp
  then show ?thesis by (simp add: word_less_nat_alt)
qed

lemma index_small: "(ucast (drop_bit k (va :: u64) AND 0x1FF) :: u16) < 512"
  by (rule bits_less_512) (simp add: index_bits)

lemmas index_defs = get_PML4_Index_def get_PDPT_Index_def get_PD_Index_def get_PT_Index_def

lemma index_less: "get_PML4_Index va < 512" "get_PDPT_Index va < 512" "get_PD_Index va < 512" "get_PT_Index va < 512"
  unfolding index_defs by (rule index_small)+

text \<open>The four indices are exactly the page number.\<close>

lemma indices_inject:
  assumes "dir_path va = dir_path va'" and "get_PT_Index va = get_PT_Index va'"
  shows "vpage va = vpage va'"
proof (rule bit_word_eqI)
  have eq: "bit va (k + n) = bit va' (k + n)"
    if "(ucast (drop_bit k va AND 0x1FF) :: u16) = ucast (drop_bit k va' AND 0x1FF)" "n < 9" for k n
    using arg_cong[OF that(1), of "\<lambda>w. bit w n"] that(2) unfolding index_bits by simp
  fix n :: nat assume "n < LENGTH(64)"
  have "bit va (12 + n) = bit va' (12 + n)" if n: "n < 36"
  proof -
    consider "n < 9" | "9 \<le> n" "n < 18" | "18 \<le> n" "n < 27" | "27 \<le> n" using n by linarith
    then show ?thesis
    proof cases
      case 1 with eq[of 12 n] assms(2) show ?thesis by (simp add: get_PT_Index_def)
    next
      case 2 with eq[of "12 + 9" "n - 9"] assms(1) show ?thesis by (simp add: dir_path_def get_PD_Index_def)
    next
      case 3 with eq[of "12 + 9 * 2" "n - 18"] assms(1) show ?thesis by (simp add: dir_path_def get_PDPT_Index_def)
    next
      case 4 with n eq[of "12 + 9 * 3" "n - 27"] assms(1) show ?thesis by (simp add: dir_path_def get_PML4_Index_def)
    qed
  qed
  then show "bit (vpage va) n = bit (vpage va') n" by (auto simp: vpage_def bit_simps)
qed

lemma indices_cong:
  assumes "vpage va = vpage va'"
  shows "dir_path va = dir_path va'" and "get_PT_Index va = get_PT_Index va'"
proof -
  have b: "bit va (12 + n) = bit va' (12 + n)" if "n < 36" for n
    using arg_cong[OF assms, of "\<lambda>w. bit w n"] that by (auto simp: vpage_def bit_simps)
  have e: "(ucast (drop_bit (12 + k) va AND 0x1FF) :: u16) = ucast (drop_bit (12 + k) va' AND 0x1FF)" if "k \<le> 27" for k
  proof (rule bit_word_eqI)
    fix n :: nat assume "n < LENGTH(16)"
    show "bit (ucast (drop_bit (12 + k) va AND 0x1FF) :: u16) n = bit (ucast (drop_bit (12 + k) va' AND 0x1FF) :: u16) n"
      unfolding index_bits using b[of "k + n"] that by (auto simp: add.assoc)
  qed
  show "dir_path va = dir_path va'" "get_PT_Index va = get_PT_Index va'"
    using e[of 0] e[of 9] e[of "9 * 2"] e[of "9 * 3"] by (simp_all add: dir_path_def index_defs)
qed

lemma dir_path_ok: "table_path (dir_path va)"
  by (simp add: table_path_def dir_path_def index_less)

lemma unat_frame_addr: "k < 2 ^ 52 \<Longrightarrow> unat (frame_addr k) = k * 4096"
  unfolding frame_addr_def by (rule page_addr_unat)

lemma unat_slot: "k < 2 ^ 52 \<Longrightarrow> i < 512 \<Longrightarrow> unat (slot (frame_addr k) i) = k * 4096 + 8 * unat i"
proof -
  assume k: "k < 2 ^ 52" and i: "i < 512"
  have ui: "unat i < 512" using i by (simp add: word_less_nat_alt)
  have u8: "unat (8 * ucast i :: u64) = 8 * unat i"
    using ui by (subst unat_mult_small) (simp_all add: unsigned_ucast_eq take_bit_nat_eq_self)
  have "k * 4096 + 8 * unat i < 2 ^ 64" using k ui by simp
  then show ?thesis unfolding slot_def
    using unat_add_small[of "frame_addr k" "8 * ucast i"] by (simp add: unat_frame_addr[OF k] u8)
qed

lemma low_high_unique:
  assumes "(u :: nat) < 4096" "v < 4096" "k * 4096 + u = l * 4096 + v"
  shows "k = l \<and> u = v"
proof -
  have "k = (k * 4096 + u) div 4096" "u = (k * 4096 + u) mod 4096" using assms(1) by simp_all
  then show ?thesis using assms(2,3) by simp
qed

lemma slot_inject:
  assumes "k < 2 ^ 52" "k' < 2 ^ 52" "i < 512" "i' < 512" "slot (frame_addr k) i = slot (frame_addr k') i'"
  shows "k = k' \<and> i = i'"
proof -
  have ui: "unat i < 512" "unat i' < 512" using assms(3,4) by (simp_all add: word_less_nat_alt)
  have "k * 4096 + 8 * unat i = k' * 4096 + 8 * unat i'"
    using arg_cong[OF assms(5), of unat] assms(1-4) by (simp only: unat_slot)
  from low_high_unique[OF _ _ this] ui have "k = k'" "unat i = unat i'" by simp_all
  then show ?thesis by (simp add: word_unat_eq_iff)
qed

lemma slot_in_frame:
  assumes "k < 2 ^ 52" "k' < 2 ^ 52" "i < 512"
  shows "slot (frame_addr k) i - frame_addr k' < PAGE_SIZE \<longleftrightarrow> k = k'"
proof
  have ui: "unat i < 512" using assms(3) by (simp add: word_less_nat_alt)
  show "slot (frame_addr k) i - frame_addr k' < PAGE_SIZE" if "k = k'"
  proof -
    have "slot (frame_addr k) i - frame_addr k' = 8 * ucast i" using that by (simp add: slot_def)
    moreover have "unat (8 * ucast i :: u64) = 8 * unat i"
      using ui by (subst unat_mult_small) (simp_all add: unsigned_ucast_eq take_bit_nat_eq_self)
    ultimately show ?thesis using ui by (simp add: word_less_nat_alt)
  qed
  assume l: "slot (frame_addr k) i - frame_addr k' < PAGE_SIZE"
  define d where "d = slot (frame_addr k) i - frame_addr k'"
  have d: "unat d < 4096" using l by (simp add: d_def word_less_nat_alt)
  have "slot (frame_addr k) i = frame_addr k' + d" by (simp add: d_def)
  moreover have "unat (frame_addr k' + d) = k' * 4096 + unat d"
  proof -
    have "k' * 4096 + unat d < 2 ^ 64" using assms(2) d by simp
    then show ?thesis using unat_add_small[of "frame_addr k'" d] by (simp add: unat_frame_addr[OF assms(2)])
  qed
  ultimately have "k * 4096 + 8 * unat i = k' * 4096 + unat d" using unat_slot[OF assms(1,3)] by metis
  from low_high_unique[OF _ d this] ui show "k = k'" by simp
qed

text \<open>The address field holds the frame number.\<close>

lemma next_table_frame:
  assumes "k < 2 ^ 40"
  shows "push_bit 12 (ucast (ucast (drop_bit 12 (frame_addr k)) :: 40 word)) = frame_addr k"
proof -
  have k52: "k < 2 ^ 52" and k64: "k < 2 ^ 64" using assms by simp_all
  note tb = take_bit_nat_eq_self[OF assms] take_bit_nat_eq_self[OF k64]
  have "unat (drop_bit 12 (frame_addr k)) = k"
    using page_addr_page[OF k52] unfolding frame_addr_def drop_bit_eq_div by simp
  moreover have "unat (of_nat k :: u64) = k" using assms by (simp add: unat_of_nat_small)
  ultimately have "drop_bit 12 (frame_addr k) = of_nat k" by (metis word_unat_eq_iff)
  then have d: "ucast (drop_bit 12 (frame_addr k)) = (of_nat k :: 40 word)"
    by (simp add: word_unat_eq_iff unsigned_ucast_eq unsigned_of_nat tb)
  have "ucast (of_nat k :: 40 word) = (of_nat k :: u64)"
    by (rule word_unat_eq_iff[THEN iffD2]) (simp add: unsigned_ucast_eq unsigned_of_nat tb)
  then show ?thesis unfolding d by (simp add: frame_addr_def push_bit_eq_mult mult.commute)
qed

end
