(* ===== verification/PagingTree.thy ===== *)
theory PagingTree
  imports Paging
begin

text \<open>
  The page tables as a tree: creating a table and writing a leaf keep the
  invariant, change the translation only where they should, and never touch a
  table that is not on the path.
\<close>

section \<open>Walks\<close>

lemma walk_append: "walk m t (p @ q) = Option.bind (walk m t p) (\<lambda>u. walk m u q)"
  by (induction m t p rule: walk.induct) auto

lemma walk_cong:
  assumes "\<And>p i r u. q = p @ i # r \<Longrightarrow> walk m t p = Some u \<Longrightarrow> m' (slot u i) = m (slot u i)"
  shows "walk m' t q = walk m t q"
  using assms
proof (induction q arbitrary: t)
  case (Cons i q)
  have s: "m' (slot t i) = m (slot t i)" using Cons.prems[of "[]" i q t] by simp
  show ?case
  proof (cases "Present (m (slot t i))")
    case True
    have "walk m' (next_table (m (slot t i))) q = walk m (next_table (m (slot t i))) q"
    proof (rule Cons.IH)
      fix p j r u assume "q = p @ j # r" "walk m (next_table (m (slot t i))) p = Some u"
      with True show "m' (slot u j) = m (slot u j)" by (intro Cons.prems[of "i # p" j r u]) auto
    qed
    with True s show ?thesis by simp
  qed (simp add: s)
qed simp

lemma table_path_append: "table_path (p @ i # r) \<Longrightarrow> table_path p \<and> i < 512 \<and> length p \<le> 2"
  by (auto simp: table_path_def)

lemma tree_frame:
  assumes "tree_ok m root free" "table_path p" "walk m root p = Some t"
  obtains k where "t = frame_addr k" "0 < k" "k < 2 ^ 52" "k \<notin> free"
  using assms unfolding tree_ok_def by blast

lemma tree_inject:
  "tree_ok m root free \<Longrightarrow> table_path p \<Longrightarrow> table_path q \<Longrightarrow> walk m root p = Some t \<Longrightarrow> walk m root q = Some t \<Longrightarrow> p = q"
  unfolding tree_ok_def by blast

text \<open>Slots of different tables, or different slots of one table, are different addresses.\<close>

lemma tree_slot_inject:
  assumes ok: "tree_ok m root free" and p: "table_path p" "walk m root p = Some t" "i < 512"
    and q: "table_path q" "walk m root q = Some u" "j < 512" and e: "slot u j = slot t i"
  shows "q = p \<and> j = i"
proof -
  obtain k where k: "t = frame_addr k" "k < 2 ^ 52" using tree_frame[OF ok p(1,2)] by metis
  obtain l where l: "u = frame_addr l" "l < 2 ^ 52" using tree_frame[OF ok q(1,2)] by metis
  from slot_inject[OF l(2) k(2) q(3) p(3)] e have "l = k" "j = i" unfolding k(1) l(1) by blast+
  with tree_inject[OF ok q(1) p(1) q(2)] p(2) k l show ?thesis by simp
qed

lemma tree_mono: "tree_ok m root free \<Longrightarrow> free' \<subseteq> free \<Longrightarrow> tree_ok m root free'"
  unfolding tree_ok_def by (meson subsetD)

section \<open>Writing a leaf\<close>

lemma leaf_walk:
  assumes ok: "tree_ok m root free" and p: "table_path p" "length p = 3" "walk m root p = Some t" "i < 512"
    and q: "table_path q"
  shows "walk (m(slot t i := e)) root q = walk m root q"
proof (rule walk_cong)
  fix q1 j r u assume d: "q = q1 @ j # r" "walk m root q1 = Some u"
  have q1: "table_path q1" "j < 512" "length q1 \<le> 2" using table_path_append q unfolding d(1) by blast+
  have "slot u j \<noteq> slot t i" using tree_slot_inject[OF ok p(1,3,4) q1(1) d(2) q1(2)] p(2) q1(3) by auto
  then show "(m(slot t i := e)) (slot u j) = m (slot u j)" by simp
qed

lemma leaf_tree_ok:
  assumes "tree_ok m root free" "table_path p" "length p = 3" "walk m root p = Some t" "i < 512"
  shows "tree_ok (m(slot t i := e)) root free"
  unfolding tree_ok_def
proof (intro conjI allI impI)
  fix q u assume q: "table_path q" "walk (m(slot t i := e)) root q = Some u"
  from q(2) have w: "walk m root q = Some u" unfolding leaf_walk[OF assms q(1)] .
  show "\<exists>k. u = frame_addr k \<and> 0 < k \<and> k < 2 ^ 52 \<and> k \<notin> free"
    using tree_frame[OF assms(1) q(1) w] by metis
next
  fix q r u assume q: "table_path q" "table_path r" and "walk (m(slot t i := e)) root q = Some u"
    "walk (m(slot t i := e)) root r = Some u"
  then have "walk m root q = Some u" "walk m root r = Some u" by (simp_all only: leaf_walk[OF assms])
  then show "q = r" by (rule tree_inject[OF assms(1) q])
qed

section \<open>Creating a table\<close>

definition grown :: "table_mem \<Rightarrow> u64 \<Rightarrow> u16 \<Rightarrow> u64 \<Rightarrow> table_mem" where
  "grown m t i new = (let s = slot t i; m = clear_table new m in
     m(s := (m s)\<lparr>Present := True, ReadWrite := True, Address := ucast (drop_bit 12 new)\<rparr>))"

lemma grown_other: "a \<noteq> slot t i \<Longrightarrow> \<not> a - new < PAGE_SIZE \<Longrightarrow> grown m t i new a = m a"
  by (simp add: grown_def Let_def clear_table_def)

lemma grown_new: "a \<noteq> slot t i \<Longrightarrow> a - new < PAGE_SIZE \<Longrightarrow> grown m t i new a = empty_entry"
  by (simp add: grown_def Let_def clear_table_def)

lemma grown_entry: "k < 2 ^ 40 \<Longrightarrow> Present (grown m t i (frame_addr k) (slot t i)) \<and>
    next_table (grown m t i (frame_addr k) (slot t i)) = frame_addr k"
  by (simp add: grown_def Let_def next_table_def next_table_frame)

text \<open>A new table below \<open>p\<close> at index \<open>i\<close>, in the frame \<open>k\<close> that was free.\<close>

definition can_grow :: "table_mem \<Rightarrow> u64 \<Rightarrow> nat set \<Rightarrow> u16 list \<Rightarrow> u64 \<Rightarrow> u16 \<Rightarrow> nat \<Rightarrow> bool" where
  "can_grow m root free p t i k \<longleftrightarrow> tree_ok m root free \<and> table_path p \<and> length p \<le> 2 \<and>
     walk m root p = Some t \<and> i < 512 \<and> \<not> Present (m (slot t i)) \<and> k \<in> free \<and> 0 < k \<and> k < 2 ^ 40"

lemma can_growD:
  assumes "can_grow m root free p t i k"
  shows "tree_ok m root free" "table_path p" "length p \<le> 2" "walk m root p = Some t" "i < 512"
    "\<not> Present (m (slot t i))" "k \<in> free" "0 < k" "k < 2 ^ 40" "k < 2 ^ 52"
  using assms by (simp_all add: can_grow_def)

lemma can_grow_parent:
  assumes "can_grow m root free p t i k"
  obtains l where "t = frame_addr l" "l < 2 ^ 52" "l \<noteq> k"
proof -
  note g = can_growD[OF assms]
  obtain l where "t = frame_addr l" "l < 2 ^ 52" "l \<notin> free" using tree_frame[OF g(1,2,4)] by metis
  with g(7) show thesis by (intro that) auto
qed

lemma old_slot:
  assumes "can_grow m root free p t i k" and "table_path q" "walk m root q = Some u" "j < 512"
  shows "grown m t i (frame_addr k) (slot u j) = m (slot u j) \<or> q = p \<and> j = i"
proof (cases "slot u j = slot t i")
  case True
  with tree_slot_inject[OF can_growD(1,2,4,5)[OF assms(1)] assms(2-4)] show ?thesis by blast
next
  case False
  note g = can_growD[OF assms(1)]
  obtain l where l: "u = frame_addr l" "l < 2 ^ 52" "l \<notin> free" using tree_frame[OF g(1) assms(2,3)] by metis
  have "\<not> slot u j - frame_addr k < PAGE_SIZE"
    using slot_in_frame[OF l(2) g(10) assms(4)] l(1,3) g(7) by auto
  with False show ?thesis by (simp add: grown_other)
qed

lemma walk_old:
  assumes "can_grow m root free p t i k" and "table_path q" "\<nexists>r. q = p @ i # r"
  shows "walk (grown m t i (frame_addr k)) root q = walk m root q"
proof (rule walk_cong)
  fix q1 j r u assume d: "q = q1 @ j # r" "walk m root q1 = Some u"
  have q1: "table_path q1" "j < 512" using table_path_append assms(2) unfolding d(1) by blast+
  from old_slot[OF assms(1) q1(1) d(2) q1(2)] assms(3) d(1)
  show "grown m t i (frame_addr k) (slot u j) = m (slot u j)" by auto
qed

lemma walk_absent: "can_grow m root free p t i k \<Longrightarrow> walk m root (p @ i # r) = None"
  by (simp add: walk_append can_growD)

lemma new_slot:
  assumes "can_grow m root free p t i k" and j: "j < 512"
  shows "grown m t i (frame_addr k) (slot (frame_addr k) j) = empty_entry"
proof -
  note g = can_growD[OF assms(1)]
  obtain l where l: "t = frame_addr l" "l < 2 ^ 52" "l \<noteq> k" using can_grow_parent[OF assms(1)] .
  have "slot (frame_addr k) j \<noteq> slot t i"
    using slot_inject[OF g(10) l(2) j g(5)] l(1,3) by auto
  moreover have "slot (frame_addr k) j - frame_addr k < PAGE_SIZE"
    using slot_in_frame[OF g(10,10) j] by simp
  ultimately show ?thesis by (rule grown_new)
qed

lemma walk_new:
  assumes "can_grow m root free p t i k" and "table_path (p @ i # r)"
  shows "walk (grown m t i (frame_addr k)) root (p @ i # r) = (if r = [] then Some (frame_addr k) else None)"
proof -
  note g = can_growD[OF assms(1)]
  have "walk (grown m t i (frame_addr k)) root p = Some t" using walk_old[OF assms(1) g(2)] g(4) by simp
  then have w: "walk (grown m t i (frame_addr k)) root (p @ i # r) = walk (grown m t i (frame_addr k)) (frame_addr k) r"
    using grown_entry[OF g(9)] by (simp add: walk_append)
  show ?thesis
  proof (cases r)
    case Nil
    then show ?thesis unfolding w by simp
  next
    case (Cons j r')
    with assms(2) have "j < 512" by (simp add: table_path_def)
    with Cons w new_slot[OF assms(1)] show ?thesis by (simp add: empty_entry_def)
  qed
qed

text \<open>Every path of the new tree is an old one or the new one.\<close>

lemma walk_grown_cases:
  assumes "can_grow m root free p t i k" and "table_path q" "walk (grown m t i (frame_addr k)) root q = Some u"
  shows "walk m root q = Some u \<and> (\<nexists>r. q = p @ i # r) \<or> q = p @ [i] \<and> u = frame_addr k"
proof (cases "\<exists>r. q = p @ i # r")
  case True
  then obtain r where r: "q = p @ i # r" by blast
  from assms(3) have "r = [] \<and> u = frame_addr k"
    unfolding r walk_new[OF assms(1) assms(2)[unfolded r]] by (auto split: if_splits)
  with r show ?thesis by simp
next
  case False
  from assms(3) have "walk m root q = Some u" unfolding walk_old[OF assms(1,2) False] .
  with False show ?thesis by simp
qed

lemma not_old_table:
  assumes "can_grow m root free p t i k" and "table_path q" "walk m root q = Some u"
  shows "u \<noteq> frame_addr k"
proof
  note g = can_growD[OF assms(1)]
  assume e: "u = frame_addr k"
  obtain l where l: "u = frame_addr l" "l < 2 ^ 52" "l \<notin> free" using tree_frame[OF g(1) assms(2,3)] by metis
  have "k = l" using e l(1) page_addr_inject[OF g(10) l(2)] unfolding frame_addr_def by metis
  with l(3) g(7) show False by simp
qed

lemma grown_tree_ok:
  assumes grow: "can_grow m root free p t i k"
  shows "tree_ok (grown m t i (frame_addr k)) root (free - {k})"
  unfolding tree_ok_def
proof (intro conjI allI impI)
  fix q u assume "table_path q" "walk (grown m t i (frame_addr k)) root q = Some u"
  with walk_grown_cases[OF grow] consider "table_path q" "walk m root q = Some u" | "u = frame_addr k" by blast
  then show "\<exists>l. u = frame_addr l \<and> 0 < l \<and> l < 2 ^ 52 \<and> l \<notin> free - {k}"
  proof cases
    case 1
    obtain l where "u = frame_addr l" "0 < l" "l < 2 ^ 52" "l \<notin> free"
      using tree_frame[OF can_growD(1)[OF grow] 1] by metis
    then show ?thesis by blast
  next
    case 2
    with can_growD(8,10)[OF grow] show ?thesis by blast
  qed
next
  fix q r u assume q: "table_path q" "table_path r"
    and w: "walk (grown m t i (frame_addr k)) root q = Some u" "walk (grown m t i (frame_addr k)) root r = Some u"
  from walk_grown_cases[OF grow q(1) w(1)] walk_grown_cases[OF grow q(2) w(2)] show "q = r"
    using tree_inject[OF can_growD(1)[OF grow] q] not_old_table[OF grow] q by blast
qed

text \<open>The new table is empty, so no address gets or loses a translation.\<close>

lemma grown_translate:
  assumes grow: "can_grow m root free p t i k" and q: "table_path q" "length q = 3" "j < 512"
  shows "Option.bind (walk (grown m t i (frame_addr k)) root q) (\<lambda>u.
      if Present (grown m t i (frame_addr k) (slot u j)) then Some (grown m t i (frame_addr k) (slot u j)) else None)
    = Option.bind (walk m root q) (\<lambda>u. if Present (m (slot u j)) then Some (m (slot u j)) else None)"
proof (cases "\<exists>r. q = p @ i # r")
  case True
  then obtain r where r: "q = p @ i # r" by blast
  have "\<not> Present (grown m t i (frame_addr k) (slot (frame_addr k) j))"
    unfolding new_slot[OF grow q(3)] by (simp add: empty_entry_def)
  then show ?thesis unfolding r walk_new[OF grow q(1)[unfolded r]] walk_absent[OF grow] by simp
next
  case False
  show ?thesis
  proof (cases "walk m root q")
    case (Some u)
    have "q \<noteq> p" using q(2) can_growD(3)[OF grow] by auto
    with old_slot[OF grow q(1) Some q(3)] have "grown m t i (frame_addr k) (slot u j) = m (slot u j)" by blast
    then show ?thesis using walk_old[OF grow q(1) False] by (simp add: Some)
  qed (simp add: walk_old[OF grow q(1) False])
qed

end
