(* ===== verification/PagingSpec.thy ===== *)
theory PagingSpec
  imports PagingTree
begin

text \<open>
  The contracts of \<open>page_walk\<close>, \<open>map_page\<close> and \<open>free_page\<close> over the tree: what they
  do to the translation of the page they are called for, and that they do nothing
  to any other.
\<close>

abbreviation free_count :: "paging_state \<Rightarrow> nat" where
  "free_count st \<equiv> card (free_pages (frames st))"

section \<open>Steps that do not change a translation\<close>

lemma pmm_malloc_page_count:
  assumes "pmm_ok st" "pmm_malloc_page st = Some (a, st')"
  shows "count (pmm_bitmap st') = count (pmm_bitmap st)"
  using assms(1)
proof (cases rule: pmm_malloc_cases[where bytes = PAGE_SIZE])
  case (success s st1)
  with assms(2) have "st1 = st'" by (simp add: pmm_malloc_page_def)
  with pmm_malloc_range_free_pages[OF assms(1) success(4,6)] show ?thesis by simp
next
  case failure
  with assms(2) show ?thesis by (simp add: pmm_malloc_page_def)
qed

definition same_view :: "nat set \<Rightarrow> paging_state \<Rightarrow> paging_state \<Rightarrow> bool" where
  "same_view X st st' \<longleftrightarrow> paging_ok X st' \<and> cr3 st' = cr3 st \<and> invalidated st' = invalidated st \<and>
     (\<forall>va. translate st' va = translate st va) \<and>
     free_pages (frames st') \<subseteq> free_pages (frames st) \<and>
     count (pmm_bitmap (frames st')) = count (pmm_bitmap (frames st))"

lemma same_view_refl: "paging_ok X st \<Longrightarrow> same_view X st st"
  by (simp add: same_view_def)

lemma same_view_trans: "same_view X st st' \<Longrightarrow> same_view X st' st'' \<Longrightarrow> same_view X st st''"
  unfolding same_view_def by (simp, blast)

lemma same_view_ok: "same_view X st st' \<Longrightarrow> paging_ok X st'"
  by (simp add: same_view_def)

section \<open>The walk that creates tables\<close>

lemma frame_addr_nonzero: "0 < k \<Longrightarrow> k < 2 ^ 52 \<Longrightarrow> frame_addr k \<noteq> 0"
  using unat_frame_addr[of k] by auto

text \<open>The table a present entry names, or a fresh one; address 0 only when there is no free frame.\<close>

lemma get_or_create_next_table_spec:
  assumes ok: "paging_ok X st" and p: "table_path p" "length p \<le> 2" "walk (pt_mem st) (cr3 st) p = Some t"
    and i: "i < 512"
  obtains (table) a st' where "get_or_create_next_table t i st = Some (a, st')" "a \<noteq> 0"
      "same_view X st st'" "walk (pt_mem st') (cr3 st') (p @ [i]) = Some a"
      "free_count st \<le> free_count st' + 1"
    | (none) st' where "get_or_create_next_table t i st = Some (0, st')" "same_view X st st'"
      "free_pages (frames st') = {}" "free_count st = 0"
proof (cases "Present (pt_mem st (slot t i))")
  case True
  have w: "walk (pt_mem st) (cr3 st) (p @ [i]) = Some (next_table (pt_mem st (slot t i)))"
    using p(3) True by (simp add: walk_append)
  have tp: "table_path (p @ [i])" using p(1,2) i by (auto simp: table_path_def)
  have tree: "tree_ok (pt_mem st) (cr3 st) (free_pages (frames st) \<union> X)" using ok by (simp add: paging_ok_def)
  obtain k where k: "next_table (pt_mem st (slot t i)) = frame_addr k" "0 < k" "k < 2 ^ 52"
    using tree_frame[OF tree tp w] by metis
  have "frame_addr k \<noteq> 0" by (rule frame_addr_nonzero[OF k(2,3)])
  with True k(1) w same_view_refl[OF ok] show thesis
    by (intro table[of "frame_addr k" st]) (simp_all add: get_or_create_next_table_def next_table_def)
next
  case absent: False
  have pok: "pmm_ok (frames st)" and fr: "\<And>k. k \<in> free_pages (frames st) \<Longrightarrow> 0 < k \<and> k < 2 ^ 40"
    and dis: "X \<inter> free_pages (frames st) = {}"
    and tree: "tree_ok (pt_mem st) (cr3 st) (free_pages (frames st) \<union> X)"
    using ok by (simp_all add: paging_ok_def)
  from pok show thesis
  proof (cases rule: pmm.alloc_total)
    case pg: (page k fr')
    have grow: "can_grow (pt_mem st) (cr3 st) (free_pages (frames st) \<union> X) p t i k"
      using tree p i absent pg(2) fr[OF pg(2)] by (simp add: can_grow_def)
    define st' where "st' = st\<lparr>frames := fr', pt_mem := grown (pt_mem st) t i (frame_addr k)\<rparr>"
    have "get_or_create_next_table t i st = Some (frame_addr k, st')"
      using absent pg(1,4) by (simp add: get_or_create_next_table_def frame_addr_def st'_def grown_def Let_def)
    moreover have "frame_addr k \<noteq> 0" by (rule frame_addr_nonzero[OF can_growD(8,10)[OF grow]])
    moreover have "same_view X st st'"
    proof -
      have "free_pages fr' \<union> X = free_pages (frames st) \<union> X - {k}" using pg(2,6) dis by auto
      then have "tree_ok (pt_mem st') (cr3 st') (free_pages fr' \<union> X)"
        using grown_tree_ok[OF grow] by (simp add: st'_def)
      moreover have "translate st' va = translate st va" for va
        using grown_translate[OF grow dir_path_ok _ index_less(4), of va va]
        by (simp add: translate_def st'_def dir_path_def Let_def)
      moreover have "count (pmm_bitmap fr') = count (pmm_bitmap (frames st))"
        by (rule pmm_malloc_page_count[OF pok pg(1)])
      ultimately show ?thesis using pg(5,6) fr dis by (auto simp: same_view_def paging_ok_def st'_def)
    qed
    moreover have "walk (pt_mem st') (cr3 st') (p @ [i]) = Some (frame_addr k)"
      using walk_new[OF grow, of "[]"] p(1,2) i by (auto simp: st'_def table_path_def)
    moreover have "free_count st \<le> free_count st' + 1"
    proof -
      have "free_pages (frames st) = insert k (free_pages fr')" using pg(2,6) by auto
      then show ?thesis using card_insert_le_m1 by (simp add: st'_def card_insert_if)
    qed
    ultimately show thesis by (rule table)
  next
    case none_free: none
    have "get_or_create_next_table t i st = Some (0, st)"
      using absent none_free(1) by (simp add: get_or_create_next_table_def)
    then show thesis using same_view_refl[OF ok] none_free(2) by (rule none) (simp add: none_free(2))
  qed
qed

lemma dir_path_prefixes:
  "table_path []" "table_path [get_PML4_Index va]" "table_path [get_PML4_Index va, get_PDPT_Index va]"
  by (simp_all add: table_path_def index_less)

lemma page_walk_spec:
  assumes ok: "paging_ok X st"
  obtains (entry) t st' where "page_walk va st = Some (Some (slot t (get_PT_Index va)), st')" "same_view X st st'"
      "walk (pt_mem st') (cr3 st') (dir_path va) = Some t" "free_count st \<le> free_count st' + 3"
    | (none) st' where "page_walk va st = Some (None, st')" "same_view X st st'" "free_pages (frames st') = {}"
      "free_count st < 3"
proof -
  have w0: "walk (pt_mem st) (cr3 st) [] = Some (cr3 st)" by simp
  show thesis
  proof (rule get_or_create_next_table_spec[OF ok dir_path_prefixes(1) _ w0 index_less(1), of va])
    fix st1 assume "get_or_create_next_table (cr3 st) (get_PML4_Index va) st = Some (0, st1)" "same_view X st st1"
      "free_pages (frames st1) = {}" "free_count st = 0"
    then show thesis by (intro none[of st1]) (simp_all add: page_walk_def)
  next
    fix t1 st1 assume s1: "get_or_create_next_table (cr3 st) (get_PML4_Index va) st = Some (t1, st1)" "t1 \<noteq> 0"
      "same_view X st st1" "walk (pt_mem st1) (cr3 st1) ([] @ [get_PML4_Index va]) = Some t1"
      "free_count st \<le> free_count st1 + 1"
    note w1 = s1(4)[simplified append_Nil]
    show thesis
    proof (rule get_or_create_next_table_spec[OF same_view_ok[OF s1(3)] dir_path_prefixes(2) _ w1 index_less(2), of va])
      fix st2 assume "get_or_create_next_table t1 (get_PDPT_Index va) st1 = Some (0, st2)" "same_view X st1 st2"
        "free_pages (frames st2) = {}" "free_count st1 = 0"
      then show thesis
        using s1 same_view_trans[OF s1(3)] by (intro none[of st2]) (simp_all add: page_walk_def)
    next
      fix t2 st2 assume s2: "get_or_create_next_table t1 (get_PDPT_Index va) st1 = Some (t2, st2)" "t2 \<noteq> 0"
        "same_view X st1 st2" "walk (pt_mem st2) (cr3 st2) ([get_PML4_Index va] @ [get_PDPT_Index va]) = Some t2"
        "free_count st1 \<le> free_count st2 + 1"
      note v2 = same_view_trans[OF s1(3) s2(3)]
      note w2 = s2(4)[simplified append_Cons append_Nil]
      show thesis
      proof (rule get_or_create_next_table_spec[OF same_view_ok[OF v2] dir_path_prefixes(3) _ w2 index_less(3), of va])
        fix st3 assume "get_or_create_next_table t2 (get_PD_Index va) st2 = Some (0, st3)" "same_view X st2 st3"
          "free_pages (frames st3) = {}" "free_count st2 = 0"
        then show thesis
          using s1 s2 same_view_trans[OF v2] by (intro none[of st3]) (simp_all add: page_walk_def)
      next
        fix t3 st3 assume s3: "get_or_create_next_table t2 (get_PD_Index va) st2 = Some (t3, st3)" "t3 \<noteq> 0"
          "same_view X st2 st3"
          "walk (pt_mem st3) (cr3 st3) ([get_PML4_Index va, get_PDPT_Index va] @ [get_PD_Index va]) = Some t3"
          "free_count st2 \<le> free_count st3 + 1"
        then show thesis
          using s1 s2 same_view_trans[OF v2]
          by (intro entry[of t3 st3]) (simp_all add: page_walk_def dir_path_def)
      qed simp
    qed simp
  qed simp
qed

text \<open>Where the directories already exist the walk creates nothing.\<close>

lemma page_walk_present:
  assumes ok: "paging_ok X st" and w: "walk (pt_mem st) (cr3 st) (dir_path va) = Some t"
  shows "page_walk va st = Some (Some (slot t (get_PT_Index va)), st)"
proof -
  have tree: "tree_ok (pt_mem st) (cr3 st) (free_pages (frames st) \<union> X)" using ok by (simp add: paging_ok_def)
  have nz: "u \<noteq> 0" if "table_path p" "walk (pt_mem st) (cr3 st) p = Some u" for p u
    using tree_frame[OF tree that] frame_addr_nonzero by metis
  let ?e1 = "pt_mem st (slot (cr3 st) (get_PML4_Index va))"
  let ?e2 = "pt_mem st (slot (next_table ?e1) (get_PDPT_Index va))"
  let ?e3 = "pt_mem st (slot (next_table ?e2) (get_PD_Index va))"
  have p: "Present ?e1" "Present ?e2" "Present ?e3" "next_table ?e3 = t"
    using w by (auto simp: dir_path_def split: if_splits)
  have n: "next_table ?e1 \<noteq> 0" "next_table ?e2 \<noteq> 0" "next_table ?e3 \<noteq> 0"
    using nz[OF dir_path_prefixes(2)[of va], of "next_table ?e1"] nz[OF dir_path_prefixes(3)[of va], of "next_table ?e2"]
      nz[OF dir_path_ok w] p by simp_all
  have g: "get_or_create_next_table (cr3 st) (get_PML4_Index va) st = Some (next_table ?e1, st)"
    "get_or_create_next_table (next_table ?e1) (get_PDPT_Index va) st = Some (next_table ?e2, st)"
    "get_or_create_next_table (next_table ?e2) (get_PD_Index va) st = Some (t, st)"
    using p by (auto simp: get_or_create_next_table_def next_table_def)
  show ?thesis using n p(4) by (simp add: page_walk_def g)
qed

section \<open>Writing the entry of a page\<close>

text \<open>The state after the entry of the page of \<open>va\<close> was written and the page invalidated.\<close>

lemma leaf_write:
  fixes e :: PageTableEntry
  assumes v: "same_view X st st1" and w: "walk (pt_mem st1) (cr3 st1) (dir_path va) = Some t"
  defines "st' \<equiv> drop_page_from_TLC va (st1\<lparr>pt_mem := (pt_mem st1)(slot t (get_PT_Index va) := e)\<rparr>)"
  shows "paging_ok X st'" and "vpage va' = vpage va \<Longrightarrow> translate st' va' = (if Present e then Some e else None)"
    and "vpage va' \<noteq> vpage va \<Longrightarrow> translate st' va' = translate st va'"
    and "invalidated st' = va # invalidated st" and "cr3 st' = cr3 st"
    and "frames st' = frames st1"
proof -
  have tree: "tree_ok (pt_mem st1) (cr3 st1) (free_pages (frames st1) \<union> X)"
    using same_view_ok[OF v] by (simp add: paging_ok_def)
  have l3: "length (dir_path va) = 3" by (simp add: dir_path_def)
  have mem: "pt_mem st' = (pt_mem st1)(slot t (get_PT_Index va) := e)" "cr3 st' = cr3 st1" "frames st' = frames st1"
    by (simp_all add: st'_def drop_page_from_TLC_def)
  note lw = leaf_walk[OF tree dir_path_ok l3 w index_less(4) dir_path_ok, where e = e]
  show "paging_ok X st'"
    using same_view_ok[OF v] leaf_tree_ok[OF tree dir_path_ok l3 w index_less(4), where e = e]
    by (simp add: paging_ok_def mem)
  show "frames st' = frames st1" "invalidated st' = va # invalidated st" "cr3 st' = cr3 st"
    using v by (simp_all add: st'_def drop_page_from_TLC_def same_view_def)
  show "translate st' va' = (if Present e then Some e else None)" if "vpage va' = vpage va"
    using indices_cong[OF that] w by (simp add: translate_def mem lw Let_def)
  show "translate st' va' = translate st va'" if ne: "vpage va' \<noteq> vpage va"
  proof -
    have "slot u (get_PT_Index va') \<noteq> slot t (get_PT_Index va)"
      if "walk (pt_mem st1) (cr3 st1) (dir_path va') = Some u" for u
      using tree_slot_inject[OF tree dir_path_ok w index_less(4) dir_path_ok that index_less(4)]
        indices_inject[of va' va] ne by auto
    then have "translate st' va' = translate st1 va'"
      by (cases "walk (pt_mem st1) (cr3 st1) (dir_path va')") (simp_all add: translate_def mem lw)
    with v show ?thesis by (simp add: same_view_def)
  qed
qed

text \<open>The entry \<open>map_page\<close> leaves, over the bits that were there.\<close>

definition mapped_entry :: "u64 \<Rightarrow> u8 \<Rightarrow> PageTableEntry \<Rightarrow> bool" where
  "mapped_entry pa flags e \<longleftrightarrow> Present e \<and> Address e = ucast (drop_bit 12 pa) \<and>
     ReadWrite e = (flags AND PAGE_FLAG_WRITE \<noteq> 0) \<and> CacheDisabled e = (flags AND PAGE_FLAG_CACHE_DISABLE \<noteq> 0)"

lemma map_page_spec:
  assumes ok: "paging_ok X st"
  obtains (mapped) e st' where "map_page va pa flags st = Some (True, st')" "paging_ok X st'"
      "mapped_entry pa flags e" "\<And>va'. translate st' va' = (if vpage va' = vpage va then Some e else translate st va')"
      "invalidated st' = va # invalidated st" "cr3 st' = cr3 st"
      "free_pages (frames st') \<subseteq> free_pages (frames st)"
      "count (pmm_bitmap (frames st')) = count (pmm_bitmap (frames st))" "free_count st \<le> free_count st' + 3"
    | (failed) st' where "map_page va pa flags st = Some (False, st')" "same_view X st st'" "free_pages (frames st') = {}"
      "free_count st < 3"
  using ok
proof (cases rule: page_walk_spec[where va = va])
  case (entry t st1)
  define e where "e = (handle_cache_disable_flag flags (handle_read_write_flag flags
      ((pt_mem st1 (slot t (get_PT_Index va)))\<lparr>Present := True\<rparr>)))\<lparr>Address := ucast (drop_bit 12 pa)\<rparr>"
  have e: "mapped_entry pa flags e" "Present e"
    by (simp_all add: mapped_entry_def e_def handle_cache_disable_flag_def handle_read_write_flag_def)
  note lw = leaf_write[OF entry(2,3), where e = e]
  have "map_page va pa flags st =
      Some (True, drop_page_from_TLC va (st1\<lparr>pt_mem := (pt_mem st1)(slot t (get_PT_Index va) := e)\<rparr>))"
    using entry(1) by (simp add: map_page_def e_def Let_def)
  then show thesis
    by (rule mapped[OF _ lw(1) e(1)]) (use lw e(2) entry(2,4) in \<open>simp_all add: same_view_def\<close>)
next
  case (none st1)
  then show thesis by (intro failed[of st1]) (simp_all add: map_page_def)
qed

lemma free_page_spec:
  assumes ok: "paging_ok X st"
  obtains (unmapped) st' where "free_page va st = Some (True, st')" "paging_ok X st'"
      "\<And>va'. translate st' va' = (if vpage va' = vpage va then None else translate st va')"
      "invalidated st' = va # invalidated st" "cr3 st' = cr3 st"
      "free_pages (frames st') \<subseteq> free_pages (frames st)"
      "count (pmm_bitmap (frames st')) = count (pmm_bitmap (frames st))"
    | (failed) st' where "free_page va st = Some (False, st')" "same_view X st st'" "free_pages (frames st') = {}"
  using ok
proof (cases rule: page_walk_spec[where va = va])
  case (entry t st1)
  note lw = leaf_write[OF entry(2,3), where e = empty_entry]
  have "free_page va st =
      Some (True, drop_page_from_TLC va (st1\<lparr>pt_mem := (pt_mem st1)(slot t (get_PT_Index va) := empty_entry)\<rparr>))"
    using entry(1) by (simp add: free_page_def)
  then show thesis
    by (rule unmapped[OF _ lw(1)]) (use lw entry(2) in \<open>simp_all add: same_view_def empty_entry_def\<close>)
next
  case (none st1)
  then show thesis by (intro failed[of st1]) (simp_all add: free_page_def)
qed

end
