(* ===== verification/Bytes.thy ===== *)
theory Bytes
  imports Prelude
begin

text \<open>
  Little-endian words in byte sequences and the byte-addressed memory, with
  \<^verbatim>\<open>kernel/memory/memory.cpp\<close> (\<open>memory_fill\<close>, \<open>memory_clear\<close>, \<open>memory_copy\<close>) and
  \<^verbatim>\<open>kernel/types/libc\<close> on it. Addresses are natural numbers: an object that
  wraps around the 64-bit address space is outside the model.
\<close>

section \<open>Little-endian words\<close>

fun le_word :: "u8 list \<Rightarrow> 'a::len word" where
  "le_word [] = 0"
| "le_word (b # bs) = ucast b OR push_bit 8 (le_word bs)"

definition le_bytes :: "nat \<Rightarrow> 'a::len word \<Rightarrow> u8 list" where
  "le_bytes k w = map (\<lambda>i. ucast (drop_bit (8 * i) w)) [0..<k]"

lemma length_le_bytes [simp]: "length (le_bytes k w) = k"
  by (simp add: le_bytes_def)

lemma nth_le_bytes: "i < k \<Longrightarrow> le_bytes k w ! i = ucast (drop_bit (8 * i) w)"
  by (simp add: le_bytes_def)

lemma bit_le_word:
  "bit (le_word bs :: 'a::len word) n \<longleftrightarrow>
    n < LENGTH('a) \<and> n < 8 * length bs \<and> bit (bs ! (n div 8)) (n mod 8)"
proof (induction bs arbitrary: n)
  case (Cons b bs)
  show ?case
  proof (cases "n < 8")
    case True
    then show ?thesis by (auto simp: bit_simps)
  next
    case False
    then obtain k where k: "n = k + 8" by (metis le_add_diff_inverse2 linorder_not_less)
    have "\<not> bit b (k + 8)" "(k + 8) div 8 = Suc (k div 8)" by (auto dest: bit_imp_le_length)
    with Cons[of k] show ?thesis unfolding k by (auto simp: bit_simps)
  qed
qed simp

lemma le_word_le_bytes: "LENGTH('a) \<le> 8 * k \<Longrightarrow> le_word (le_bytes k w) = (w :: 'a::len word)"
  by (rule bit_word_eqI) (simp add: bit_le_word nth_le_bytes bit_simps less_mult_imp_div_less mult.commute)

lemma le_bytes_le_word: "8 * length bs \<le> LENGTH('a) \<Longrightarrow> le_bytes (length bs) (le_word bs :: 'a::len word) = bs"
proof (rule nth_equalityI)
  fix i assume i: "i < length (le_bytes (length bs) (le_word bs :: 'a word))" and l: "8 * length bs \<le> LENGTH('a)"
  have "bit (ucast (drop_bit (8 * i) (le_word bs :: 'a word)) :: u8) n = bit (bs ! i) n" if n: "n < 8" for n
  proof -
    have "8 * i + n < 8 * length bs" "(8 * i + n) div 8 = i" "(8 * i + n) mod 8 = n" using i n by auto
    with l n show ?thesis by (simp add: bit_simps bit_le_word)
  qed
  then have "ucast (drop_bit (8 * i) (le_word bs :: 'a word)) = bs ! i"
    by (intro bit_word_eqI) simp
  with i show "le_bytes (length bs) (le_word bs :: 'a word) ! i = bs ! i" by (simp add: nth_le_bytes)
qed simp

section \<open>Memory\<close>

type_synonym mem = "nat \<Rightarrow> u8"

definition read64 :: "mem \<Rightarrow> nat \<Rightarrow> u64" where
  "read64 m a = le_word (map m [a..<a + 8])"

fun write_bytes :: "nat \<Rightarrow> u8 list \<Rightarrow> mem \<Rightarrow> mem" where
  "write_bytes a [] m = m"
| "write_bytes a (b # bs) m = write_bytes (Suc a) bs (m(a := b))"

definition write64 :: "nat \<Rightarrow> u64 \<Rightarrow> mem \<Rightarrow> mem" where
  "write64 a w m = write_bytes a (le_bytes 8 w) m"

lemma write_bytes_apply:
  "write_bytes a bs m x = (if a \<le> x \<and> x < a + length bs then bs ! (x - a) else m x)"
proof (induction bs arbitrary: a m)
  case (Cons b bs)
  then show ?case by (cases "x = a") (auto simp: nth_Cons' Suc_diff_le)
qed auto

lemma write64_apply:
  "write64 a w m x = (if a \<le> x \<and> x < a + 8 then ucast (drop_bit (8 * (x - a)) w) else m x)"
proof (cases "a \<le> x \<and> x < a + 8")
  case True
  then have "x - a < 8" by auto
  with True show ?thesis by (simp add: write64_def write_bytes_apply nth_le_bytes)
next
  case False
  then show ?thesis by (auto simp: write64_def write_bytes_apply)
qed

lemma read64_cong: "(\<And>i. i < 8 \<Longrightarrow> m (a + i) = m' (a + i)) \<Longrightarrow> read64 m a = read64 m' a"
  unfolding read64_def
proof (rule arg_cong[where f = le_word], rule map_cong)
  fix x assume *: "\<And>i. i < 8 \<Longrightarrow> m (a + i) = m' (a + i)" and "x \<in> set [a..<a + 8]"
  then have "x - a < 8" "a + (x - a) = x" by auto
  with * show "m x = m' x" by metis
qed simp

lemma read64_write64_same [simp]: "read64 (write64 a w m) a = w"
proof -
  have "map (write64 a w m) [a..<a + 8] = le_bytes 8 w"
    by (rule nth_equalityI) (simp_all add: write64_apply nth_le_bytes)
  then show ?thesis by (simp add: read64_def le_word_le_bytes)
qed

lemma read64_write64_other: "b + 8 \<le> a \<or> a + 8 \<le> b \<Longrightarrow> read64 (write64 a w m) b = read64 m b"
  by (rule read64_cong) (auto simp: write64_apply)

lemma write64_read64_byte: "i < 8 \<Longrightarrow> (ucast (drop_bit (8 * i) (read64 m a)) :: u8) = m (a + i)"
proof -
  assume i: "i < 8"
  have "le_bytes (length (map m [a..<a + 8])) (read64 m a) = map m [a..<a + 8]"
    unfolding read64_def by (rule le_bytes_le_word) simp
  then have "le_bytes 8 (read64 m a) ! i = map m [a..<a + 8] ! i" by simp
  with i show ?thesis by (simp add: nth_le_bytes)
qed

section \<open>memory.cpp\<close>

definition memory_fill :: "nat \<Rightarrow> u8 \<Rightarrow> nat \<Rightarrow> mem \<Rightarrow> mem option" where
  "memory_fill target value n m = do {
     let count64 = n div 8;
     let value64 = ucast value * 0x0101010101010101;
     m \<leftarrow> for_range (\<lambda>i m. Some (write64 (target + 8 * i) value64 m)) 0 count64 m;
     let dest8 = target + 8 * count64;
     for_range (\<lambda>i m. Some (m(dest8 + i := value))) 0 (n mod 8) m }"

definition memory_clear :: "nat \<Rightarrow> nat \<Rightarrow> mem \<Rightarrow> mem option" where
  "memory_clear target n m = memory_fill target 0 n m"

definition memory_copy :: "nat \<Rightarrow> nat \<Rightarrow> nat \<Rightarrow> mem \<Rightarrow> mem option" where
  "memory_copy copyTo copyFrom n m = do {
     let count64 = n div 8;
     m \<leftarrow> for_range (\<lambda>i m. Some (write64 (copyTo + 8 * i) (read64 m (copyFrom + 8 * i)) m)) 0 count64 m;
     let dest8 = copyTo + 8 * count64;
     let src8 = copyFrom + 8 * count64;
     for_range (\<lambda>i m. Some (m(dest8 + i := m (src8 + i)))) 0 (n mod 8) m }"

text \<open>\<^verbatim>\<open>libc.cpp\<close>: the returned pointer is \<open>dest\<close>.\<close>

definition libc_memcpy :: "nat \<Rightarrow> nat \<Rightarrow> nat \<Rightarrow> mem \<Rightarrow> (nat \<times> mem) option" where
  "libc_memcpy dest src n m = map_option (Pair dest) (memory_copy dest src n m)"

definition libc_memset :: "nat \<Rightarrow> u32 \<Rightarrow> nat \<Rightarrow> mem \<Rightarrow> (nat \<times> mem) option" where
  "libc_memset dest value n m = map_option (Pair dest) (memory_fill dest (ucast value) n m)"

definition libc_memmove :: "nat \<Rightarrow> nat \<Rightarrow> nat \<Rightarrow> mem \<Rightarrow> (nat \<times> mem) option" where
  "libc_memmove dest src n m = map_option (Pair dest) (memory_copy dest src n m)"

text \<open>Filling writes exactly the \<open>n\<close> bytes of the target with the value.\<close>

lemma le_word_replicate:
  "k \<le> 8 \<Longrightarrow> (le_word (replicate (Suc k) v) :: u64) = ucast v + 256 * le_word (replicate k v)"
proof -
  have "(256 :: u64) * le_word (replicate k v) = push_bit 8 (le_word (replicate k v))"
    by (simp add: push_bit_eq_mult)
  moreover have "(ucast v :: u64) + push_bit 8 (le_word (replicate k v)) =
      ucast v OR push_bit 8 (le_word (replicate k v))"
    by (rule disjunctive_add) (auto simp: bit_simps dest: bit_imp_le_length)
  ultimately show ?thesis by simp
qed

lemma fill_pattern: "(ucast (v :: u8) * 0x0101010101010101 :: u64) = le_word (replicate 8 v)"
proof -
  have "(8::nat) = Suc (Suc (Suc (Suc (Suc (Suc (Suc (Suc 0)))))))" by simp
  then show ?thesis
    by (simp only: le_word_replicate replicate_0 le_word.simps) (simp add: le_word_replicate algebra_simps)
qed

lemma fill_pattern_byte: "i < 8 \<Longrightarrow> (ucast (drop_bit (8 * i) (ucast (v :: u8) * 0x0101010101010101 :: u64)) :: u8) = v"
proof -
  assume i: "i < 8"
  have "le_bytes (length (replicate 8 v)) (le_word (replicate 8 v) :: u64) = replicate 8 v"
    by (rule le_bytes_le_word) simp
  then have "le_bytes 8 (le_word (replicate 8 v) :: u64) ! i = v" using i by simp
  with i show ?thesis by (simp add: fill_pattern nth_le_bytes)
qed

text \<open>The loop rule for loops whose state is determined by the index.\<close>

lemma for_loop_state:
  assumes "s = g lo" and "\<And>i. lo \<le> i \<Longrightarrow> i < lo + n \<Longrightarrow> body i (g i) = Some (g (Suc i))"
  shows "for_loop body lo n s = Some (g (lo + n))"
  using for_loop_rule[where I = "\<lambda>i s. s = g i" and body = body and lo = lo and n = n and s = s] assms
  by auto

definition filled :: "nat \<Rightarrow> u8 \<Rightarrow> nat \<Rightarrow> mem \<Rightarrow> mem" where
  "filled a v n m = (\<lambda>x. if a \<le> x \<and> x < a + n then v else m x)"

definition copied :: "nat \<Rightarrow> nat \<Rightarrow> nat \<Rightarrow> mem \<Rightarrow> mem" where
  "copied dest src n m = (\<lambda>x. if dest \<le> x \<and> x < dest + n then m (src + (x - dest)) else m x)"

lemma filled_0 [simp]: "filled a v 0 m = m"
  by (auto simp: filled_def fun_eq_iff)

lemma copied_0 [simp]: "copied dest src 0 m = m"
  by (auto simp: copied_def fun_eq_iff)

lemma write64_filled:
  "write64 (a + k) (ucast v * 0x0101010101010101) (filled a v k m) = filled a v (k + 8) m"
proof
  fix x
  show "write64 (a + k) (ucast v * 0x0101010101010101) (filled a v k m) x = filled a v (k + 8) m x"
  proof (cases "a + k \<le> x \<and> x < a + k + 8")
    case True
    then have "x - (a + k) < 8" by auto
    from fill_pattern_byte[OF this, of v] True show ?thesis by (simp add: write64_apply filled_def)
  next
    case False
    then show ?thesis unfolding write64_apply filled_def by auto
  qed
qed

lemma memory_fill_effect: "memory_fill target v n m = Some (filled target v n m)"
proof -
  let ?w = "ucast v * 0x0101010101010101 :: u64"
  have "for_range (\<lambda>i m. Some (write64 (target + 8 * i) ?w m)) 0 (n div 8) m =
      Some (filled target v (8 * (0 + n div 8)) m)"
    using for_loop_state[where g = "\<lambda>i. filled target v (8 * i) m" and lo = 0 and n = "n div 8"
        and s = m and body = "\<lambda>i m. Some (write64 (target + 8 * i) ?w m)"]
    by (simp add: write64_filled add.commute)
  moreover have "for_range (\<lambda>i m. Some (m(target + 8 * (n div 8) + i := v))) 0 (n mod 8)
      (filled target v (8 * (n div 8)) m) = Some (filled target v (8 * (n div 8) + (0 + n mod 8)) m)"
    using for_loop_state[where g = "\<lambda>i. filled target v (8 * (n div 8) + i) m" and lo = 0 and n = "n mod 8"
        and s = "filled target v (8 * (n div 8)) m"
        and body = "\<lambda>i m. Some (m(target + 8 * (n div 8) + i := v))"]
    by (simp add: fun_eq_iff filled_def)
  ultimately show ?thesis by (simp add: memory_fill_def Let_def)
qed

lemma copied_outside: "x < dest \<or> dest + n \<le> x \<Longrightarrow> copied dest src n m x = m x"
  by (auto simp: copied_def)

lemma write64_copied:
  assumes "dest \<le> src \<or> src + k + 8 \<le> dest"
  shows "write64 (dest + k) (read64 (copied dest src k m) (src + k)) (copied dest src k m) =
    copied dest src (k + 8) m"
proof
  fix x
  let ?m = "copied dest src k m"
  show "write64 (dest + k) (read64 ?m (src + k)) ?m x = copied dest src (k + 8) m x"
  proof (cases "dest + k \<le> x \<and> x < dest + k + 8")
    case True
    define i where "i = x - (dest + k)"
    then have i: "i < 8" "x = dest + k + i" using True by auto
    have "?m (src + k + i) = m (src + k + i)" using assms i by (intro copied_outside) auto
    then show ?thesis
      using True i write64_read64_byte[OF i(1), of ?m "src + k"]
      by (simp add: write64_apply copied_def add.assoc)
  next
    case False
    then show ?thesis unfolding write64_apply copied_def by auto
  qed
qed

lemma byte_copied:
  assumes "dest \<le> src \<or> src + k < dest"
  shows "(copied dest src k m)(dest + k := copied dest src k m (src + k)) = copied dest src (Suc k) m"
proof
  fix x
  have "copied dest src k m (src + k) = m (src + k)" using assms by (intro copied_outside) auto
  then show "((copied dest src k m)(dest + k := copied dest src k m (src + k))) x = copied dest src (Suc k) m x"
    by (auto simp: copied_def)
qed

lemma memory_copy_effect:
  assumes "dest \<le> src \<or> src + n \<le> dest"
  shows "memory_copy dest src n m = Some (copied dest src n m)"
proof -
  have "for_range (\<lambda>i m. Some (write64 (dest + 8 * i) (read64 m (src + 8 * i)) m)) 0 (n div 8) m =
      Some (copied dest src (8 * (0 + n div 8)) m)"
  proof (simp only: diff_zero, rule for_loop_state)
    show "m = copied dest src (8 * 0) m" by simp
  next
    fix i assume "i < 0 + n div 8"
    then have "8 * i + 8 \<le> n" by auto
    with assms have "dest \<le> src \<or> src + 8 * i + 8 \<le> dest" by auto
    from write64_copied[OF this] show "Some (write64 (dest + 8 * i) (read64 (copied dest src (8 * i) m) (src + 8 * i))
        (copied dest src (8 * i) m)) = Some (copied dest src (8 * Suc i) m)"
      by (simp add: add.commute)
  qed
  moreover have "for_range (\<lambda>i m. Some (m(dest + 8 * (n div 8) + i := m (src + 8 * (n div 8) + i)))) 0 (n mod 8)
      (copied dest src (8 * (n div 8)) m) = Some (copied dest src (8 * (n div 8) + (0 + n mod 8)) m)"
  proof (simp only: diff_zero, rule for_loop_state)
    show "copied dest src (8 * (n div 8)) m = copied dest src (8 * (n div 8) + 0) m" by simp
  next
    fix i assume "i < 0 + n mod 8"
    then have "8 * (n div 8) + i < n" by (metis add_0 div_mult_mod_eq mult.commute nat_add_left_cancel_less)
    with assms have "dest \<le> src \<or> src + (8 * (n div 8) + i) < dest" by auto
    from byte_copied[OF this, of m] show "Some ((copied dest src (8 * (n div 8) + i) m)
        (dest + 8 * (n div 8) + i := copied dest src (8 * (n div 8) + i) m (src + 8 * (n div 8) + i))) =
      Some (copied dest src (8 * (n div 8) + Suc i) m)"
      by (simp add: add.assoc)
  qed
  ultimately show ?thesis by (simp add: memory_copy_def Let_def)
qed

end
