(* ===== verification/Heap.thy ===== *)
theory Heap
  imports Bytes
begin

text \<open>
  \<^verbatim>\<open>kernel/memory/heap/heap.cpp\<close>: the kernel heap, one contiguous range of
  bytes divided into blocks, each an 8-byte header (63 bits of length, the used
  bit) followed by its payload. The model works on the bytes of the memory, as
  the code does through \<open>MemoryBlockHeader*\<close>; its abstract view is the list of
  the blocks' lengths and used bits (\<open>chain\<close>). Lengths and addresses are natural
  numbers: every address the code forms lies between \<open>heapStartPtr\<close> and
  \<open>heapEndPtr\<close> and every sum is at most the length of the heap (shown by the
  refinement lemmas), so no 64-bit addition wraps; the 63-bit truncation of the
  length field is written out.
\<close>

section \<open>Block headers\<close>

abbreviation HEADER_SIZE :: nat where "HEADER_SIZE \<equiv> 8"

definition hdr_length :: "mem \<Rightarrow> nat \<Rightarrow> nat" where
  "hdr_length m a = unat (take_bit 63 (read64 m a))"

definition hdr_used :: "mem \<Rightarrow> nat \<Rightarrow> bool" where
  "hdr_used m a = bit (read64 m a) 63"

definition set_length :: "nat \<Rightarrow> nat \<Rightarrow> mem \<Rightarrow> mem" where
  "set_length a v m = write64 a (take_bit 63 (of_nat v) OR (read64 m a AND push_bit 63 1)) m"

definition set_used :: "nat \<Rightarrow> bool \<Rightarrow> mem \<Rightarrow> mem" where
  "set_used a u m = write64 a (take_bit 63 (read64 m a) OR (if u then push_bit 63 1 else 0)) m"

section \<open>The allocator\<close>

record heap_state =
  hmem :: mem
  heapStartPtr :: nat
  heapEndPtr :: nat

definition get_next_heap_block :: "heap_state \<Rightarrow> nat \<Rightarrow> nat" where
  "get_next_heap_block st currMemBlock = currMemBlock + HEADER_SIZE + hdr_length (hmem st) currMemBlock"

lemma get_next_heap_block_gt: "a < get_next_heap_block st a"
  by (simp add: get_next_heap_block_def)

function prev_search :: "heap_state \<Rightarrow> nat \<Rightarrow> nat \<Rightarrow> nat option" where
  "prev_search st currMemBlock loopBlockPtr =
     (if heapStartPtr st \<le> loopBlockPtr \<and> loopBlockPtr < currMemBlock then
        let nextBlockHeader = get_next_heap_block st loopBlockPtr
        in if nextBlockHeader = currMemBlock then Some loopBlockPtr
           else prev_search st currMemBlock nextBlockHeader
      else None)"
  by pat_completeness auto
termination
  by (relation "measure (\<lambda>(st, c, a). c - a)") (auto intro: diff_less_mono2 get_next_heap_block_gt)

declare prev_search.simps [simp del]

definition get_prev_heap_block :: "heap_state \<Rightarrow> nat \<Rightarrow> nat option" where
  "get_prev_heap_block st currMemBlock = prev_search st currMemBlock (heapStartPtr st)"

definition try_defragment_page :: "nat \<Rightarrow> heap_state \<Rightarrow> heap_state" where
  "try_defragment_page freedBlockPtr st =
     (let rightBlockPtr = get_next_heap_block st freedBlockPtr;
          st = (if rightBlockPtr < heapEndPtr st then
                  if \<not> hdr_used (hmem st) rightBlockPtr then
                    st\<lparr>hmem := set_length freedBlockPtr
                         (hdr_length (hmem st) freedBlockPtr + (hdr_length (hmem st) rightBlockPtr + HEADER_SIZE)) (hmem st)\<rparr>
                  else st
                else st)
      in case get_prev_heap_block st freedBlockPtr of
           None \<Rightarrow> st
         | Some leftBlockPtr \<Rightarrow>
             if heapStartPtr st \<le> leftBlockPtr then
               if \<not> hdr_used (hmem st) leftBlockPtr then
                 st\<lparr>hmem := set_length leftBlockPtr
                      (hdr_length (hmem st) leftBlockPtr + (hdr_length (hmem st) freedBlockPtr + HEADER_SIZE)) (hmem st)\<rparr>
               else st
             else st)"

text \<open>The search loop of \<open>malloc\<close>: the first block is inspected before any bound is checked.\<close>

function malloc_find :: "heap_state \<Rightarrow> nat \<Rightarrow> nat \<Rightarrow> nat option" where
  "malloc_find st sz currBlockPtr =
     (if hdr_length (hmem st) currBlockPtr < sz \<or> hdr_used (hmem st) currBlockPtr then
        let currBlockPtr = get_next_heap_block st currBlockPtr
        in if heapEndPtr st \<le> currBlockPtr then None
           else malloc_find st sz currBlockPtr
      else Some currBlockPtr)"
  by pat_completeness auto
termination
proof (relation "measure (\<lambda>(st, s, a). heapEndPtr st - a)")
  fix st sz a x
  assume "x = get_next_heap_block st a" "\<not> heapEndPtr st \<le> x"
  then show "((st, sz, x), st, sz, a) \<in> measure (\<lambda>(st, s, a). heapEndPtr st - a)"
    using get_next_heap_block_gt[of a st] by auto
qed simp

declare malloc_find.simps [simp del]

text \<open>The returned pointer is 0 for \<open>nullptr\<close>.\<close>

definition heap_malloc :: "nat \<Rightarrow> heap_state \<Rightarrow> nat \<times> heap_state" where
  "heap_malloc sz st =
     (case malloc_find st sz (heapStartPtr st) of
        None \<Rightarrow> (0, st)
      | Some currBlockPtr \<Rightarrow>
          let oldBlockLength = hdr_length (hmem st) currBlockPtr;
              st = st\<lparr>hmem := set_length currBlockPtr sz (hmem st)\<rparr>;
              st = st\<lparr>hmem := set_used currBlockPtr True (hmem st)\<rparr>;
              returnAddr = currBlockPtr + HEADER_SIZE
          in if sz + HEADER_SIZE < oldBlockLength then
               let nextBlock = get_next_heap_block st currBlockPtr;
                   nextBlockLength = oldBlockLength - sz - HEADER_SIZE
               in if nextBlockLength \<le> HEADER_SIZE then
                    (returnAddr, st\<lparr>hmem := set_length currBlockPtr oldBlockLength (hmem st)\<rparr>)
                  else
                    let st = st\<lparr>hmem := set_length nextBlock nextBlockLength (hmem st)\<rparr>
                    in (returnAddr, st\<lparr>hmem := set_used nextBlock False (hmem st)\<rparr>)
             else (returnAddr, st\<lparr>hmem := set_length currBlockPtr oldBlockLength (hmem st)\<rparr>))"

text \<open>A pointer below the header size has no header in the address space: a fault.\<close>

definition heap_free :: "nat \<Rightarrow> heap_state \<Rightarrow> heap_state option" where
  "heap_free ptr st =
     (if ptr < HEADER_SIZE then None
      else let header = ptr - HEADER_SIZE;
               st = st\<lparr>hmem := set_used header False (hmem st)\<rparr>
           in Some (try_defragment_page header st))"

text \<open>The last part of \<open>init_heap_alloc\<close>: one free block over the whole range.\<close>

definition heap_setup :: "nat \<Rightarrow> nat \<Rightarrow> mem \<Rightarrow> heap_state" where
  "heap_setup initialHeapBlockPtr heap_size m =
     (let m = set_length initialHeapBlockPtr (heap_size - HEADER_SIZE) m;
          m = set_used initialHeapBlockPtr False m
      in \<lparr>hmem = m, heapStartPtr = initialHeapBlockPtr, heapEndPtr = initialHeapBlockPtr + heap_size\<rparr>)"

section \<open>Header laws\<close>

lemma take_bit_header:
  "take_bit k (take_bit k a OR (b AND push_bit k 1)) = take_bit k (a :: u64)"
  "take_bit k (take_bit k a OR push_bit k 1) = take_bit k (a :: u64)"
  by (rule bit_word_eqI, auto simp: bit_simps)+

lemma hdr_set_length_same:
  "v < 2 ^ 63 \<Longrightarrow> hdr_length (set_length a v m) a = v"
  "hdr_used (set_length a v m) a = hdr_used m a"
proof -
  assume v: "v < 2 ^ 63"
  then have "unat (of_nat v :: u64) = v" by (intro unat_of_nat_small) simp
  with v show "hdr_length (set_length a v m) a = v"
    by (simp add: hdr_length_def set_length_def take_bit_header unsigned_take_bit_eq take_bit_nat_eq_self)
next
  show "hdr_used (set_length a v m) a = hdr_used m a"
    by (auto simp: hdr_used_def set_length_def bit_simps)
qed

lemma hdr_set_used_same:
  "hdr_length (set_used a u m) a = hdr_length m a"
  "hdr_used (set_used a u m) a = u"
proof -
  have "take_bit 63 (take_bit 63 w OR (if u then push_bit 63 1 else 0)) = take_bit 63 w" for w :: u64
    using take_bit_header(2)[of 63 w] by (cases u) simp_all
  then show "hdr_length (set_used a u m) a = hdr_length m a"
    by (simp add: hdr_length_def set_used_def)
  show "hdr_used (set_used a u m) a = u"
    by (auto simp: hdr_used_def set_used_def bit_simps)
qed

lemma set_hdr_other:
  "x < a \<or> a + 8 \<le> x \<Longrightarrow> set_length a v m x = m x"
  "x < a \<or> a + 8 \<le> x \<Longrightarrow> set_used a u m x = m x"
  by (auto simp: set_length_def set_used_def write64_apply)

lemma hdr_other:
  assumes "b + 8 \<le> a \<or> a + 8 \<le> b"
  shows "hdr_length (set_length a v m) b = hdr_length m b" "hdr_used (set_length a v m) b = hdr_used m b"
    "hdr_length (set_used a u m) b = hdr_length m b" "hdr_used (set_used a u m) b = hdr_used m b"
  using assms by (auto simp: hdr_length_def hdr_used_def set_length_def set_used_def read64_write64_other)

lemma hdr_cong:
  assumes "\<And>x. a \<le> x \<Longrightarrow> x < a + 8 \<Longrightarrow> m' x = m x"
  shows "hdr_length m' a = hdr_length m a" "hdr_used m' a = hdr_used m a"
proof -
  have "read64 m' a = read64 m a" by (rule read64_cong) (simp add: assms)
  then show "hdr_length m' a = hdr_length m a" "hdr_used m' a = hdr_used m a"
    by (simp_all add: hdr_length_def hdr_used_def)
qed

lemma hdr_length_bound: "hdr_length m a < 2 ^ 63"
proof -
  have "unat (take_bit 63 (read64 m a)) = take_bit 63 (unat (read64 m a))" by (rule unsigned_take_bit_eq)
  then show ?thesis using take_bit_nat_less_exp[of 63 "unat (read64 m a)"] by (simp add: hdr_length_def)
qed

end
