(* ===== verification/HeapSpec.thy ===== *)
theory HeapSpec
  imports Heap
begin

text \<open>
  The abstract heap: the list of blocks (length, used) between \<open>heapStartPtr\<close>
  and \<open>heapEndPtr\<close>, the first-fit allocation and the coalescing release on that
  list, and the proof that \<open>heap_malloc\<close> and \<open>heap_free\<close> implement them.
\<close>

section \<open>Chains of blocks\<close>

type_synonym blocks = "(nat \<times> bool) list"

fun chain :: "mem \<Rightarrow> nat \<Rightarrow> blocks \<Rightarrow> nat \<Rightarrow> bool" where
  "chain m a [] e \<longleftrightarrow> a = e"
| "chain m a ((l, u) # bs) e \<longleftrightarrow> hdr_length m a = l \<and> hdr_used m a = u \<and> chain m (a + 8 + l) bs e"

fun span :: "blocks \<Rightarrow> nat" where
  "span [] = 0"
| "span ((l, u) # bs) = 8 + l + span bs"

lemma span_append [simp]: "span (xs @ ys) = span xs + span ys"
  by (induction xs rule: span.induct) auto

lemma chain_append: "chain m a (xs @ ys) e \<longleftrightarrow> chain m a xs (a + span xs) \<and> chain m (a + span xs) ys e"
  by (induction m a xs e rule: chain.induct) (auto simp: add.assoc)

lemma chain_end: "chain m a bs e \<Longrightarrow> e = a + span bs"
  by (induction m a bs e rule: chain.induct) auto

text \<open>The bytes that hold headers, and the payload bytes of the used blocks.\<close>

fun headers :: "nat \<Rightarrow> blocks \<Rightarrow> nat set" where
  "headers a [] = {}"
| "headers a ((l, u) # bs) = {a ..< a + 8} \<union> headers (a + 8 + l) bs"

fun payloads :: "nat \<Rightarrow> blocks \<Rightarrow> (nat \<times> nat) list" where
  "payloads a [] = []"
| "payloads a ((l, u) # bs) = (if u then [(a + 8, l)] else []) @ payloads (a + 8 + l) bs"

lemma headers_subset: "headers a bs \<subseteq> {a ..< a + span bs}"
  by (induction a bs rule: headers.induct) auto

lemma headers_append: "headers a (xs @ ys) = headers a xs \<union> headers (a + span xs) ys"
  by (induction a xs rule: headers.induct) (auto simp: add.assoc)

lemma payloads_append: "payloads a (xs @ ys) = payloads a xs @ payloads (a + span xs) ys"
  by (induction a xs rule: payloads.induct) (auto simp: add.assoc)

lemma chain_cong: "(\<And>x. x \<in> headers a bs \<Longrightarrow> m' x = m x) \<Longrightarrow> chain m' a bs e = chain m a bs e"
proof (induction m a bs e rule: chain.induct)
  case (2 m a l u bs e)
  have "hdr_length m' a = hdr_length m a" "hdr_used m' a = hdr_used m a"
    by (rule hdr_cong; use "2.prems" in auto)+
  with 2 show ?case by auto
qed simp

lemma chain_frame:
  assumes "chain m a bs e" and "\<And>x. a \<le> x \<Longrightarrow> x < a + span bs \<Longrightarrow> m' x = m x"
  shows "chain m' a bs e"
proof -
  have "chain m' a bs e = chain m a bs e"
  proof (rule chain_cong)
    fix x assume "x \<in> headers a bs"
    with headers_subset[of a bs] have "a \<le> x" "x < a + span bs" by auto
    then show "m' x = m x" by (rule assms(2))
  qed
  with assms(1) show ?thesis by simp
qed

lemma chain_set_before:
  "chain m b bs e \<Longrightarrow> a + 8 \<le> b \<Longrightarrow> chain (set_length a v m) b bs e"
  "chain m b bs e \<Longrightarrow> a + 8 \<le> b \<Longrightarrow> chain (set_used a u m) b bs e"
  by (erule chain_frame; simp add: set_hdr_other)+

lemma chain_set_after:
  "chain m b bs e \<Longrightarrow> e \<le> a \<Longrightarrow> chain (set_length a v m) b bs e"
  "chain m b bs e \<Longrightarrow> e \<le> a \<Longrightarrow> chain (set_used a u m) b bs e"
  by (frule chain_end, erule chain_frame, simp add: set_hdr_other)+

lemmas chain_set = chain_set_before chain_set_after

text \<open>Every payload lies between its own header and the next.\<close>

lemma payload_in: "(p, l) \<in> set (payloads a bs) \<Longrightarrow> a + 8 \<le> p \<and> p + l \<le> a + span bs"
  by (induction a bs rule: payloads.induct) (auto split: if_splits)

lemma payload_not_header: "(p, l) \<in> set (payloads a bs) \<Longrightarrow> p \<le> x \<Longrightarrow> x < p + l \<Longrightarrow> x \<notin> headers a bs"
proof (induction a bs rule: payloads.induct)
  case (2 a k u bs)
  show ?case
  proof (cases "p = a + 8")
    case True
    have "l = k"
    proof (rule ccontr)
      assume "l \<noteq> k"
      with 2(2) True have "(p, l) \<in> set (payloads (a + 8 + k) bs)" by (auto split: if_splits)
      from payload_in[OF this] True show False by simp
    qed
    with 2 True headers_subset[of "a + 8 + k" bs] show ?thesis by auto
  next
    case False
    with 2(2) have "(p, l) \<in> set (payloads (a + 8 + k) bs)" by (auto split: if_splits)
    with 2 payload_in[OF this] show ?thesis by auto
  qed
qed simp

lemma payloads_disjoint:
  assumes "(p, l) \<in> set (payloads a bs)" and "(q, k) \<in> set (payloads a bs)" and "p \<noteq> q"
  shows "p + l + 8 \<le> q \<or> q + k + 8 \<le> p"
  using assms
proof (induction a bs rule: payloads.induct)
  case (2 a j u bs)
  show ?case
  proof (cases "(p, l) \<in> set (payloads (a + 8 + j) bs)")
    case True
    with 2 payload_in[OF True] show ?thesis by (auto split: if_splits)
  next
    case False
    with 2 have "p = a + 8" "l = j" "(q, k) \<in> set (payloads (a + 8 + j) bs)" by (auto split: if_splits)
    with payload_in[OF this(3)] show ?thesis by auto
  qed
qed simp

lemma distinct_payloads: "distinct (map fst (payloads a bs))"
proof (induction a bs rule: payloads.induct)
  case (2 a l u bs)
  have "a + 8 \<notin> fst ` set (payloads (a + 8 + l) bs)" by (auto dest: payload_in)
  with 2 show ?case by auto
qed simp

section \<open>The abstract operations\<close>

text \<open>First fit: the first free block that is long enough, with what precedes and follows it.\<close>

fun first_fit :: "nat \<Rightarrow> blocks \<Rightarrow> (blocks \<times> nat \<times> blocks) option" where
  "first_fit sz [] = None"
| "first_fit sz ((l, u) # bs) =
     (if l < sz \<or> u then map_option (\<lambda>(pre, k, post). ((l, u) # pre, k, post)) (first_fit sz bs)
      else Some ([], l, bs))"

text \<open>The remainder becomes a free block of its own only when it can hold more than a header.\<close>

definition place :: "nat \<Rightarrow> nat \<Rightarrow> blocks" where
  "place sz l = (if sz + 16 < l then [(sz, True), (l - sz - 8, False)] else [(l, True)])"

fun join_right :: "nat \<Rightarrow> blocks \<Rightarrow> blocks" where
  "join_right l ((k, False) # post) = (l + (k + 8), False) # post"
| "join_right l post = (l, False) # post"

fun join_left :: "blocks \<Rightarrow> blocks \<Rightarrow> blocks" where
  "join_left [] bs = bs"
| "join_left [(k, False)] ((l, u) # bs) = (k + (l + 8), False) # bs"
| "join_left (x # pre) bs = x # join_left pre bs"

text \<open>No two neighbours are free.\<close>

fun coalesced :: "blocks \<Rightarrow> bool" where
  "coalesced ((l, False) # (k, False) # bs) \<longleftrightarrow> False"
| "coalesced (b # bs) \<longleftrightarrow> coalesced bs"
| "coalesced [] \<longleftrightarrow> True"

definition heap_rep :: "heap_state \<Rightarrow> blocks \<Rightarrow> bool" where
  "heap_rep st bs \<longleftrightarrow> chain (hmem st) (heapStartPtr st) bs (heapEndPtr st) \<and> bs \<noteq> [] \<and> span bs < 2 ^ 63"

lemma first_fit_Some:
  "first_fit sz bs = Some (pre, l, post) \<Longrightarrow>
    bs = pre @ (l, False) # post \<and> sz \<le> l \<and> (\<forall>(k, u) \<in> set pre. k < sz \<or> u)"
  by (induction sz bs arbitrary: pre rule: first_fit.induct) (fastforce split: if_splits)+

lemma first_fit_None: "first_fit sz bs = None \<longleftrightarrow> (\<forall>(l, u) \<in> set bs. l < sz \<or> u)"
  by (induction sz bs rule: first_fit.induct) auto

lemma span_place: "sz \<le> l \<Longrightarrow> span (place sz l) = 8 + l"
  by (auto simp: place_def)

section \<open>Allocation\<close>

lemma malloc_find_chain:
  assumes "chain (hmem st) a bs (heapEndPtr st)" and "bs \<noteq> []"
  shows "malloc_find st sz a = map_option (\<lambda>(pre, l, post). a + span pre) (first_fit sz bs)"
  using assms
proof (induction bs arbitrary: a)
  case (Cons b bs)
  obtain l u where b: "b = (l, u)" by (cases b)
  have hd: "hdr_length (hmem st) a = l" "hdr_used (hmem st) a = u"
    and tl: "chain (hmem st) (a + 8 + l) bs (heapEndPtr st)"
    using Cons.prems b by auto
  have nx: "get_next_heap_block st a = a + 8 + l" by (simp add: get_next_heap_block_def hd)
  show ?case
  proof (cases "l < sz \<or> u")
    case False
    then show ?thesis by (subst malloc_find.simps) (simp add: hd b)
  next
    case True
    show ?thesis
    proof (cases "bs = []")
      case True
      with tl \<open>l < sz \<or> u\<close> show ?thesis by (subst malloc_find.simps) (auto simp: hd b nx Let_def)
    next
      case False
      have "0 < span bs" using False by (cases bs rule: span.cases) auto
      then have "a + 8 + l < heapEndPtr st" using chain_end[OF tl] by simp
      with Cons.IH[OF tl False] True show ?thesis
        by (subst malloc_find.simps)
          (auto simp: hd b nx Let_def option.map_comp comp_def split: prod.splits intro!: arg_cong[where f = "\<lambda>f. map_option f _"])
    qed
  qed
qed simp

text \<open>
  \<open>malloc\<close> implements first fit: on success the block list is split at the found
  block and only the headers of the new blocks are written.
\<close>

lemma heap_malloc_None:
  assumes "heap_rep st bs" and "first_fit sz bs = None"
  shows "heap_malloc sz st = (0, st)"
proof -
  have "malloc_find st sz (heapStartPtr st) = None"
    using malloc_find_chain[of st "heapStartPtr st" bs sz] assms by (simp add: heap_rep_def)
  then show ?thesis by (simp add: heap_malloc_def)
qed

lemma heap_malloc_Some:
  assumes rep: "heap_rep st bs" and ff: "first_fit sz bs = Some (pre, l, post)"
  defines "a \<equiv> heapStartPtr st + span pre"
  shows "\<exists>st'. heap_malloc sz st = (a + 8, st') \<and> heap_rep st' (pre @ place sz l @ post) \<and>
    heapStartPtr st' = heapStartPtr st \<and> heapEndPtr st' = heapEndPtr st \<and>
    (\<forall>x. x \<notin> headers a (place sz l) \<longrightarrow> hmem st' x = hmem st x)"
proof -
  let ?m = "hmem st" and ?s = "heapStartPtr st" and ?e = "heapEndPtr st"
  from first_fit_Some[OF ff] have bs: "bs = pre @ (l, False) # post" and sz: "sz \<le> l" by auto
  have find: "malloc_find st sz ?s = Some a"
    using malloc_find_chain[of st ?s bs sz] rep ff by (simp add: heap_rep_def a_def)
  have ch: "chain ?m ?s pre a" "hdr_length ?m a = l" "\<not> hdr_used ?m a" "chain ?m (a + 8 + l) post ?e"
    and small: "span bs < 2 ^ 63"
    using rep by (auto simp: heap_rep_def bs chain_append a_def)
  have l63: "l < 2 ^ 63" "sz < 2 ^ 63" using small sz by (auto simp: bs)
  define m1 where "m1 = set_used a True (set_length a sz ?m)"
  have m1: "hdr_length m1 a = sz" "hdr_used m1 a"
    using l63(2) by (simp_all add: m1_def hdr_set_used_same hdr_set_length_same)
  have pre1: "chain m1 ?s pre a" unfolding m1_def using ch(1) by (intro chain_set_after) auto
  have m1_out: "x < a \<or> a + 8 \<le> x \<Longrightarrow> m1 x = ?m x" for x
    unfolding m1_def by (simp add: set_hdr_other)
  have post1: "chain m1 (a + 8 + l) post ?e" by (rule chain_frame[OF ch(4)]) (simp add: m1_out)
  show ?thesis
  proof (cases "sz + 16 < l")
    case True
    define nb where "nb = a + 8 + sz"
    define m2 where "m2 = set_used nb False (set_length nb (l - sz - 8) m1)"
    have res: "heap_malloc sz st = (a + 8, st\<lparr>hmem := m2\<rparr>)"
      using True ch(2) m1(1) by (simp add: heap_malloc_def find Let_def get_next_heap_block_def m1_def m2_def nb_def)
    have m2_out: "x < nb \<or> nb + 8 \<le> x \<Longrightarrow> m2 x = m1 x" for x
      unfolding m2_def by (simp add: set_hdr_other)
    have hd2: "hdr_length m2 a = sz" "hdr_used m2 a"
      using m1 by (simp_all add: m2_def nb_def hdr_other)
    have "l - sz - 8 < 2 ^ 63" using l63 by simp
    then have nb2: "hdr_length m2 nb = l - sz - 8" "\<not> hdr_used m2 nb"
      by (simp_all add: m2_def hdr_set_used_same hdr_set_length_same)
    have "chain m2 ?s pre a" by (rule chain_frame[OF pre1]) (simp add: m2_out nb_def a_def)
    moreover have "chain m2 (nb + 8 + (l - sz - 8)) post ?e"
    proof -
      have e: "nb + 8 + (l - sz - 8) = a + 8 + l" using True by (simp add: nb_def)
      show ?thesis unfolding e by (rule chain_frame[OF post1]) (use True in \<open>simp add: m2_out nb_def\<close>)
    qed
    ultimately have "chain m2 ?s (pre @ place sz l @ post) ?e"
      using True hd2 nb2 by (simp add: chain_append place_def a_def nb_def)
    then have "heap_rep (st\<lparr>hmem := m2\<rparr>) (pre @ place sz l @ post)"
      using small sz by (simp add: heap_rep_def bs span_place) (simp add: place_def)
    moreover have "m2 x = ?m x" if "x \<notin> headers a (place sz l)" for x
      using that True m2_out[of x] m1_out[of x] by (auto simp: place_def nb_def)
    ultimately show ?thesis using res by simp
  next
    case False
    define m2 where "m2 = set_length a l m1"
    have "heap_malloc sz st = (a + 8, st\<lparr>hmem := m2\<rparr>)"
      using False sz ch(2) m1(1)
      by (auto simp: heap_malloc_def find Let_def get_next_heap_block_def m1_def m2_def)
    moreover have hd2: "hdr_length m2 a = l" "hdr_used m2 a"
      using m1 l63 by (simp_all add: m2_def hdr_set_length_same)
    moreover have m2_out: "x < a \<or> a + 8 \<le> x \<Longrightarrow> m2 x = ?m x" for x
      unfolding m2_def by (simp add: set_hdr_other m1_out)
    moreover have "chain m2 ?s pre a" by (rule chain_frame[OF ch(1)]) (simp add: m2_out a_def)
    moreover have "chain m2 (a + 8 + l) post ?e" by (rule chain_frame[OF ch(4)]) (simp add: m2_out)
    ultimately show ?thesis
      using False small by (auto simp: heap_rep_def place_def chain_append a_def bs)
  qed
qed

section \<open>Release\<close>

lemma prev_search_chain:
  assumes "chain (hmem st) a pre c" and "pre \<noteq> []" and "heapStartPtr st \<le> a"
  shows "prev_search st c a = Some (a + span (butlast pre))"
  using assms
proof (induction pre arbitrary: a)
  case (Cons b pre)
  obtain l u where b: "b = (l, u)" by (cases b)
  have nx: "get_next_heap_block st a = a + 8 + l" and tl: "chain (hmem st) (a + 8 + l) pre c"
    using Cons.prems(1) b by (auto simp: get_next_heap_block_def)
  have lt: "a < c" using chain_end[OF tl] by simp
  show ?case
  proof (cases "pre = []")
    case True
    with tl lt Cons.prems(3) show ?thesis by (subst prev_search.simps) (simp add: nx Let_def)
  next
    case False
    then have "0 < span pre" by (cases pre rule: span.cases) auto
    then have "a + 8 + l \<noteq> c" using chain_end[OF tl] by simp
    with False lt Cons.IH[OF tl False] Cons.prems(3) b show ?thesis
      by (subst prev_search.simps) (simp add: nx Let_def)
  qed
qed simp

lemma get_prev_heap_block_chain:
  assumes "chain (hmem st) (heapStartPtr st) pre c"
  shows "get_prev_heap_block st c = (if pre = [] then None else Some (heapStartPtr st + span (butlast pre)))"
proof (cases "pre = []")
  case True
  with assms show ?thesis by (simp add: get_prev_heap_block_def prev_search.simps)
next
  case False
  with prev_search_chain[OF assms] show ?thesis by (simp add: get_prev_heap_block_def)
qed

lemma join_left_snoc: "join_left (pre @ [(k, False)]) ((l, u) # bs) = pre @ (k + (l + 8), False) # bs"
  by (induction pre "(l, u) # bs" rule: join_left.induct) (auto simp: neq_Nil_conv elim: join_left.elims)

lemma join_left_used: "pre = [] \<or> snd (last pre) \<Longrightarrow> join_left pre bs = pre @ bs"
  by (induction pre bs rule: join_left.induct) (auto split: if_splits)

lemma join_right_span: "span (join_right l post) = 8 + l + span post"
  by (cases "(l, post)" rule: join_right.cases) auto

text \<open>The step that merges the freed block with the block on its right.\<close>

lemma merge_right_step:
  assumes fr: "hdr_length m a = l" "\<not> hdr_used m a" and post: "chain m (a + 8 + l) post e"
    and small: "8 + l + span post < 2 ^ 63"
  defines "m' \<equiv> (if a + 8 + l < e then if \<not> hdr_used m (a + 8 + l)
      then set_length a (l + (hdr_length m (a + 8 + l) + 8)) m else m else m)"
  shows "chain m' a (join_right l post) e" and "\<forall>x. x < a \<or> a + 8 \<le> x \<longrightarrow> m' x = m x"
proof -
  show out: "\<forall>x. x < a \<or> a + 8 \<le> x \<longrightarrow> m' x = m x" by (simp add: m'_def set_hdr_other)
  show "chain m' a (join_right l post) e"
  proof (cases "\<exists>k post'. post = (k, False) # post'")
    case True
    then obtain k post' where p: "post = (k, False) # post'" by blast
    with post have k: "hdr_length m (a + 8 + l) = k" "\<not> hdr_used m (a + 8 + l)"
      and rest: "chain m (a + 8 + l + 8 + k) post' e" by auto
    have "a + 8 + l < e" using chain_end[OF rest] by simp
    with k have m': "m' = set_length a (l + (k + 8)) m" by (simp add: m'_def)
    have "l + (k + 8) < 2 ^ 63" using small p by simp
    then have "hdr_length m' a = l + (k + 8)" "\<not> hdr_used m' a"
      unfolding m' using fr(2) by (simp_all add: hdr_set_length_same)
    moreover have "chain m' (a + 8 + (l + (k + 8))) post' e"
    proof -
      have e: "a + 8 + l + 8 + k = a + 8 + (l + (k + 8))" by simp
      from rest[unfolded e] show ?thesis unfolding m' by (rule chain_set_before) simp
    qed
    ultimately show ?thesis by (simp add: p)
  next
    case False
    then have j: "join_right l post = (l, False) # post" by (cases "(l, post)" rule: join_right.cases) auto
    have "m' = m"
    proof (cases post)
      case Nil
      with post show ?thesis by (simp add: m'_def)
    next
      case (Cons b bs)
      with False post show ?thesis by (cases b) (auto simp: m'_def)
    qed
    with j fr post show ?thesis by simp
  qed
qed

text \<open>\<open>heap_free\<close> clears the mark and joins the block with a free right neighbour, then \<open>join_memory\<close> is its second half, the
  join with a free left neighbour.\<close>

definition join_memory :: "heap_state \<Rightarrow> nat \<Rightarrow> mem \<Rightarrow> mem" where
  "join_memory st a m = (case get_prev_heap_block (st\<lparr>hmem := m\<rparr>) a of
      None \<Rightarrow> m
    | Some q \<Rightarrow> if heapStartPtr st \<le> q \<and> \<not> hdr_used m q then set_length q (hdr_length m q + (hdr_length m a + 8)) m else m)"

lemma heap_free_right:
  assumes rep: "heap_rep st (pre @ (l, True) # post)"
  defines "a \<equiv> heapStartPtr st + span pre"
  obtains m j bs where "heap_free (a + 8) st = Some (st\<lparr>hmem := join_memory st a m\<rparr>)" "join_right l post = (j, False) # bs"
    "chain m (heapStartPtr st) pre a" "chain m a (join_right l post) (heapEndPtr st)"
    "\<forall>x. x \<notin> headers (heapStartPtr st) (pre @ (l, True) # post) \<longrightarrow> m x = hmem st x"
proof -
  let ?m = "hmem st" and ?s = "heapStartPtr st" and ?e = "heapEndPtr st" and ?bs = "pre @ (l, True) # post"
  have ch: "chain ?m ?s pre a" "hdr_length ?m a = l" "chain ?m (a + 8 + l) post ?e" and small: "span ?bs < 2 ^ 63"
    using rep by (auto simp: heap_rep_def chain_append a_def)
  define m1 where "m1 = set_used a False ?m"
  have h1: "hdr_length m1 a = l" "\<not> hdr_used m1 a" using ch(2) by (simp_all add: m1_def hdr_set_used_same)
  have post1: "chain m1 (a + 8 + l) post ?e" unfolding m1_def using ch(3) by (rule chain_set_before) simp
  define m2 where "m2 = (if a + 8 + l < ?e then if \<not> hdr_used m1 (a + 8 + l)
      then set_length a (l + (hdr_length m1 (a + 8 + l) + 8)) m1 else m1 else m1)"
  have sm: "8 + l + span post < 2 ^ 63" using small by simp
  note right = merge_right_step[OF h1 post1 sm, folded m2_def]
  have out2: "x < a \<or> a + 8 \<le> x \<Longrightarrow> m2 x = ?m x" for x
    using right(2) by (auto simp: m1_def set_hdr_other)
  have pre2: "chain m2 ?s pre a" by (rule chain_frame[OF ch(1)]) (simp add: out2 a_def)
  obtain j bs where jr: "join_right l post = (j, False) # bs"
    by (cases "(l, post)" rule: join_right.cases) auto
  have free: "heap_free (a + 8) st = Some (st\<lparr>hmem := join_memory st a m2\<rparr>)"
    unfolding heap_free_def try_defragment_page_def get_next_heap_block_def m2_def join_memory_def
    by (simp add: Let_def h1 m1_def[symmetric] split: option.split)
  have "{a ..< a + 8} \<subseteq> headers ?s ?bs" by (auto simp: headers_append a_def)
  then have "\<forall>x. x \<notin> headers ?s ?bs \<longrightarrow> m2 x = ?m x" using out2 by (meson atLeastLessThan_iff not_le subsetD)
  with that[OF free jr pre2 right(1)] show thesis .
qed

lemma prev_of_chain:
  assumes "chain m (heapStartPtr st) pre a"
  shows "get_prev_heap_block (st\<lparr>hmem := m\<rparr>) a = (if pre = [] then None else Some (heapStartPtr st + span (butlast pre)))"
  using get_prev_heap_block_chain[of "st\<lparr>hmem := m\<rparr>" pre a] assms by simp

lemma join_memory_used:
  assumes "chain m (heapStartPtr st) pre a" and "pre = [] \<or> snd (last pre)"
  shows "join_memory st a m = m"
proof (cases "pre = []")
  case False
  then have "chain m (heapStartPtr st) (butlast pre @ [last pre]) a" using assms(1) by simp
  then have "hdr_used m (heapStartPtr st + span (butlast pre))"
    using assms(2) False by (cases "last pre") (auto simp: chain_append)
  with False show ?thesis by (simp add: join_memory_def prev_of_chain[OF assms(1)])
qed (simp add: join_memory_def prev_of_chain[OF assms(1)])

lemma join_memory_free:
  assumes ch: "chain m (heapStartPtr st) (pre @ [(k, False)]) a" and rest: "chain m a ((j, False) # bs) e" and small: "k + (j + 8) < 2 ^ 63"
  defines "q \<equiv> heapStartPtr st + span pre"
  shows "chain (join_memory st a m) (heapStartPtr st) pre q" "chain (join_memory st a m) q ((k + (j + 8), False) # bs) e"
    "\<And>x. x < q \<or> q + 8 \<le> x \<Longrightarrow> join_memory st a m x = m x"
proof -
  have chq: "chain m (heapStartPtr st) pre q" "hdr_length m q = k" "\<not> hdr_used m q" "a = q + 8 + k"
    using ch by (auto simp: chain_append q_def)
  have h: "hdr_length m a = j" "chain m (a + 8 + j) bs e" using rest by auto
  have m: "join_memory st a m = set_length q (k + (j + 8)) m"
    using chq(2,3) h(1) by (simp add: join_memory_def prev_of_chain[OF ch]) (simp add: q_def)
  have "hdr_length (join_memory st a m) q = k + (j + 8)" "\<not> hdr_used (join_memory st a m) q"
    using chq(3) small by (simp_all add: m hdr_set_length_same)
  moreover have "chain (join_memory st a m) (q + 8 + (k + (j + 8))) bs e"
  proof -
    have e: "a + 8 + j = q + 8 + (k + (j + 8))" by (simp add: chq(4))
    from h(2)[unfolded e] show ?thesis unfolding m by (rule chain_set_before) simp
  qed
  ultimately show "chain (join_memory st a m) q ((k + (j + 8), False) # bs) e" by simp
  show "chain (join_memory st a m) (heapStartPtr st) pre q" unfolding m using chq(1) by (intro chain_set_after) auto
  show "join_memory st a m x = m x" if "x < q \<or> q + 8 \<le> x" for x unfolding m using that by (rule set_hdr_other)
qed

lemma heap_free_spec:
  assumes rep: "heap_rep st bs" and bs: "bs = pre @ (l, True) # post"
  shows "\<exists>st'. heap_free (heapStartPtr st + span pre + 8) st = Some st' \<and>
    heap_rep st' (join_left pre (join_right l post)) \<and>
    heapStartPtr st' = heapStartPtr st \<and> heapEndPtr st' = heapEndPtr st \<and>
    (\<forall>x. x \<notin> headers (heapStartPtr st) bs \<longrightarrow> hmem st' x = hmem st x)"
proof -
  define a where "a = heapStartPtr st + span pre"
  have small: "span bs < 2 ^ 63" using rep by (simp add: heap_rep_def)
  obtain m j bs' where m: "heap_free (a + 8) st = Some (st\<lparr>hmem := join_memory st a m\<rparr>)" "join_right l post = (j, False) # bs'"
      "chain m (heapStartPtr st) pre a" "chain m a (join_right l post) (heapEndPtr st)"
      "\<forall>x. x \<notin> headers (heapStartPtr st) bs \<longrightarrow> m x = hmem st x"
    using heap_free_right[OF rep[unfolded bs]] unfolding bs a_def by blast
  let ?st = "st\<lparr>hmem := join_memory st a m\<rparr>"
  have "heap_rep ?st (join_left pre (join_right l post)) \<and>
      (\<forall>x. x \<notin> headers (heapStartPtr st) bs \<longrightarrow> join_memory st a m x = hmem st x)"
  proof (cases "pre = [] \<or> snd (last pre)")
    case True
    note j = join_memory_used[OF m(3) True]
    have "heap_rep ?st (pre @ join_right l post)"
      unfolding heap_rep_def chain_append using m(2-4) small join_right_span[of l post] by (simp add: j a_def[symmetric] bs)
    then show ?thesis using m(5) True by (simp add: j join_left_used)
  next
    case False
    then obtain pre' k where pre': "pre = pre' @ [(k, False)]"
      by (metis append_butlast_last_id prod.collapse)
    have "k + (j + 8) < 2 ^ 63" using small join_right_span[of l post] by (simp add: bs pre' m(2))
    note j = join_memory_free[OF m(3)[unfolded pre'] m(4)[unfolded m(2)] this]
    let ?q = "heapStartPtr st + span pre'"
    have "heap_rep ?st (join_left pre (join_right l post))"
      using j(1,2) small join_right_span[of l post]
      by (simp add: heap_rep_def m(2) pre' join_left_snoc chain_append bs)
    moreover have "{?q ..< ?q + 8} \<subseteq> headers (heapStartPtr st) bs" by (auto simp: bs pre' headers_append)
    then have "join_memory st a m x = m x" if "x \<notin> headers (heapStartPtr st) bs" for x
      using that j(3) by (meson atLeastLessThan_iff not_le subsetD)
    ultimately show ?thesis using m(5) by simp
  qed
  with m(1) show ?thesis by (auto simp: a_def)
qed

section \<open>Coalescing\<close>

lemma coalesced_Cons:
  "coalesced ((l, u) # bs) \<longleftrightarrow> coalesced bs \<and> (u \<or> bs = [] \<or> snd (hd bs))"
  by (cases "((l, u) # bs)" rule: coalesced.cases) auto

lemma coalesced_append:
  "coalesced (xs @ ys) \<longleftrightarrow> coalesced xs \<and> coalesced ys \<and>
    (xs = [] \<or> ys = [] \<or> snd (last xs) \<or> snd (hd ys))"
proof (induction xs)
  case (Cons b xs)
  obtain l u where b: "b = (l, u)" by (cases b)
  from Cons b show ?case by (cases xs) (auto simp: coalesced_Cons)
qed simp

lemma coalesced_place:
  "coalesced (pre @ (l, False) # post) \<Longrightarrow> coalesced (pre @ place sz l @ post)"
  by (auto simp: place_def coalesced_append coalesced_Cons)

lemma coalesced_release:
  assumes "coalesced (pre @ (l, True) # post)"
  shows "coalesced (join_left pre (join_right l post))"
proof -
  obtain j bs where jr: "join_right l post = (j, False) # bs" and c: "coalesced ((j, False) # bs)"
    using assms by (cases "(l, post)" rule: join_right.cases) (auto simp: coalesced_append coalesced_Cons)
  show ?thesis
  proof (cases "pre = [] \<or> snd (last pre)")
    case True
    with assms c show ?thesis by (simp add: jr join_left_used coalesced_append)
  next
    case False
    then obtain pre' k where pre': "pre = pre' @ [(k, False)]"
      by (metis append_butlast_last_id prod.collapse)
    with assms c show ?thesis by (simp add: jr join_left_snoc coalesced_append coalesced_Cons)
  qed
qed

text \<open>Releasing what was just allocated gives the block list back.\<close>

lemma release_place:
  assumes "coalesced (pre @ (l, False) # post)" and "sz \<le> l"
  shows "\<exists>k rest. place sz l @ post = (k, True) # rest \<and>
    join_left pre (join_right k rest) = pre @ (l, False) # post"
proof -
  have u: "pre = [] \<or> snd (last pre)" "post = [] \<or> snd (hd post)"
    using assms(1) by (auto simp: coalesced_append coalesced_Cons)
  show ?thesis
  proof (cases "sz + 16 < l")
    case True
    then show ?thesis using join_left_used[OF u(1)] by (simp add: place_def)
  next
    case False
    have "join_right l post = (l, False) # post" using u(2) by (cases "(l, post)" rule: join_right.cases) auto
    with False show ?thesis using join_left_used[OF u(1)] by (simp add: place_def)
  qed
qed

lemma chain_unique: "chain m a bs e \<Longrightarrow> chain m a bs' e \<Longrightarrow> bs = bs'"
proof (induction m a bs e arbitrary: bs' rule: chain.induct)
  case (1 m a e)
  then show ?case using chain_end[of m a bs' e] by (cases bs' rule: span.cases) auto
next
  case (2 m a l u bs e)
  show ?case
  proof (cases bs')
    case Nil
    with 2 show ?thesis using chain_end[of m "a + 8 + l" bs e] by auto
  next
    case (Cons b bs'')
    with 2 show ?thesis by (cases b) auto
  qed
qed

section \<open>Initialisation\<close>

definition INIT_HEAP_SIZE :: nat where
  "INIT_HEAP_SIZE = 4096 * 1024 * 4"

lemma heap_setup_rep:
  assumes "8 \<le> n" and "n < 2 ^ 63"
  shows "heap_rep (heap_setup a n m) [(n - 8, False)]"
  using assms by (simp add: heap_rep_def heap_setup_def Let_def hdr_set_used_same hdr_set_length_same)

section \<open>The contract of an allocator\<close>

text \<open>
  What the kernel relies on: \<open>rep s M\<close> says that the state \<open>s\<close> holds exactly
  the live blocks \<open>M\<close> (pointer to length).
\<close>

locale block_allocator =
  fixes alloc :: "nat \<Rightarrow> 's \<Rightarrow> nat \<times> 's"
    and free :: "nat \<Rightarrow> 's \<Rightarrow> 's option"
    and rep :: "'s \<Rightarrow> (nat \<rightharpoonup> nat) \<Rightarrow> bool"
    and byte_at :: "'s \<Rightarrow> nat \<Rightarrow> u8"
  assumes alloc_new: "rep s M \<Longrightarrow> alloc n s = (p, s') \<Longrightarrow> p \<noteq> 0 \<Longrightarrow>
      M p = None \<and> (\<exists>l \<ge> n. rep s' (M(p \<mapsto> l)))"
    and alloc_null: "rep s M \<Longrightarrow> alloc n s = (0, s') \<Longrightarrow> s' = s"
    and alloc_keeps: "rep s M \<Longrightarrow> alloc n s = (p, s') \<Longrightarrow> M q = Some k \<Longrightarrow> q \<le> x \<Longrightarrow> x < q + k \<Longrightarrow>
      byte_at s' x = byte_at s x"
    and free_live: "rep s M \<Longrightarrow> M p = Some l \<Longrightarrow> \<exists>s'. free p s = Some s' \<and> rep s' (M(p := None))"
    and free_keeps: "rep s M \<Longrightarrow> M p = Some l \<Longrightarrow> free p s = Some s' \<Longrightarrow> M q = Some k \<Longrightarrow>
      q \<le> x \<Longrightarrow> x < q + k \<Longrightarrow> byte_at s' x = byte_at s x"
    and live_disjoint: "rep s M \<Longrightarrow> M p = Some l \<Longrightarrow> M q = Some k \<Longrightarrow> p \<noteq> q \<Longrightarrow> p + l \<le> q \<or> q + k \<le> p"
begin

text \<open>\<open>L\<close> records the requested sizes: every request fits in its block.\<close>

lemma alloc_covers:
  assumes "rep s M" and "dom L = dom M" and "\<And>q k. L q = Some k \<Longrightarrow> k \<le> the (M q)"
    and "alloc n s = (p, s')" and "p \<noteq> 0"
  shows "\<exists>M'. rep s' M' \<and> dom (L(p \<mapsto> n)) = dom M' \<and> (\<forall>q k. (L(p \<mapsto> n)) q = Some k \<longrightarrow> k \<le> the (M' q))"
proof -
  from alloc_new[OF assms(1,4,5)] obtain l where "n \<le> l" "rep s' (M(p \<mapsto> l))" by blast
  with assms(2,3) show ?thesis by (intro exI[of _ "M(p \<mapsto> l)"]) auto
qed

lemma free_covers:
  assumes "rep s M" and "dom L = dom M" and "\<And>q k. L q = Some k \<Longrightarrow> k \<le> the (M q)"
    and "L p = Some n" and "free p s = Some s'"
  shows "\<exists>M'. rep s' M' \<and> dom (L(p := None)) = dom M' \<and> (\<forall>q k. (L(p := None)) q = Some k \<longrightarrow> k \<le> the (M' q))"
proof -
  from assms(2,4) obtain l where "M p = Some l" by auto
  from free_live[OF assms(1) this] assms(5) have "rep s' (M(p := None))" by auto
  with assms(2,3) show ?thesis by (intro exI[of _ "M(p := None)"]) auto
qed

lemma covered_disjoint:
  assumes "rep s M" and "dom L = dom M" and "\<And>q k. L q = Some k \<Longrightarrow> k \<le> the (M q)"
    and "L p = Some n" and "L q = Some k" and "p \<noteq> q"
  shows "p + n \<le> q \<or> q + k \<le> p"
proof -
  from assms(2,4,5) obtain l j where M: "M p = Some l" "M q = Some j" by (metis domD domI)
  from live_disjoint[OF assms(1) M assms(6)] assms(3)[OF assms(4)] assms(3)[OF assms(5)] M
  show ?thesis by auto
qed

end

section \<open>The kernel heap is such an allocator\<close>

definition heap_live :: "heap_state \<Rightarrow> (nat \<rightharpoonup> nat) \<Rightarrow> bool" where
  "heap_live st M \<longleftrightarrow> (\<exists>bs. heap_rep st bs \<and> coalesced bs \<and> M = map_of (payloads (heapStartPtr st) bs))"

lemma map_of_payloads: "map_of (payloads a bs) p = Some l \<longleftrightarrow> (p, l) \<in> set (payloads a bs)"
  by (rule map_of_eq_Some_iff[OF distinct_payloads])

lemma live_split:
  "(p, l) \<in> set (payloads a bs) \<Longrightarrow> \<exists>pre post. bs = pre @ (l, True) # post \<and> p = a + span pre + 8"
proof (induction a bs rule: payloads.induct)
  case (2 a k u bs)
  show ?case
  proof (cases "u \<and> p = a + 8 \<and> l = k")
    case True
    then show ?thesis by (intro exI[of _ "[]"] exI[of _ bs]) auto
  next
    case False
    with 2 obtain pre post where "bs = pre @ (l, True) # post" "p = a + 8 + k + span pre + 8"
      by (auto split: if_splits)
    then show ?thesis by (intro exI[of _ "(k, u) # pre"] exI[of _ post]) auto
  qed
qed simp

lemma payloads_place: "payloads a (place sz l) = [(a + 8, if sz + 16 < l then sz else l)]"
  by (simp add: place_def)

lemma payloads_joined:
  "payloads a (join_left pre (join_right l post)) = payloads a pre @ payloads (a + span pre + 8 + l) post"
proof -
  have r: "payloads b (join_left xs ((j, False) # ys)) = payloads b xs @ payloads (b + span xs + 8 + j) ys" for b xs j ys
    by (induction xs "(j, False) # ys" arbitrary: b rule: join_left.induct) (auto simp: add_ac split: prod.split)
  show ?thesis
    by (cases "(l, post)" rule: join_right.cases) (auto simp: r add_ac)
qed

lemma payloads_free_notin:
  assumes "(p, k) \<in> set (payloads a (pre @ (l, False) # post))"
  shows "p \<noteq> a + span pre + 8"
  using assms payload_in[of p k a pre] payload_in[of p k "a + span pre + 8 + l" post]
  by (auto simp: payloads_append)

lemma map_of_insert_mid: "distinct (map fst (xs @ (p, l) # ys)) \<Longrightarrow> map_of (xs @ (p, l) # ys) = (map_of (xs @ ys))(p \<mapsto> l)"
  by (induction xs) auto

lemma map_of_delete_mid: "distinct (map fst (xs @ (p, l) # ys)) \<Longrightarrow> map_of (xs @ ys) = (map_of (xs @ (p, l) # ys))(p := None)"
proof (rule ext)
  fix q assume d: "distinct (map fst (xs @ (p, l) # ys))"
  then have "p \<notin> fst ` set (xs @ ys)" by auto
  then have "map_of (xs @ ys) p = None" by (simp only: map_of_eq_None_iff not_False_eq_True)
  with map_of_insert_mid[OF d] show "map_of (xs @ ys) q = ((map_of (xs @ (p, l) # ys))(p := None)) q" by simp
qed

lemma heap_malloc_live:
  assumes rep: "heap_rep st bs" and c: "coalesced bs" and ff: "first_fit n bs = Some (pre, l, post)"
    and m: "heap_malloc n st = (p, st')"
  defines "k \<equiv> (if n + 16 < l then n else l)"
  shows "p = heapStartPtr st + span pre + 8" and "heap_rep st' (pre @ place n l @ post)"
    and "coalesced (pre @ place n l @ post)" and "heapStartPtr st' = heapStartPtr st"
    and "map_of (payloads (heapStartPtr st) bs) p = None"
    and "map_of (payloads (heapStartPtr st') (pre @ place n l @ post)) = (map_of (payloads (heapStartPtr st) bs))(p \<mapsto> k)"
    and "\<forall>x. x < p - 8 \<or> p + l \<le> x \<longrightarrow> hmem st' x = hmem st x"
proof -
  from first_fit_Some[OF ff] have bs: "bs = pre @ (l, False) # post" and nl: "n \<le> l" by auto
  from heap_malloc_Some[OF rep ff] m
  show p: "p = heapStartPtr st + span pre + 8" and r: "heap_rep st' (pre @ place n l @ post)"
    and s: "heapStartPtr st' = heapStartPtr st"
    and "\<forall>x. x < p - 8 \<or> p + l \<le> x \<longrightarrow> hmem st' x = hmem st x"
    using headers_subset[of "heapStartPtr st + span pre" "place n l"]
    by (auto simp: span_place[OF nl] subset_iff)
  show "coalesced (pre @ place n l @ post)" using c unfolding bs by (rule coalesced_place)
  show "map_of (payloads (heapStartPtr st) bs) p = None"
    using payloads_free_notin[of p _ "heapStartPtr st" pre l post] unfolding bs p map_of_eq_None_iff by force
  have pl: "payloads (heapStartPtr st) (pre @ place n l @ post) = payloads (heapStartPtr st) pre @
      (p, k) # payloads (heapStartPtr st + span pre + 8 + l) post"
    by (simp add: payloads_append payloads_place span_place[OF nl] p k_def add_ac)
  have pb: "payloads (heapStartPtr st) bs = payloads (heapStartPtr st) pre @
      payloads (heapStartPtr st + span pre + 8 + l) post"
    by (simp add: bs payloads_append)
  show "map_of (payloads (heapStartPtr st') (pre @ place n l @ post)) = (map_of (payloads (heapStartPtr st) bs))(p \<mapsto> k)"
    unfolding s pb pl
    by (rule map_of_insert_mid) (rule distinct_payloads[of "heapStartPtr st" "pre @ place n l @ post", unfolded pl])
qed

lemma heap_free_live:
  assumes rep: "heap_rep st bs" and c: "coalesced bs" and p: "map_of (payloads (heapStartPtr st) bs) p = Some l"
  shows "\<exists>st' bs'. heap_free p st = Some st' \<and> heap_rep st' bs' \<and> coalesced bs' \<and>
    heapStartPtr st' = heapStartPtr st \<and> heapEndPtr st' = heapEndPtr st \<and>
    map_of (payloads (heapStartPtr st') bs') = (map_of (payloads (heapStartPtr st) bs))(p := None) \<and>
    (\<forall>x. x \<notin> headers (heapStartPtr st) bs \<longrightarrow> hmem st' x = hmem st x)"
proof -
  from live_split p[unfolded map_of_payloads] obtain pre post where bs: "bs = pre @ (l, True) # post"
    and pa: "p = heapStartPtr st + span pre + 8" by blast
  let ?bs' = "join_left pre (join_right l post)"
  from heap_free_spec[OF rep bs] obtain st' where st': "heap_free p st = Some st'" "heap_rep st' ?bs'"
    "heapStartPtr st' = heapStartPtr st" "heapEndPtr st' = heapEndPtr st"
    "\<forall>x. x \<notin> headers (heapStartPtr st) bs \<longrightarrow> hmem st' x = hmem st x"
    unfolding pa by blast
  have pb: "payloads (heapStartPtr st) bs = payloads (heapStartPtr st) pre @
      (p, l) # payloads (heapStartPtr st + span pre + 8 + l) post"
    by (simp add: bs pa payloads_append)
  have "map_of (payloads (heapStartPtr st') ?bs') = (map_of (payloads (heapStartPtr st) bs))(p := None)"
    unfolding payloads_joined st'(3) pb
    by (rule map_of_delete_mid) (rule distinct_payloads[of "heapStartPtr st" bs, unfolded pb])
  with st' coalesced_release[OF c[unfolded bs]] show ?thesis by blast
qed

lemma heap_malloc_null: "heap_rep st bs \<Longrightarrow> heap_malloc n st = (0, st') \<Longrightarrow> first_fit n bs = None \<and> st' = st"
  using heap_malloc_None[of st bs n] heap_malloc_Some[of st bs n]
  by (cases "first_fit n bs") (auto split: prod.splits)

lemma heap_malloc_nonnull:
  assumes "heap_rep st bs" "heap_malloc n st = (p, st')" "p \<noteq> 0"
  obtains pre l post where "first_fit n bs = Some (pre, l, post)"
  using heap_malloc_None[of st bs n] assms by (cases "first_fit n bs") auto

interpretation hp: block_allocator heap_malloc heap_free heap_live hmem
proof unfold_locales
  fix s M n p s'
  assume live: "heap_live s M" and m: "heap_malloc n s = (p, s')"
  from live obtain bs where rep: "heap_rep s bs" "coalesced bs" and M: "M = map_of (payloads (heapStartPtr s) bs)"
    by (auto simp: heap_live_def)
  show "M p = None \<and> (\<exists>l \<ge> n. heap_live s' (M(p \<mapsto> l)))" if nz: "p \<noteq> 0"
  proof -
    obtain pre l post where ff: "first_fit n bs = Some (pre, l, post)"
      using heap_malloc_nonnull[OF rep(1) m nz] .
    note h = heap_malloc_live[OF rep ff m]
    let ?k = "if n + 16 < l then n else l"
    have "n \<le> ?k" using first_fit_Some[OF ff] by simp
    moreover have "heap_live s' (M(p \<mapsto> ?k))" unfolding heap_live_def using h(2,3,6) M by metis
    ultimately show ?thesis using h(5) M by blast
  qed
  show "hmem s' x = hmem s x" if q: "M q = Some k" "q \<le> x" "x < q + k" for q k x
  proof (cases "p = 0")
    case True
    with m heap_malloc_null[OF rep(1)] show ?thesis by auto
  next
    case False
    obtain pre l post where ff: "first_fit n bs = Some (pre, l, post)"
      using heap_malloc_nonnull[OF rep(1) m False] .
    from first_fit_Some[OF ff] have bs: "bs = pre @ (l, False) # post" by simp
    note h = heap_malloc_live[OF rep ff m]
    have "(q, k) \<in> set (payloads (heapStartPtr s) pre) \<union> set (payloads (heapStartPtr s + span pre + 8 + l) post)"
      using q(1) M by (auto simp: map_of_payloads bs payloads_append)
    then have "x < p - 8 \<or> p + l \<le> x"
      using payload_in[of q k "heapStartPtr s" pre] payload_in[of q k "heapStartPtr s + span pre + 8 + l" post]
        q(2,3) h(1) by auto
    with h(7) show ?thesis by blast
  qed
next
  fix s M n s' assume "heap_live s M" "heap_malloc n s = (0, s')"
  then show "s' = s" by (auto simp: heap_live_def dest: heap_malloc_null)
next
  fix s M p l
  assume "heap_live s M" and p: "M p = Some l"
  then obtain bs where rep: "heap_rep s bs" "coalesced bs" and M: "M = map_of (payloads (heapStartPtr s) bs)"
    by (auto simp: heap_live_def)
  from heap_free_live[OF rep p[unfolded M]] obtain s1 bs' where s1: "heap_free p s = Some s1" "heap_rep s1 bs'" "coalesced bs'"
    "map_of (payloads (heapStartPtr s1) bs') = M(p := None)"
    "\<forall>x. x \<notin> headers (heapStartPtr s) bs \<longrightarrow> hmem s1 x = hmem s x" unfolding M by blast
  show "\<exists>s'. heap_free p s = Some s' \<and> heap_live s' (M(p := None))"
    unfolding heap_live_def using s1 by metis
  show "hmem s' x = hmem s x" if "heap_free p s = Some s'" "M q = Some k" "q \<le> x" "x < q + k" for s' q k x
    using that s1(1,5) payload_not_header[of q k "heapStartPtr s" bs x] by (simp add: M map_of_payloads)
next
  fix s M p l q k
  assume "heap_live s M" "M p = Some l" "M q = Some k" "p \<noteq> q"
  then show "p + l \<le> q \<or> q + k \<le> p"
    using payloads_disjoint[of p l "heapStartPtr s" _ q k] by (fastforce simp: heap_live_def map_of_payloads)
qed

end
