(* ===== verification/VMM.thy ===== *)
theory VMM
  imports PagingSpec HeapSpec
begin

text \<open>
  \<^verbatim>\<open>kernel/memory/virtual/vmm/vmm.cpp\<close>, \<open>init_heap_alloc\<close> of \<^verbatim>\<open>heap.cpp\<close> and
  \<^verbatim>\<open>memory_init.cpp\<close>: virtual page ranges backed by physical frames. The state is
  the bitmap of the virtual pages next to the paging state.
\<close>

section \<open>State and operations\<close>

definition VIRTUAL_OFFSET_VMM :: u64 where
  "VIRTUAL_OFFSET_VMM = 0xFFFFB00000000000"

record vmm_state =
  paging :: paging_state
  vmm_bitmap :: Bitmap

text \<open>The address of a page of the bitmap.\<close>

definition vmm_addr :: "nat \<Rightarrow> u64" where
  "vmm_addr page = of_nat page * PAGE_SIZE + VIRTUAL_OFFSET_VMM"

text \<open>One iteration of the loop in \<open>vmm_malloc_pages\<close>: \<open>Inl\<close> is its early return.\<close>

definition vmm_map_step :: "nat \<Rightarrow> nat \<Rightarrow> nat \<Rightarrow> bool \<times> vmm_state \<Rightarrow> (vmm_state + bool \<times> vmm_state) option" where
  "vmm_map_step pageRangeBegin reqPages = (\<lambda>i (success, st). do {
     let currVirtAddr = vmm_addr (pageRangeBegin + i);
     (currPhysAddr, fr) \<leftarrow> pmm_malloc_page (frames (paging st));
     let st = st\<lparr>paging := (paging st)\<lparr>frames := fr\<rparr>\<rparr>;
     if currPhysAddr = PMM_MALLOC_FAILED then do {
       bm \<leftarrow> write_bits_in_range_from (vmm_bitmap st) reqPages pageRangeBegin False;
       Some (Inl (st\<lparr>vmm_bitmap := bm\<rparr>)) }
     else do {
       (ok, pg) \<leftarrow> map_page currVirtAddr currPhysAddr PAGE_FLAG_WRITE (paging st);
       Some (Inr (if \<not> ok then False else success, st\<lparr>paging := pg\<rparr>)) } })"

definition vmm_malloc_pages :: "u64 \<Rightarrow> vmm_state \<Rightarrow> (u64 \<times> vmm_state) option" where
  "vmm_malloc_pages byteAmount st = do {
     let reqPages = unat (divide_round_up byteAmount PAGE_SIZE);
     (pageRangeBegin, success) \<leftarrow> find_free_range (vmm_bitmap st) reqPages;
     if \<not> success then Some (0, st)
     else do {
       bm \<leftarrow> write_bits_in_range_from (vmm_bitmap st) reqPages pageRangeBegin True;
       r \<leftarrow> for_until (vmm_map_step pageRangeBegin reqPages)
         0 reqPages (success, st\<lparr>vmm_bitmap := bm\<rparr>);
       Some (case r of
           Inl st \<Rightarrow> (0, st)
         | Inr (success, st) \<Rightarrow> if \<not> success then (0, st) else (vmm_addr pageRangeBegin, st)) } }"

text \<open>One iteration of the loop in \<open>vmm_free_pages\<close>.\<close>

definition vmm_free_step :: "u64 \<Rightarrow> nat \<Rightarrow> bool \<times> nat \<times> vmm_state \<Rightarrow> (bool \<times> nat \<times> vmm_state) option" where
  "vmm_free_step virtAddr = (\<lambda>i (success, currPage, st). do {
     let currVirtAddr = virtAddr + of_nat i * PAGE_SIZE;
     (pageTableEntry, pg) \<leftarrow> page_walk currVirtAddr (paging st);
     let st = st\<lparr>paging := pg\<rparr>;
     case pageTableEntry of
       None \<Rightarrow> Some (False, currPage, st)
     | Some a \<Rightarrow>
         if \<not> Present (pt_mem pg a) then Some (False, currPage, st)
         else do {
           bm \<leftarrow> bit_write (bitmap (vmm_bitmap st)) currPage False;
           let physAddr = push_bit 12 (ucast (Address (pt_mem pg a)));
           (ok, pg) \<leftarrow> free_page currVirtAddr pg;
           (ok', fr) \<leftarrow> pmm_free physAddr PAGE_SIZE (frames pg);
           Some (success \<and> ok \<and> ok', Suc currPage,
             st\<lparr>paging := pg\<lparr>frames := fr\<rparr>, vmm_bitmap := (vmm_bitmap st)\<lparr>bitmap := bm\<rparr>\<rparr>) } })"

definition vmm_free_pages :: "u64 \<Rightarrow> u64 \<Rightarrow> vmm_state \<Rightarrow> (bool \<times> vmm_state) option" where
  "vmm_free_pages virtAddr byteAmount st = do {
     let reqPages = unat (divide_round_up byteAmount PAGE_SIZE);
     let currPage = unat ((virtAddr - VIRTUAL_OFFSET_VMM) div PAGE_SIZE);
     (success, _, st) \<leftarrow> for_range (vmm_free_step virtAddr)
       0 reqPages (True, currPage, st);
     Some (success, st) }"

text \<open>\<open>contents a n\<close> are the \<open>n\<close> bytes found at the fresh address \<open>a\<close>.\<close>

definition init_vmm :: "u64 \<Rightarrow> (u64 \<Rightarrow> nat \<Rightarrow> u8 list) \<Rightarrow> vmm_state \<Rightarrow> (bool \<times> vmm_state) option" where
  "init_vmm hhdm_offset contents st = do {
     let cnt = count (pmm_bitmap (frames (paging st)));
     let st = st\<lparr>vmm_bitmap := (vmm_bitmap st)\<lparr>count := cnt\<rparr>\<rparr>;
     if cnt = 0 then Some (False, st)
     else do {
       let bytes = divide_round_up (of_nat cnt) 8;
       (a, fr) \<leftarrow> pmm_malloc_addr hhdm_offset bytes (frames (paging st));
       let st = st\<lparr>paging := (paging st)\<lparr>frames := fr\<rparr>\<rparr>;
       if a = 0 then Some (False, st)
       else do {
         bm \<leftarrow> bitmap_clear \<lparr>bitmap = contents a (unat bytes), count = cnt\<rparr>;
         Some (True, st\<lparr>vmm_bitmap := bm\<rparr>) } } }"

text \<open>The heap lives in the first range of the virtual memory manager; \<open>m\<close> is the byte memory
  behind it.\<close>

definition init_heap_alloc :: "mem \<Rightarrow> vmm_state \<Rightarrow> (heap_state option \<times> vmm_state) option" where
  "init_heap_alloc m st = do {
     (initialHeapBlockPtr, st) \<leftarrow> vmm_malloc_pages (of_nat INIT_HEAP_SIZE) st;
     if initialHeapBlockPtr = 0 then Some (None, st)
     else Some (Some (heap_setup (unat initialHeapBlockPtr) INIT_HEAP_SIZE m), st) }"

definition memory_init :: "u64 \<Rightarrow> memmap_entry list \<Rightarrow> (u64 \<Rightarrow> nat \<Rightarrow> u8 list) \<Rightarrow> mem \<Rightarrow> table_mem \<Rightarrow> u64 \<Rightarrow>
    (heap_state option \<times> vmm_state) option" where
  "memory_init hhdm_offset memmap contents m tables root = do {
     fr \<leftarrow> memory_init_pmm hhdm_offset memmap;
     let st = \<lparr>paging = \<lparr>pt_mem = tables, cr3 = root, invalidated = [], frames = fr\<rparr>,
               vmm_bitmap = \<lparr>bitmap = [], count = 0\<rparr>\<rparr>;
     (ok, st) \<leftarrow> init_vmm hhdm_offset contents st;
     if \<not> ok then Some (None, st) else init_heap_alloc m st }"

section \<open>Virtual page addresses\<close>

lemma vmm_addr_page: "vmm_addr p = of_nat (p + 0xFFFFB00000000) * PAGE_SIZE"
  by (simp add: vmm_addr_def VIRTUAL_OFFSET_VMM_def algebra_simps)

lemma vmm_addr_add: "vmm_addr s + of_nat i * PAGE_SIZE = vmm_addr (s + i)"
  by (simp add: vmm_addr_def algebra_simps)

lemma vpage_vmm_addr:
  assumes "p < 2 ^ 32"
  shows "unat (vpage (vmm_addr p)) = 0xB00000000 + p"
proof -
  have b: "p + 0xFFFFB00000000 < 2 ^ 52" using assms by simp
  have "unat (drop_bit 12 (vmm_addr p)) = p + 0xFFFFB00000000"
    using page_addr_page[OF b] unfolding vmm_addr_page drop_bit_eq_div by simp
  then have "unat (vpage (vmm_addr p)) = take_bit 36 (p + 0xFFFFB00000000)"
    by (simp only: vpage_def unsigned_take_bit_eq)
  also have "\<dots> = ((0xB00000000 + p) + 0xFFFF * 2 ^ 36) mod 2 ^ 36"
    by (simp add: take_bit_eq_mod add.commute)
  also have "\<dots> = (0xB00000000 + p) mod 2 ^ 36" by (rule mod_mult_self1)
  also have "\<dots> = 0xB00000000 + p" using assms by (intro mod_less) simp
  finally show ?thesis .
qed

lemma vpage_vmm_inject: "p < 2 ^ 32 \<Longrightarrow> q < 2 ^ 32 \<Longrightarrow> vpage (vmm_addr p) = vpage (vmm_addr q) \<Longrightarrow> p = q"
  by (drule arg_cong[where f = unat], simp only: vpage_vmm_addr)

lemma vmm_addr_nonzero:
  assumes "p < 2 ^ 32"
  shows "vmm_addr p \<noteq> 0"
proof
  assume "vmm_addr p = 0"
  then have "unat (vpage (vmm_addr p)) = 0" by (simp only: vpage_def) simp
  then show False unfolding vpage_vmm_addr[OF assms] by simp
qed

lemma vmm_addr_index:
  assumes "p < 2 ^ 32"
  shows "unat ((vmm_addr p - VIRTUAL_OFFSET_VMM) div PAGE_SIZE) = p"
proof -
  have b: "p < 2 ^ 52" using assms by simp
  show ?thesis using page_addr_page[OF b] by (simp add: vmm_addr_def)
qed

section \<open>The invariant\<close>

text \<open>The bitmap stays below 16 TiB of virtual space, so page numbers never wrap.\<close>

definition vmm_ok :: "nat set \<Rightarrow> vmm_state \<Rightarrow> bool" where
  "vmm_ok X st \<longleftrightarrow> paging_ok X (paging st) \<and> bitmap_wf (vmm_bitmap st) \<and> count (vmm_bitmap st) \<le> 2 ^ 32"

text \<open>\<open>page_maps pg s fs\<close>: the pages from \<open>s\<close> on are mapped, writable, to the frames \<open>fs\<close>.\<close>

definition page_maps :: "paging_state \<Rightarrow> nat \<Rightarrow> nat list \<Rightarrow> bool" where
  "page_maps pg s fs \<longleftrightarrow> (\<forall>j < length fs. \<exists>e. translate pg (vmm_addr (s + j)) = Some e \<and>
     next_table e = frame_addr (fs ! j) \<and> ReadWrite e)"

definition other_pages_same :: "paging_state \<Rightarrow> paging_state \<Rightarrow> nat \<Rightarrow> nat \<Rightarrow> bool" where
  "other_pages_same pg pg' s n \<longleftrightarrow>
     (\<forall>va. (\<forall>j < n. vpage va \<noteq> vpage (vmm_addr (s + j))) \<longrightarrow> translate pg' va = translate pg va)"

end
