(* ===== verification/VMMSpec.thy ===== *)
theory VMMSpec
  imports VMM
begin

text \<open>
  The contract of the virtual memory manager: a successful allocation maps every
  page of a free range, writable, to its own frame that was free, and freeing the
  range takes the mappings away and gives exactly those frames back.
\<close>

section \<open>The allocation loop\<close>

definition malloc_inv :: "nat set \<Rightarrow> vmm_state \<Rightarrow> nat \<Rightarrow> nat \<Rightarrow> Bitmap \<Rightarrow> nat \<Rightarrow> bool \<times> vmm_state \<Rightarrow> bool" where
  "malloc_inv X st0 s n bm i r \<longleftrightarrow> (\<exists>suc st fs. r = (suc, st) \<and> length fs = i \<and> distinct fs \<and>
     set fs \<subseteq> free_pages (frames (paging st0)) \<and> paging_ok (X \<union> set fs) (paging st) \<and>
     (suc \<longrightarrow> page_maps (paging st) s fs) \<and> other_pages_same (paging st0) (paging st) s n \<and>
     vmm_bitmap st = bm \<and> free_pages (frames (paging st)) \<subseteq> free_pages (frames (paging st0)) \<and>
     count (pmm_bitmap (frames (paging st))) = count (pmm_bitmap (frames (paging st0))) \<and>
     free_count (paging st0) \<le> free_count (paging st) + 4 * i \<and>
     (\<not> suc \<longrightarrow> free_count (paging st0) < 4 * n))"

lemma malloc_invI:
  assumes "length fs = i" "distinct fs" "set fs \<subseteq> free_pages (frames (paging st0))"
    and "paging_ok (X \<union> set fs) (paging st)" "suc \<longrightarrow> page_maps (paging st) s fs"
    and "other_pages_same (paging st0) (paging st) s n" "vmm_bitmap st = bm"
    and "free_pages (frames (paging st)) \<subseteq> free_pages (frames (paging st0))"
    and "count (pmm_bitmap (frames (paging st))) = count (pmm_bitmap (frames (paging st0)))"
    and "free_count (paging st0) \<le> free_count (paging st) + 4 * i" "\<not> suc \<longrightarrow> free_count (paging st0) < 4 * n"
  shows "malloc_inv X st0 s n bm i (suc, st)"
  unfolding malloc_inv_def by (intro exI conjI) (rule refl assms)+

lemma paging_ok_take_frame:
  assumes ok: "paging_ok X pg" and a: "pmm_malloc_page (frames pg) = Some (of_nat k * PAGE_SIZE, fr)"
    "k \<in> free_pages (frames pg)" "pmm_ok fr" "free_pages fr = free_pages (frames pg) - {k}"
  shows "paging_ok (insert k X) (pg\<lparr>frames := fr\<rparr>)"
proof -
  have "free_pages fr \<union> insert k X = free_pages (frames pg) \<union> X" using a(2,4) by auto
  with ok a(3,4) show ?thesis by (auto simp: paging_ok_def)
qed

lemma translate_frames [simp]: "translate (pg\<lparr>frames := fr\<rparr>) va = translate pg va"
  by (simp add: translate_def)

lemma mapped_frame:
  assumes "mapped_entry (frame_addr k) PAGE_FLAG_WRITE e" "k < 2 ^ 40"
  shows "next_table e = frame_addr k" and "ReadWrite e"
  using assms next_table_frame[OF assms(2)] by (simp_all add: mapped_entry_def next_table_def PAGE_FLAG_WRITE_def)

lemma page_maps_snoc:
  assumes "page_maps pg s fs" "s + length fs < 2 ^ 32"
    and "\<And>va'. translate pg' va' = (if vpage va' = vpage (vmm_addr (s + length fs)) then Some e else translate pg va')"
    and "next_table e = frame_addr k" "ReadWrite e"
  shows "page_maps pg' s (fs @ [k])"
  unfolding page_maps_def
proof (intro allI impI)
  fix j assume j: "j < length (fs @ [k])"
  show "\<exists>e. translate pg' (vmm_addr (s + j)) = Some e \<and> next_table e = frame_addr ((fs @ [k]) ! j) \<and> ReadWrite e"
  proof (cases "j = length fs")
    case True
    with assms(3-5) show ?thesis by simp
  next
    case False
    with j have jl: "j < length fs" by simp
    then have "s + j < 2 ^ 32" "s + j \<noteq> s + length fs" using assms(2) by simp_all
    with assms(2) have "vpage (vmm_addr (s + j)) \<noteq> vpage (vmm_addr (s + length fs))"
      using vpage_vmm_inject by blast
    with assms(1,3) jl show ?thesis by (simp add: page_maps_def nth_append)
  qed
qed

lemma other_pages_step:
  assumes "other_pages_same pg0 pg s n" "i < n"
    and "\<And>va'. vpage va' \<noteq> vpage (vmm_addr (s + i)) \<Longrightarrow> translate pg' va' = translate pg va'"
  shows "other_pages_same pg0 pg' s n"
  using assms by (simp add: other_pages_same_def)

lemma malloc_step:
  assumes inv: "malloc_inv X st0 s n bm i r" and i: "i < n" and sn: "s + n \<le> 2 ^ 32"
    and bm: "bitmap_wf bm" "s + n \<le> count bm" "count bm \<le> 2 ^ 32"
  shows "(\<exists>r'. vmm_map_step s n i r = Some (Inr r') \<and> malloc_inv X st0 s n bm (Suc i) r') \<or>
    (\<exists>st'. vmm_map_step s n i r = Some (Inl st') \<and> other_pages_same (paging st0) (paging st') s n \<and>
      write_bits_in_range_from bm n s False = Some (vmm_bitmap st') \<and> free_count (paging st0) < 4 * n \<and>
      (\<exists>fs. length fs = i \<and> distinct fs \<and> set fs \<subseteq> free_pages (frames (paging st0)) \<and>
        paging_ok (X \<union> set fs) (paging st')))"
proof -
  from inv obtain suc st fs where r: "r = (suc, st)" and fs: "length fs = i" "distinct fs"
    "set fs \<subseteq> free_pages (frames (paging st0))" and ok: "paging_ok (X \<union> set fs) (paging st)"
    and maps: "suc \<longrightarrow> page_maps (paging st) s fs" and oth: "other_pages_same (paging st0) (paging st) s n"
    and b: "vmm_bitmap st = bm" and fr: "free_pages (frames (paging st)) \<subseteq> free_pages (frames (paging st0))"
    and cnt: "count (pmm_bitmap (frames (paging st))) = count (pmm_bitmap (frames (paging st0)))"
    and fc: "free_count (paging st0) \<le> free_count (paging st) + 4 * i" "\<not> suc \<longrightarrow> free_count (paging st0) < 4 * n"
    unfolding malloc_inv_def by blast
  have pok: "pmm_ok (frames (paging st))" using ok by (simp add: paging_ok_def)
  from pok show ?thesis
  proof (cases rule: pmm.alloc_total)
    case none
    have c64: "count bm < 2 ^ 64" using bm(3) by simp
    obtain bm' where w: "write_bits_in_range_from bm n s False = Some bm'"
      using write_bits_range[OF bm(1,2) c64] by blast
    have "vmm_map_step s n i r = Some (Inl (st\<lparr>vmm_bitmap := bm'\<rparr>))"
      using none(1) w b by (simp add: r vmm_map_step_def)
    moreover have "other_pages_same (paging st0) (paging (st\<lparr>vmm_bitmap := bm'\<rparr>)) s n"
      "write_bits_in_range_from bm n s False = Some (vmm_bitmap (st\<lparr>vmm_bitmap := bm'\<rparr>))"
      "free_count (paging st0) < 4 * n"
      "paging_ok (X \<union> set fs) (paging (st\<lparr>vmm_bitmap := bm'\<rparr>))"
      using w oth none(2) ok fc(1) i by simp_all
    ultimately show ?thesis
      by (intro disjI2 exI[of _ "st\<lparr>vmm_bitmap := bm'\<rparr>"] exI[of _ fs] conjI) (assumption | rule fs)+
  next
    case (page k fr')
    let ?pg = "(paging st)\<lparr>frames := fr'\<rparr>"
    have ok1: "paging_ok (insert k (X \<union> set fs)) ?pg" by (rule paging_ok_take_frame[OF ok page(1,2,5,6)])
    have set_eq: "insert k (X \<union> set fs) = X \<union> set (fs @ [k])" by auto
    have k: "k < 2 ^ 40" "k \<notin> set fs"
      using ok page(2) by (auto simp: paging_ok_def)
    have new: "length (fs @ [k]) = Suc i" "distinct (fs @ [k])" "set (fs @ [k]) \<subseteq> free_pages (frames (paging st0))"
      using fs k(2) page(2) fr by auto
    have fr1: "free_pages fr' \<subseteq> free_pages (frames (paging st0))" using page(6) fr by auto
    have cnt1: "count (pmm_bitmap fr') = count (pmm_bitmap (frames (paging st0)))"
      using pmm_malloc_page_count[OF pok page(1)] cnt by simp
    have fc1: "free_count (paging st) = free_count ?pg + 1"
      using card.remove[OF finite_free_pages page(2)] by (simp add: page(6))
    from ok1 show ?thesis
    proof (cases rule: map_page_spec[where va = "vmm_addr (s + i)" and pa = "frame_addr k" and flags = PAGE_FLAG_WRITE])
      case (mapped e pg)
      have si: "s + length fs < 2 ^ 32" using fs(1) i sn by simp
      have tr: "\<And>va'. translate pg va' = (if vpage va' = vpage (vmm_addr (s + length fs)) then Some e else translate (paging st) va')"
        using mapped(4) fs(1) by simp
      have "suc \<longrightarrow> page_maps pg s (fs @ [k])"
      proof
        assume suc
        with maps have "page_maps (paging st) s fs" by simp
        then show "page_maps pg s (fs @ [k])"
        proof (rule page_maps_snoc)
          show "s + length fs < 2 ^ 32" by (rule si)
          show "translate pg va' = (if vpage va' = vpage (vmm_addr (s + length fs)) then Some e else translate (paging st) va')" for va'
            by (rule tr)
          show "next_table e = frame_addr k" "ReadWrite e" by (rule mapped_frame[OF mapped(3) k(1)])+
        qed
      qed
      moreover have "other_pages_same (paging st0) pg s n"
        by (rule other_pages_step[OF oth i]) (use mapped(4) in simp)
      ultimately have "malloc_inv X st0 s n bm (Suc i) (suc, st\<lparr>paging := pg\<rparr>)"
        using mapped(2)[unfolded set_eq] mapped(7,8,9) b fr1 cnt1 fc fc1 by (intro malloc_invI[OF new]) simp_all
      moreover have "vmm_map_step s n i r = Some (Inr (suc, st\<lparr>paging := pg\<rparr>))"
        using page(1,4) mapped(1) by (simp add: r frame_addr_def vmm_map_step_def)
      ultimately show ?thesis by (intro disjI1 exI[of _ "(suc, st\<lparr>paging := pg\<rparr>)"] conjI)
    next
      case (failed pg)
      have pg: "paging_ok (X \<union> set (fs @ [k])) pg" "\<And>va. translate pg va = translate (paging st) va"
        "free_pages (frames pg) \<subseteq> free_pages fr'" "count (pmm_bitmap (frames pg)) = count (pmm_bitmap fr')"
        "free_count (paging st0) < 4 * n" "free_count (paging st0) < 4 * Suc i"
        using failed(2,4) fc(1) fc1 i unfolding same_view_def set_eq by simp_all
      have "other_pages_same (paging st0) pg s n"
        by (rule other_pages_step[OF oth i]) (simp add: pg(2))
      then have "malloc_inv X st0 s n bm (Suc i) (False, st\<lparr>paging := pg\<rparr>)"
        using pg(1,3-6) b fr1 cnt1 by (intro malloc_invI[OF new]) simp_all
      moreover have "vmm_map_step s n i r = Some (Inr (False, st\<lparr>paging := pg\<rparr>))"
        using page(1,4) failed(1) by (simp add: r frame_addr_def vmm_map_step_def)
      ultimately show ?thesis by (intro disjI1 exI[of _ "(False, st\<lparr>paging := pg\<rparr>)"] conjI)
    qed
  qed
qed

text \<open>All outcomes of an allocation.\<close>

lemma vmm_malloc_cases:
  assumes ok: "vmm_ok X st"
  obtains (mapped) s fs st' where "vmm_malloc_pages bytes st = Some (vmm_addr s, st')"
      "free_run (vmm_bitmap st) s (pages_for bytes)" "0 < pages_for bytes"
      "write_bits_in_range_from (vmm_bitmap st) (pages_for bytes) s True = Some (vmm_bitmap st')"
      "length fs = pages_for bytes" "distinct fs" "set fs \<subseteq> free_pages (frames (paging st))"
      "vmm_ok (X \<union> set fs) st'" "page_maps (paging st') s fs"
      "other_pages_same (paging st) (paging st') s (pages_for bytes)"
      "free_pages (frames (paging st')) \<subseteq> free_pages (frames (paging st))"
      "count (pmm_bitmap (frames (paging st'))) = count (pmm_bitmap (frames (paging st)))"
    | (no_range) "vmm_malloc_pages bytes st = Some (0, st)"
      "0 < pages_for bytes \<longrightarrow> (\<forall>s. s + pages_for bytes \<le> count (vmm_bitmap st) \<longrightarrow>
         \<not> free_run (vmm_bitmap st) s (pages_for bytes))"
    | (no_frame) s st' where "vmm_malloc_pages bytes st = Some (0, st')"
      "free_run (vmm_bitmap st) s (pages_for bytes)"
      "other_pages_same (paging st) (paging st') s (pages_for bytes)"
      "\<exists>X'. vmm_ok X' st' \<and> X \<subseteq> X'" "free_count (paging st) < 4 * pages_for bytes"
proof -
  let ?n = "pages_for bytes" and ?b = "vmm_bitmap st"
  have wf: "bitmap_wf ?b" and c: "count ?b \<le> 2 ^ 32" and pok: "paging_ok X (paging st)"
    using ok by (simp_all add: vmm_ok_def)
  from find_free_range_cases[OF wf, of ?n] show thesis
  proof (elim disjE exE conjE)
    assume f: "find_free_range ?b ?n = Some (0, False)"
      "0 < ?n \<longrightarrow> (\<forall>s. s + ?n \<le> count ?b \<longrightarrow> \<not> free_run ?b s ?n)"
    show thesis by (rule no_range[OF _ f(2)]) (simp add: vmm_malloc_pages_def f(1))
  next
    fix s assume f: "find_free_range ?b ?n = Some (s, True)" "free_run ?b s ?n" "0 < ?n"
    have sn: "s + ?n \<le> count ?b" by (rule free_run_bound[OF f(2,3)])
    have c64: "count ?b < 2 ^ 64" using c by simp
    obtain bm where bm: "write_bits_in_range_from ?b ?n s True = Some bm" "count bm = count ?b" "bitmap_wf bm"
      using write_bits_range[OF wf sn c64] by blast
    let ?st1 = "st\<lparr>vmm_bitmap := bm\<rparr>"
    have bounds: "s + ?n \<le> 2 ^ 32" "s + ?n \<le> count bm" "count bm \<le> 2 ^ 32" using sn c bm(2) by simp_all
    have init: "malloc_inv X st s ?n bm 0 (True, ?st1)"
      by (rule malloc_invI[where fs = "[]"]) (simp_all add: pok page_maps_def other_pages_same_def)
    let ?Q = "\<lambda>st'. other_pages_same (paging st) (paging st') s ?n \<and>
      write_bits_in_range_from bm ?n s False = Some (vmm_bitmap st') \<and> free_count (paging st) < 4 * ?n \<and>
      (\<exists>fs. distinct fs \<and> set fs \<subseteq> free_pages (frames (paging st)) \<and> paging_ok (X \<union> set fs) (paging st'))"
    have "(\<exists>r. for_until (vmm_map_step s ?n) 0 ?n (True, ?st1) = Some (Inr r) \<and> malloc_inv X st s ?n bm (0 + ?n) r) \<or>
      (\<exists>st'. for_until (vmm_map_step s ?n) 0 ?n (True, ?st1) = Some (Inl st') \<and> ?Q st')"
    proof (rule for_until_rule[where I = "malloc_inv X st s ?n bm", OF init])
      fix i r assume i: "0 \<le> i" "i < 0 + ?n" and inv: "malloc_inv X st s ?n bm i r"
      then show "(\<exists>r'. vmm_map_step s ?n i r = Some (Inr r') \<and> malloc_inv X st s ?n bm (Suc i) r') \<or>
          (\<exists>st'. vmm_map_step s ?n i r = Some (Inl st') \<and> ?Q st')"
        using malloc_step[OF inv _ bounds(1) bm(3) bounds(2,3)] by (simp only: add_0) blast
    qed
    then consider (finished) r where "for_until (vmm_map_step s ?n) 0 ?n (True, ?st1) = Some (Inr r)"
        "malloc_inv X st s ?n bm ?n r"
      | (out) st' where "for_until (vmm_map_step s ?n) 0 ?n (True, ?st1) = Some (Inl st')" "?Q st'"
      by (simp only: add_0) blast
    then show thesis
    proof cases
      case finished
      from finished(2) obtain suc st' fs where r: "r = (suc, st')" and fs: "length fs = ?n" "distinct fs"
        "set fs \<subseteq> free_pages (frames (paging st))" "paging_ok (X \<union> set fs) (paging st')"
        "suc \<longrightarrow> page_maps (paging st') s fs" "other_pages_same (paging st) (paging st') s ?n"
        "vmm_bitmap st' = bm" "free_pages (frames (paging st')) \<subseteq> free_pages (frames (paging st))"
        "count (pmm_bitmap (frames (paging st'))) = count (pmm_bitmap (frames (paging st)))"
        "\<not> suc \<longrightarrow> free_count (paging st) < 4 * ?n"
        unfolding malloc_inv_def by blast
      have vok: "vmm_ok (X \<union> set fs) st'" using fs(4,7) bm(3) bounds(3) by (simp add: vmm_ok_def)
      have e: "vmm_malloc_pages bytes st = Some (if suc then (vmm_addr s, st') else (0, st'))"
        using f(1) bm(1) finished(1) by (simp add: vmm_malloc_pages_def r)
      show thesis
      proof (cases suc)
        case True
        with e fs(5) bm(1) fs(7) show thesis
          by (intro mapped[OF _ f(2,3) _ fs(1,2,3) vok _ fs(6,8,9)]) simp_all
      next
        case False
        with e show thesis by (intro no_frame[OF _ f(2) fs(6)]) (use vok fs(10) False in auto)
      qed
    next
      case out
      obtain fs where fs: "paging_ok (X \<union> set fs) (paging st')" using out(2) by blast
      have c64': "count bm < 2 ^ 64" using bounds(3) by simp
      have "vmm_ok (X \<union> set fs) st'"
        using write_bits_range[OF bm(3) bounds(2) c64', of False] out(2) fs bounds(3) by (auto simp: vmm_ok_def)
      moreover have "vmm_malloc_pages bytes st = Some (0, st')"
        using f(1) bm(1) out(1) by (simp add: vmm_malloc_pages_def)
      ultimately show thesis using out(2) by (intro no_frame[OF _ f(2)]) auto
    qed
  qed
qed

section \<open>Freeing a mapped range\<close>

lemma translate_walk:
  assumes "translate pg va = Some e"
  obtains t where "walk (pt_mem pg) (cr3 pg) (dir_path va) = Some t" "pt_mem pg (slot t (get_PT_Index va)) = e" "Present e"
  using assms by (cases "walk (pt_mem pg) (cr3 pg) (dir_path va)") (auto simp: translate_def Let_def split: if_splits)

text \<open>The body of the loop in \<open>vmm_free_pages\<close> on a mapped page.\<close>

lemma free_one:
  assumes ok: "paging_ok X pg" and tr: "translate pg va = Some e" "next_table e = frame_addr k"
    and k: "k \<in> X" "0 < k" "k < 2 ^ 40" "k < count (pmm_bitmap (frames pg))"
  obtains t pg1 fr where "page_walk va pg = Some (Some (slot t (get_PT_Index va)), pg)"
    "pt_mem pg (slot t (get_PT_Index va)) = e" "Present e"
    "free_page va pg = Some (True, pg1)" "pmm_free (frame_addr k) PAGE_SIZE (frames pg1) = Some (True, fr)"
    "paging_ok (X - {k}) (pg1\<lparr>frames := fr\<rparr>)"
    "free_pages fr = insert k (free_pages (frames pg))"
    "count (pmm_bitmap fr) = count (pmm_bitmap (frames pg))"
    "\<And>va'. translate pg1 va' = (if vpage va' = vpage va then None else translate pg va')"
proof -
  obtain t where t: "walk (pt_mem pg) (cr3 pg) (dir_path va) = Some t" "pt_mem pg (slot t (get_PT_Index va)) = e" "Present e"
    by (rule translate_walk[OF tr(1)])
  note pw = page_walk_present[OF ok t(1)]
  let ?pg1 = "drop_page_from_TLC va (pg\<lparr>pt_mem := (pt_mem pg)(slot t (get_PT_Index va) := empty_entry)\<rparr>)"
  have fp: "free_page va pg = Some (True, ?pg1)" by (simp add: free_page_def pw)
  note lw = leaf_write[OF same_view_refl[OF ok] t(1), where e = empty_entry]
  have fr1: "frames ?pg1 = frames pg" by (rule lw(6))
  have pok: "pmm_ok (frames pg)" and dis: "X \<inter> free_pages (frames pg) = {}" using ok by (simp_all add: paging_ok_def)
  have k52: "k < 2 ^ 52" using k(3) by simp
  have idx: "unat (frame_addr k div PAGE_SIZE) = k" unfolding frame_addr_def by (rule page_addr_page[OF k52])
  have b: "unat (frame_addr k div PAGE_SIZE) + pages_for PAGE_SIZE \<le> count (pmm_bitmap (frames pg))"
    unfolding idx pages_for_page using k(4) by simp
  obtain fr where fr: "pmm_free (frame_addr k) PAGE_SIZE (frames pg) = Some (True, fr)" "pmm_ok fr"
    "count (pmm_bitmap fr) = count (pmm_bitmap (frames pg))"
    "\<forall>p. bit_read (bitmap (pmm_bitmap fr)) p =
      (if k \<le> p \<and> p < k + 1 then Some False else bit_read (bitmap (pmm_bitmap (frames pg))) p)"
    using pmm_free_effect[OF pok b] unfolding idx pages_for_page by blast
  have "k + 1 \<le> count (pmm_bitmap (frames pg))" using k(4) by simp
  from free_pages_after_write[OF fr(3,4) this] have fp': "free_pages fr = insert k (free_pages (frames pg))" by auto
  have "paging_ok (X - {k}) (?pg1\<lparr>frames := fr\<rparr>)"
  proof -
    have "free_pages fr \<union> (X - {k}) = free_pages (frames pg) \<union> X" using fp' k(1) by auto
    moreover have "tree_ok (pt_mem ?pg1) (cr3 ?pg1) (free_pages (frames pg) \<union> X)"
      using lw(1) fr1 by (simp add: paging_ok_def)
    moreover have "(X - {k}) \<inter> free_pages fr = {}" using fp' dis by auto
    moreover have "\<forall>j \<in> free_pages fr. 0 < j \<and> j < 2 ^ 40" using ok fp' k(2,3) by (auto simp: paging_ok_def)
    ultimately show ?thesis using fr(2) by (simp add: paging_ok_def)
  qed
  moreover have "translate ?pg1 va' = (if vpage va' = vpage va then None else translate pg va')" for va'
    using lw(2,3)[of va'] by (simp add: empty_entry_def)
  ultimately show thesis using pw t(2,3) fp fr(1,3) fp' fr1 by (intro that[of t ?pg1 fr]) simp_all
qed

definition free_inv :: "nat set \<Rightarrow> vmm_state \<Rightarrow> nat \<Rightarrow> nat list \<Rightarrow> nat \<Rightarrow> bool \<times> nat \<times> vmm_state \<Rightarrow> bool" where
  "free_inv X st0 s fs i r \<longleftrightarrow> (\<exists>st. r = (True, s + i, st) \<and>
     paging_ok (X - set (take i fs)) (paging st) \<and>
     (\<forall>va. translate (paging st) va =
        (if \<exists>j < i. vpage va = vpage (vmm_addr (s + j)) then None else translate (paging st0) va)) \<and>
     free_pages (frames (paging st)) = free_pages (frames (paging st0)) \<union> set (take i fs) \<and>
     count (pmm_bitmap (frames (paging st))) = count (pmm_bitmap (frames (paging st0))) \<and>
     count (vmm_bitmap st) = count (vmm_bitmap st0) \<and>
     length (bitmap (vmm_bitmap st)) = length (bitmap (vmm_bitmap st0)) \<and>
     (\<forall>p. bit_read (bitmap (vmm_bitmap st)) p =
        (if s \<le> p \<and> p < s + i then Some False else bit_read (bitmap (vmm_bitmap st0)) p)))"

lemma free_invI:
  assumes "paging_ok (X - set (take i fs)) (paging st)"
    and "\<And>va. translate (paging st) va =
        (if \<exists>j < i. vpage va = vpage (vmm_addr (s + j)) then None else translate (paging st0) va)"
    and "free_pages (frames (paging st)) = free_pages (frames (paging st0)) \<union> set (take i fs)"
    and "count (pmm_bitmap (frames (paging st))) = count (pmm_bitmap (frames (paging st0)))"
    and "count (vmm_bitmap st) = count (vmm_bitmap st0)"
    and "length (bitmap (vmm_bitmap st)) = length (bitmap (vmm_bitmap st0))"
    and "\<And>p. bit_read (bitmap (vmm_bitmap st)) p =
        (if s \<le> p \<and> p < s + i then Some False else bit_read (bitmap (vmm_bitmap st0)) p)"
  shows "free_inv X st0 s fs i (True, s + i, st)"
  unfolding free_inv_def by (intro exI conjI allI) (rule refl assms)+

lemma free_step:
  assumes inv: "free_inv X st0 s fs i r" and i: "i < length fs" and maps: "page_maps (paging st0) s fs"
    and fs: "distinct fs" "set fs \<subseteq> X" "\<forall>k \<in> set fs. 0 < k \<and> k < 2 ^ 40 \<and> k < count (pmm_bitmap (frames (paging st0)))"
    and b: "s + length fs \<le> 2 ^ 32" "s + length fs \<le> 8 * length (bitmap (vmm_bitmap st0))"
  shows "\<exists>r'. vmm_free_step (vmm_addr s) i r = Some r' \<and> free_inv X st0 s fs (Suc i) r'"
proof -
  from inv obtain st where r: "r = (True, s + i, st)" and ok: "paging_ok (X - set (take i fs)) (paging st)"
    and tr: "\<And>va. translate (paging st) va =
        (if \<exists>j < i. vpage va = vpage (vmm_addr (s + j)) then None else translate (paging st0) va)"
    and fr: "free_pages (frames (paging st)) = free_pages (frames (paging st0)) \<union> set (take i fs)"
    and cnt: "count (pmm_bitmap (frames (paging st))) = count (pmm_bitmap (frames (paging st0)))"
    and vc: "count (vmm_bitmap st) = count (vmm_bitmap st0)"
    and len: "length (bitmap (vmm_bitmap st)) = length (bitmap (vmm_bitmap st0))"
    and bits: "\<And>p. bit_read (bitmap (vmm_bitmap st)) p =
        (if s \<le> p \<and> p < s + i then Some False else bit_read (bitmap (vmm_bitmap st0)) p)"
    unfolding free_inv_def by blast
  have tk: "set (take (Suc i) fs) = insert (fs ! i) (set (take i fs))"
    using i by (simp add: take_Suc_conv_app_nth)
  have ki: "fs ! i \<in> X - set (take i fs)"
  proof -
    have "distinct (take i fs @ [fs ! i])" using distinct_take[OF fs(1), of "Suc i"] i by (simp add: take_Suc_conv_app_nth)
    with fs(2) i show ?thesis by auto
  qed
  have k: "0 < fs ! i" "fs ! i < 2 ^ 40" "fs ! i < count (pmm_bitmap (frames (paging st)))"
    using fs(3) i cnt by simp_all
  have vp: "vpage (vmm_addr (s + i)) \<noteq> vpage (vmm_addr (s + j))" if "j < i" for j
    using vpage_vmm_inject[of "s + i" "s + j"] that i b(1) by auto
  obtain e where e: "translate (paging st) (vmm_addr (s + i)) = Some e" "next_table e = frame_addr (fs ! i)"
    using maps i vp by (auto simp: page_maps_def tr)
  obtain t pg1 fr' where f: "page_walk (vmm_addr (s + i)) (paging st) = Some (Some (slot t (get_PT_Index (vmm_addr (s + i)))), paging st)"
    "pt_mem (paging st) (slot t (get_PT_Index (vmm_addr (s + i)))) = e" "Present e"
    "free_page (vmm_addr (s + i)) (paging st) = Some (True, pg1)"
    "pmm_free (frame_addr (fs ! i)) PAGE_SIZE (frames pg1) = Some (True, fr')"
    "paging_ok (X - set (take i fs) - {fs ! i}) (pg1\<lparr>frames := fr'\<rparr>)"
    "free_pages fr' = insert (fs ! i) (free_pages (frames (paging st)))"
    "count (pmm_bitmap fr') = count (pmm_bitmap (frames (paging st)))"
    "\<And>va'. translate pg1 va' = (if vpage va' = vpage (vmm_addr (s + i)) then None else translate (paging st) va')"
    by (rule free_one[OF ok e ki k]) blast
  obtain bm where bm: "bit_write (bitmap (vmm_bitmap st)) (s + i) False = Some bm"
    "length bm = length (bitmap (vmm_bitmap st))"
    "\<And>p. bit_read bm p = (if p = s + i then Some False else bit_read (bitmap (vmm_bitmap st)) p)"
  proof -
    have "s + i < 8 * length (bitmap (vmm_bitmap st))" using i b(2) len by simp
    from bits.put_in[OF this, of False] show thesis using that bit_write_Some by auto
  qed
  define st' where "st' = st\<lparr>paging := pg1\<lparr>frames := fr'\<rparr>, vmm_bitmap := (vmm_bitmap st)\<lparr>bitmap := bm\<rparr>\<rparr>"
  have "vmm_free_step (vmm_addr s) i r = Some (True, Suc (s + i), st')"
    using f(1-5) bm(1) e(2)
    by (simp add: vmm_free_step_def r vmm_addr_add st'_def next_table_def)
  moreover have "free_inv X st0 s fs (Suc i) (True, s + Suc i, st')"
  proof (rule free_invI)
    have "X - set (take (Suc i) fs) = X - set (take i fs) - {fs ! i}" unfolding tk by auto
    with f(6) show "paging_ok (X - set (take (Suc i) fs)) (paging st')" by (simp add: st'_def)
    show "translate (paging st') va =
        (if \<exists>j < Suc i. vpage va = vpage (vmm_addr (s + j)) then None else translate (paging st0) va)" for va
      using f(9)[of va] tr[of va] by (auto simp: st'_def less_Suc_eq)
    show "bit_read (bitmap (vmm_bitmap st')) p =
        (if s \<le> p \<and> p < s + Suc i then Some False else bit_read (bitmap (vmm_bitmap st0)) p)" for p
      using bits[of p] bm(3)[of p] by (auto simp: st'_def)
  qed (use f(7,8) fr cnt vc len bm(2) tk in \<open>simp_all add: st'_def\<close>)
  ultimately show ?thesis by simp
qed

lemma vmm_free_mapped:
  assumes ok: "vmm_ok X st" and maps: "page_maps (paging st) s fs" and n: "length fs = pages_for bytes"
    and fs: "distinct fs" "set fs \<subseteq> X" "\<forall>k \<in> set fs. 0 < k \<and> k < 2 ^ 40 \<and> k < count (pmm_bitmap (frames (paging st)))"
    and b: "s + length fs \<le> count (vmm_bitmap st)" "s < 2 ^ 32"
  shows "\<exists>st'. vmm_free_pages (vmm_addr s) bytes st = Some (True, st') \<and>
    free_inv X st s fs (length fs) (True, s + length fs, st')"
proof -
  have pok: "paging_ok X (paging st)" and wf: "bitmap_wf (vmm_bitmap st)" and c: "count (vmm_bitmap st) \<le> 2 ^ 32"
    using ok by (simp_all add: vmm_ok_def)
  have bb: "s + length fs \<le> 2 ^ 32" "s + length fs \<le> 8 * length (bitmap (vmm_bitmap st))"
    using b(1) wf c by (simp_all add: bitmap_wf_def)
  have init: "free_inv X st s fs 0 (True, s, st)"
    by (rule free_invI[of X 0 fs st s st, unfolded add_0_right]) (use pok in auto)
  have "\<exists>r. for_loop (vmm_free_step (vmm_addr s)) 0 (length fs) (True, s, st) = Some r \<and>
      free_inv X st s fs (0 + length fs) r"
    by (rule for_loop_rule[where I = "free_inv X st s fs", OF init], rule free_step[OF _ _ maps fs bb]) simp_all
  then obtain r where r: "for_loop (vmm_free_step (vmm_addr s)) 0 (length fs) (True, s, st) = Some r"
    "free_inv X st s fs (length fs) r" by (simp only: add_0) blast
  obtain st' where st': "r = (True, s + length fs, st')" using r(2) unfolding free_inv_def by blast
  have "vmm_free_pages (vmm_addr s) bytes st = Some (True, st')"
    using r(1) by (simp add: vmm_free_pages_def vmm_addr_index[OF b(2)] n st')
  with r(2) st' show ?thesis by blast
qed

end
