(* ===== verification/HeapRun.thy ===== *)
theory HeapRun
  imports HeapSpec
begin

text \<open>
  Runs of the heap: any sequence of \<open>malloc\<close>, \<open>free\<close> of a live pointer and
  writes of a client into the bytes it was given, from the freshly set up heap.
\<close>

section \<open>The step relation\<close>

text \<open>
  \<open>L\<close> maps every live pointer to the size it was requested with, \<open>D\<close> every byte a
  client has written and not yet given back to the value it wrote.
\<close>

inductive heap_run :: "heap_state \<Rightarrow> heap_state \<Rightarrow> (nat \<rightharpoonup> nat) \<Rightarrow> (nat \<rightharpoonup> u8) \<Rightarrow> bool" for st0 where
  start: "heap_run st0 st0 Map.empty Map.empty"
| alloc: "heap_run st0 st L D \<Longrightarrow> heap_malloc n st = (p, st') \<Longrightarrow> p \<noteq> 0 \<Longrightarrow> heap_run st0 st' (L(p \<mapsto> n)) D"
| alloc_fails: "heap_run st0 st L D \<Longrightarrow> heap_malloc n st = (0, st') \<Longrightarrow> heap_run st0 st' L D"
| release: "heap_run st0 st L D \<Longrightarrow> L p = Some n \<Longrightarrow> heap_free p st = Some st' \<Longrightarrow>
    heap_run st0 st' (L(p := None)) (D |` (- {p ..< p + n}))"
| client_write: "heap_run st0 st L D \<Longrightarrow> L p = Some n \<Longrightarrow> p \<le> x \<Longrightarrow> x < p + n \<Longrightarrow>
    heap_run st0 (st\<lparr>hmem := (hmem st)(x := v)\<rparr>) L (D(x \<mapsto> v))"

definition run_inv :: "heap_state \<Rightarrow> heap_state \<Rightarrow> (nat \<rightharpoonup> nat) \<Rightarrow> (nat \<rightharpoonup> u8) \<Rightarrow> bool" where
  "run_inv st0 st L D \<longleftrightarrow> heapStartPtr st = heapStartPtr st0 \<and> heapEndPtr st = heapEndPtr st0 \<and>
     (\<exists>M. heap_live st M \<and> dom L = dom M \<and> (\<forall>q k. L q = Some k \<longrightarrow> k \<le> the (M q))) \<and>
     (\<forall>x v. D x = Some v \<longrightarrow> hmem st x = v \<and> (\<exists>p n. L p = Some n \<and> p \<le> x \<and> x < p + n))"

lemma run_invI:
  assumes "heapStartPtr st = heapStartPtr st0" "heapEndPtr st = heapEndPtr st0"
    and "\<exists>M. heap_live st M \<and> dom L = dom M \<and> (\<forall>q k. L q = Some k \<longrightarrow> k \<le> the (M q))"
    and "\<And>x v. D x = Some v \<Longrightarrow> hmem st x = v"
    and "\<And>x v. D x = Some v \<Longrightarrow> \<exists>p n. L p = Some n \<and> p \<le> x \<and> x < p + n"
  shows "run_inv st0 st L D"
  using assms unfolding run_inv_def by blast

lemma run_invE:
  assumes "run_inv st0 st L D"
  obtains M where "heap_live st M" "dom L = dom M" "\<And>q k. L q = Some k \<Longrightarrow> k \<le> the (M q)"
    "heapStartPtr st = heapStartPtr st0" "heapEndPtr st = heapEndPtr st0"
    "\<And>x v. D x = Some v \<Longrightarrow> hmem st x = v"
    "\<And>x v. D x = Some v \<Longrightarrow> \<exists>p n. L p = Some n \<and> p \<le> x \<and> x < p + n"
  using assms unfolding run_inv_def by blast

section \<open>The invariant\<close>

lemma heap_malloc_bounds:
  assumes "heap_live st M" "heap_malloc n st = (p, st')"
  shows "heapStartPtr st' = heapStartPtr st" "heapEndPtr st' = heapEndPtr st"
proof -
  from assms(1) obtain bs where rep: "heap_rep st bs" by (auto simp: heap_live_def)
  show "heapStartPtr st' = heapStartPtr st" "heapEndPtr st' = heapEndPtr st"
    using heap_malloc_None[OF rep, of n] heap_malloc_Some[OF rep, of n] assms(2)
    by (cases "first_fit n bs"; force)+
qed

lemma heap_free_bounds:
  assumes "heap_live st M" "M p = Some l" "heap_free p st = Some st'"
  shows "heapStartPtr st' = heapStartPtr st" "heapEndPtr st' = heapEndPtr st"
proof -
  from assms(1) obtain bs where rep: "heap_rep st bs" "coalesced bs" and M: "M = map_of (payloads (heapStartPtr st) bs)"
    by (auto simp: heap_live_def)
  show "heapStartPtr st' = heapStartPtr st" "heapEndPtr st' = heapEndPtr st"
    using heap_free_live[OF rep assms(2)[unfolded M]] assms(3) by auto
qed

lemma heap_live_write:
  assumes "heap_live st M" "M p = Some l" "p \<le> x" "x < p + l"
  shows "heap_live (st\<lparr>hmem := (hmem st)(x := v)\<rparr>) M"
proof -
  from assms(1) obtain bs where rep: "heap_rep st bs" "coalesced bs" and M: "M = map_of (payloads (heapStartPtr st) bs)"
    by (auto simp: heap_live_def)
  have "x \<notin> headers (heapStartPtr st) bs"
    using payload_not_header assms(2-4) unfolding M map_of_payloads by blast
  then have "chain ((hmem st)(x := v)) (heapStartPtr st) bs (heapEndPtr st)
      = chain (hmem st) (heapStartPtr st) bs (heapEndPtr st)"
    by (intro chain_cong) auto
  with rep M show ?thesis unfolding heap_live_def heap_rep_def by auto
qed

lemma covers_live:
  assumes "dom L = dom M" "\<And>q k. L q = Some k \<Longrightarrow> k \<le> the (M q)" "L p = Some (n::nat)"
  obtains l where "M p = Some l" "n \<le> l"
  using assms by (metis domD domI option.sel)

lemma run_inv_alloc:
  assumes "run_inv st0 st L D" "heap_malloc n st = (p, st')" "p \<noteq> 0"
  shows "run_inv st0 st' (L(p \<mapsto> n)) D"
proof -
  obtain M where M: "heap_live st M" "dom L = dom M" "\<And>q k. L q = Some k \<Longrightarrow> k \<le> the (M q)"
    and st: "heapStartPtr st = heapStartPtr st0" "heapEndPtr st = heapEndPtr st0"
    and D: "\<And>x v. D x = Some v \<Longrightarrow> hmem st x = v"
      "\<And>x v. D x = Some v \<Longrightarrow> \<exists>p n. L p = Some n \<and> p \<le> x \<and> x < p + n"
    using run_invE[OF assms(1)] by metis
  have new: "M p = None" using hp.alloc_new[OF M(1) assms(2,3)] by blast
  then have Lp: "L p = None" using M(2) by (metis domIff)
  show ?thesis
  proof (rule run_invI)
    fix x v assume d: "D x = Some v"
    then obtain q k where q: "L q = Some k" "q \<le> x" "x < q + k" using D(2) by blast
    then obtain l where l: "M q = Some l" "k \<le> l" using covers_live[OF M(2,3)] by metis
    with hp.alloc_keeps[OF M(1) assms(2) l(1)] q have "hmem st' x = hmem st x" by simp
    with D(1)[OF d] show "hmem st' x = v" by simp
    from q Lp show "\<exists>q k. (L(p \<mapsto> n)) q = Some k \<and> q \<le> x \<and> x < q + k"
      by (intro exI[of _ q] exI[of _ k]) auto
  qed (use st heap_malloc_bounds[OF M(1) assms(2)] hp.alloc_covers[OF M assms(2,3)] in simp_all)
qed

lemma run_inv_release:
  assumes "run_inv st0 st L D" "L p = Some n" "heap_free p st = Some st'"
  shows "run_inv st0 st' (L(p := None)) (D |` (- {p ..< p + n}))"
proof -
  obtain M where M: "heap_live st M" "dom L = dom M" "\<And>q k. L q = Some k \<Longrightarrow> k \<le> the (M q)"
    and st: "heapStartPtr st = heapStartPtr st0" "heapEndPtr st = heapEndPtr st0"
    and D: "\<And>x v. D x = Some v \<Longrightarrow> hmem st x = v"
      "\<And>x v. D x = Some v \<Longrightarrow> \<exists>p n. L p = Some n \<and> p \<le> x \<and> x < p + n"
    using run_invE[OF assms(1)] by metis
  obtain l where l: "M p = Some l" using covers_live[OF M(2,3) assms(2)] by metis
  show ?thesis
  proof (rule run_invI)
    fix x v assume d: "(D |` (- {p ..< p + n})) x = Some v"
    then have dx: "D x = Some v" and out: "\<not> (p \<le> x \<and> x < p + n)"
      by (auto simp: restrict_map_def split: if_splits)
    then obtain q k where q: "L q = Some k" "q \<le> x" "x < q + k" using D(2) by blast
    then obtain j where j: "M q = Some j" "k \<le> j" using covers_live[OF M(2,3)] by metis
    with hp.free_keeps[OF M(1) l assms(3) j(1)] q have "hmem st' x = hmem st x" by simp
    with D(1)[OF dx] show "hmem st' x = v" by simp
    have "q \<noteq> p" using q out assms(2) by auto
    with q show "\<exists>q k. (L(p := None)) q = Some k \<and> q \<le> x \<and> x < q + k"
      by (intro exI[of _ q] exI[of _ k]) auto
  qed (use st heap_free_bounds[OF M(1) l assms(3)] hp.free_covers[OF M assms(2,3)] in simp_all)
qed

lemma run_inv_write:
  assumes "run_inv st0 st L D" "L p = Some n" "p \<le> x" "x < p + n"
  shows "run_inv st0 (st\<lparr>hmem := (hmem st)(x := v)\<rparr>) L (D(x \<mapsto> v))"
proof -
  obtain M where M: "heap_live st M" "dom L = dom M" "\<And>q k. L q = Some k \<Longrightarrow> k \<le> the (M q)"
    and st: "heapStartPtr st = heapStartPtr st0" "heapEndPtr st = heapEndPtr st0"
    and D: "\<And>x v. D x = Some v \<Longrightarrow> hmem st x = v"
      "\<And>x v. D x = Some v \<Longrightarrow> \<exists>p n. L p = Some n \<and> p \<le> x \<and> x < p + n"
    using run_invE[OF assms(1)] by metis
  obtain l where l: "M p = Some l" "n \<le> l" using covers_live[OF M(2,3) assms(2)] by metis
  have "heap_live (st\<lparr>hmem := (hmem st)(x := v)\<rparr>) M"
    by (rule heap_live_write[OF M(1) l(1) assms(3)]) (use l(2) assms(4) in simp)
  with M(2,3) have "\<exists>M. heap_live (st\<lparr>hmem := (hmem st)(x := v)\<rparr>) M \<and> dom L = dom M \<and>
      (\<forall>q k. L q = Some k \<longrightarrow> k \<le> the (M q))" by blast
  then show ?thesis
    by (rule run_invI[rotated 2]) (use st D assms(2-4) in \<open>auto split: if_splits\<close>)
qed

text \<open>The invariant holds in every state a run reaches.\<close>

lemma heap_run_inv:
  assumes "heap_run st0 st L D" and "heap_live st0 Map.empty"
  shows "run_inv st0 st L D"
  using assms
proof (induction rule: heap_run.induct)
  case start
  then show ?case by (intro run_invI) auto
next
  case (alloc_fails st L D n st')
  then have "run_inv st0 st L D" by simp
  moreover from this have "st' = st" using alloc_fails(2) by (auto elim!: run_invE dest: hp.alloc_null)
  ultimately show ?case by simp
qed (auto intro: run_inv_alloc run_inv_release run_inv_write)

lemma heap_setup_live:
  assumes "8 \<le> n" "n < 2 ^ 63"
  shows "heap_live (heap_setup a n m) Map.empty"
  unfolding heap_live_def using heap_setup_rep[OF assms, of a m] by (intro exI[of _ "[(n - 8, False)]"]) simp

section \<open>Properties\<close>

lemma run_bounds:
  assumes "run_inv (heap_setup a n m) st L D" and "L p = Some k"
  shows "a + 8 \<le> p" and "p + k \<le> a + n"
proof -
  obtain M where M: "heap_live st M" "dom L = dom M" "\<And>q k. L q = Some k \<Longrightarrow> k \<le> the (M q)"
    and st: "heapStartPtr st = a" "heapEndPtr st = a + n"
    by (rule run_invE[OF assms(1)]) (simp add: heap_setup_def Let_def)
  obtain l where l: "M p = Some l" "k \<le> l" using covers_live[OF M(2,3) assms(2)] by metis
  from M(1) obtain bs where "heap_rep st bs" "M = map_of (payloads a bs)"
    by (auto simp: heap_live_def st)
  then have "(p, l) \<in> set (payloads a bs)" "a + n = a + span bs"
    using l(1) chain_end[of "hmem st" a bs "a + n"] by (simp_all add: map_of_payloads heap_rep_def st)
  with l(2) payload_in[of p l a bs] show "a + 8 \<le> p" "p + k \<le> a + n" by simp_all
qed

text \<open>With nothing live, coalescing has given back the one block of the set up heap.\<close>

lemma all_free_one_block:
  assumes "coalesced bs" "payloads a bs = []" "bs \<noteq> []"
  shows "bs = [(span bs - 8, False)]"
proof -
  obtain l u bs' where bs: "bs = (l, u) # bs'" using assms(3) by (cases bs) auto
  with assms(2) have u: "\<not> u" "payloads (a + 8 + l) bs' = []" by (auto split: if_splits)
  show ?thesis
  proof (cases bs')
    case Nil
    with bs u show ?thesis by simp
  next
    case (Cons c cs)
    obtain k v where c: "c = (k, v)" by (cases c)
    with Cons u(2) have "\<not> v" by (auto split: if_splits)
    with assms(1) show ?thesis by (simp add: bs Cons c u(1))
  qed
qed

lemma run_empty_one_block:
  assumes "run_inv (heap_setup a n m) st Map.empty D" "8 \<le> n"
  shows "heap_rep st [(n - 8, False)]" "heapStartPtr st = a"
proof -
  obtain M where M: "heap_live st M" "dom (Map.empty :: nat \<rightharpoonup> nat) = dom M"
    and st: "heapStartPtr st = a" "heapEndPtr st = a + n"
    by (rule run_invE[OF assms(1)]) (simp add: heap_setup_def Let_def)
  from M obtain bs where rep: "heap_rep st bs" "coalesced bs" and e: "map_of (payloads a bs) = Map.empty"
    unfolding heap_live_def st by (metis dom_empty dom_eq_empty_conv)
  have "bs = [(span bs - 8, False)]"
    by (rule all_free_one_block[OF rep(2)]) (use rep(1) e in \<open>auto simp: heap_rep_def\<close>)
  moreover have "span bs = n"
    using chain_end[of "hmem st" a bs "a + n"] rep(1) by (simp add: heap_rep_def st)
  ultimately show "heap_rep st [(n - 8, False)]" "heapStartPtr st = a" using rep(1) st by auto
qed

text \<open>C2. In every state the heap can reach from its set up, each live allocation lies inside the
  heap, no two live allocations overlap, and every byte a client wrote into memory it still owns
  reads back as written, whatever was allocated and freed since.\<close>

theorem heap_run_isolated:
  assumes "heap_run (heap_setup a n m) st L D" and "8 \<le> n" and "n < 2 ^ 63"
    and "L p = Some k"
  shows "a + 8 \<le> p \<and> p + k \<le> a + n \<and>
    (\<forall>q j. L q = Some j \<and> q \<noteq> p \<longrightarrow> p + k \<le> q \<or> q + j \<le> p) \<and>
    (\<forall>x v. D x = Some v \<longrightarrow> hmem st x = v)"
proof -
  note inv = heap_run_inv[OF assms(1) heap_setup_live[OF assms(2,3)]]
  obtain M where M: "heap_live st M" "dom L = dom M" "\<And>q k. L q = Some k \<Longrightarrow> k \<le> the (M q)"
    and D: "\<And>x v. D x = Some v \<Longrightarrow> hmem st x = v"
    using run_invE[OF inv] by metis
  from run_bounds[OF inv assms(4)] hp.covered_disjoint[OF M assms(4)] D show ?thesis by blast
qed

lemma heap_run_isolated_witness:
  "let st = snd (heap_malloc 10 (heap_setup 16 100 (\<lambda>_. 0))) in
   (16::nat) + 8 \<le> 24 \<and> (24::nat) + 10 \<le> 16 + 100 \<and> hmem (st\<lparr>hmem := (hmem st)(25 := 7)\<rparr>) 25 = 7"
proof -
  let ?s0 = "heap_setup 16 100 (\<lambda>_. 0)"
  obtain p st where e: "heap_malloc 10 ?s0 = (p, st)" by (cases "heap_malloc 10 ?s0")
  have "fst (heap_malloc 10 ?s0) = 24" by code_simp
  then have p: "p = 24" using e by simp
  have "heap_run ?s0 (st\<lparr>hmem := (hmem st)(25 := 7)\<rparr>) [24 \<mapsto> 10] [25 \<mapsto> 7]"
    using heap_run.client_write[OF heap_run.alloc[OF heap_run.start e], of 24 10 25 7] by (simp add: p)
  from heap_run_isolated[OF this, of 24 10] show ?thesis by simp
qed

text \<open>C3. A live pointer can always be freed, and freeing it leaves the bytes of every other live
  allocation as they were.\<close>

theorem heap_run_free_total:
  assumes "heap_run (heap_setup a n m) st L D" and "8 \<le> n" and "n < 2 ^ 63"
    and "L p = Some k"
  shows "\<exists>st'. heap_free p st = Some st' \<and>
    (\<forall>q j x. L q = Some j \<and> q \<noteq> p \<and> q \<le> x \<and> x < q + j \<longrightarrow> hmem st' x = hmem st x)"
proof -
  note inv = heap_run_inv[OF assms(1) heap_setup_live[OF assms(2,3)]]
  obtain M where M: "heap_live st M" "dom L = dom M" "\<And>q k. L q = Some k \<Longrightarrow> k \<le> the (M q)"
    using run_invE[OF inv] by metis
  obtain l where l: "M p = Some l" using covers_live[OF M(2,3) assms(4)] by metis
  obtain st' where st': "heap_free p st = Some st'" using hp.free_live[OF M(1) l] by blast
  have "hmem st' x = hmem st x" if q: "L q = Some j" "q \<le> x" "x < q + j" for q j x
  proof -
    obtain i where "M q = Some i" "j \<le> i" using covers_live[OF M(2,3) q(1)] by metis
    with hp.free_keeps[OF M(1) l st'] q(2,3) show ?thesis by simp
  qed
  with st' show ?thesis by blast
qed

lemma heap_run_free_total_witness:
  "\<exists>st'. heap_free 24 (snd (heap_malloc 10 (heap_setup 16 100 (\<lambda>_. 0)))) = Some st'"
proof -
  let ?s0 = "heap_setup 16 100 (\<lambda>_. 0)"
  obtain p st where e: "heap_malloc 10 ?s0 = (p, st)" by (cases "heap_malloc 10 ?s0")
  have "fst (heap_malloc 10 ?s0) = 24" by code_simp
  then have p: "p = 24" using e by simp
  have "heap_run ?s0 st [24 \<mapsto> 10] Map.empty"
    using heap_run.alloc[OF heap_run.start e] by (simp add: p)
  from heap_run_free_total[OF this, of 24 10] e show ?thesis by auto
qed

text \<open>C4. Freeing loses nothing: once every allocation of a run has been freed, the heap is again
  one free block, and a request of any size up to the whole heap less its header succeeds at the
  address of the first allocation.\<close>

theorem heap_run_no_fragmentation:
  assumes "heap_run (heap_setup a n m) st Map.empty D" and "8 \<le> n" and "n < 2 ^ 63"
    and "sz \<le> n - 8"
  shows "fst (heap_malloc sz st) = a + 8"
proof -
  note inv = heap_run_inv[OF assms(1) heap_setup_live[OF assms(2,3)]]
  have "first_fit sz [(n - 8, False)] = Some ([], n - 8, [])" using assms(4) by simp
  from heap_malloc_Some[OF run_empty_one_block(1)[OF inv assms(2)] this]
  show ?thesis by (auto simp: run_empty_one_block(2)[OF inv assms(2)])
qed

lemma heap_run_no_fragmentation_witness:
  "fst (heap_malloc 92 (the (heap_free 24 (snd (heap_malloc 10 (heap_setup 16 100 (\<lambda>_. 0))))))) = 24"
proof -
  let ?s0 = "heap_setup 16 100 (\<lambda>_. 0)"
  obtain p st where e: "heap_malloc 10 ?s0 = (p, st)" by (cases "heap_malloc 10 ?s0")
  have "fst (heap_malloc 10 ?s0) = 24" by code_simp
  then have p: "p = 24" using e by simp
  have run: "heap_run ?s0 st [24 \<mapsto> 10] Map.empty"
    using heap_run.alloc[OF heap_run.start e] by (simp add: p)
  have "run_inv ?s0 st [24 \<mapsto> 10] Map.empty" by (rule heap_run_inv[OF run heap_setup_live]) simp_all
  then obtain M where "heap_live st M" "dom [24 \<mapsto> 10 :: nat] = dom M" by (rule run_invE) blast
  then obtain st' where st': "heap_free 24 st = Some st'" using hp.free_live[of st M 24] by auto
  have "heap_run ?s0 st' Map.empty Map.empty"
    using heap_run.release[OF run _ st', of 10] by (simp add: fun_upd_idem)
  from heap_run_no_fragmentation[OF this, of 92] show ?thesis by (simp add: e st')
qed

text \<open>C5. \<open>malloc\<close> is first fit on the block list the memory represents: it returns null, and changes
  nothing, exactly when no free block is long enough; otherwise the first free block that is long
  enough is taken, and split when the rest exceeds a header and 8 bytes.\<close>

theorem heap_malloc_refines:
  assumes "heap_rep st bs"
  shows "case first_fit sz bs of
      None \<Rightarrow> heap_malloc sz st = (0, st) \<and> (\<forall>(l, u) \<in> set bs. l < sz \<or> u)
    | Some (pre, l, post) \<Rightarrow> bs = pre @ (l, False) # post \<and> sz \<le> l \<and> (\<forall>(k, u) \<in> set pre. k < sz \<or> u) \<and>
        fst (heap_malloc sz st) = heapStartPtr st + span pre + 8 \<and>
        heap_rep (snd (heap_malloc sz st)) (pre @ place sz l @ post)"
proof (cases "first_fit sz bs")
  case None
  with heap_malloc_None[OF assms None] first_fit_None[of sz bs] show ?thesis by simp
next
  case (Some r)
  then obtain pre l post where r: "first_fit sz bs = Some (pre, l, post)" by (cases r) auto
  with heap_malloc_Some[OF assms r] first_fit_Some[OF r] show ?thesis by auto
qed

lemma heap_malloc_refines_witness:
  "heap_malloc 93 (heap_setup 16 100 (\<lambda>_. 0)) = (0, heap_setup 16 100 (\<lambda>_. 0))"
  using heap_malloc_refines[OF heap_setup_rep[of 100 16 "\<lambda>_. 0"], of 93] by simp

text \<open>\<open>free\<close> undoes \<open>malloc\<close>: on a heap without neighbouring free blocks, freeing the pointer
  just obtained restores the block list, the split remainder merged back.\<close>

theorem heap_malloc_free_roundtrip:
  assumes "heap_rep st bs" and "coalesced bs" and "heap_malloc sz st = (p, st')" and "p \<noteq> 0"
  shows "\<exists>st''. heap_free p st' = Some st'' \<and> heap_rep st'' bs"
proof -
  obtain pre l post where ff: "first_fit sz bs = Some (pre, l, post)"
    using heap_malloc_nonnull[OF assms(1,3,4)] .
  from first_fit_Some[OF ff] have bs: "bs = pre @ (l, False) # post" and sz: "sz \<le> l" by auto
  note h = heap_malloc_live[OF assms(1,2) ff assms(3)]
  obtain k rest where k: "place sz l @ post = (k, True) # rest"
    "join_left pre (join_right k rest) = pre @ (l, False) # post"
    using release_place[OF assms(2)[unfolded bs] sz] by blast
  from heap_free_spec[OF h(2)[unfolded k(1)] refl] show ?thesis
    unfolding h(1) h(4)[symmetric] k(2) bs by blast
qed

lemma heap_malloc_free_roundtrip_witness:
  "\<exists>st''. heap_free 24 (snd (heap_malloc 10 (heap_setup 16 100 (\<lambda>_. 0)))) = Some st'' \<and>
    heap_rep st'' [(92, False)]"
proof -
  let ?s0 = "heap_setup 16 100 (\<lambda>_. 0)"
  obtain p st where e: "heap_malloc 10 ?s0 = (p, st)" by (cases "heap_malloc 10 ?s0")
  have "fst (heap_malloc 10 ?s0) = 24" by code_simp
  with e heap_malloc_free_roundtrip[OF heap_setup_rep[of 100 16 "\<lambda>_. 0"] _ e] show ?thesis by simp
qed

end
