(* ===== verification/MemoryProps.thy ===== *)
theory MemoryProps
  imports VMMSpec HeapRun
begin

text \<open>
  The properties of paging and of the virtual memory manager, and the state they
  are exercised on: eight frames of which two are taken, one of them by an empty
  root table, and a bitmap of sixteen virtual pages.
\<close>

section \<open>A small machine\<close>

definition sample_paging :: paging_state where
  "sample_paging = \<lparr>pt_mem = (\<lambda>_. empty_entry), cr3 = frame_addr 1, invalidated = [],
     frames = \<lparr>pmm_bitmap = \<lparr>bitmap = [0b00000011], count = 8\<rparr>, bitmap_addr = 0,
       memoryRegionCount = 0, totalUsableBytes = 0, highestAddress = 0\<rparr>\<rparr>"

definition sample_vmm :: vmm_state where
  "sample_vmm = \<lparr>paging = sample_paging, vmm_bitmap = \<lparr>bitmap = [0b00000001, 0], count = 16\<rparr>\<rparr>"

lemma walk_empty: "walk (\<lambda>_. empty_entry) t p = Some u \<Longrightarrow> p = [] \<and> u = t"
  by (cases p) (auto simp: empty_entry_def)

lemma sample_free: "free_pages (frames sample_paging) = {2 ..< 8}"
proof -
  have "map (bit_read [0b00000011]) [0..<8] = map (\<lambda>p. Some (p < 2)) [0..<8]" by code_simp
  then have b: "p < 8 \<Longrightarrow> bit_read [0b00000011] p = Some (p < 2)" for p by (simp only: map_eq_conv set_upt) simp
  show ?thesis by (auto simp: free_pages_def page_free_def sample_paging_def b)
qed

lemma sample_paging_ok: "paging_ok {} sample_paging"
proof -
  have "pmm_ok (frames sample_paging)" by (simp add: pmm_ok_def sample_paging_def bitmap_wf_def)
  moreover have "\<forall>k \<in> free_pages (frames sample_paging). 0 < k \<and> k < 2 ^ 40" using sample_free by auto
  moreover have "tree_ok (pt_mem sample_paging) (cr3 sample_paging) (free_pages (frames sample_paging) \<union> {})"
    unfolding tree_ok_def
  proof (intro conjI allI impI)
    fix p t assume "walk (pt_mem sample_paging) (cr3 sample_paging) p = Some t"
    then have "t = frame_addr 1" by (auto simp: sample_paging_def dest: walk_empty)
    moreover have "1 \<notin> free_pages (frames sample_paging) \<union> {}" using sample_free by auto
    ultimately show "\<exists>k. t = frame_addr k \<and> 0 < k \<and> k < 2 ^ 52 \<and> k \<notin> free_pages (frames sample_paging) \<union> {}"
      by (intro exI[of _ 1]) simp
  qed (auto simp: sample_paging_def dest: walk_empty)
  ultimately show ?thesis by (simp add: paging_ok_def)
qed

lemma sample_vmm_ok: "vmm_ok {} sample_vmm"
  using sample_paging_ok by (simp add: vmm_ok_def sample_vmm_def bitmap_wf_def)

lemma sample_run: "free_run (vmm_bitmap sample_vmm) 1 1"
proof -
  have "bit_read [0b00000001, 0] 1 = Some False" by code_simp
  then show ?thesis by (simp add: free_run_def page_free_def sample_vmm_def) (metis One_nat_def le_less_Suc_eq numeral_2_eq_2)
qed

lemma sample_malloc:
  obtains va st' where "vmm_malloc_pages 4096 sample_vmm = Some (va, st')" "va \<noteq> 0"
  using sample_vmm_ok
proof (cases rule: vmm_malloc_cases[where bytes = 4096])
  case (mapped s fs st')
  have "s < 2 ^ 32" using free_run_bound[OF mapped(2,3)] by (simp add: sample_vmm_def)
  with mapped(1) vmm_addr_nonzero that show thesis by blast
next
  case no_range
  with sample_run free_run_bound[OF sample_run] show thesis unfolding pages_for_page by auto
next
  case (no_frame s st')
  then show thesis unfolding pages_for_page by (simp add: sample_vmm_def sample_free)
qed

section \<open>Paging\<close>

text \<open>C9. \<open>map_page\<close> maps exactly one page: on success the page of \<open>va\<close> translates to the frame of
  \<open>pa\<close> with the write and cache bits of the flags, its translation is invalidated, and every other
  page translates as before; on failure no translation changes and no frame was left. The page tables
  stay a tree whose frames are in use.\<close>

theorem map_page_correct:
  assumes "paging_ok X st"
  shows "\<exists>ok st'. map_page va pa flags st = Some (ok, st') \<and> paging_ok X st' \<and>
    (if ok then (\<exists>e. mapped_entry pa flags e \<and> invalidated st' = va # invalidated st \<and>
        (\<forall>va'. translate st' va' = (if vpage va' = vpage va then Some e else translate st va')))
     else (\<forall>va'. translate st' va' = translate st va') \<and> free_pages (frames st') = {})"
  using assms
proof (cases rule: map_page_spec[where va = va and pa = pa and flags = flags])
  case (mapped e st')
  then show ?thesis by (intro exI[of _ True] exI[of _ st'] conjI) auto
next
  case (failed st')
  then show ?thesis by (intro exI[of _ False] exI[of _ st'] conjI) (auto simp: same_view_def)
qed

lemma map_page_correct_witness:
  "\<exists>ok st'. map_page 0xFFFFB00000001000 0x5000 PAGE_FLAG_WRITE sample_paging = Some (ok, st') \<and> paging_ok {} st'"
  using map_page_correct[OF sample_paging_ok, where va = "0xFFFFB00000001000" and pa = "0x5000" and flags = PAGE_FLAG_WRITE] by blast

text \<open>C10. \<open>free_page\<close> removes exactly one page: on success the page of \<open>va\<close> has no translation and is
  invalidated, and every other page translates as before; on failure no translation changes.\<close>

theorem free_page_correct:
  assumes "paging_ok X st"
  shows "\<exists>ok st'. free_page va st = Some (ok, st') \<and> paging_ok X st' \<and>
    (if ok then invalidated st' = va # invalidated st \<and>
        (\<forall>va'. translate st' va' = (if vpage va' = vpage va then None else translate st va'))
     else (\<forall>va'. translate st' va' = translate st va') \<and> free_pages (frames st') = {})"
  using assms
proof (cases rule: free_page_spec[where va = va])
  case (unmapped st')
  then show ?thesis by (intro exI[of _ True] exI[of _ st'] conjI) auto
next
  case (failed st')
  then show ?thesis by (intro exI[of _ False] exI[of _ st'] conjI) (auto simp: same_view_def)
qed

lemma free_page_correct_witness:
  "\<exists>ok st'. free_page 0xFFFFB00000001000 sample_paging = Some (ok, st') \<and> paging_ok {} st'"
  using free_page_correct[OF sample_paging_ok, where va = "0xFFFFB00000001000"] by blast

section \<open>The virtual memory manager\<close>

text \<open>C6. A successful \<open>vmm_malloc_pages\<close> returns the address of a range of pages that were free in the
  bitmap and maps each of them, writable, to a frame of its own that was free; no other page changes
  its translation and the new frames are no longer free.\<close>

theorem vmm_malloc_correct:
  assumes "vmm_ok X st" and "vmm_malloc_pages bytes st = Some (va, st')" and "va \<noteq> 0"
  shows "\<exists>s fs. va = vmm_addr s \<and> free_run (vmm_bitmap st) s (pages_for bytes) \<and>
    length fs = pages_for bytes \<and> distinct fs \<and> set fs \<subseteq> free_pages (frames (paging st)) - free_pages (frames (paging st')) \<and>
    page_maps (paging st') s fs \<and> other_pages_same (paging st) (paging st') s (pages_for bytes) \<and>
    vmm_ok (X \<union> set fs) st'"
  using assms(1)
proof (cases rule: vmm_malloc_cases[where bytes = bytes])
  case (mapped s fs st1)
  with assms(2) have e: "va = vmm_addr s" "st1 = st'" by simp_all
  have "(X \<union> set fs) \<inter> free_pages (frames (paging st')) = {}"
    using mapped(8) unfolding e(2) vmm_ok_def paging_ok_def by simp
  then have d: "set fs \<subseteq> free_pages (frames (paging st)) - free_pages (frames (paging st'))"
    using mapped(7) by blast
  show ?thesis
    by (intro exI[of _ s] exI[of _ fs] conjI) (rule e(1) mapped(2,5,6) d mapped(8,9,10)[unfolded e(2)])+
qed (use assms(2,3) in simp_all)

lemma vmm_malloc_correct_witness:
  "\<exists>s fs. fst (the (vmm_malloc_pages 4096 sample_vmm)) = vmm_addr s \<and> length fs = 1 \<and>
    page_maps (paging (snd (the (vmm_malloc_pages 4096 sample_vmm)))) s fs"
proof -
  obtain va st' where e: "vmm_malloc_pages 4096 sample_vmm = Some (va, st')" "va \<noteq> 0"
    by (rule sample_malloc)
  from vmm_malloc_correct[OF sample_vmm_ok e] show ?thesis unfolding e pages_for_page by auto
qed

text \<open>C7. \<open>vmm_malloc_pages\<close> never faults, and it succeeds whenever the bitmap has a free range and four
  free frames per page remain (one for the page, three for tables it may need).\<close>

theorem vmm_malloc_succeeds:
  assumes "vmm_ok X st" and "0 < pages_for bytes" and "free_run (vmm_bitmap st) s (pages_for bytes)"
    and "4 * pages_for bytes \<le> free_count (paging st)"
  shows "\<exists>va st'. vmm_malloc_pages bytes st = Some (va, st') \<and> va \<noteq> 0"
proof -
  have c: "count (vmm_bitmap st) \<le> 2 ^ 32" using assms(1) by (simp add: vmm_ok_def)
  from assms(1) show ?thesis
  proof (cases rule: vmm_malloc_cases[where bytes = bytes])
    case (mapped t fs st')
    have "t < 2 ^ 32" using free_run_bound[OF mapped(2,3)] mapped(3) c by simp
    with mapped(1) vmm_addr_nonzero show ?thesis by blast
  next
    case no_range
    with assms(2,3) free_run_bound[OF assms(3,2)] show ?thesis by blast
  next
    case (no_frame t st')
    with assms(4) show ?thesis by simp
  qed
qed

lemma vmm_malloc_succeeds_witness: "\<exists>va st'. vmm_malloc_pages 4096 sample_vmm = Some (va, st') \<and> va \<noteq> 0"
  by (rule vmm_malloc_succeeds[OF sample_vmm_ok, of 4096 1])
    (simp_all only: pages_for_page sample_run, simp_all add: sample_vmm_def sample_free)

text \<open>C8. \<open>vmm_free_pages\<close> undoes \<open>vmm_malloc_pages\<close>: it returns true, the pages of the range have no
  translation any more and all others the one they had before the allocation, the bitmap is bit for
  bit what it was, and the frames that backed the range are free again (the frames of new tables are
  kept).\<close>

theorem vmm_malloc_free_roundtrip:
  assumes "vmm_ok X st" and "vmm_malloc_pages bytes st = Some (va, st')" and "va \<noteq> 0"
  shows "\<exists>st'' s fs. vmm_free_pages va bytes st' = Some (True, st'') \<and> va = vmm_addr s \<and> page_maps (paging st') s fs \<and>
    (\<forall>v. translate (paging st'') v = (if \<exists>j < pages_for bytes. vpage v = vpage (vmm_addr (s + j)) then None
       else translate (paging st) v)) \<and>
    (\<forall>p. bit_read (bitmap (vmm_bitmap st'')) p = bit_read (bitmap (vmm_bitmap st)) p) \<and>
    free_pages (frames (paging st'')) = free_pages (frames (paging st')) \<union> set fs"
  using assms(1)
proof (cases rule: vmm_malloc_cases[where bytes = bytes])
  case (mapped s fs st1)
  let ?n = "pages_for bytes"
  from mapped(1) assms(2) have e: "va = vmm_addr s" "st1 = st'" by simp_all
  note ok = mapped(8)[unfolded e(2)]
  have wf: "bitmap_wf (vmm_bitmap st)" and c: "count (vmm_bitmap st) \<le> 2 ^ 32" and c64: "count (vmm_bitmap st) < 2 ^ 64"
    using assms(1) by (simp_all add: vmm_ok_def)
  have sn: "s + ?n \<le> count (vmm_bitmap st)" by (rule free_run_bound[OF mapped(2,3)])
  have s32: "s < 2 ^ 32" using sn c mapped(3) by simp
  have bits: "count (vmm_bitmap st') = count (vmm_bitmap st)"
    "\<And>p. bit_read (bitmap (vmm_bitmap st')) p =
       (if s \<le> p \<and> p < s + ?n then Some True else bit_read (bitmap (vmm_bitmap st)) p)"
    using write_bits_range[OF wf sn c64, of True] mapped(4) unfolding e(2) by auto
  have fs: "\<forall>k \<in> set fs. 0 < k \<and> k < 2 ^ 40 \<and> k < count (pmm_bitmap (frames (paging st')))"
    using mapped(7,12) assms(1) unfolding e(2)
    by (auto simp: vmm_ok_def paging_ok_def free_pages_def page_free_def subset_iff)
  have b: "s + length fs \<le> count (vmm_bitmap st')" using sn bits(1) mapped(5) by simp
  obtain st2 where st2: "vmm_free_pages (vmm_addr s) bytes st' = Some (True, st2)"
    "free_inv (X \<union> set fs) st' s fs (length fs) (True, s + length fs, st2)"
    using vmm_free_mapped[OF ok mapped(9)[unfolded e(2)] mapped(5,6) Un_upper2 fs b s32] by blast
  have tr: "translate (paging st2) v = (if \<exists>j < length fs. vpage v = vpage (vmm_addr (s + j)) then None
      else translate (paging st') v)" for v
    using st2(2) unfolding free_inv_def by blast
  have bit2: "bit_read (bitmap (vmm_bitmap st2)) p =
      (if s \<le> p \<and> p < s + length fs then Some False else bit_read (bitmap (vmm_bitmap st')) p)" for p
    using st2(2) unfolding free_inv_def by blast
  have free2: "free_pages (frames (paging st2)) = free_pages (frames (paging st')) \<union> set fs"
    using st2(2) unfolding free_inv_def by simp
  show ?thesis
  proof (intro exI conjI allI)
    show "vmm_free_pages va bytes st' = Some (True, st2)" using st2(1) e(1) by simp
    show "translate (paging st2) v = (if \<exists>j < ?n. vpage v = vpage (vmm_addr (s + j)) then None
        else translate (paging st) v)" for v
      using mapped(10) unfolding tr e(2) other_pages_same_def mapped(5) by auto
    show "bit_read (bitmap (vmm_bitmap st2)) p = bit_read (bitmap (vmm_bitmap st)) p" for p
      using free_run_page[OF mapped(2), of p] unfolding bit2 bits mapped(5) by (simp add: page_free_def)
  qed (rule e(1) mapped(9)[unfolded e(2)] free2)+
qed (use assms(2,3) in simp_all)

lemma vmm_malloc_free_roundtrip_witness:
  "\<exists>va st' st''. vmm_malloc_pages 4096 sample_vmm = Some (va, st') \<and> vmm_free_pages va 4096 st' = Some (True, st'')"
proof -
  obtain va st' where e: "vmm_malloc_pages 4096 sample_vmm = Some (va, st')" "va \<noteq> 0"
    by (rule sample_malloc)
  from vmm_malloc_free_roundtrip[OF sample_vmm_ok e] e show ?thesis by blast
qed

section \<open>The kernel heap on top of the virtual memory manager\<close>

text \<open>A machine large enough for the heap: 32768 frames of which the first two are taken, and as many
  virtual pages, all free.\<close>

definition large_vmm :: vmm_state where
  "large_vmm = \<lparr>paging = sample_paging\<lparr>frames := (frames sample_paging)\<lparr>
       pmm_bitmap := \<lparr>bitmap = 3 # replicate 4095 0, count = 32768\<rparr>\<rparr>\<rparr>,
     vmm_bitmap = \<lparr>bitmap = replicate 4096 0, count = 32768\<rparr>\<rparr>"

lemma bit_read_zeros: "p < 8 * n \<Longrightarrow> bit_read (replicate n 0) p = Some False"
  by (simp add: bit_read_def rd_def)

lemma large_bits:
  assumes "p < 32768"
  shows "bit_read (3 # replicate 4095 0) p = Some (p < 2)"
proof (cases "p < 8")
  case True
  have "map (bit_read [3]) [0..<8] = map (\<lambda>p. Some (p < 2)) [0..<8]" by code_simp
  then have "bit_read [3] p = Some (p < 2)" using True by (simp only: map_eq_conv set_upt) simp
  with True show ?thesis by (simp add: bit_read_def rd_def)
next
  case False
  then have "0 < p div 8" by (simp add: div_greater_zero_iff)
  with False assms show ?thesis by (auto simp: bit_read_def rd_def nth_Cons')
qed

lemma large_free: "free_pages (frames (paging large_vmm)) = {2 ..< 32768}"
  by (auto simp: free_pages_def page_free_def large_vmm_def large_bits)

lemma large_vmm_ok: "vmm_ok {} large_vmm"
proof -
  have "pmm_ok (frames (paging large_vmm))" by (simp add: pmm_ok_def large_vmm_def bitmap_wf_def)
  moreover have "\<forall>k \<in> free_pages (frames (paging large_vmm)). 0 < k \<and> k < 2 ^ 40" using large_free by auto
  moreover have "tree_ok (pt_mem (paging large_vmm)) (cr3 (paging large_vmm)) (free_pages (frames (paging large_vmm)) \<union> {})"
    unfolding tree_ok_def
  proof (intro conjI allI impI)
    fix p t assume "walk (pt_mem (paging large_vmm)) (cr3 (paging large_vmm)) p = Some t"
    then have "t = frame_addr 1" by (auto simp: large_vmm_def sample_paging_def dest: walk_empty)
    moreover have "1 \<notin> free_pages (frames (paging large_vmm)) \<union> {}" using large_free by auto
    ultimately show "\<exists>k. t = frame_addr k \<and> 0 < k \<and> k < 2 ^ 52 \<and> k \<notin> free_pages (frames (paging large_vmm)) \<union> {}"
      by (intro exI[of _ 1]) simp
  qed (auto simp: large_vmm_def sample_paging_def dest: walk_empty)
  ultimately show ?thesis by (simp add: vmm_ok_def paging_ok_def) (simp add: large_vmm_def bitmap_wf_def)
qed

lemma heap_pages: "pages_for (of_nat INIT_HEAP_SIZE) = 4096"
  by (simp add: INIT_HEAP_SIZE_def divide_round_up_def)

lemma large_heap_alloc: obtains h st' where "init_heap_alloc m large_vmm = Some (Some h, st')"
  using large_vmm_ok
proof (cases rule: vmm_malloc_cases[where bytes = "of_nat INIT_HEAP_SIZE"])
  case (mapped s fs st')
  have "s < 2 ^ 32" using free_run_bound[OF mapped(2,3)] by (simp add: large_vmm_def)
  with mapped(1) vmm_addr_nonzero that show thesis unfolding init_heap_alloc_def by simp
next
  case no_range
  have "free_run (vmm_bitmap large_vmm) 0 4096" by (simp add: free_run_def page_free_def large_vmm_def bit_read_zeros)
  with no_range show thesis unfolding heap_pages by (simp add: large_vmm_def)
next
  case (no_frame s st')
  then show thesis unfolding heap_pages by (simp add: large_free)
qed

text \<open>The heap \<open>init_heap_alloc\<close> sets up lies in pages that are all mapped writable, to distinct
  frames, and nothing in it is allocated yet.\<close>

theorem init_heap_alloc_correct:
  assumes "vmm_ok X st" and "init_heap_alloc m st = Some (Some h, st')"
  shows "\<exists>s fs. heapStartPtr h = unat (vmm_addr s) \<and> heapEndPtr h = unat (vmm_addr s) + INIT_HEAP_SIZE \<and>
    length fs = 4096 \<and> distinct fs \<and> page_maps (paging st') s fs \<and> heap_live h Map.empty"
proof -
  obtain va where va: "vmm_malloc_pages (of_nat INIT_HEAP_SIZE) st = Some (va, st')" "va \<noteq> 0"
    "h = heap_setup (unat va) INIT_HEAP_SIZE m"
    using assms(2) by (auto simp: init_heap_alloc_def bind_eq_Some_conv split: if_splits)
  from assms(1) show ?thesis
  proof (cases rule: vmm_malloc_cases[where bytes = "of_nat INIT_HEAP_SIZE"])
    case (mapped s fs st1)
    with va(1) have e: "va = vmm_addr s" "st1 = st'" by simp_all
    have "heap_live h Map.empty" unfolding va(3) by (rule heap_setup_live) (simp_all add: INIT_HEAP_SIZE_def)
    moreover have "heapStartPtr h = unat (vmm_addr s)" "heapEndPtr h = unat (vmm_addr s) + INIT_HEAP_SIZE"
      unfolding va(3) e(1) heap_setup_def by (simp_all add: Let_def)
    ultimately show ?thesis using mapped(5,6,9) unfolding e(2) heap_pages by blast
  qed (use va in simp_all)
qed

lemma init_heap_alloc_correct_witness:
  "\<exists>h st' s fs. init_heap_alloc (\<lambda>_. 0) large_vmm = Some (Some h, st') \<and> length fs = 4096 \<and>
    page_maps (paging st') s fs \<and> heap_live h Map.empty"
proof -
  obtain h st' where e: "init_heap_alloc (\<lambda>_. 0) large_vmm = Some (Some h, st')" by (rule large_heap_alloc)
  from init_heap_alloc_correct[OF large_vmm_ok e] e show ?thesis by blast
qed

text \<open>A page that has no translation: \<open>vmm_free_pages\<close> reports it and goes on, with the bit counter where
  it was.\<close>

lemma free_step_unmapped:
  assumes ok: "paging_ok X (paging st)" and tr: "translate (paging st) (va + of_nat i * PAGE_SIZE) = None"
  obtains pg where "vmm_free_step va i (suc, c, st) = Some (False, c, st\<lparr>paging := pg\<rparr>)" "same_view X (paging st) pg"
  using ok
proof (cases rule: page_walk_spec[where va = "va + of_nat i * PAGE_SIZE"])
  case (entry t pg)
  have "translate pg (va + of_nat i * PAGE_SIZE) = None" using tr entry(2) by (simp add: same_view_def)
  with entry(3) have "\<not> Present (pt_mem pg (slot t (get_PT_Index (va + of_nat i * PAGE_SIZE))))"
    by (auto simp: translate_def Let_def split: if_splits)
  with entry(1,2) show thesis by (intro that[of pg]) (simp_all add: vmm_free_step_def)
next
  case (none pg)
  then show thesis by (intro that[of pg]) (simp_all add: vmm_free_step_def)
qed

text \<open>C35. After a page without translation \<open>vmm_free_pages\<close> clears the bit of the wrong page: freeing two
  pages of which only the second is mapped unmaps the second and frees its frame, but clears the bit
  of the first and leaves the bit of the second as it was.\<close>

theorem vmm_free_skips_bit:
  assumes "vmm_ok X st" and "translate (paging st) (vmm_addr s) = None"
    and "translate (paging st) (vmm_addr (s + 1)) = Some e" and "next_table e = frame_addr k"
    and "k \<in> X" and "0 < k" and "k < 2 ^ 40" and "k < count (pmm_bitmap (frames (paging st)))"
    and "s + 1 < count (vmm_bitmap st)"
  shows "\<exists>st'. vmm_free_pages (vmm_addr s) 8192 st = Some (False, st') \<and>
    translate (paging st') (vmm_addr (s + 1)) = None \<and> k \<in> free_pages (frames (paging st')) \<and>
    bit_read (bitmap (vmm_bitmap st')) s = Some False \<and>
    bit_read (bitmap (vmm_bitmap st')) (s + 1) = bit_read (bitmap (vmm_bitmap st)) (s + 1)"
proof -
  have pok: "paging_ok X (paging st)" and wf: "bitmap_wf (vmm_bitmap st)" and c: "count (vmm_bitmap st) \<le> 2 ^ 32"
    using assms(1) by (simp_all add: vmm_ok_def)
  have s32: "s < 2 ^ 32" and s8: "s < 8 * length (bitmap (vmm_bitmap st))"
    using assms(9) c wf by (simp_all add: bitmap_wf_def)
  have t0: "translate (paging st) (vmm_addr s + of_nat 0 * PAGE_SIZE) = None" using assms(2) by simp
  obtain pg where pg: "vmm_free_step (vmm_addr s) 0 (True, s, st) = Some (False, s, st\<lparr>paging := pg\<rparr>)"
    "same_view X (paging st) pg"
    by (rule free_step_unmapped[OF pok t0])
  have ok1: "paging_ok X pg" and tr1: "translate pg (vmm_addr (s + 1)) = Some e"
    and k1: "k < count (pmm_bitmap (frames pg))" using pg(2) assms(3,8) by (simp_all add: same_view_def)
  obtain t pg1 fr where f: "page_walk (vmm_addr (s + 1)) pg = Some (Some (slot t (get_PT_Index (vmm_addr (s + 1)))), pg)"
    "pt_mem pg (slot t (get_PT_Index (vmm_addr (s + 1)))) = e" "Present e"
    "free_page (vmm_addr (s + 1)) pg = Some (True, pg1)"
    "pmm_free (frame_addr k) PAGE_SIZE (frames pg1) = Some (True, fr)"
    "free_pages fr = insert k (free_pages (frames pg))"
    "\<And>va'. translate pg1 va' = (if vpage va' = vpage (vmm_addr (s + 1)) then None else translate pg va')"
    by (rule free_one[OF ok1 tr1 assms(4-7) k1]) blast
  obtain bm where bm: "bit_write (bitmap (vmm_bitmap st)) s False = Some bm"
    "\<forall>p. bit_read bm p = (if p = s then Some False else bit_read (bitmap (vmm_bitmap st)) p)"
    using bits.put_in[OF s8, of False] by auto
  define st' where "st' = st\<lparr>paging := pg1\<lparr>frames := fr\<rparr>, vmm_bitmap := (vmm_bitmap st)\<lparr>bitmap := bm\<rparr>\<rparr>"
  have adr: "vmm_addr s + of_nat 1 * PAGE_SIZE = vmm_addr (s + 1)" by (rule vmm_addr_add)
  have "vmm_free_step (vmm_addr s) 1 (False, s, st\<lparr>paging := pg\<rparr>) = Some (False, Suc s, st')"
    unfolding vmm_free_step_def Let_def prod.case adr
    using f(1-5) bm(1) assms(4) by (simp add: st'_def next_table_def)
  moreover have "pages_for 8192 = Suc (Suc 0)" by (simp add: divide_round_up_def)
  ultimately have "vmm_free_pages (vmm_addr s) 8192 st = Some (False, st')"
    using pg(1) unfolding vmm_free_pages_def Let_def vmm_addr_index[OF s32] by simp
  moreover have "translate (paging st') (vmm_addr (s + 1)) = None" using f(7) by (simp add: st'_def)
  moreover have "k \<in> free_pages (frames (paging st'))" using f(6) by (simp add: st'_def)
  ultimately show ?thesis using bm(2) by (intro exI[of _ st']) (simp add: st'_def)
qed

lemma write_bits_count: "write_bits_in_range_from b n s v = Some b' \<Longrightarrow> count b' = count b"
  by (auto simp: write_bits_in_range_from_def bind_eq_Some_conv)

lemma vmm_free_skips_bit_witness:
  "\<exists>st s st'. translate (paging st) (vmm_addr (s + 1)) \<noteq> None \<and>
    vmm_free_pages (vmm_addr s) 8192 st = Some (False, st') \<and> translate (paging st') (vmm_addr (s + 1)) = None"
  using sample_vmm_ok
proof (cases rule: vmm_malloc_cases[where bytes = 4096])
  case (mapped t fs st)
  note one = pages_for_page
  from mapped(5) obtain k where fs: "fs = [k]" unfolding one by (auto simp: length_Suc_conv)
  have "bit_read [0b00000001, 0] 0 = Some True" by code_simp
  then have "t \<noteq> 0" using mapped(2) unfolding one by (auto simp: free_run_def page_free_def sample_vmm_def)
  then obtain s where s: "t = s + 1" by (cases t) auto
  have t16: "s + 1 < 16" using free_run_bound[OF mapped(2,3)] unfolding one s by (simp add: sample_vmm_def)
  have cnt: "count (vmm_bitmap st) = 16"
    using write_bits_count[OF mapped(4)] by (simp add: sample_vmm_def)
  from mapped(9) obtain e where e: "translate (paging st) (vmm_addr (s + 1)) = Some e" "next_table e = frame_addr k"
    by (auto simp: page_maps_def fs s)
  have k: "0 < k" "k < 2 ^ 40" "k < count (pmm_bitmap (frames (paging st)))"
    using mapped(7,12) unfolding fs by (auto simp: sample_vmm_def sample_free, simp add: sample_paging_def)
  have "vpage (vmm_addr s) \<noteq> vpage (vmm_addr (s + 1))" using vpage_vmm_inject[of s "s + 1"] t16 by auto
  then have "translate (paging st) (vmm_addr s) = translate sample_paging (vmm_addr s)"
    using mapped(10) unfolding one s other_pages_same_def by (simp add: sample_vmm_def)
  also have "\<dots> = None"
    by (simp add: translate_def sample_paging_def dir_path_def empty_entry_def)
  finally have n: "translate (paging st) (vmm_addr s) = None" .
  have "k \<in> {} \<union> set fs" "s + 1 < count (vmm_bitmap st)" using fs t16 cnt by simp_all
  from vmm_free_skips_bit[OF mapped(8) n e this(1) k this(2)] e(1) show ?thesis by blast
next
  case no_range
  with sample_run free_run_bound[OF sample_run] show ?thesis unfolding pages_for_page by auto
next
  case (no_frame s st')
  then show ?thesis unfolding pages_for_page by (simp add: sample_vmm_def sample_free)
qed

end
