(* ===== verification/StringLib.thy ===== *)
theory StringLib
  imports Prelude
begin

text \<open>
  \<^verbatim>\<open>kernel/types/char/char.h\<close>, \<^verbatim>\<open>kernel/types/string\<close>, \<^verbatim>\<open>kernel/types/integer\<close> and
  \<^verbatim>\<open>kernel/types/utf16\<close>. A \<open>char*\<close> is the list of bytes from the pointer to the end of
  the object it points into; reading or writing past the end is a fault (\<open>None\<close>).
  Functions that write through a pointer return the new bytes.
\<close>

section \<open>Characters\<close>

type_synonym buffer = "u8 list"

abbreviation ch :: "char \<Rightarrow> u8" where "ch c \<equiv> of_char c"

abbreviation ascii :: "string \<Rightarrow> u8 list" where "ascii s \<equiv> map of_char s"

definition is_digit :: "u8 \<Rightarrow> bool" where
  "is_digit c = (c \<ge> ch (CHR ''0'') \<and> c \<le> ch (CHR ''9''))"

definition is_alpha :: "u8 \<Rightarrow> bool" where
  "is_alpha c = ((c \<ge> ch (CHR ''A'') \<and> c \<le> ch (CHR ''Z'')) \<or> (c \<ge> ch (CHR ''a'') \<and> c \<le> ch (CHR ''z'')))"

definition is_upper_alpha :: "u8 \<Rightarrow> bool" where
  "is_upper_alpha c = (c \<ge> ch (CHR ''A'') \<and> c \<le> ch (CHR ''Z''))"

definition is_lower_alpha :: "u8 \<Rightarrow> bool" where
  "is_lower_alpha c = (c \<ge> ch (CHR ''a'') \<and> c \<le> ch (CHR ''z''))"

definition is_whitespace :: "u8 \<Rightarrow> bool" where
  "is_whitespace c = (c = 32 \<or> c = 9)"

definition to_upper :: "u8 \<Rightarrow> u8" where
  "to_upper c = (if \<not> is_lower_alpha c then c else c - 32)"

definition to_lower :: "u8 \<Rightarrow> u8" where
  "to_lower c = (if \<not> is_upper_alpha c then c else c + 32)"

section \<open>Allocation\<close>

text \<open>
  \<open>malloc_str\<close> hands out a cleared buffer. A request that the 16 MiB heap can never
  serve makes \<open>malloc\<close> return null, and clearing it is a fault; the exhaustion of a heap that is in
  use is treated in \<open>HeapRun\<close>, not here.
\<close>

definition malloc_str :: "u64 \<Rightarrow> buffer option" where
  "malloc_str sz = (if sz \<le> 0xFFFFF8 then Some (replicate (unat sz) 0) else None)"

definition malloc_empty_str :: "buffer option" where
  "malloc_empty_str = do {
     ret \<leftarrow> malloc_str 2;
     ret \<leftarrow> wr ret 0 (ch (CHR ''0''));
     wr ret 1 0 }"

section \<open>Length and comparison\<close>

function str_length_from :: "buffer \<Rightarrow> nat \<Rightarrow> nat option" where
  "str_length_from str i =
     (case rd str i of None \<Rightarrow> None | Some c \<Rightarrow> if c \<noteq> 0 then str_length_from str (Suc i) else Some i)"
  by auto
termination
  by (relation "measure (\<lambda>(str, i). length str - i)") (auto simp: rd_eq_Some_iff)

declare str_length_from.simps [simp del]

definition str_length :: "buffer \<Rightarrow> nat option" where
  "str_length str = str_length_from str 0"

text \<open>The loop that returns false at the first difference of \<open>a[ao + i]\<close> and \<open>b[i]\<close>.\<close>

definition same_chars :: "buffer \<Rightarrow> nat \<Rightarrow> buffer \<Rightarrow> nat \<Rightarrow> bool option" where
  "same_chars a ao b n = do {
     r \<leftarrow> for_until (\<lambda>i (_ :: unit). do {
         x \<leftarrow> rd a (ao + i);
         y \<leftarrow> rd b i;
         Some (if x \<noteq> y then Inl False else Inr ()) }) 0 n ();
     Some (case r of Inl v \<Rightarrow> v | Inr _ \<Rightarrow> True) }"

definition str_equal :: "buffer \<Rightarrow> buffer \<Rightarrow> bool option" where
  "str_equal a b = do {
     a_len \<leftarrow> str_length a;
     b_len \<leftarrow> str_length b;
     if a_len \<noteq> b_len then Some False else same_chars a 0 b a_len }"

definition str_equal_char :: "buffer \<Rightarrow> u8 \<Rightarrow> bool option" where
  "str_equal_char a b = do {
     a_len \<leftarrow> str_length a;
     if a_len \<noteq> 1 then Some False else do { c \<leftarrow> rd a 0; Some (c = b) } }"

section \<open>Copying\<close>

text \<open>\<open>for (j = 0; j < n; j++) dest[off + j] = src[soff + j]\<close>.\<close>

abbreviation copy_chars :: "buffer \<Rightarrow> nat \<Rightarrow> nat \<Rightarrow> nat \<Rightarrow> buffer \<Rightarrow> buffer option" where
  "copy_chars src soff n off dest \<equiv>
     for_range (\<lambda>j dest. do { c \<leftarrow> rd src (soff + j); wr dest (off + j) c }) 0 n dest"

definition str_copy :: "buffer \<Rightarrow> buffer \<Rightarrow> buffer option" where
  "str_copy dest src = do {
     src_len \<leftarrow> str_length src;
     dest \<leftarrow> copy_chars src 0 src_len 0 dest;
     wr dest src_len 0 }"

definition str_add :: "buffer \<Rightarrow> buffer \<Rightarrow> buffer option" where
  "str_add target val = do {
     target_length \<leftarrow> str_length target;
     value_length \<leftarrow> str_length val;
     target \<leftarrow> copy_chars val 0 value_length target_length target;
     wr target (target_length + value_length) 0 }"

definition str_add_char :: "buffer \<Rightarrow> u8 \<Rightarrow> buffer option" where
  "str_add_char target char_value = do {
     target_length \<leftarrow> str_length target;
     target \<leftarrow> for_range (\<lambda>i target. wr target (target_length + i) char_value) 0 1 target;
     wr target (target_length + 1) 0 }"

section \<open>Searching\<close>

text \<open>The array \<open>comparison\<close> is written completely before it is read.\<close>

definition window :: "buffer \<Rightarrow> nat \<Rightarrow> nat \<Rightarrow> buffer option" where
  "window text i searchText_len = do {
     comparison \<leftarrow> copy_chars text i searchText_len 0 (replicate (searchText_len + 1) 0);
     wr comparison searchText_len 0 }"

definition str_contains :: "buffer \<Rightarrow> buffer \<Rightarrow> bool option" where
  "str_contains text searchText = do {
     searchText_len \<leftarrow> str_length searchText;
     text_len \<leftarrow> str_length text;
     if searchText_len > text_len then Some False
     else do {
       r \<leftarrow> for_until (\<lambda>i (_ :: unit). do {
           comparison \<leftarrow> window text i searchText_len;
           eq \<leftarrow> str_equal searchText comparison;
           Some (if eq then Inl True else Inr ()) }) 0 (text_len - searchText_len + 1) ();
       Some (case r of Inl v \<Rightarrow> v | Inr _ \<Rightarrow> False) } }"

definition str_count :: "buffer \<Rightarrow> buffer \<Rightarrow> nat option" where
  "str_count text searchText = do {
     searchText_len \<leftarrow> str_length searchText;
     text_len \<leftarrow> str_length text;
     if searchText_len > text_len then Some 0
     else for_range (\<lambda>i counterHits. do {
         comparison \<leftarrow> window text i searchText_len;
         eq \<leftarrow> str_equal searchText comparison;
         Some (if eq then counterHits + 1 else counterHits) }) 0 (text_len - searchText_len + 1) 0 }"

definition str_starts_with :: "buffer \<Rightarrow> buffer \<Rightarrow> bool option" where
  "str_starts_with text searchText = do {
     searchText_len \<leftarrow> str_length searchText;
     text_len \<leftarrow> str_length text;
     if searchText_len > text_len then Some False else same_chars text 0 searchText searchText_len }"

definition str_ends_with :: "buffer \<Rightarrow> buffer \<Rightarrow> bool option" where
  "str_ends_with text searchText = do {
     text_len \<leftarrow> str_length text;
     searchText_len \<leftarrow> str_length searchText;
     if searchText_len > text_len then Some False
     else same_chars text (text_len - searchText_len) searchText searchText_len }"

section \<open>Building\<close>

definition str_repeat :: "buffer \<Rightarrow> u64 \<Rightarrow> buffer option" where
  "str_repeat text amount = do {
     text_len \<leftarrow> str_length text;
     returnString \<leftarrow> malloc_str (of_nat text_len * amount + 1);
     returnString \<leftarrow> for_range (\<lambda>i returnString. copy_chars text 0 text_len (i * text_len) returnString)
       0 (unat amount) returnString;
     wr returnString (unat (of_nat text_len * amount)) 0 }"

definition str_combine :: "buffer \<Rightarrow> buffer \<Rightarrow> buffer option" where
  "str_combine a b = do {
     len_a \<leftarrow> str_length a;
     len_b \<leftarrow> str_length b;
     returnString \<leftarrow> malloc_str (of_nat (len_a + len_b + 1));
     returnString \<leftarrow> copy_chars a 0 len_a 0 returnString;
     returnString \<leftarrow> copy_chars b 0 len_b len_a returnString;
     wr returnString (len_a + len_b) 0 }"

definition str_combine_char :: "buffer \<Rightarrow> u8 \<Rightarrow> buffer option" where
  "str_combine_char a b = do {
     len_a \<leftarrow> str_length a;
     returnString \<leftarrow> malloc_str (of_nat (len_a + 2));
     returnString \<leftarrow> copy_chars a 0 len_a 0 returnString;
     returnString \<leftarrow> wr returnString len_a b;
     wr returnString (len_a + 1) 0 }"

section \<open>Numbers\<close>

text \<open>
  The number of digits, and the digits from the lowest one on. The loops run with \<open>base\<close> at
  least 2 (the function returns before them otherwise); at 0 and 1 the definitions stop.
\<close>

function digit_count :: "u64 \<Rightarrow> u64 \<Rightarrow> nat \<Rightarrow> nat" where
  "digit_count base calcValue strLength =
     (if calcValue = 0 \<or> base \<le> 1 then strLength else digit_count base (calcValue div base) (strLength + 1))"
  by auto

definition digit_char :: "u64 \<Rightarrow> u8" where
  "digit_char newValue = (if newValue < 10 then ucast (newValue + 48) else ucast (97 + (newValue - 10)))"

function compose_digits :: "u64 \<Rightarrow> u64 \<Rightarrow> nat \<Rightarrow> buffer \<Rightarrow> (nat \<times> buffer) option" where
  "compose_digits base calcValue strLength composedString =
     (if calcValue = 0 \<or> base \<le> 1 then Some (strLength, composedString)
      else do {
        composedString \<leftarrow> wr composedString strLength (digit_char (calcValue mod base));
        compose_digits base (calcValue div base) (strLength + 1) composedString })"
  by auto

lemma word_div_less:
  assumes "v \<noteq> 0" "\<not> b \<le> (1 :: u64)"
  shows "unat (v div b) < unat v"
proof -
  have "1 < unat b" using assms(2) by (simp add: word_le_nat_alt)
  moreover have "0 < unat v" using assms(1) by (simp add: unat_gt_0)
  ultimately show ?thesis by (simp add: unat_div_distrib)
qed

termination digit_count
  by (relation "measure (\<lambda>(base, v, n). unat v)") (auto simp: word_div_less)

termination compose_digits
  by (relation "measure (\<lambda>(base, v, n, buf). unat v)") (auto simp: word_div_less)

declare digit_count.simps [simp del] compose_digits.simps [simp del]

definition to_string :: "u64 \<Rightarrow> u8 \<Rightarrow> buffer option" where
  "to_string inputValue base =
     (if inputValue = 0 \<or> base = 0 \<or> base = 1 then malloc_empty_str
      else do {
        let strLength = digit_count (ucast base) inputValue 0;
        composedString \<leftarrow> malloc_str (of_nat (strLength + 1));
        returnString \<leftarrow> malloc_str (of_nat (strLength + 1));
        (strLength, composedString) \<leftarrow> compose_digits (ucast base) inputValue 0 composedString;
        returnString \<leftarrow> for_range (\<lambda>counter returnString. do {
            c \<leftarrow> rd composedString (strLength - 1 - counter);
            wr returnString counter c }) 0 strLength returnString;
        wr returnString strLength 0 })"

text \<open>\<open>int64_t\<close>: the sign bit decides.\<close>

definition to_string_signed :: "u64 \<Rightarrow> u8 \<Rightarrow> buffer option" where
  "to_string_signed inputValue base =
     (if 0 \<le>s inputValue then to_string inputValue base
      else do {
        s \<leftarrow> to_string (- inputValue) base;
        str_combine (ascii ''-'' @ [0]) s })"

definition digit_value :: "u8 \<Rightarrow> u64" where
  "digit_value c =
     (if is_digit c then ucast (c - ch (CHR ''0''))
      else if is_alpha c then ucast (to_lower c - ch (CHR ''a'') + 10)
      else 0)"

definition to_int :: "buffer \<Rightarrow> u64 \<Rightarrow> u64 option" where
  "to_int text base = do {
     text_len \<leftarrow> str_length text;
     c \<leftarrow> rd text 0;
     if c = 0 then Some 0
     else do {
       let isNegative = (c = ch (CHR ''-''));
       let numberStartAtIdx = (if isNegative then 1 else 0);
       res \<leftarrow> for_range (\<lambda>i res. do { c \<leftarrow> rd text i; Some (res * base + digit_value c) })
         numberStartAtIdx text_len 0;
       Some (if isNegative then 0 - res else res) } }"

section \<open>Cutting and trimming\<close>

definition str_cut_end :: "buffer \<Rightarrow> nat \<Rightarrow> buffer option" where
  "str_cut_end Text n = do {
     text_length \<leftarrow> str_length Text;
     if n \<ge> text_length then wr Text 0 0 else wr Text (text_length - n) 0 }"

definition str_cut_end_malloc :: "buffer \<Rightarrow> nat \<Rightarrow> buffer option" where
  "str_cut_end_malloc Text n = do {
     text_length \<leftarrow> str_length Text;
     returnString \<leftarrow> malloc_str (of_nat (text_length + 1));
     returnString \<leftarrow> str_copy returnString Text;
     if n \<ge> text_length then wr returnString 0 0 else wr returnString (text_length - n) 0 }"

text \<open>\<open>return_len\<close> is an unsigned difference: it wraps when \<open>n\<close> exceeds the length.\<close>

definition str_cut_start :: "buffer \<Rightarrow> nat \<Rightarrow> buffer option" where
  "str_cut_start text n = do {
     text_len \<leftarrow> str_length text;
     let return_len = of_nat text_len - of_nat n + 1;
     returnString \<leftarrow> malloc_str return_len;
     for_range (\<lambda>i returnString. do { c \<leftarrow> rd text i; wr returnString (i - n) c }) n text_len returnString }"

definition str_move_right :: "buffer \<Rightarrow> u64 \<Rightarrow> buffer option" where
  "str_move_right text moveAmount = do {
     text_len \<leftarrow> str_length text;
     ret \<leftarrow> malloc_str (of_nat text_len + moveAmount + 1);
     ret \<leftarrow> for_range (\<lambda>i ret. wr ret i (ch (CHR '' ''))) 0 (unat moveAmount) ret;
     str_add ret text }"

text \<open>The copy that skips leading white space: the state is \<open>spottedChars\<close>, \<open>newLength\<close> and the result.\<close>

definition skip_leading :: "buffer \<Rightarrow> nat \<Rightarrow> buffer \<Rightarrow> (bool \<times> nat \<times> buffer) option" where
  "skip_leading text text_len returnString =
     for_range (\<lambda>i (spottedChars, newLength, returnString). do {
         c \<leftarrow> rd text i;
         if is_whitespace c \<and> \<not> spottedChars then Some (spottedChars, newLength, returnString)
         else do {
           returnString \<leftarrow> wr returnString newLength c;
           Some (True, newLength + 1, returnString) } }) 0 text_len (False, 0, returnString)"

text \<open>\<open>for (i = n - 1; i >= 0; i--)\<close>: zero white space from the end, stop at the first other character.\<close>

definition clear_trailing :: "nat \<Rightarrow> buffer \<Rightarrow> buffer option" where
  "clear_trailing n returnString = do {
     r \<leftarrow> for_until (\<lambda>k returnString. do {
         let i = n - 1 - k;
         c \<leftarrow> rd returnString i;
         if is_whitespace c then do { returnString \<leftarrow> wr returnString i 0; Some (Inr returnString) }
         else Some (Inl returnString) }) 0 n returnString;
     Some (case r of Inl s \<Rightarrow> s | Inr s \<Rightarrow> s) }"

definition str_trim_start :: "buffer \<Rightarrow> buffer option" where
  "str_trim_start text = do {
     text_len \<leftarrow> str_length text;
     returnString \<leftarrow> malloc_str (of_nat (text_len + 1));
     (_, _, returnString) \<leftarrow> skip_leading text text_len returnString;
     Some returnString }"

definition str_trim_end :: "buffer \<Rightarrow> buffer option" where
  "str_trim_end text = do {
     text_len \<leftarrow> str_length text;
     returnString \<leftarrow> malloc_str (of_nat (text_len + 1));
     returnString \<leftarrow> str_copy returnString text;
     clear_trailing text_len returnString }"

definition str_trim :: "buffer \<Rightarrow> buffer option" where
  "str_trim text = do {
     text_len \<leftarrow> str_length text;
     returnString \<leftarrow> malloc_str (of_nat (text_len + 1));
     (_, newLength, returnString) \<leftarrow> skip_leading text text_len returnString;
     clear_trailing newLength returnString }"

definition str_to_upper :: "buffer \<Rightarrow> buffer option" where
  "str_to_upper text = do {
     text_len \<leftarrow> str_length text;
     returnString \<leftarrow> malloc_str (of_nat (text_len + 1));
     for_range (\<lambda>i returnString. do { c \<leftarrow> rd text i; wr returnString i (to_upper c) }) 0 text_len returnString }"

definition str_to_lower :: "buffer \<Rightarrow> buffer option" where
  "str_to_lower text = do {
     text_len \<leftarrow> str_length text;
     returnString \<leftarrow> malloc_str (of_nat (text_len + 1));
     for_range (\<lambda>i returnString. do { c \<leftarrow> rd text i; wr returnString i (to_lower c) }) 0 text_len returnString }"

section \<open>Splitting and replacing\<close>

text \<open>\<open>outSplits\<close> is the caller's array (its capacity is its length); \<open>outSplitQty\<close> is returned with it.\<close>

definition str_split :: "buffer \<Rightarrow> u8 \<Rightarrow> buffer list \<Rightarrow> (buffer list \<times> nat) option" where
  "str_split text splitChar outSplits = do {
     text_len \<leftarrow> str_length text;
     outSplitQty \<leftarrow> for_range (\<lambda>i qty. do { c \<leftarrow> rd text i; Some (if c = splitChar then qty + 1 else qty) })
       0 text_len 1;
     (_, _, outSplits) \<leftarrow> for_range (\<lambda>i (partStart, partNo, outSplits). do {
         c \<leftarrow> rd text i;
         if i \<noteq> text_len \<and> c \<noteq> splitChar then Some (partStart, partNo, outSplits)
         else do {
           let part_len = i - partStart;
           part \<leftarrow> malloc_str (of_nat (part_len + 1));
           part \<leftarrow> copy_chars text partStart part_len 0 part;
           part \<leftarrow> wr part part_len 0;
           outSplits \<leftarrow> wr outSplits partNo part;
           Some (i + 1, partNo + 1, outSplits) } }) 0 (text_len + 1) (0, 0, outSplits);
     Some (outSplits, outSplitQty) }"

text \<open>
  \<open>str_replace\<close>: the matches are collected first (an array of 1024 pointers, here offsets into
  \<open>text\<close>), then replaced from left to right with the running \<open>offset\<close>. A pointer that falls
  before the object is a fault.
\<close>

definition replace_at :: "buffer \<Rightarrow> nat \<Rightarrow> nat \<Rightarrow> nat \<Rightarrow> buffer \<Rightarrow> buffer option" where
  "replace_at replacedBy replacedBy_len searchText_len ptr text =
     (if searchText_len = replacedBy_len then copy_chars replacedBy 0 replacedBy_len ptr text
      else do {
        tail \<leftarrow> str_cut_start (drop ptr text) searchText_len;
        text \<leftarrow> copy_chars replacedBy 0 replacedBy_len ptr text;
        text \<leftarrow> wr text (ptr + replacedBy_len) 0;
        rest \<leftarrow> str_add (drop ptr text) tail;
        Some (take ptr text @ rest) })"

definition str_replace :: "buffer \<Rightarrow> buffer \<Rightarrow> buffer \<Rightarrow> buffer option" where
  "str_replace text searchText replacedBy = do {
     searchText_len \<leftarrow> str_length searchText;
     text_len \<leftarrow> str_length text;
     if searchText_len > text_len then Some text
     else do {
       (counter, findings) \<leftarrow> for_range (\<lambda>i (counter, findings). do {
           comparison \<leftarrow> window text i searchText_len;
           eq \<leftarrow> str_equal searchText comparison;
           if eq then do { findings \<leftarrow> wr findings counter i; Some (counter + 1, findings) }
           else Some (counter, findings) }) 0 (text_len - searchText_len + 1) (0, replicate 1024 0);
       if counter = 0 then Some text
       else do {
         replacedBy_len \<leftarrow> str_length replacedBy;
         (_, text) \<leftarrow> for_range (\<lambda>i (offset, text). do {
             found \<leftarrow> rd findings i;
             let ptr = int found + offset;
             if ptr < 0 then None
             else do {
               text \<leftarrow> replace_at replacedBy replacedBy_len searchText_len (nat ptr) text;
               Some (offset + (int replacedBy_len - int searchText_len), text) } }) 0 counter (0, text);
         Some text } } }"

section \<open>UTF-16\<close>

text \<open>Two bytes per character, low byte first; 0 and 0xFFFF end the text.\<close>

definition utf16_char_to_ascii :: "buffer \<Rightarrow> u8 option" where
  "utf16_char_to_ascii c = rd c 0"

definition utf16_text_to_ascii :: "buffer \<Rightarrow> u32 \<Rightarrow> buffer option" where
  "utf16_text_to_ascii text charCount = do {
     returnString \<leftarrow> malloc_str (ucast (charCount + 1));
     r \<leftarrow> for_until (\<lambda>i (writtenChars, returnString). do {
         low \<leftarrow> rd text (i * 2);
         high \<leftarrow> rd text (i * 2 + 1);
         if (low = 0x00 \<and> high = 0x00) \<or> (low = 0xFF \<and> high = 0xFF) then Some (Inl (writtenChars, returnString))
         else do {
           returnString \<leftarrow> wr returnString writtenChars low;
           Some (Inr (writtenChars + 1, returnString)) } }) 0 (unat charCount) (0, returnString);
     let (writtenChars, returnString) = (case r of Inl s \<Rightarrow> s | Inr s \<Rightarrow> s);
     wr returnString writtenChars 0 }"

section \<open>struct String\<close>

text \<open>The arguments of the constructor become buffers (\<open>to_cstr\<close>) which are combined from the left,
  starting with the empty string. The temporaries are freed; the result owns one buffer.\<close>

datatype string_arg = Chars buffer | Char u8 | Unsigned u64 | Signed u64

fun to_cstr :: "string_arg \<Rightarrow> buffer option" where
  "to_cstr (Chars s) = do {
     len \<leftarrow> str_length s;
     ret \<leftarrow> malloc_str (of_nat (len + 1));
     str_copy ret s }"
| "to_cstr (Char c) = do { ret \<leftarrow> malloc_str 2; wr ret 0 c }"
| "to_cstr (Unsigned n) = to_string n 10"
| "to_cstr (Signed n) = to_string_signed n 10"

fun combine_parts :: "buffer \<Rightarrow> buffer list \<Rightarrow> buffer option" where
  "combine_parts data [] = Some data"
| "combine_parts data (part # parts) = do { combined \<leftarrow> str_combine data part; combine_parts combined parts }"

fun convert_args :: "string_arg list \<Rightarrow> buffer list option" where
  "convert_args [] = Some []"
| "convert_args (a # args) = do { p \<leftarrow> to_cstr a; ps \<leftarrow> convert_args args; Some (p # ps) }"

definition String_construct :: "string_arg list \<Rightarrow> buffer option" where
  "String_construct args = do {
     parts \<leftarrow> convert_args args;
     data \<leftarrow> malloc_str 1;
     combine_parts data parts }"

definition String_copy :: "buffer \<Rightarrow> buffer option" where
  "String_copy data = do {
     len \<leftarrow> str_length data;
     copy \<leftarrow> malloc_str (of_nat (len + 1));
     str_copy copy data }"

end
