(* ===== verification/StringSpec.thy ===== *)
theory StringSpec
  imports StringLib "HOL-Library.Sublist"
begin

text \<open>
  What the string functions compute, on C strings: \<open>cstr s buf\<close> says that the buffer
  starts with the characters \<open>s\<close> and their terminator.
\<close>

section \<open>C strings\<close>

definition cstr :: "u8 list \<Rightarrow> buffer \<Rightarrow> bool" where
  "cstr s buf \<longleftrightarrow> (\<exists>rest. buf = s @ 0 # rest) \<and> 0 \<notin> set s"

lemma cstrI: "0 \<notin> set s \<Longrightarrow> cstr s (s @ 0 # rest)"
  by (auto simp: cstr_def)

lemma cstrE:
  assumes "cstr s buf"
  obtains rest where "buf = s @ 0 # rest" "0 \<notin> set s"
  using assms by (auto simp: cstr_def)

lemma cstr_length: "cstr s buf \<Longrightarrow> length s < length buf"
  by (auto simp: cstr_def)

lemma cstr_rd: "cstr s buf \<Longrightarrow> i < length s \<Longrightarrow> rd buf i = Some (s ! i)"
  by (auto simp: cstr_def nth_append)

lemma cstr_rd_end: "cstr s buf \<Longrightarrow> rd buf (length s) = Some 0"
  by (auto simp: cstr_def nth_append)

lemma cstr_take: "cstr s buf \<Longrightarrow> take (length s) buf = s"
  by (auto simp: cstr_def)

lemma cstr_unique: "cstr s buf \<Longrightarrow> cstr t buf \<Longrightarrow> s = t"
proof (induction s arbitrary: t buf)
  case Nil
  then show ?case by (cases t) (auto simp: cstr_def)
next
  case (Cons c s)
  obtain rest where b: "buf = c # s @ 0 # rest" "c \<noteq> 0" "0 \<notin> set s" using Cons.prems(1) by (auto simp: cstr_def)
  with Cons.prems(2) obtain t' where t: "t = c # t'" by (cases t) (auto simp: cstr_def)
  with Cons.prems(2) b have "cstr t' (s @ 0 # rest)" by (auto simp: cstr_def)
  with Cons.IH[OF cstrI[OF b(3)]] t show ?case by blast
qed

lemma str_length_from_cstr: "cstr s buf \<Longrightarrow> i \<le> length s \<Longrightarrow> str_length_from buf i = Some (length s)"
proof (induction "length s - i" arbitrary: i)
  case 0
  then have "i = length s" by simp
  with cstr_rd_end[OF 0(2)] show ?case by (subst str_length_from.simps) simp
next
  case (Suc n)
  then have i: "i < length s" by simp
  then have "s ! i \<noteq> 0" using Suc.prems(1) nth_mem[OF i] by (metis cstr_def)
  with cstr_rd[OF Suc.prems(1) i] Suc.hyps(1)[of "Suc i"] Suc.hyps(2) Suc.prems(1) i show ?case
    by (subst str_length_from.simps) simp
qed

lemma str_length_cstr [simp]: "cstr s buf \<Longrightarrow> str_length buf = Some (length s)"
  by (simp add: str_length_def str_length_from_cstr)

text \<open>Without a terminator the scan runs off the object.\<close>

lemma str_length_unterminated: "0 \<notin> set buf \<Longrightarrow> str_length_from buf i = None"
proof (induction buf i rule: str_length_from.induct)
  case (1 buf i)
  show ?case
  proof (cases "rd buf i")
    case None
    then show ?thesis by (subst str_length_from.simps) simp
  next
    case (Some c)
    then have "c \<noteq> 0" using 1(2) by (auto simp: rd_eq_Some_iff in_set_conv_nth)
    with Some 1 show ?thesis by (subst str_length_from.simps) simp
  qed
qed

section \<open>The loops\<close>

lemma same_chars_spec:
  assumes "ao + n \<le> length a" "n \<le> length b"
  shows "same_chars a ao b n = Some (take n (drop ao a) = take n b)"
proof -
  let ?body = "\<lambda>i (_ :: unit). do { x \<leftarrow> rd a (ao + i); y \<leftarrow> rd b i; Some (if x \<noteq> y then Inl False else Inr ()) }"
  have "(\<exists>s. for_until ?body 0 n () = Some (Inr s) \<and> take (0 + n) (drop ao a) = take (0 + n) b) \<or>
    (\<exists>r. for_until ?body 0 n () = Some (Inl r) \<and> (\<not> r \<and> take n (drop ao a) \<noteq> take n b))"
  proof (rule for_until_rule[where I = "\<lambda>i _. take i (drop ao a) = take i b"])
    fix i :: nat and s :: unit
    assume i: "0 \<le> i" "i < 0 + n" and I: "take i (drop ao a) = take i b"
    then have l: "ao + i < length a" "i < length b" using assms by simp_all
    show "(\<exists>s'. ?body i s = Some (Inr s') \<and> take (Suc i) (drop ao a) = take (Suc i) b) \<or>
      (\<exists>r. ?body i s = Some (Inl r) \<and> (\<not> r \<and> take n (drop ao a) \<noteq> take n b))"
    proof (cases "a ! (ao + i) = b ! i")
      case True
      with I l show ?thesis by (simp add: take_Suc_conv_app_nth)
    next
      case False
      have "take n (drop ao a) ! i \<noteq> take n b ! i" using False i l by simp
      with False l show ?thesis by auto
    qed
  qed simp
  then show ?thesis by (auto simp: same_chars_def)
qed

lemma update_snoc:
  assumes "length xs < length ys"
  shows "(xs @ drop (length xs) ys)[length xs := v] = (xs @ [v]) @ drop (Suc (length xs)) ys"
proof -
  have "drop (length xs) ys = ys ! length xs # drop (Suc (length xs)) ys"
    by (rule Cons_nth_drop_Suc[symmetric, OF assms])
  then show ?thesis by simp
qed

text \<open>Filling a buffer from an index on, one position after the other.\<close>

lemma fill_loop:
  assumes off: "off + n \<le> length dest"
    and body: "\<And>i d. i < n \<Longrightarrow> length d = length dest \<Longrightarrow> body i d = wr d (off + i) (f i)"
  shows "for_loop body 0 n dest = Some (take off dest @ map f [0..<n] @ drop (off + n) dest)"
proof -
  let ?I = "\<lambda>i d. d = (take off dest @ map f [0..<i]) @ drop (off + i) dest"
  have "\<exists>d. for_loop body 0 n dest = Some d \<and> ?I (0 + n) d"
  proof (rule for_loop_rule[where I = ?I])
    fix i d assume i: "0 \<le> i" "i < 0 + n" and d: "?I i d"
    have pl: "length (take off dest @ map f [0..<i]) = off + i" using off i by simp
    have ld: "length d = length dest" using d off i by simp
    have "d[off + i := f i] = ((take off dest @ map f [0..<i]) @ [f i]) @ drop (Suc (off + i)) dest"
      using update_snoc[of "take off dest @ map f [0..<i]" dest "f i"] off i unfolding d pl by simp
    then show "\<exists>d'. body i d = Some d' \<and> ?I (Suc i) d'"
      using body[of i d] i ld off by simp
  qed simp
  then show ?thesis by simp
qed

lemma copy_chars_spec:
  assumes "soff + n \<le> length src" "off + n \<le> length dest"
  shows "copy_chars src soff n off dest = Some (take off dest @ take n (drop soff src) @ drop (off + n) dest)"
proof -
  have "map (\<lambda>i. src ! (soff + i)) [0..<n] = take n (drop soff src)"
    using assms(1) by (intro nth_equalityI) auto
  moreover have "for_loop (\<lambda>j dest. do { c \<leftarrow> rd src (soff + j); wr dest (off + j) c }) 0 n dest =
      Some (take off dest @ map (\<lambda>i. src ! (soff + i)) [0..<n] @ drop (off + n) dest)"
    by (rule fill_loop[OF assms(2)]) (use assms(1) in simp)
  ultimately show ?thesis by simp
qed

lemma copy_cstr:
  assumes "cstr s src" "off + length s \<le> length dest"
  shows "copy_chars src 0 (length s) off dest = Some (take off dest @ s @ drop (off + length s) dest)"
  using copy_chars_spec[of 0 "length s" src off dest] assms cstr_length[OF assms(1)] by (simp add: cstr_take)

lemma wr_end: "length xs < length ys \<Longrightarrow>
    wr (xs @ drop (length xs) ys) (length xs) v = Some (xs @ v # drop (Suc (length xs)) ys)"
  by (simp add: update_snoc)

section \<open>Comparison\<close>

lemma str_equal_spec: "cstr s a \<Longrightarrow> cstr t b \<Longrightarrow> str_equal a b = Some (s = t)"
  using same_chars_spec[of 0 "length s" a b] cstr_length[of s a] cstr_length[of t b] cstr_take[of s a] cstr_take[of t b]
  by (auto simp: str_equal_def)

lemma str_starts_with_spec:
  assumes "cstr s text" "cstr t search"
  shows "str_starts_with text search = Some (prefix t s)"
proof (cases "length t \<le> length s")
  case True
  have "take (length t) text = take (length t) s" using assms(1) True by (auto simp: cstr_def)
  then have "same_chars text 0 search (length t) = Some (take (length t) s = t)"
    using same_chars_spec[of 0 "length t" "text" search] True cstr_length[OF assms(1)] cstr_length[OF assms(2)] assms(2)
    by (simp add: cstr_take)
  moreover have "take (length t) s = t \<longleftrightarrow> prefix t s" by (metis append_eq_conv_conj append_take_drop_id prefix_def)
  ultimately show ?thesis using assms True by (simp add: str_starts_with_def)
next
  case False
  then have "\<not> prefix t s" using prefix_length_le by blast
  with assms False show ?thesis by (simp add: str_starts_with_def)
qed

lemma str_ends_with_spec:
  assumes "cstr s text" "cstr t search"
  shows "str_ends_with text search = Some (suffix t s)"
proof (cases "length t \<le> length s")
  case True
  have "take (length t) (drop (length s - length t) text) = drop (length s - length t) s"
    using assms(1) True by (auto simp: cstr_def)
  then have "same_chars text (length s - length t) search (length t) = Some (drop (length s - length t) s = t)"
    using same_chars_spec[of "length s - length t" "length t" "text" search] True cstr_length[OF assms(1)] cstr_length[OF assms(2)] assms(2)
    by (simp add: cstr_take)
  moreover have "drop (length s - length t) s = t \<longleftrightarrow> suffix t s"
    using True by (metis append_take_drop_id suffix_def suffix_take append_eq_append_conv length_drop diff_diff_cancel)
  ultimately show ?thesis using assms True by (simp add: str_ends_with_def)
next
  case False
  then have "\<not> suffix t s" using suffix_length_le by blast
  with assms False show ?thesis by (simp add: str_ends_with_def)
qed

section \<open>Searching\<close>

text \<open>\<open>t\<close> occurs in \<open>s\<close> at position \<open>i\<close>.\<close>

definition occurs_at :: "u8 list \<Rightarrow> u8 list \<Rightarrow> nat \<Rightarrow> bool" where
  "occurs_at t s i \<longleftrightarrow> i + length t \<le> length s \<and> take (length t) (drop i s) = t"

lemma window_spec:
  assumes "cstr s text" "i + n \<le> length s"
  shows "\<exists>w. window text i n = Some w \<and> cstr (take n (drop i s)) w"
proof -
  obtain rest where t: "text = s @ 0 # rest" "0 \<notin> set s" using assms(1) by (rule cstrE)
  have "copy_chars text i n 0 (replicate (n + 1) 0) = Some (take n (drop i s) @ [0])"
    using copy_chars_spec[of i n "text" 0 "replicate (n + 1) 0"] assms t(1) by (simp del: replicate_Suc) simp
  then have "window text i n = Some (take n (drop i s) @ [0])"
    using assms(2) by (simp add: window_def list_update_append min_absorb2)
  moreover have "0 \<notin> set (take n (drop i s))" using t(2) by (meson in_set_dropD in_set_takeD)
  ultimately show ?thesis using cstrI by blast
qed

lemma match_spec:
  assumes "cstr s text" "cstr t search" "i + length t \<le> length s"
  shows "do { w \<leftarrow> window text i (length t); str_equal search w } = Some (occurs_at t s i)"
  using window_spec[OF assms(1,3)] str_equal_spec[OF assms(2)] assms(3) by (auto simp: occurs_at_def)

lemma str_contains_spec:
  assumes "cstr s text" "cstr t search"
  shows "str_contains text search = Some (sublist t s)"
proof (cases "length t \<le> length s")
  case True
  let ?body = "\<lambda>i (_ :: unit). do { w \<leftarrow> window text i (length t); eq \<leftarrow> str_equal search w;
      Some (if eq then Inl True else Inr ()) }"
  let ?n = "length s - length t + 1"
  have occ: "sublist t s \<longleftrightarrow> (\<exists>i < ?n. occurs_at t s i)"
  proof
    assume "sublist t s"
    then obtain p q where "s = p @ t @ q" by (auto simp: sublist_def)
    then show "\<exists>i < ?n. occurs_at t s i" by (intro exI[of _ "length p"]) (simp add: occurs_at_def)
  next
    assume "\<exists>i < ?n. occurs_at t s i"
    then obtain i where "take (length t) (drop i s) = t" by (auto simp: occurs_at_def)
    then have "s = take i s @ t @ drop (length t) (drop i s)" by (metis append_take_drop_id)
    then show "sublist t s" unfolding sublist_def by blast
  qed
  have "(\<exists>u. for_until ?body 0 ?n () = Some (Inr u) \<and> (\<forall>j < 0 + ?n. \<not> occurs_at t s j)) \<or>
    (\<exists>r. for_until ?body 0 ?n () = Some (Inl r) \<and> (r \<and> (\<exists>i < ?n. occurs_at t s i)))"
  proof (rule for_until_rule[where I = "\<lambda>i _. \<forall>j < i. \<not> occurs_at t s j"])
    fix i :: nat and u :: unit
    assume i: "0 \<le> i" "i < 0 + ?n" and I: "\<forall>j < i. \<not> occurs_at t s j"
    have le: "i + length t \<le> length s" using i True by simp
    obtain w where w: "window text i (length t) = Some w" "str_equal search w = Some (occurs_at t s i)"
      using match_spec[OF assms le] window_spec[OF assms(1) le] by auto
    show "(\<exists>s'. ?body i u = Some (Inr s') \<and> (\<forall>j < Suc i. \<not> occurs_at t s j)) \<or>
      (\<exists>r. ?body i u = Some (Inl r) \<and> (r \<and> (\<exists>i < ?n. occurs_at t s i)))"
      using w I i by (cases "occurs_at t s i") (auto simp: less_Suc_eq)
  qed simp
  then show ?thesis using assms True occ by (auto simp: str_contains_def)
next
  case False
  then have "\<not> sublist t s" using sublist_length_le by blast
  with assms False show ?thesis by (simp add: str_contains_def)
qed

lemma str_count_spec:
  assumes "cstr s text" "cstr t search"
  shows "str_count text search = Some (card {i. occurs_at t s i})"
proof (cases "length t \<le> length s")
  case True
  let ?body = "\<lambda>i c. do { w \<leftarrow> window text i (length t); eq \<leftarrow> str_equal search w;
      Some (if eq then c + 1 else c :: nat) }"
  let ?n = "length s - length t + 1"
  have "\<exists>c. for_loop ?body 0 ?n 0 = Some c \<and> c = card {i. i < 0 + ?n \<and> occurs_at t s i}"
  proof (rule for_loop_rule[where I = "\<lambda>i c. c = card {j. j < i \<and> occurs_at t s j}"])
    fix i c assume i: "0 \<le> i" "i < 0 + ?n" and c: "c = card {j. j < i \<and> occurs_at t s j}"
    have le: "i + length t \<le> length s" using i True by simp
    obtain w where w: "window text i (length t) = Some w" "str_equal search w = Some (occurs_at t s i)"
      using match_spec[OF assms le] window_spec[OF assms(1) le] by auto
    have "{j. j < Suc i \<and> occurs_at t s j} =
        (if occurs_at t s i then insert i {j. j < i \<and> occurs_at t s j} else {j. j < i \<and> occurs_at t s j})"
      by (auto simp: less_Suc_eq)
    with w c show "\<exists>c'. ?body i c = Some c' \<and> c' = card {j. j < Suc i \<and> occurs_at t s j}" by simp
  qed simp
  moreover have "{i. i < ?n \<and> occurs_at t s i} = {i. occurs_at t s i}" by (auto simp: occurs_at_def)
  ultimately show ?thesis using assms True by (simp add: str_count_def)
next
  case False
  then have "{i. occurs_at t s i} = {}" by (auto simp: occurs_at_def)
  with assms False show ?thesis by (simp add: str_count_def)
qed

end
