(* ===== verification/StringBuild.thy ===== *)
theory StringBuild
  imports StringSpec
begin

text \<open>
  The functions that build strings: copying, appending, combining, repeating,
  cutting, trimming, changing case and splitting.
\<close>

section \<open>Allocation\<close>

abbreviation str_max :: nat where "str_max \<equiv> 0xFFFFF8"

lemma malloc_str_ok: "n \<le> str_max \<Longrightarrow> malloc_str (of_nat n) = Some (replicate n 0)"
  by (simp add: malloc_str_def word_le_nat_alt unat_of_nat_small)

lemma malloc_str_Suc: "n < str_max \<Longrightarrow> malloc_str (of_nat (n + 1)) = Some (replicate n 0 @ [0])"
  using malloc_str_ok[of "n + 1"] by (simp add: replicate_append_same)

section \<open>Copying and appending\<close>

lemma str_copy_spec:
  assumes "cstr s src" "length s < length dest"
  shows "str_copy dest src = Some (s @ 0 # drop (Suc (length s)) dest)"
  using copy_cstr[OF assms(1), of 0 dest] wr_end[of s dest 0] assms by (simp add: str_copy_def)

lemma str_copy_overflow:
  assumes "cstr s src" "length dest \<le> length s"
  shows "str_copy dest src = None"
proof -
  let ?body = "\<lambda>j dest. do { c \<leftarrow> rd src (0 + j); wr dest (0 + j) c }"
  show ?thesis
  proof (cases "for_loop ?body 0 (length s) dest")
    case (Some d)
    have "length d' = length d0" if "for_loop ?body lo n d0 = Some d'" for lo n d0 d'
      using that by (induction n arbitrary: lo d0) (auto simp: bind_eq_Some_conv wr_eq_Some_iff)
    from this[OF Some] assms(2) have "length d \<le> length s" by simp
    with assms(1) Some show ?thesis by (simp add: str_copy_def)
  qed (use assms(1) in \<open>simp add: str_copy_def\<close>)
qed

lemma str_add_spec:
  assumes "cstr s buf" "cstr t val" "length s + length t < length buf"
  shows "str_add buf val = Some (s @ t @ 0 # drop (Suc (length s + length t)) buf)"
proof -
  have "take (length s) buf = s" using assms(1) by (rule cstr_take)
  moreover have "wr ((s @ t) @ drop (length (s @ t)) buf) (length (s @ t)) 0 =
      Some ((s @ t) @ 0 # drop (Suc (length (s @ t))) buf)"
    by (rule wr_end) (use assms(3) in simp)
  ultimately show ?thesis
    using copy_cstr[OF assms(2), of "length s" buf] assms by (simp add: str_add_def)
qed

lemma str_add_char_spec:
  assumes "cstr s buf" "length s + 1 < length buf"
  shows "str_add_char buf c = Some (s @ c # 0 # drop (Suc (Suc (length s))) buf)"
proof -
  have s: "s @ drop (length s) buf = buf" using assms(1) by (auto simp: cstr_def)
  have "wr buf (length s) c = Some (s @ c # drop (Suc (length s)) buf)"
    using wr_end[of s buf c] assms(2) s by simp
  moreover have "wr ((s @ [c]) @ drop (length (s @ [c])) buf) (length (s @ [c])) 0 =
      Some ((s @ [c]) @ 0 # drop (Suc (length (s @ [c]))) buf)"
    by (rule wr_end) (use assms(2) in simp)
  ultimately show ?thesis using assms(1) by (simp add: str_add_char_def)
qed

lemma str_combine_spec:
  assumes "cstr s a" "cstr t b" "length s + length t < str_max"
  shows "str_combine a b = Some (s @ t @ [0])"
proof -
  let ?n = "length s + length t"
  have m: "malloc_str (of_nat (length s + length t + 1)) = Some (replicate (Suc ?n) 0)"
    using malloc_str_ok[of "?n + 1"] assms(3) by simp
  have c1: "copy_chars a 0 (length s) 0 (replicate (Suc ?n) 0) = Some (s @ replicate (Suc (length t)) 0)"
    using copy_cstr[OF assms(1), of 0 "replicate (Suc ?n) 0"] by (simp del: replicate_Suc add: Suc_diff_le)
  have c2: "copy_chars b 0 (length t) (length s) (s @ replicate (Suc (length t)) 0) = Some (s @ t @ replicate (Suc 0) 0)"
    using copy_cstr[OF assms(2), of "length s" "s @ replicate (Suc (length t)) 0"] by (simp del: replicate_Suc)
  have w: "wr (s @ t @ replicate (Suc 0) 0) ?n 0 = Some (s @ t @ [0])"
    by (simp add: list_update_append)
  show ?thesis using assms(1,2) m c1 c2 w by (simp add: str_combine_def del: replicate_Suc)
qed

lemma str_combine_char_spec:
  assumes "cstr s a" "length s + 1 < str_max"
  shows "str_combine_char a c = Some (s @ [c, 0])"
proof -
  have m: "malloc_str (of_nat (length s + 2)) = Some (replicate (length s + 2) 0)"
    using malloc_str_ok[of "length s + 2"] assms(2) by simp
  have c1: "copy_chars a 0 (length s) 0 (replicate (length s + 2) 0) = Some (s @ replicate 2 0)"
    using copy_cstr[OF assms(1), of 0 "replicate (length s + 2) 0"] by (simp del: replicate_Suc)
  have r: "replicate 2 (0 :: u8) = [0, 0]" by (simp add: numeral_2_eq_2)
  show ?thesis using assms(1) m c1 by (simp add: str_combine_char_def r list_update_append del: replicate_Suc)
qed

lemma concat_replicate_length: "length (concat (replicate k s)) = k * length s"
  by (induction k) simp_all

lemma concat_replicate_comm: "concat (replicate k s) @ s = s @ concat (replicate k s)"
  by (induction k) simp_all

lemma str_repeat_spec:
  assumes s: "cstr s a" and m: "length s * m < str_max" "m < str_max"
  shows "str_repeat a (of_nat m) = Some (concat (replicate m s) @ [0])"
proof -
  let ?n = "length s" and ?body = "\<lambda>i d. copy_chars a 0 (length s) (i * length s) d"
  let ?I = "\<lambda>i d. d = concat (replicate i s) @ replicate (Suc (?n * (m - i))) 0"
  have "\<exists>d. for_loop ?body 0 m (replicate (Suc (?n * m)) 0) = Some d \<and> ?I (0 + m) d"
  proof (rule for_loop_rule[where I = ?I])
    fix i d assume i: "i < 0 + m" and I: "?I i d"
    have more: "?n * (m - i) = ?n + ?n * (m - Suc i)"
    proof -
      have "m - i = Suc (m - Suc i)" using i by simp
      then show ?thesis by simp
    qed
    have off: "i * ?n = length (concat (replicate i s))" by (simp add: concat_replicate_length)
    have "i * ?n + ?n \<le> length d" unfolding I off by (simp add: more)
    from copy_cstr[OF s this] have "?body i d = Some (concat (replicate i s) @ s @ drop (i * ?n + ?n) d)"
      unfolding I off by simp
    moreover have "drop (i * ?n + ?n) d = replicate (Suc (?n * (m - Suc i))) 0" unfolding I off by (simp add: more del: replicate_Suc)
    ultimately show "\<exists>s'. ?body i d = Some s' \<and> ?I (Suc i) s'"
      by (simp add: concat_replicate_comm)
  qed simp
  then have loop: "for_loop ?body 0 m (replicate (Suc (?n * m)) 0) = Some (concat (replicate m s) @ [0])" by simp
  have mul: "of_nat ?n * of_nat m = (of_nat (?n * m) :: u64)" by simp
  have "malloc_str (of_nat ?n * of_nat m + 1) = Some (replicate (Suc (?n * m)) 0)"
    using malloc_str_ok[of "?n * m + 1"] m(1) by (simp add: add.commute)
  moreover have "unat (of_nat m :: u64) = m" "unat (of_nat (?n * m) :: u64) = ?n * m"
    using m by (simp_all add: unat_of_nat_small del: of_nat_mult)
  moreover have "wr (concat (replicate m s) @ [0]) (?n * m) 0 = Some (concat (replicate m s) @ [0])"
    by (simp add: concat_replicate_length mult.commute list_update_append)
  ultimately show ?thesis
    using s loop unfolding str_repeat_def by (simp add: str_length_cstr mul[symmetric] del: of_nat_mult replicate_Suc)
qed

section \<open>Cutting\<close>

lemma cstr_cut:
  assumes "cstr s buf" "k \<le> length s"
  shows "\<exists>d. wr buf k 0 = Some d \<and> cstr (take k s) d \<and> length d = length buf"
proof -
  obtain rest where b: "buf = s @ 0 # rest" "0 \<notin> set s" using assms(1) by (rule cstrE)
  have "k < length buf" using b(1) assms(2) by simp
  then have "buf[k := 0] = take k s @ 0 # drop (Suc k) buf" using assms(2) b(1) by (simp add: upd_conv_take_nth_drop)
  moreover have "0 \<notin> set (take k s)" using b(2) by (meson in_set_takeD)
  ultimately have "cstr (take k s) (buf[k := 0])" using cstrI by simp
  with \<open>k < length buf\<close> show ?thesis by simp
qed

lemma str_cut_end_spec:
  assumes "cstr s buf"
  shows "\<exists>d. str_cut_end buf n = Some d \<and> cstr (take (length s - n) s) d \<and> length d = length buf"
  using cstr_cut[OF assms, of "length s - n"] assms by (auto simp: str_cut_end_def)

lemma str_cut_end_malloc_spec:
  assumes "cstr s buf" "length s < str_max"
  shows "\<exists>d. str_cut_end_malloc buf n = Some d \<and> cstr (take (length s - n) s) d"
proof -
  have c: "str_copy (replicate (length s) 0 @ [0]) buf = Some (s @ [0])"
    using str_copy_spec[OF assms(1), of "replicate (length s) 0 @ [0]"] by simp
  have s: "cstr s (s @ [0])" using assms(1) by (auto simp: cstr_def)
  show ?thesis
    using cstr_cut[OF s, of "length s - n"] assms(1) c malloc_str_Suc[OF assms(2)]
    by (auto simp: str_cut_end_malloc_def)
qed

lemma str_cut_start_spec:
  assumes "cstr s buf" "length s < str_max" "n \<le> length s"
  shows "str_cut_start buf n = Some (drop n s @ [0])"
proof -
  let ?k = "length s - n"
  have "of_nat (length s) - of_nat n + 1 = (of_nat (?k + 1) :: u64)" using assms(3) by simp
  then have m: "malloc_str (of_nat (length s) - of_nat n + 1) = Some (replicate ?k 0 @ [0])"
    using malloc_str_Suc[of ?k] assms(2,3) by (metis diff_le_self le_less_trans)
  let ?body = "\<lambda>i d. do { c \<leftarrow> rd buf i; wr d (i - n) c }"
  have "for_loop ?body n ?k (replicate ?k 0 @ [0]) = for_loop (\<lambda>j d. ?body (n + j) d) 0 ?k (replicate ?k 0 @ [0])"
    using for_loop_shift[of ?body n 0 ?k] by simp
  also have "\<dots> = Some (take 0 (replicate ?k 0 @ [0]) @ map (\<lambda>j. s ! (n + j)) [0..<?k] @ drop (0 + ?k) (replicate ?k 0 @ [0]))"
    by (rule fill_loop) (use assms in \<open>simp_all add: cstr_rd\<close>)
  also have "map (\<lambda>j. s ! (n + j)) [0..<?k] = drop n s" using assms(3) by (intro nth_equalityI) auto
  finally show ?thesis using assms(1) m by (simp add: str_cut_start_def)
qed

text \<open>One past the length the wrapped size is 0: the result is an empty object without terminator.\<close>

lemma str_cut_start_past_end:
  assumes "cstr s buf"
  shows "str_cut_start buf (length s + 1) = Some []"
  using assms by (simp add: str_cut_start_def malloc_str_def)

section \<open>Case\<close>

lemma map_chars:
  assumes "cstr s buf" "length s < str_max"
  shows "for_loop (\<lambda>i d. do { c \<leftarrow> rd buf i; wr d i (f c) }) 0 (length s) (replicate (length s) 0 @ [0]) = Some (map f s @ [0])"
proof -
  have "for_loop (\<lambda>i d. do { c \<leftarrow> rd buf i; wr d i (f c) }) 0 (length s) (replicate (length s) 0 @ [0]) =
      Some (take 0 (replicate (length s) 0 @ [0]) @ map (\<lambda>i. f (s ! i)) [0..<length s] @ drop (0 + length s) (replicate (length s) 0 @ [0]))"
    by (rule fill_loop) (use assms in \<open>simp_all add: cstr_rd\<close>)
  also have "map (\<lambda>i. f (s ! i)) [0..<length s] = map f s" by (intro nth_equalityI) auto
  finally show ?thesis by simp
qed

lemma str_to_upper_spec: "cstr s buf \<Longrightarrow> length s < str_max \<Longrightarrow> str_to_upper buf = Some (map to_upper s @ [0])"
  using map_chars[of s buf to_upper] malloc_str_Suc[of "length s"] by (simp add: str_to_upper_def)

lemma str_to_lower_spec: "cstr s buf \<Longrightarrow> length s < str_max \<Longrightarrow> str_to_lower buf = Some (map to_lower s @ [0])"
  using map_chars[of s buf to_lower] malloc_str_Suc[of "length s"] by (simp add: str_to_lower_def)

section \<open>Trimming\<close>

definition trim_start :: "u8 list \<Rightarrow> u8 list" where
  "trim_start s = dropWhile is_whitespace s"

definition trim_end :: "u8 list \<Rightarrow> u8 list" where
  "trim_end s = rev (dropWhile is_whitespace (rev s))"

lemma trim_end_ws: "\<forall>c \<in> set ys. is_whitespace c \<Longrightarrow> trim_end (xs @ ys) = trim_end xs"
  by (simp add: trim_end_def, subst dropWhile_append2) simp_all

lemma trim_end_stop: "xs \<noteq> [] \<Longrightarrow> \<not> is_whitespace (last xs) \<Longrightarrow> trim_end xs = xs"
  by (cases xs rule: rev_cases) (simp_all add: trim_end_def)

lemma skip_leading_spec:
  assumes "cstr s buf" "length s < length d"
  shows "\<exists>sp. skip_leading buf (length s) d =
    Some (sp, length (trim_start s), trim_start s @ drop (length (trim_start s)) d)"
proof -
  let ?body = "\<lambda>i (spottedChars, newLength, returnString). do {
         c \<leftarrow> rd buf i;
         if is_whitespace c \<and> \<not> spottedChars then Some (spottedChars, newLength, returnString)
         else do { returnString \<leftarrow> wr returnString newLength c; Some (True, newLength + 1, returnString) } }"
  let ?I = "\<lambda>i (sp, nl, r). let t = trim_start (take i s) in
      sp = (t \<noteq> []) \<and> nl = length t \<and> r = t @ drop (length t) d"
  have "\<exists>x. for_loop ?body 0 (length s) (False, 0, d) = Some x \<and> ?I (0 + length s) x"
  proof (rule for_loop_rule[where I = ?I])
    fix i x assume i: "0 \<le> i" "i < 0 + length s" and I: "?I i x"
    define t where "t = trim_start (take i s)"
    have x: "x = (t \<noteq> [], length t, t @ drop (length t) d)" using I by (cases x) (simp add: t_def Let_def)
    have tk: "take (Suc i) s = take i s @ [s ! i]" using i by (simp add: take_Suc_conv_app_nth)
    have tl: "length t \<le> i" unfolding t_def trim_start_def by (rule order_trans[OF length_dropWhile_le]) simp
    show "\<exists>x'. ?body i x = Some x' \<and> ?I (Suc i) x'"
    proof (cases "is_whitespace (s ! i) \<and> t = []")
      case True
      then have "\<forall>c \<in> set (take i s). is_whitespace c" by (simp add: t_def trim_start_def dropWhile_eq_Nil_conv)
      then have "trim_start (take (Suc i) s) = []" using True by (simp add: tk trim_start_def)
      with True x i cstr_rd[OF assms(1)] show ?thesis by simp
    next
      case False
      have n: "trim_start (take (Suc i) s) = t @ [s ! i]"
      proof (cases "t = []")
        case True
        then have "\<forall>c \<in> set (take i s). is_whitespace c" by (simp add: t_def trim_start_def dropWhile_eq_Nil_conv)
        with True False show ?thesis by (simp add: tk trim_start_def dropWhile_append2)
      next
        case nn: False
        then obtain c where "c \<in> set (take i s)" "\<not> is_whitespace c"
          unfolding t_def trim_start_def by (auto simp: dropWhile_eq_Nil_conv)
        then show ?thesis by (simp add: tk trim_start_def t_def dropWhile_append1)
      qed
      have "length t < length d" using tl i assms(2) by simp
      from wr_end[OF this, of "s ! i"] have w: "wr (t @ drop (length t) d) (length t) (s ! i) =
          Some ((t @ [s ! i]) @ drop (length (t @ [s ! i])) d)" by simp
      have "?body i x = Some (True, length t + 1, (t @ [s ! i]) @ drop (length (t @ [s ! i])) d)"
        using False x i cstr_rd[OF assms(1)] w by auto
      then show ?thesis unfolding n by simp
    qed
  qed (simp add: trim_start_def)
  then show ?thesis by (auto simp: skip_leading_def Let_def)
qed

lemma clear_trailing_spec:
  assumes "0 \<notin> set s"
  shows "\<exists>r. clear_trailing (length s) (s @ 0 # rest) = Some r \<and> cstr (trim_end s) r \<and> length r = length s + 1 + length rest"
proof -
  let ?n = "length s"
  let ?body = "\<lambda>k returnString. do {
         let i = ?n - 1 - k;
         c \<leftarrow> rd returnString i;
         if is_whitespace c then do { returnString \<leftarrow> wr returnString i 0; Some (Inr returnString) }
         else Some (Inl returnString) }"
  let ?B = "\<lambda>k. take (?n - k) s @ replicate k 0 @ 0 # rest"
  let ?I = "\<lambda>k r. r = ?B k \<and> (\<forall>c \<in> set (drop (?n - k) s). is_whitespace c)"
  let ?Q = "\<lambda>r. cstr (trim_end s) r \<and> length r = ?n + 1 + length rest"
  have cut: "0 \<notin> set (take m s)" for m using assms by (meson in_set_takeD)
  have zeros: "replicate k 0 @ 0 # rest = 0 # replicate k 0 @ rest" for k by (induction k) auto
  have U: "\<exists>v. for_until ?body 0 ?n (s @ 0 # rest) = Some v \<and> ?Q (case v of Inl r \<Rightarrow> r | Inr r \<Rightarrow> r)"
  proof (rule for_break_rule[where I = ?I])
    show "?I 0 (s @ 0 # rest)" by simp
  next
    fix k r assume k: "0 \<le> k" "k < 0 + ?n" and I: "?I k r"
    let ?i = "?n - 1 - k"
    have i: "?i < ?n" "?n - k = Suc ?i" using k by auto
    have tk: "take (?n - k) s = take ?i s @ [s ! ?i]" unfolding i(2) using i(1) by (simp add: take_Suc_conv_app_nth)
    have rdi: "rd r ?i = Some (s ! ?i)" using I i k by (simp add: tk nth_append)
    have sp: "s = take (?n - k) s @ drop (?n - k) s" by simp
    have te: "trim_end s = trim_end (take (?n - k) s)" using trim_end_ws[of "drop (?n - k) s" "take (?n - k) s"] I by simp
    show "(\<exists>r'. ?body k r = Some (Inr r') \<and> ?I (Suc k) r') \<or> (\<exists>q. ?body k r = Some (Inl q) \<and> ?Q q)"
    proof (cases "is_whitespace (s ! ?i)")
      case True
      have l: "length (take ?i s) = ?i" by simp
      have r: "r = take ?i s @ s ! ?i # (replicate k 0 @ 0 # rest)"
        using I unfolding tk append_assoc append_Cons append_Nil by (rule conjunct1)
      have "r[?i := 0] = take ?i s @ 0 # (replicate k 0 @ 0 # rest)"
        unfolding r by (metis l list_update_length)
      moreover have "?i < length r" unfolding r using i by simp
      ultimately have w: "wr r ?i 0 = Some (?B (Suc k))" by simp
      have "drop ?i s = s ! ?i # drop (?n - k) s" unfolding i(2) using i(1) by (simp add: Cons_nth_drop_Suc)
      then have dr: "drop (?n - Suc k) s = s ! ?i # drop (?n - k) s" by simp
      have "\<forall>c \<in> set (drop (?n - Suc k) s). is_whitespace c"
        unfolding dr using True conjunct2[OF I] by (simp only: list.set ball_simps simp_thms)
      moreover have "?body k r = Some (Inr (?B (Suc k)))"
        unfolding Let_def rdi using True w by (simp only: bind.bind_lunit if_True)
      ultimately show ?thesis by (intro disjI1 exI[of _ "?B (Suc k)"] conjI refl)
    next
      case False
      then have "trim_end (take (?n - k) s) = take (?n - k) s" unfolding tk by (intro trim_end_stop) simp_all
      then have "?Q r" using te I cstrI[OF cut[of "?n - k"], of "replicate k 0 @ rest"] k by (simp add: zeros)
      moreover have "?body k r = Some (Inl r)"
        unfolding Let_def rdi using False by (simp only: bind.bind_lunit if_False)
      ultimately show ?thesis by (intro disjI2 exI[of _ r] conjI) simp_all
    qed
  next
    fix r assume I: "?I (0 + ?n) r"
    have r: "r = 0 # replicate ?n 0 @ rest" using conjunct1[OF I] by (simp add: zeros)
    have "trim_end s = []" using trim_end_ws[of s "[]"] conjunct2[OF I] by (simp add: trim_end_def)
    then show "?Q r" using cstrI[of "[]" "replicate ?n 0 @ rest"] by (simp add: r)
  qed
  then obtain v where v: "for_until ?body 0 ?n (s @ 0 # rest) = Some v" "?Q (case v of Inl r \<Rightarrow> r | Inr r \<Rightarrow> r)"
    by (elim exE conjE) (rule that, assumption, rule conjI)
  then show ?thesis unfolding clear_trailing_def by (intro exI) simp
qed

lemma str_trim_end_spec:
  assumes "cstr s buf" "length s < str_max"
  shows "\<exists>r. str_trim_end buf = Some r \<and> cstr (trim_end s) r"
proof -
  have "str_copy (replicate (length s) 0 @ [0]) buf = Some (s @ [0])"
    using str_copy_spec[OF assms(1), of "replicate (length s) 0 @ [0]"] by simp
  with clear_trailing_spec[of s "[]"] assms malloc_str_Suc[OF assms(2)] show ?thesis
    by (auto simp: str_trim_end_def cstr_def)
qed

lemma trim_start_sub: "length (trim_start s) \<le> length s" "0 \<notin> set s \<Longrightarrow> 0 \<notin> set (trim_start s)"
  unfolding trim_start_def by (rule length_dropWhile_le) (meson set_dropWhileD)

lemma zero_tail:
  assumes "n \<le> m"
  shows "drop n (replicate m 0 @ [0 :: u8]) = 0 # replicate (m - n) 0"
proof -
  have "replicate m 0 @ [0 :: u8] = replicate (Suc m) 0" by (simp add: replicate_append_same)
  then have "drop n (replicate m 0 @ [0 :: u8]) = replicate (Suc m - n) 0" by (simp only: drop_replicate)
  with assms show ?thesis by (simp add: Suc_diff_le)
qed

lemma str_trim_spec:
  assumes "cstr s buf" "length s < str_max"
  shows "\<exists>r. str_trim buf = Some r \<and> cstr (trim_end (trim_start s)) r"
    and "\<exists>r. str_trim_start buf = Some r \<and> cstr (trim_start s) r"
proof -
  let ?d = "replicate (length s) 0 @ [0] :: buffer" and ?t = "trim_start s"
  have nz: "0 \<notin> set ?t" using trim_start_sub(2) assms(1) by (auto simp: cstr_def)
  obtain sp where sl: "skip_leading buf (length s) ?d = Some (sp, length ?t, ?t @ 0 # replicate (length s - length ?t) 0)"
    using skip_leading_spec[OF assms(1), of ?d] zero_tail[OF trim_start_sub(1)[of s]] by auto
  show "\<exists>r. str_trim buf = Some r \<and> cstr (trim_end ?t) r"
    using clear_trailing_spec[OF nz] sl assms malloc_str_Suc[OF assms(2)] by (auto simp: str_trim_def)
  show "\<exists>r. str_trim_start buf = Some r \<and> cstr ?t r"
    using sl assms malloc_str_Suc[OF assms(2)] cstrI[OF nz] by (auto simp: str_trim_start_def)
qed

end
