(* ===== verification/StringNumbers.thy ===== *)
theory StringNumbers
  imports StringBuild
begin

text \<open>
  Printing and reading numbers, and splitting at a separator: \<open>to_int\<close> inverts
  \<open>to_string\<close>, and joining the parts of \<open>str_split\<close> gives the text back.
\<close>

section \<open>Digits\<close>

text \<open>The digits of a number, lowest first.\<close>

function digits :: "u64 \<Rightarrow> u64 \<Rightarrow> u64 list" where
  "digits b v = (if v = 0 \<or> b \<le> 1 then [] else (v mod b) # digits b (v div b))"
  by auto
termination
  by (relation "measure (\<lambda>(b, v). unat v)") (auto simp: word_div_less)

declare digits.simps [simp del]

lemma digit_count_digits: "digit_count b v n = n + length (digits b v)"
proof (induction b v arbitrary: n rule: digits.induct)
  case (1 b v)
  show ?case
    by (subst digit_count.simps, subst digits.simps) (use 1 in auto)
qed

lemma compose_digits_spec:
  "n + length (digits b v) \<le> length buf \<Longrightarrow>
    compose_digits b v n buf = Some (n + length (digits b v),
      take n buf @ map digit_char (digits b v) @ drop (n + length (digits b v)) buf)"
proof (induction b v arbitrary: n buf rule: digits.induct)
  case (1 b v)
  show ?case
  proof (cases "v = 0 \<or> b \<le> 1")
    case True
    then show ?thesis by (subst compose_digits.simps, subst digits.simps) (auto simp: digits.simps[of b v])
  next
    case False
    have d: "digits b v = (v mod b) # digits b (v div b)" using False by (subst digits.simps) simp
    let ?buf = "buf[n := digit_char (v mod b)]"
    have n: "n < length buf" using 1(2) d by simp
    have "compose_digits b (v div b) (n + 1) ?buf = Some (n + 1 + length (digits b (v div b)),
        take (n + 1) ?buf @ map digit_char (digits b (v div b)) @ drop (n + 1 + length (digits b (v div b))) ?buf)"
      by (rule 1(1)[OF False]) (use 1(2) d in simp)
    moreover have "take (n + 1) ?buf = take n buf @ [digit_char (v mod b)]"
      using n by (simp add: take_Suc_conv_app_nth)
    ultimately show ?thesis using False n d by (subst compose_digits.simps) simp
  qed
qed

lemma digits_less: "1 < b \<Longrightarrow> d \<in> set (digits b v) \<Longrightarrow> d < b"
proof (induction b v rule: digits.induct)
  case (1 b v)
  show ?case
  proof (cases "v = 0 \<or> b \<le> 1")
    case True
    with 1 show ?thesis by (simp add: digits.simps[of b v])
  next
    case False
    have "unat (v mod b) < unat b" using 1(2) by (simp add: unat_mod_distrib word_less_nat_alt)
    then have "v mod b < b" by (simp add: word_less_nat_alt)
    with False 1 show ?thesis by (auto simp: digits.simps[of b v])
  qed
qed

lemma length_digits_le: "1 < b \<Longrightarrow> unat v < 2 ^ k \<Longrightarrow> length (digits b v) \<le> k"
proof (induction k arbitrary: v)
  case 0
  then have "v = 0" by (simp add: unat_eq_0)
  then show ?case by (simp add: digits.simps)
next
  case (Suc k)
  show ?case
  proof (cases "v = 0")
    case False
    have "2 \<le> unat b" using Suc.prems(1) by (simp add: word_less_nat_alt)
    then have "unat v div unat b \<le> unat v div 2" by (rule div_le_mono2[rotated]) simp
    also have "\<dots> < 2 ^ k" using Suc.prems(2) by simp
    finally have "length (digits b (v div b)) \<le> k"
      by (intro Suc.IH[OF Suc.prems(1)]) (simp add: unat_div_distrib)
    then show ?thesis using False Suc.prems(1) by (subst digits.simps) auto
  qed (simp add: digits.simps)
qed

lemma length_digits: "1 < b \<Longrightarrow> length (digits b v) \<le> 64"
proof -
  have "unat v < 2 ^ 64" using unsigned_less[of v] by simp
  then show "1 < b \<Longrightarrow> ?thesis" by (intro length_digits_le)
qed

text \<open>Horner's rule on the reversed digits gives the number back, in 64-bit arithmetic.\<close>

lemma horner_digits: "1 < b \<Longrightarrow> foldl (\<lambda>r d. r * b + d) 0 (rev (digits b v)) = v"
proof (induction b v rule: digits.induct)
  case (1 b v)
  show ?case
  proof (cases "v = 0 \<or> b \<le> 1")
    case True
    with 1(2) show ?thesis by (auto simp: digits.simps)
  next
    case False
    then have "digits b v = (v mod b) # digits b (v div b)" by (subst digits.simps) simp
    with 1(1)[OF False 1(2)] show ?thesis using div_mult_mod_eq[of v b] by simp
  qed
qed

section \<open>Digit characters\<close>

lemma small_word_cases: "d < 36 \<Longrightarrow> d \<in> set (map of_nat [0..<36])" for d :: u64
proof -
  assume "d < 36"
  then have "unat d \<in> set [0..<36]" by (simp add: word_less_nat_alt)
  then have "(of_nat (unat d) :: u64) \<in> of_nat ` set [0..<36]" by (rule imageI)
  then show ?thesis by simp
qed

lemma digit_char_ok:
  assumes "d < 36"
  shows "digit_value (digit_char d) = d \<and> digit_char d \<noteq> 0 \<and> digit_char d \<noteq> ch (CHR ''-'')"
proof -
  have "\<forall>d \<in> set (map of_nat [0..<36]). digit_value (digit_char d) = d \<and> digit_char d \<noteq> 0 \<and> digit_char d \<noteq> ch (CHR ''-'')"
    by code_simp
  with small_word_cases[OF assms] show ?thesis by blast
qed

section \<open>Printing\<close>

definition number_text :: "u64 \<Rightarrow> u64 \<Rightarrow> u8 list" where
  "number_text b v = (if v = 0 then [ch (CHR ''0'')] else rev (map digit_char (digits b v)))"

lemma base_bounds:
  fixes base :: u8
  assumes "2 \<le> base" "base \<le> 36"
  shows "1 < (ucast base :: u64)" "(ucast base :: u64) \<le> 36" "base \<noteq> 0" "base \<noteq> 1"
  using assms by (auto simp: word_le_nat_alt word_less_nat_alt unsigned_ucast_eq take_bit_nat_eq_self)

lemma to_string_spec:
  assumes "2 \<le> base" "base \<le> 36"
  shows "to_string v base = Some (number_text (ucast base) v @ [0])"
proof (cases "v = 0")
  case True
  have "malloc_empty_str = Some [48, 0]" by code_simp
  with True show ?thesis by (simp add: to_string_def number_text_def)
next
  case False
  note b = base_bounds[OF assms]
  let ?b = "ucast base :: u64"
  let ?ds = "map digit_char (digits ?b v)"
  let ?n = "length (digits ?b v)"
  have n64: "?n \<le> 64" by (rule length_digits[OF b(1)])
  have m: "malloc_str (of_nat (?n + 1)) = Some (replicate ?n 0 @ [0])" using malloc_str_Suc[of ?n] n64 by simp
  have c: "compose_digits ?b v 0 (replicate ?n 0 @ [0]) = Some (?n, ?ds @ [0])"
    using compose_digits_spec[of 0 ?b v "replicate ?n 0 @ [0]"] by simp
  have rv: "for_loop (\<lambda>i d. do { c \<leftarrow> rd (?ds @ [0]) (?n - 1 - i); wr d i c }) 0 ?n (replicate ?n 0 @ [0]) =
      Some (rev ?ds @ [0])"
  proof -
    have "for_loop (\<lambda>i d. do { c \<leftarrow> rd (?ds @ [0]) (?n - 1 - i); wr d i c }) 0 ?n (replicate ?n 0 @ [0]) =
      Some (take 0 (replicate ?n 0 @ [0]) @ map (\<lambda>i. rev ?ds ! i) [0..<?n] @ drop (0 + ?n) (replicate ?n 0 @ [0]))"
      by (rule fill_loop) (auto simp: rev_nth nth_append)
    moreover have "map (\<lambda>i. rev ?ds ! i) [0..<?n] = rev ?ds" by (intro nth_equalityI) auto
    ultimately show ?thesis by simp
  qed
  have w: "wr (rev ?ds @ [0]) ?n 0 = Some (rev ?ds @ [0])" by (simp add: list_update_append)
  show ?thesis
    using False b(3,4) m c rv w by (simp add: to_string_def digit_count_digits number_text_def)
qed

lemma number_text_chars:
  assumes "1 < b" "b \<le> 36" "c \<in> set (number_text b v)"
  shows "\<exists>d < 36. c = digit_char d"
proof (cases "v = 0")
  case True
  with assms(3) show ?thesis by (intro exI[of _ 0]) (simp add: number_text_def digit_char_def)
next
  case False
  with assms(3) obtain d where "d \<in> set (digits b v)" "c = digit_char d" by (auto simp: number_text_def)
  with digits_less[OF assms(1), of d v] assms(2) show ?thesis by (intro exI[of _ d]) (simp add: less_le_trans[of d b])
qed

lemma number_text_cstr:
  assumes "1 < b" "b \<le> 36"
  shows "cstr (number_text b v) (number_text b v @ [0])"
  using number_text_chars[OF assms] digit_char_ok by (intro cstrI) fastforce

section \<open>Reading\<close>

lemma to_int_loop:
  assumes "cstr s buf" "a \<le> length s"
  shows "for_loop (\<lambda>i r. do { c \<leftarrow> rd buf i; Some (r * b + digit_value c) }) a (length s - a) (0 :: u64) =
    Some (foldl (\<lambda>r c. r * b + digit_value c) 0 (drop a s))"
proof -
  let ?body = "\<lambda>i r. do { c \<leftarrow> rd buf i; Some (r * b + digit_value c) }"
  let ?f = "\<lambda>r c. r * b + digit_value c"
  have "\<exists>r. for_loop ?body a (length s - a) 0 = Some r \<and> r = foldl ?f 0 (take (a + (length s - a) - a) (drop a s))"
  proof (rule for_loop_rule[where I = "\<lambda>i r. r = foldl ?f 0 (take (i - a) (drop a s))"])
    fix i r assume i: "a \<le> i" "i < a + (length s - a)" and r: "r = foldl ?f 0 (take (i - a) (drop a s))"
    have "take (Suc i - a) (drop a s) = take (i - a) (drop a s) @ [s ! i]"
      using i assms(2) by (simp add: Suc_diff_le take_Suc_conv_app_nth)
    with r i cstr_rd[OF assms(1), of i] show "\<exists>r'. ?body i r = Some r' \<and> r' = foldl ?f 0 (take (Suc i - a) (drop a s))"
      by simp
  qed simp
  then show ?thesis by simp
qed

lemma to_int_unsigned:
  assumes "cstr s buf" "s \<noteq> []" "hd s \<noteq> ch (CHR ''-'')"
  shows "to_int buf b = Some (foldl (\<lambda>r c. r * b + digit_value c) 0 s)"
proof -
  have r: "rd buf 0 = Some (hd s)" using cstr_rd[OF assms(1), of 0] assms(2) by (simp add: hd_conv_nth)
  have "hd s \<noteq> 0" using assms(1,2) by (metis cstr_def hd_in_set)
  with r assms(1,3) to_int_loop[OF assms(1), of 0 b] show ?thesis by (simp add: to_int_def)
qed

lemma to_int_negative:
  assumes "cstr (ch (CHR ''-'') # s) buf"
  shows "to_int buf b = Some (0 - foldl (\<lambda>r c. r * b + digit_value c) 0 s)"
proof -
  have "rd buf 0 = Some (ch (CHR ''-''))" using cstr_rd[OF assms, of 0] by simp
  with assms to_int_loop[OF assms, of 1 b] show ?thesis by (simp add: to_int_def)
qed

lemma number_text_value:
  assumes "1 < b" "b \<le> 36"
  shows "foldl (\<lambda>r c. r * b + digit_value c) 0 (number_text b v) = v"
proof (cases "v = 0")
  case True
  have "digit_value (ch (CHR ''0'')) = 0" by code_simp
  with True show ?thesis by (simp add: number_text_def)
next
  case False
  have "foldl (\<lambda>r c. r * b + digit_value c) a (map digit_char ds) = foldl (\<lambda>r d. r * b + d) a ds"
    if "\<forall>d \<in> set ds. d < 36" for a ds
    using that digit_char_ok by (induction ds arbitrary: a) auto
  moreover have "\<forall>d \<in> set (rev (digits b v)). d < 36" using digits_less[OF assms(1)] assms(2) by fastforce
  ultimately show ?thesis using horner_digits[OF assms(1)] False by (simp add: number_text_def rev_map)
qed

lemma number_text_hd:
  assumes "1 < b" "b \<le> 36"
  shows "number_text b v \<noteq> []" "hd (number_text b v) \<noteq> ch (CHR ''-'')"
proof -
  show ne: "number_text b v \<noteq> []"
    using assms(1) by (auto simp: number_text_def digits.simps[of b v])
  from number_text_chars[OF assms hd_in_set[OF ne]] digit_char_ok show "hd (number_text b v) \<noteq> ch (CHR ''-'')" by metis
qed

text \<open>\<open>to_int\<close> reads back what \<open>to_string\<close> printed, for every 64-bit value and every base from 2
  to 36.\<close>

theorem to_int_to_string:
  assumes "2 \<le> base" and "base \<le> 36"
  shows "do { s \<leftarrow> to_string v base; to_int s (ucast base) } = Some v"
proof -
  note b = base_bounds[OF assms]
  show ?thesis
    using to_string_spec[OF assms] to_int_unsigned[OF number_text_cstr[OF b(1,2)] number_text_hd[OF b(1,2)]]
      number_text_value[OF b(1,2)] by simp
qed

lemma to_int_to_string_witness: "do { s \<leftarrow> to_string 0xFFFFFFFFFFFFFFFF 16; to_int s 16 } = Some 0xFFFFFFFFFFFFFFFF"
  using to_int_to_string[of 16 "0xFFFFFFFFFFFFFFFF"] by simp

text \<open>C34. The signed versions round-trip as well, the most negative value included.\<close>

theorem to_int_to_string_signed:
  assumes "2 \<le> base" and "base \<le> 36"
  shows "do { s \<leftarrow> to_string_signed v base; to_int s (ucast base) } = Some v"
proof (cases "0 \<le>s v")
  case True
  note b = base_bounds[OF assms]
  show ?thesis
    using True to_string_spec[OF assms] to_int_unsigned[OF number_text_cstr[OF b(1,2)] number_text_hd[OF b(1,2)]]
      number_text_value[OF b(1,2)] by (simp add: to_string_signed_def)
next
  case False
  note b = base_bounds[OF assms]
  let ?t = "number_text (ucast base) (- v)"
  have l: "length ?t \<le> 64" using length_digits[OF b(1)] by (simp add: number_text_def)
  have nz: "0 \<notin> set ?t" using number_text_cstr[OF b(1,2)] by (simp add: cstr_def)
  have m: "cstr [ch (CHR ''-'')] (ascii ''-'' @ [0])" by (simp add: cstr_def)
  have "str_combine (ascii ''-'' @ [0]) (?t @ [0]) = Some ([ch (CHR ''-'')] @ ?t @ [0])"
    by (rule str_combine_spec[OF m number_text_cstr[OF b(1,2)]]) (use l in simp)
  moreover have "to_int ([ch (CHR ''-'')] @ ?t @ [0]) (ucast base) = Some (0 - (- v))"
    using to_int_negative[of ?t "[ch (CHR ''-'')] @ ?t @ [0]" "ucast base"] nz number_text_value[OF b(1,2)]
    by (simp add: cstr_def)
  ultimately show ?thesis using False to_string_spec[OF assms, of "- v"] by (simp add: to_string_signed_def)
qed

lemma to_int_to_string_signed_witness:
  "do { s \<leftarrow> to_string_signed (- 9223372036854775808) 10; to_int s 10 } = Some (- 9223372036854775808)"
  using to_int_to_string_signed[of 10 "- 9223372036854775808"] by simp

end
