(* ===== verification/StringProps.thy ===== *)
theory StringProps
  imports StringNumbers
begin

text \<open>Splitting at a separator, and the properties of the string functions.\<close>

section \<open>Splitting\<close>

fun split_on :: "u8 \<Rightarrow> u8 list \<Rightarrow> u8 list list" where
  "split_on c [] = [[]]"
| "split_on c (x # xs) = (if x = c then [] # split_on c xs
     else case split_on c xs of [] \<Rightarrow> [[x]] | p # ps \<Rightarrow> (x # p) # ps)"

fun join_with :: "u8 \<Rightarrow> u8 list list \<Rightarrow> u8 list" where
  "join_with c [] = []"
| "join_with c [p] = p"
| "join_with c (p # ps) = p @ c # join_with c ps"

lemma split_on_nonempty: "split_on c s \<noteq> []"
  by (induction s) (auto split: list.splits)

lemma split_on_none: "c \<notin> set s \<Longrightarrow> split_on c s = [s]"
  by (induction s) auto

lemma split_on_first: "c \<notin> set xs \<Longrightarrow> split_on c (xs @ c # ys) = xs # split_on c ys"
  by (induction xs) auto

lemma join_split: "join_with c (split_on c s) = s"
proof (induction s)
  case (Cons x s)
  obtain p ps where p: "split_on c s = p # ps" using split_on_nonempty by (cases "split_on c s") auto
  with Cons show ?case by (cases ps) auto
qed simp

lemma length_split_on: "length (split_on c s) = count_list s c + 1"
proof (induction s)
  case (Cons x s)
  obtain p ps where "split_on c s = p # ps" using split_on_nonempty by (cases "split_on c s") auto
  with Cons show ?case by auto
qed simp

lemma split_parts: "p \<in> set (split_on c s) \<Longrightarrow> c \<notin> set p \<and> set p \<subseteq> set s"
proof (induction s arbitrary: p)
  case (Cons x s)
  obtain q qs where q: "split_on c s = q # qs" using split_on_nonempty by (cases "split_on c s") auto
  from Cons.prems q consider "p = []" | "p = x # q" "x \<noteq> c" | "p \<in> set (split_on c s)" by (auto split: if_splits)
  then show ?case
  proof cases
    case 2
    with Cons.IH[of q] q show ?thesis by auto
  next
    case 3
    from Cons.IH[OF 3] show ?thesis by auto
  qed simp
qed simp

lemma count_loop:
  assumes "cstr s buf"
  shows "for_loop (\<lambda>i qty. do { c \<leftarrow> rd buf i; Some (if c = x then qty + 1 else qty) }) 0 (length s) (1 :: nat) =
    Some (length (split_on x s))"
proof -
  let ?body = "\<lambda>i qty. do { c \<leftarrow> rd buf i; Some (if c = x then qty + 1 else qty) }"
  have "\<exists>q. for_loop ?body 0 (length s) 1 = Some q \<and> q = count_list (take (0 + length s) s) x + 1"
  proof (rule for_loop_rule[where I = "\<lambda>i q. q = count_list (take i s) x + 1"])
    fix i q assume i: "0 \<le> i" "i < 0 + length s" and q: "q = count_list (take i s) x + 1"
    have "take (Suc i) s = take i s @ [s ! i]" using i by (simp add: take_Suc_conv_app_nth)
    with i q cstr_rd[OF assms, of i] show "\<exists>q'. ?body i q = Some q' \<and> q' = count_list (take (Suc i) s) x + 1"
      by (simp add: count_list_append)
  qed simp
  then show ?thesis by (simp add: length_split_on)
qed

text \<open>Before position \<open>i\<close> the parts \<open>ps\<close> are out and the current one started at \<open>b\<close>.\<close>

definition split_inv :: "u8 list \<Rightarrow> u8 \<Rightarrow> buffer list \<Rightarrow> nat \<Rightarrow> nat \<times> nat \<times> buffer list \<Rightarrow> bool" where
  "split_inv s x outs i r \<longleftrightarrow> (\<exists>ps b. r = (b, length ps, map (\<lambda>p. p @ [0]) ps @ drop (length ps) outs) \<and>
     (if i \<le> length s then b \<le> i \<and> x \<notin> set (take (i - b) (drop b s)) \<and> split_on x s = ps @ split_on x (drop b s)
      else ps = split_on x s))"

lemma split_part:
  assumes "cstr s buf" "b \<le> i" "i \<le> length s" "length s < str_max"
  shows "do { part \<leftarrow> malloc_str (of_nat (i - b + 1)); part \<leftarrow> copy_chars buf b (i - b) 0 part; wr part (i - b) 0 } =
    Some (take (i - b) (drop b s) @ [0])"
proof -
  have "malloc_str (of_nat (i - b + 1)) = Some (replicate (i - b) 0 @ [0])"
    by (rule malloc_str_Suc) (use assms in simp)
  moreover have "copy_chars buf b (i - b) 0 (replicate (i - b) 0 @ [0]) = Some (take (i - b) (drop b s) @ [0])"
    using copy_chars_spec[of b "i - b" buf 0 "replicate (i - b) 0 @ [0]"] assms(1-3) cstr_length[OF assms(1)]
    by (auto simp: cstr_def)
  moreover have "wr (take (i - b) (drop b s) @ [0]) (i - b) 0 = Some (take (i - b) (drop b s) @ [0])"
    using assms(2,3) by (simp add: list_update_append min_absorb2)
  ultimately show ?thesis by simp
qed

lemma split_step:
  assumes c: "cstr s buf" and l: "length s < str_max" and i: "i < length s + 1"
    and o: "length (split_on x s) \<le> length outs" and inv: "split_inv s x outs i r"
  defines "body \<equiv> (\<lambda>i (partStart, partNo, outSplits). do {
         c \<leftarrow> rd buf i;
         if i \<noteq> length s \<and> c \<noteq> x then Some (partStart, partNo, outSplits)
         else do {
           let part_len = i - partStart;
           part \<leftarrow> malloc_str (of_nat (part_len + 1));
           part \<leftarrow> copy_chars buf partStart part_len 0 part;
           part \<leftarrow> wr part part_len 0;
           outSplits \<leftarrow> wr outSplits partNo part;
           Some (i + 1, partNo + 1, outSplits) } })"
  shows "\<exists>r'. body i r = Some r' \<and> split_inv s x outs (Suc i) r'"
proof -
  from inv i obtain ps b where r: "r = (b, length ps, map (\<lambda>p. p @ [0]) ps @ drop (length ps) outs)"
    and b: "b \<le> i" "x \<notin> set (take (i - b) (drop b s))" "split_on x s = ps @ split_on x (drop b s)"
    unfolding split_inv_def by auto
  let ?p = "take (i - b) (drop b s)"
  have rdi: "rd buf i = Some (if i < length s then s ! i else 0)"
  proof (cases "i < length s")
    case False
    with i have "i = length s" by simp
    with cstr_rd_end[OF c] show ?thesis by simp
  qed (use cstr_rd[OF c] in simp)
  have le: "i \<le> length s" using i by simp
  show ?thesis
  proof (cases "i < length s \<and> s ! i \<noteq> x")
    case True
    have "take (Suc i - b) (drop b s) = ?p @ [s ! i]"
      using True b(1) take_Suc_conv_app_nth[of "i - b" "drop b s"] diff_less_mono[of i "length s" b]
      by (simp add: Suc_diff_le)
    with True b have "split_inv s x outs (Suc i) r" unfolding split_inv_def r by auto
    with True rdi r show ?thesis by (simp add: body_def)
  next
    case False
    have n: "length ps < length outs" using b(3) o split_on_nonempty[of x "drop b s"]
      by (cases "split_on x (drop b s)") auto
    let ?outs = "map (\<lambda>p. p @ [0]) (ps @ [?p]) @ drop (length (ps @ [?p])) outs"
    have w: "wr (map (\<lambda>p. p @ [0]) ps @ drop (length ps) outs) (length ps) (?p @ [0]) = Some ?outs"
      using n by (simp add: list_update_append Cons_nth_drop_Suc[symmetric])
    have "body i r = (do { part \<leftarrow> malloc_str (of_nat (i - b + 1)); part \<leftarrow> copy_chars buf b (i - b) 0 part;
        part \<leftarrow> wr part (i - b) 0;
        outSplits \<leftarrow> wr (map (\<lambda>p. p @ [0]) ps @ drop (length ps) outs) (length ps) part;
        Some (i + 1, length ps + 1, outSplits) })"
      using False rdi r i by (auto simp: body_def Let_def)
    also have "\<dots> = (do { part \<leftarrow> do { part \<leftarrow> malloc_str (of_nat (i - b + 1)); part \<leftarrow> copy_chars buf b (i - b) 0 part;
          wr part (i - b) 0 };
        outSplits \<leftarrow> wr (map (\<lambda>p. p @ [0]) ps @ drop (length ps) outs) (length ps) part;
        Some (i + 1, length ps + 1, outSplits) })" by simp
    also have "\<dots> = Some (i + 1, length (ps @ [?p]), ?outs)"
      unfolding split_part[OF c b(1) le l] using w by simp
    finally have e: "body i r = Some (i + 1, length (ps @ [?p]), ?outs)" .
    have "split_inv s x outs (Suc i) (i + 1, length (ps @ [?p]), ?outs)"
    proof (cases "i < length s")
      case True
      then have "drop b s = ?p @ x # drop (Suc i) s"
        using False b(1) by (metis append_take_drop_id Cons_nth_drop_Suc drop_drop le_add_diff_inverse2)
      then have "split_on x (drop b s) = ?p # split_on x (drop (Suc i) s)" using split_on_first[OF b(2)] by metis
      with True b(3) show ?thesis unfolding split_inv_def
        by (intro exI[of _ "ps @ [?p]"] exI[of _ "i + 1"]) simp
    next
      case F: False
      then have "i = length s" using i by simp
      then have "?p = drop b s" by simp
      then have "split_on x s = ps @ [?p]" using b(2,3) split_on_none by metis
      with F i show ?thesis unfolding split_inv_def
        by (intro exI[of _ "ps @ [?p]"] exI[of _ "i + 1"]) simp
    qed
    with e show ?thesis by blast
  qed
qed

lemma str_split_spec:
  assumes "cstr s buf" "length s < str_max" "length (split_on x s) \<le> length outs"
  shows "str_split buf x outs = Some (map (\<lambda>p. p @ [0]) (split_on x s) @ drop (length (split_on x s)) outs, length (split_on x s))"
proof -
  let ?body = "\<lambda>i (partStart, partNo, outSplits). do {
         c \<leftarrow> rd buf i;
         if i \<noteq> length s \<and> c \<noteq> x then Some (partStart, partNo, outSplits)
         else do {
           let part_len = i - partStart;
           part \<leftarrow> malloc_str (of_nat (part_len + 1));
           part \<leftarrow> copy_chars buf partStart part_len 0 part;
           part \<leftarrow> wr part part_len 0;
           outSplits \<leftarrow> wr outSplits partNo part;
           Some (i + 1, partNo + 1, outSplits) } }"
  have "\<exists>r. for_loop ?body 0 (length s + 1) (0, 0, outs) = Some r \<and> split_inv s x outs (0 + (length s + 1)) r"
  proof (rule for_loop_rule[where I = "split_inv s x outs"])
    show "split_inv s x outs 0 (0, 0, outs)" by (simp add: split_inv_def)
  next
    fix i r assume "0 \<le> i" "i < 0 + (length s + 1)" and inv: "split_inv s x outs i r"
    then have "i < length s + 1" by simp
    from split_step[OF assms(1,2) this assms(3) inv] show "\<exists>r'. ?body i r = Some r' \<and> split_inv s x outs (Suc i) r'" .
  qed
  then obtain b where "for_loop ?body 0 (length s + 1) (0, 0, outs) =
      Some (b, length (split_on x s), map (\<lambda>p. p @ [0]) (split_on x s) @ drop (length (split_on x s)) outs)"
    unfolding split_inv_def by auto
  with assms(1) count_loop[OF assms(1), of x] show ?thesis
    by (simp add: str_split_def del: for_loop.simps)
qed

section \<open>Properties\<close>

text \<open>\<open>str_split\<close> loses nothing: the parts it stores contain no separator, joining them with the
  separator gives the text back, their number is returned, and the array beyond them is untouched.\<close>

theorem str_split_join:
  assumes "cstr s buf" and "length s < str_max" and "count_list s x < length outs"
  shows "\<exists>parts. str_split buf x outs = Some (map (\<lambda>p. p @ [0]) parts @ drop (length parts) outs, length parts) \<and>
    join_with x parts = s \<and> (\<forall>p \<in> set parts. x \<notin> set p \<and> cstr p (p @ [0])) \<and> length parts = count_list s x + 1"
proof -
  have "length (split_on x s) \<le> length outs" using assms(3) by (simp add: length_split_on)
  note sp = str_split_spec[OF assms(1,2) this]
  have "0 \<notin> set s" using assms(1) by (simp add: cstr_def)
  then have "\<forall>p \<in> set (split_on x s). x \<notin> set p \<and> cstr p (p @ [0])" using split_parts by (auto simp: cstr_def)
  with sp join_split length_split_on show ?thesis by blast
qed

lemma str_split_join_witness:
  "\<exists>parts. str_split (ascii ''cd /a/b'' @ [0]) (ch (CHR ''/'')) (replicate 3 []) =
    Some (map (\<lambda>p. p @ [0]) parts @ drop (length parts) (replicate 3 []), length parts) \<and>
    join_with (ch (CHR ''/'')) parts = ascii ''cd /a/b''"
proof -
  have "cstr (ascii ''cd /a/b'') (ascii ''cd /a/b'' @ [0])" by (simp add: cstr_def)
  from str_split_join[OF this, of "ch (CHR ''/'')" "replicate 3 []"] show ?thesis by auto
qed

text \<open>\<open>str_trim\<close> removes exactly the surrounding blanks and tabs: what is cut off on both sides is
  white space, and the result is empty or begins and ends with another character.\<close>

theorem str_trim_correct:
  assumes "cstr s buf" and "length s < str_max"
  shows "\<exists>r t pre post. str_trim buf = Some r \<and> cstr t r \<and> s = pre @ t @ post \<and>
    (\<forall>c \<in> set pre \<union> set post. is_whitespace c) \<and>
    (t = [] \<or> \<not> is_whitespace (hd t) \<and> \<not> is_whitespace (last t))"
proof -
  let ?u = "trim_start s" and ?t = "trim_end (trim_start s)"
  let ?pre = "takeWhile is_whitespace s" and ?post = "rev (takeWhile is_whitespace (rev ?u))"
  obtain r where r: "str_trim buf = Some r" "cstr ?t r" using str_trim_spec(1)[OF assms] by blast
  have u: "?t @ ?post = ?u" unfolding trim_end_def by (metis rev_append rev_rev_ident takeWhile_dropWhile_id)
  have s: "s = ?pre @ ?t @ ?post" unfolding u by (simp add: trim_start_def)
  have ws: "\<forall>c \<in> set ?pre \<union> set ?post. is_whitespace c" by (auto dest: set_takeWhileD)
  have ends: "?t = [] \<or> \<not> is_whitespace (hd ?t) \<and> \<not> is_whitespace (last ?t)"
  proof (cases "?t = []")
    case False
    then have ne: "dropWhile is_whitespace (rev ?u) \<noteq> []" by (simp add: trim_end_def)
    have "last ?t = hd (dropWhile is_whitespace (rev ?u))" by (simp add: trim_end_def last_rev)
    then have l: "\<not> is_whitespace (last ?t)" using hd_dropWhile[OF ne] by simp
    have un: "?u \<noteq> []" using False u by auto
    then have "\<not> is_whitespace (hd ?u)" using hd_dropWhile[of is_whitespace s] by (simp add: trim_start_def)
    moreover have "hd ?u = hd ?t" using u False by (metis hd_append2)
    ultimately show ?thesis using l by simp
  qed simp
  from r s ws ends show ?thesis by blast
qed

lemma str_trim_correct_witness:
  "\<exists>r t pre post. str_trim (ascii '' ls  '' @ [0]) = Some r \<and> cstr t r \<and> ascii '' ls  '' = pre @ t @ post \<and>
    (\<forall>c \<in> set pre \<union> set post. is_whitespace c)"
proof -
  have "cstr (ascii '' ls  '') (ascii '' ls  '' @ [0])" by (simp add: cstr_def)
  from str_trim_correct[OF this] show ?thesis by auto
qed

text \<open>The searching functions decide what their names say: equality, prefix, suffix, sublist and the
  number of positions (overlapping ones included) of the searched text.\<close>

theorem str_search_correct:
  assumes "cstr s buf" and "cstr t search"
  shows "str_equal buf search = Some (s = t) \<and> str_starts_with buf search = Some (prefix t s) \<and>
    str_ends_with buf search = Some (suffix t s) \<and> str_contains buf search = Some (sublist t s) \<and>
    str_count buf search = Some (card {i. i + length t \<le> length s \<and> take (length t) (drop i s) = t})"
  using str_equal_spec[OF assms] str_starts_with_spec[OF assms] str_ends_with_spec[OF assms]
    str_contains_spec[OF assms] str_count_spec[OF assms] by (simp add: occurs_at_def)

lemma str_search_correct_witness:
  "str_contains (ascii ''help'' @ [0]) (ascii ''el'' @ [0]) = Some (sublist (ascii ''el'') (ascii ''help''))"
proof -
  have "cstr (ascii ''help'') (ascii ''help'' @ [0])" "cstr (ascii ''el'') (ascii ''el'' @ [0])"
    by (simp_all add: cstr_def)
  from str_search_correct[OF this] show ?thesis by blast
qed

text \<open>\<open>str_add\<close> appends in place when the target has room for both texts and the terminator, and the
  rest of the target stays; without that room it writes past the object.\<close>

theorem str_add_correct:
  assumes "cstr s buf" and "cstr t val"
  shows "if length s + length t < length buf
    then \<exists>r. str_add buf val = Some r \<and> cstr (s @ t) r \<and> length r = length buf \<and>
      drop (length s + length t + 1) r = drop (length s + length t + 1) buf
    else str_add buf val = None"
proof (cases "length s + length t < length buf")
  case True
  have "0 \<notin> set (s @ t)" using assms by (simp add: cstr_def)
  from cstrI[OF this] str_add_spec[OF assms True] True show ?thesis by (auto simp: Suc_diff_Suc)
next
  case False
  let ?body = "\<lambda>j d. do { c \<leftarrow> rd val (0 + j); wr d (length s + j) c }"
  have "do { d \<leftarrow> for_loop ?body 0 (length t) buf; wr d (length s + length t) 0 } = None"
  proof (cases "for_loop ?body 0 (length t) buf")
    case (Some d)
    have "length d' = length d0" if "for_loop ?body lo n d0 = Some d'" for lo n d0 d'
      using that by (induction n arbitrary: lo d0) (auto simp: bind_eq_Some_conv wr_eq_Some_iff)
    from this[OF Some] False Some show ?thesis by simp
  qed simp
  with False assms show ?thesis by (simp add: str_add_def)
qed

lemma str_add_correct_witness: "str_add (ascii ''ab'' @ [0]) (ascii ''c'' @ [0]) = None"
proof -
  have "cstr (ascii ''ab'') (ascii ''ab'' @ [0])" "cstr (ascii ''c'') (ascii ''c'' @ [0])"
    by (simp_all add: cstr_def)
  from str_add_correct[OF this] show ?thesis by simp
qed

text \<open>\<open>str_cut_start\<close> drops the first \<open>n\<close> characters as long as there are that many. One more, and
  the unsigned length wraps to 0: the result is an object of no bytes, not even a terminator, on
  which \<open>str_length\<close> reads out of bounds.\<close>

theorem str_cut_start_correct:
  assumes "cstr s buf" and "length s < str_max"
  shows "(\<forall>n. n \<le> length s \<longrightarrow> str_cut_start buf n = Some (drop n s @ [0])) \<and>
    str_cut_start buf (length s + 1) = Some [] \<and> str_length [] = None"
  using str_cut_start_spec[OF assms] str_cut_start_past_end[OF assms(1)] str_length_unterminated[of "[]" 0]
  by (simp add: str_length_def)

lemma str_cut_start_correct_witness: "str_cut_start (ascii ''abc'' @ [0]) 1 = Some (ascii ''bc'' @ [0])"
proof -
  have "cstr (ascii ''abc'') (ascii ''abc'' @ [0])" by (simp add: cstr_def)
  from str_cut_start_correct[OF this] show ?thesis by auto
qed

end
