(* ===== verification/Mbr.thy ===== *)
theory Mbr
  imports Bytes
begin

text \<open>
  \<^verbatim>\<open>kernel/storage/partitioning\<close> and the selection of a partition in
  \<^verbatim>\<open>kernel/storage/storage.cpp\<close>. A sector is the list of its 512 bytes.
\<close>

section \<open>Partitions\<close>

datatype FilesystemType = FsUnknown | FsEmpty | FsGptProtective | FsFAT12 | FsFAT16 | FsFAT32 | FsNTFS | FsExt

record PartitionInfo =
  Start_LBA :: u32
  Sector_Count :: u32
  Type :: FilesystemType
  Bootable :: bool

text \<open>The 16 bytes of a \<open>Partition_Entry\<close>, packed.\<close>

record Partition_Entry =
  Boot_Flag :: u8
  CHS_Address_Start :: "u8 list"
  Partition_Type :: u8
  CHS_Address_End :: "u8 list"
  pe_Start_LBA :: u32
  Sector_Amount :: u32

definition MBR_PARTITION_TABLE_OFFSET :: nat where
  "MBR_PARTITION_TABLE_OFFSET = 0x1BE"

text \<open>\<open>slice b o n\<close>: the \<open>n\<close> bytes at offset \<open>o\<close>, a fault when the object is shorter.\<close>

definition slice :: "u8 list \<Rightarrow> nat \<Rightarrow> nat \<Rightarrow> u8 list option" where
  "slice b off n = (if off + n \<le> length b then Some (take n (drop off b)) else None)"

definition partition_entry :: "u8 list \<Rightarrow> nat \<Rightarrow> Partition_Entry option" where
  "partition_entry sectorBuffer i = do {
     e \<leftarrow> slice sectorBuffer (MBR_PARTITION_TABLE_OFFSET + 16 * i) 16;
     Some \<lparr>Boot_Flag = e ! 0, CHS_Address_Start = take 3 (drop 1 e), Partition_Type = e ! 4,
       CHS_Address_End = take 3 (drop 5 e), pe_Start_LBA = le_word (take 4 (drop 8 e)),
       Sector_Amount = le_word (take 4 (drop 12 e))\<rparr> }"

definition partition_type :: "u8 \<Rightarrow> FilesystemType" where
  "partition_type t =
     (if t = 0x01 then FsFAT12
      else if t = 0x06 \<or> t = 0x04 then FsFAT16
      else if t = 0x0B \<or> t = 0x0C then FsFAT32
      else if t = 0xEE then FsGptProtective
      else if t = 0x83 then FsExt
      else if t = 0x07 then FsNTFS
      else if t = 0x00 then FsEmpty
      else FsUnknown)"

text \<open>The result and the caller's array of four \<open>PartitionInfo\<close>.\<close>

definition parse_mbr :: "u8 list \<Rightarrow> PartitionInfo list \<Rightarrow> (bool \<times> PartitionInfo list) option" where
  "parse_mbr sectorBuffer outPartitions = do {
     a \<leftarrow> rd sectorBuffer 510;
     b \<leftarrow> (if a \<noteq> 0x55 then Some 0 else rd sectorBuffer 511);
     if a \<noteq> 0x55 \<or> b \<noteq> 0xAA then do {
       out \<leftarrow> for_range (\<lambda>i out. do { p \<leftarrow> rd out i; wr out i (p\<lparr>Type := FsEmpty\<rparr>) }) 0 4 outPartitions;
       Some (False, out) }
     else do {
       out \<leftarrow> for_range (\<lambda>i out. do {
           e \<leftarrow> partition_entry sectorBuffer i;
           p \<leftarrow> rd out i;
           let p = (if Boot_Flag e = 0x80 then p\<lparr>Bootable := True\<rparr> else p\<lparr>Bootable := False\<rparr>);
           let p = p\<lparr>Start_LBA := pe_Start_LBA e\<rparr>;
           let p = p\<lparr>Sector_Count := Sector_Amount e\<rparr>;
           wr out i (p\<lparr>Type := partition_type (Partition_Type e)\<rparr>) }) 0 4 outPartitions;
       Some (True, out) } }"

section \<open>Storage devices\<close>

record StorageDevice =
  Partitions :: "PartitionInfo list"
  PartitionCount :: nat
  Identified :: bool
  Ready :: bool

text \<open>
  \<open>fill_partition_infos\<close>: \<open>sector0\<close> is what the AHCI driver reads from sector 0. The local array of
  the parsed partitions starts uninitialised; \<open>parse_mbr\<close> writes every field when it succeeds.
\<close>

definition fill_partition_infos :: "u8 list \<Rightarrow> PartitionInfo list \<Rightarrow> 'a StorageDevice_scheme \<Rightarrow> (bool \<times> 'a StorageDevice_scheme) option" where
  "fill_partition_infos sector0 partitions storageDevice = do {
     (ok, partitions) \<leftarrow> parse_mbr sector0 partitions;
     if \<not> ok then Some (False, storageDevice)
     else do {
       dev \<leftarrow> for_range (\<lambda>i dev. do {
           p \<leftarrow> rd partitions i;
           ps \<leftarrow> wr (Partitions dev) i p;
           Some (dev\<lparr>Partitions := ps, PartitionCount := PartitionCount dev + 1\<rparr>) }) 0 4 storageDevice;
       Some (True, dev) } }"

text \<open>The first FAT32 partition in the order of the devices and their partitions.\<close>

definition search_suitable_storage_partition :: "'a StorageDevice_scheme list \<Rightarrow> ((nat \<times> nat) option) option" where
  "search_suitable_storage_partition devices = do {
     r \<leftarrow> for_until (\<lambda>i (_ :: unit). do {
         dev \<leftarrow> rd devices i;
         r \<leftarrow> for_until (\<lambda>j (_ :: unit). do {
             p \<leftarrow> rd (Partitions dev) j;
             Some (if Type p \<noteq> FsFAT32 then Inr () else Inl (i, j)) }) 0 (PartitionCount dev) ();
         Some r }) 0 (length devices) ();
     Some (case r of Inl ij \<Rightarrow> Some ij | Inr _ \<Rightarrow> None) }"

section \<open>The partition table as bytes\<close>

text \<open>A sector with a partition table, from its entries: the layout \<open>parse_mbr\<close> reads.\<close>

definition entry_bytes :: "Partition_Entry \<Rightarrow> u8 list" where
  "entry_bytes e = [Boot_Flag e] @ CHS_Address_Start e @ [Partition_Type e] @ CHS_Address_End e @
     le_bytes 4 (pe_Start_LBA e) @ le_bytes 4 (Sector_Amount e)"

definition mbr_sector :: "u8 list \<Rightarrow> Partition_Entry list \<Rightarrow> u8 list" where
  "mbr_sector code es = code @ concat (map entry_bytes es) @ [0x55, 0xAA]"

definition entry_ok :: "Partition_Entry \<Rightarrow> bool" where
  "entry_ok e \<longleftrightarrow> length (CHS_Address_Start e) = 3 \<and> length (CHS_Address_End e) = 3"

definition partition_of :: "Partition_Entry \<Rightarrow> PartitionInfo" where
  "partition_of e = \<lparr>Start_LBA = pe_Start_LBA e, Sector_Count = Sector_Amount e,
     Type = partition_type (Partition_Type e), Bootable = (Boot_Flag e = 0x80)\<rparr>"

lemma length_entry_bytes: "entry_ok e \<Longrightarrow> length (entry_bytes e) = 16"
  by (simp add: entry_bytes_def entry_ok_def)

lemma length_entries: "\<forall>e \<in> set es. entry_ok e \<Longrightarrow> length (concat (map entry_bytes es)) = 16 * length es"
  by (induction es) (auto simp: length_entry_bytes)

lemma nth_entries:
  "\<forall>e \<in> set es. entry_ok e \<Longrightarrow> i < length es \<Longrightarrow>
    take 16 (drop (16 * i) (concat (map entry_bytes es) @ rest)) = entry_bytes (es ! i)"
proof (induction es arbitrary: i)
  case (Cons e es)
  show ?case
  proof (cases i)
    case 0
    with Cons.prems show ?thesis by (simp add: length_entry_bytes)
  next
    case (Suc j)
    with Cons show ?thesis by (simp add: length_entry_bytes)
  qed
qed simp

lemma partition_entry_sector:
  assumes "length code = 446" "\<forall>e \<in> set es. entry_ok e" "length es = 4" "i < 4"
  shows "partition_entry (mbr_sector code es) i = Some (es ! i)"
proof -
  let ?e = "es ! i"
  have ok: "entry_ok ?e" using assms(2-4) by simp
  have "take 16 (drop (446 + 16 * i) (mbr_sector code es)) = entry_bytes ?e"
    using nth_entries[OF assms(2), of i "[0x55, 0xAA]"] assms(1,3,4) by (simp add: mbr_sector_def)
  moreover have "446 + 16 * i + 16 \<le> length (mbr_sector code es)"
    using length_entries[OF assms(2)] assms by (simp add: mbr_sector_def)
  ultimately have s: "slice (mbr_sector code es) (446 + 16 * i) 16 = Some (entry_bytes ?e)" by (simp add: slice_def)
  obtain a b c where chs: "CHS_Address_Start ?e = [a, b, c]"
    using ok by (auto simp: entry_ok_def numeral_3_eq_3 length_Suc_conv)
  obtain x y z where che: "CHS_Address_End ?e = [x, y, z]"
    using ok by (auto simp: entry_ok_def numeral_3_eq_3 length_Suc_conv)
  have w: "le_word (le_bytes 4 w) = w" for w :: u32 by (rule le_word_le_bytes) simp
  have b: "entry_bytes ?e = Boot_Flag ?e # a # b # c # Partition_Type ?e # x # y # z #
      le_bytes 4 (pe_Start_LBA ?e) @ le_bytes 4 (Sector_Amount ?e)"
    by (simp add: entry_bytes_def chs che)
  have "partition_entry (mbr_sector code es) i = Some \<lparr>Boot_Flag = Boot_Flag ?e, CHS_Address_Start = [a, b, c],
      Partition_Type = Partition_Type ?e, CHS_Address_End = [x, y, z], pe_Start_LBA = pe_Start_LBA ?e,
      Sector_Amount = Sector_Amount ?e\<rparr>"
    unfolding partition_entry_def MBR_PARTITION_TABLE_OFFSET_def using s by (simp add: b w)
  also have "\<dots> = Some ?e" by (simp add: Partition_Entry.equality chs che)
  finally show ?thesis .
qed

section \<open>Properties\<close>

lemma four: "i < (4 :: nat) \<longleftrightarrow> i = 0 \<or> i = 1 \<or> i = 2 \<or> i = 3"
  by auto

lemma for_four: "for_range body 0 4 s = do { s \<leftarrow> body 0 s; s \<leftarrow> body 1 s; s \<leftarrow> body 2 s; body 3 s }"
proof -
  have "for_loop body i (Suc n) = (\<lambda>s. do { s \<leftarrow> body i s; for_loop body (Suc i) n s })" for i n by (rule ext) simp
  moreover have "for_loop body i 0 = Some" for i by (rule ext) simp
  ultimately show ?thesis by (simp add: numeral_eq_Suc)
qed

lemma list_four: "length xs = 4 \<Longrightarrow> \<exists>a b c d. xs = [a, b, c, d]"
  by (auto simp: numeral_eq_Suc length_Suc_conv)

lemma parse_mbr_sector:
  assumes "length code = 446" and "\<forall>e \<in> set es. entry_ok e" and "length es = 4" and "length out = 4"
  shows "parse_mbr (mbr_sector code es) out = Some (True, map partition_of es)"
proof -
  have l: "length (concat (map entry_bytes es)) = 64" using length_entries[OF assms(2)] assms(3) by simp
  have sig: "rd (mbr_sector code es) 510 = Some 0x55" "rd (mbr_sector code es) 511 = Some 0xAA"
    using l assms(1) by (simp_all add: mbr_sector_def nth_append)
  note pe = partition_entry_sector[OF assms(1-3)]
  have pes: "partition_entry (mbr_sector code es) 0 = Some (es ! 0)" "partition_entry (mbr_sector code es) 1 = Some (es ! 1)"
    "partition_entry (mbr_sector code es) 2 = Some (es ! 2)" "partition_entry (mbr_sector code es) 3 = Some (es ! 3)"
    by (rule pe, simp)+
  obtain a b c d where out: "out = [a, b, c, d]" using list_four[OF assms(4)] by blast
  obtain e f g h where es: "es = [e, f, g, h]" using list_four[OF assms(3)] by blast
  show ?thesis
    unfolding parse_mbr_def for_four using sig pes
    by (simp add: out es Let_def partition_of_def)
qed

text \<open>\<open>parse_mbr\<close> reads a partition table back from the bytes it was written to: on any 446 bytes of
  boot code followed by four entries and the signature it succeeds with exactly these four
  partitions, whatever the caller's array held.\<close>

theorem parse_mbr_roundtrip:
  assumes "length code = 446" and "\<forall>e \<in> set es. entry_ok e" and "length es = 4" and "length out = 4"
  shows "parse_mbr (mbr_sector code es) out = Some (True, map partition_of es)"
  by (rule parse_mbr_sector[OF assms])

lemma parse_mbr_roundtrip_witness:
  "parse_mbr (mbr_sector (replicate 446 0) (replicate 4 \<lparr>Boot_Flag = 0x80, CHS_Address_Start = [1, 2, 3],
      Partition_Type = 0x0C, CHS_Address_End = [4, 5, 6], pe_Start_LBA = 2048, Sector_Amount = 100\<rparr>))
    (replicate 4 \<lparr>Start_LBA = 0, Sector_Count = 0, Type = FsUnknown, Bootable = False\<rparr>) =
   Some (True, replicate 4 \<lparr>Start_LBA = 2048, Sector_Count = 100, Type = FsFAT32, Bootable = True\<rparr>)"
  by (subst parse_mbr_roundtrip) (simp_all add: entry_ok_def partition_of_def partition_type_def)

text \<open>The device and partition \<open>init_storage\<close> goes on with are the first FAT32 partition in the order
  of devices and partitions, if there is one at all.\<close>

theorem search_partition_first:
  assumes "\<forall>d \<in> set devices. PartitionCount d \<le> length (Partitions d)"
  shows "\<exists>r. search_suitable_storage_partition devices = Some r \<and>
    (case r of
       None \<Rightarrow> \<forall>i < length devices. \<forall>j < PartitionCount (devices ! i). Type (Partitions (devices ! i) ! j) \<noteq> FsFAT32
     | Some (i, j) \<Rightarrow> i < length devices \<and> j < PartitionCount (devices ! i) \<and>
         Type (Partitions (devices ! i) ! j) = FsFAT32 \<and>
         (\<forall>j' < j. Type (Partitions (devices ! i) ! j') \<noteq> FsFAT32) \<and>
         (\<forall>i' < i. \<forall>j < PartitionCount (devices ! i'). Type (Partitions (devices ! i') ! j) \<noteq> FsFAT32))"
proof -
  let ?fat = "\<lambda>i j. Type (Partitions (devices ! i) ! j) = FsFAT32"
  let ?inner = "\<lambda>i dev j (_ :: unit). do { p \<leftarrow> rd (Partitions dev) j;
      Some (if Type p \<noteq> FsFAT32 then Inr () else Inl (i :: nat, j)) }"
  let ?body = "\<lambda>i (_ :: unit). do { dev \<leftarrow> rd devices i;
      r \<leftarrow> for_until (?inner i dev) 0 (PartitionCount dev) (); Some r }"
  let ?Q = "\<lambda>(i, j). i < length devices \<and> j < PartitionCount (devices ! i) \<and> ?fat i j \<and>
      (\<forall>j' < j. \<not> ?fat i j') \<and> (\<forall>i' < i. \<forall>j < PartitionCount (devices ! i'). \<not> ?fat i' j)"
  have inner: "(\<exists>u. for_until (?inner i (devices ! i)) 0 (PartitionCount (devices ! i)) () = Some (Inr u) \<and>
        (\<forall>j < 0 + PartitionCount (devices ! i). \<not> ?fat i j)) \<or>
      (\<exists>r. for_until (?inner i (devices ! i)) 0 (PartitionCount (devices ! i)) () = Some (Inl r) \<and>
        (fst r = i \<and> snd r < PartitionCount (devices ! i) \<and> ?fat i (snd r) \<and> (\<forall>j' < snd r. \<not> ?fat i j')))"
    if i: "i < length devices" for i
  proof (rule for_until_rule[where I = "\<lambda>j _. \<forall>j' < j. \<not> ?fat i j'"])
    fix j :: nat and u :: unit
    assume j: "0 \<le> j" "j < 0 + PartitionCount (devices ! i)" and I: "\<forall>j' < j. \<not> ?fat i j'"
    have "rd (Partitions (devices ! i)) j = Some (Partitions (devices ! i) ! j)"
      using assms i j by (intro rd_Some) (auto intro: less_le_trans)
    with I j show "(\<exists>s'. ?inner i (devices ! i) j u = Some (Inr s') \<and> (\<forall>j' < Suc j. \<not> ?fat i j')) \<or>
      (\<exists>r. ?inner i (devices ! i) j u = Some (Inl r) \<and>
        (fst r = i \<and> snd r < PartitionCount (devices ! i) \<and> ?fat i (snd r) \<and> (\<forall>j' < snd r. \<not> ?fat i j')))"
      by (auto simp: less_Suc_eq)
  qed simp
  have "(\<exists>u. for_until ?body 0 (length devices) () = Some (Inr u) \<and>
        (\<forall>i < 0 + length devices. \<forall>j < PartitionCount (devices ! i). \<not> ?fat i j)) \<or>
      (\<exists>r. for_until ?body 0 (length devices) () = Some (Inl r) \<and> ?Q r)"
  proof (rule for_until_rule[where I = "\<lambda>i _. \<forall>i' < i. \<forall>j < PartitionCount (devices ! i'). \<not> ?fat i' j"])
    fix i :: nat and u :: unit
    assume "0 \<le> i" and i: "i < 0 + length devices"
      and I: "\<forall>i' < i. \<forall>j < PartitionCount (devices ! i'). \<not> ?fat i' j"
    have il: "i < length devices" using i by simp
    from inner[OF il] I il show "(\<exists>s'. ?body i u = Some (Inr s') \<and>
        (\<forall>i' < Suc i. \<forall>j < PartitionCount (devices ! i'). \<not> ?fat i' j)) \<or> (\<exists>r. ?body i u = Some (Inl r) \<and> ?Q r)"
      by (auto simp: less_Suc_eq)
  qed simp
  then show ?thesis unfolding search_suitable_storage_partition_def by auto
qed

lemma search_partition_first_witness:
  "search_suitable_storage_partition [\<lparr>Partitions = [], PartitionCount = 0, Identified = True, Ready = True\<rparr>] = Some None"
proof -
  let ?d = "\<lparr>Partitions = [], PartitionCount = 0, Identified = True, Ready = True\<rparr>"
  obtain r where r: "search_suitable_storage_partition [?d] = Some r"
    "case r of None \<Rightarrow> True | Some (i, j) \<Rightarrow> i < 1 \<and> j < PartitionCount ([?d] ! i)"
    using search_partition_first[of "[?d]"] by (auto split: option.splits)
  then show ?thesis by (cases r) auto
qed

end
