(* ===== verification/Fat32.thy ===== *)
theory Fat32
  imports Mbr StringLib MathLib
begin

text \<open>
  \<^verbatim>\<open>kernel/storage/filesystem/fat32\<close>: the FAT32 driver over the selected
  partition. \<open>disk\<close> is what the device holds, sector by sector (a parameter; the
  code relies on a read giving 512 bytes per sector, which the theorems state
  as \<open>disk_ok\<close>).
\<close>

section \<open>On-disk structures\<close>

definition EOC_START :: u32 where "EOC_START = 0x0FFFFFF8"

definition SECTOR_SIZE_BYTES :: nat where "SECTOR_SIZE_BYTES = 512"

type_synonym disk = "u64 \<Rightarrow> u8 list"

definition disk_ok :: "disk \<Rightarrow> bool" where
  "disk_ok disk \<longleftrightarrow> (\<forall>lba. length (disk lba) = 512)"

text \<open>The bit fields of a byte and of the packed time and date words.\<close>

record FAT_Time_Bits =
  Seconds_Div2 :: "5 word"
  Minutes :: "6 word"
  Hours :: "5 word"

record FAT_Date_Bits =
  Day :: "5 word"
  Month :: "4 word"
  Year :: "7 word"

record FAT_Attributes_Bits =
  ReadOnly :: bool
  Hidden :: bool
  System :: bool
  VolumeID :: bool
  Directory :: bool
  Archive :: bool

definition time_bits :: "u16 \<Rightarrow> FAT_Time_Bits" where
  "time_bits w = \<lparr>Seconds_Div2 = ucast w, Minutes = ucast (drop_bit 5 w), Hours = ucast (drop_bit 11 w)\<rparr>"

definition date_bits :: "u16 \<Rightarrow> FAT_Date_Bits" where
  "date_bits w = \<lparr>Day = ucast w, Month = ucast (drop_bit 5 w), Year = ucast (drop_bit 9 w)\<rparr>"

definition attribute_bits :: "u8 \<Rightarrow> FAT_Attributes_Bits" where
  "attribute_bits b = \<lparr>ReadOnly = bit b 0, Hidden = bit b 1, System = bit b 2, VolumeID = bit b 3,
     Directory = bit b 4, Archive = bit b 5\<rparr>"

record FAT32_Context =
  FatStartLBA :: u64
  DataRegionStartLBA :: u64
  RootCluster :: u32
  SectorsPerCluster :: u8
  BytesPerSector :: u16
  RootDirLBA :: u64
  ClusterSizeInBytes :: u64

record LFN_Entry_Struct =
  SequenceNumber :: u8
  NameChars1 :: "u8 list"
  lfn_Attributes :: FAT_Attributes_Bits
  LfnType :: u8
  Checksum :: u8
  NameChars2 :: "u8 list"
  lfn_FirstClusterLow :: u16
  NameChars3 :: "u8 list"

record Directory_Entry =
  DirName :: "u8 list"
  Attributes :: FAT_Attributes_Bits
  NTReserved :: u8
  CreateTimeTenths :: u8
  CreateTime :: FAT_Time_Bits
  CreateDate :: FAT_Date_Bits
  LastAccessDate :: FAT_Date_Bits
  FirstClusterHigh :: u16
  WriteTime :: FAT_Time_Bits
  WriteDate :: FAT_Date_Bits
  FirstClusterLow :: u16
  FileSize :: u32

text \<open>The two views of the 32 bytes of a directory slot.\<close>

definition directory_entry :: "u8 list \<Rightarrow> Directory_Entry" where
  "directory_entry e = \<lparr>DirName = take 11 e, Attributes = attribute_bits (e ! 11), NTReserved = e ! 12,
     CreateTimeTenths = e ! 13, CreateTime = time_bits (le_word (take 2 (drop 14 e))),
     CreateDate = date_bits (le_word (take 2 (drop 16 e))), LastAccessDate = date_bits (le_word (take 2 (drop 18 e))),
     FirstClusterHigh = le_word (take 2 (drop 20 e)), WriteTime = time_bits (le_word (take 2 (drop 22 e))),
     WriteDate = date_bits (le_word (take 2 (drop 24 e))), FirstClusterLow = le_word (take 2 (drop 26 e)),
     FileSize = le_word (take 4 (drop 28 e))\<rparr>"

definition lfn_entry :: "u8 list \<Rightarrow> LFN_Entry_Struct" where
  "lfn_entry e = \<lparr>SequenceNumber = e ! 0, NameChars1 = take 10 (drop 1 e), lfn_Attributes = attribute_bits (e ! 11),
     LfnType = e ! 12, Checksum = e ! 13, NameChars2 = take 12 (drop 14 e),
     lfn_FirstClusterLow = le_word (take 2 (drop 26 e)), NameChars3 = take 4 (drop 28 e)\<rparr>"

text \<open>The fields of the boot sector the driver reads.\<close>

record BPB =
  bpb_BytesPerSector :: u16
  bpb_SectorsPerCluster :: u8
  ReservedSectors :: u16
  AmountOfFAT_Copies :: u8
  SectorsPerFAT :: u32
  RootBegin_ClusterNumber :: u32

definition bpb_of :: "u8 list \<Rightarrow> BPB" where
  "bpb_of b = \<lparr>bpb_BytesPerSector = le_word (take 2 (drop 11 b)), bpb_SectorsPerCluster = b ! 13,
     ReservedSectors = le_word (take 2 (drop 14 b)), AmountOfFAT_Copies = b ! 16,
     SectorsPerFAT = le_word (take 4 (drop 36 b)), RootBegin_ClusterNumber = le_word (take 4 (drop 44 b))\<rparr>"

section \<open>Initialisation\<close>

text \<open>The sums and products of fields narrower than 64 bits are 32-bit arithmetic.\<close>

definition init_fat32 :: "disk \<Rightarrow> u32 \<Rightarrow> FAT32_Context \<times> bool" where
  "init_fat32 disk start =
     (let bpb = bpb_of (disk (ucast start));
          fat = ucast (start + ucast (ReservedSectors bpb));
          data = fat + ucast (ucast (AmountOfFAT_Copies bpb) * SectorsPerFAT bpb);
          spc = bpb_SectorsPerCluster bpb
      in (\<lparr>FatStartLBA = fat, DataRegionStartLBA = data, RootCluster = RootBegin_ClusterNumber bpb,
           SectorsPerCluster = spc, BytesPerSector = bpb_BytesPerSector bpb,
           RootDirLBA = data + ucast ((RootBegin_ClusterNumber bpb - 2) * ucast spc),
           ClusterSizeInBytes = ucast spc * ucast (bpb_BytesPerSector bpb)\<rparr>, True))"

section \<open>Clusters\<close>

definition isLFN :: "FAT_Attributes_Bits \<Rightarrow> bool" where
  "isLFN a = (ReadOnly a \<and> Hidden a \<and> System a \<and> VolumeID a)"

text \<open>A division by zero is a fault.\<close>

definition get_fat_sector_to_read :: "FAT32_Context \<Rightarrow> u32 \<Rightarrow> u64 option" where
  "get_fat_sector_to_read context cluster =
     (if BytesPerSector context = 0 then None
      else Some (ucast ((cluster * 4) div ucast (BytesPerSector context)) + FatStartLBA context))"

definition cluster_to_lba :: "FAT32_Context \<Rightarrow> u32 \<Rightarrow> u64" where
  "cluster_to_lba context cluster =
     DataRegionStartLBA context + ucast ((cluster - 2) * ucast (SectorsPerCluster context))"

definition get_next_cluster :: "disk \<Rightarrow> FAT32_Context \<Rightarrow> u32 \<Rightarrow> u32 option" where
  "get_next_cluster disk context cluster = do {
     fatSector \<leftarrow> get_fat_sector_to_read context cluster;
     let offsetInSector = unat ((cluster * 4) mod ucast (BytesPerSector context));
     fatEntry \<leftarrow> slice (disk fatSector) (offsetInSector div 4 * 4) 4;
     Some (le_word fatEntry AND 0x0FFFFFFF) }"

text \<open>
  Reading a cluster into a fresh buffer of \<open>ClusterSizeInBytes\<close>: the device delivers 512 bytes
  per sector, which must fit. (Bytes the device does not deliver, when a sector is larger than 512
  bytes, are taken as 0.)
\<close>

definition sectors :: "disk \<Rightarrow> u64 \<Rightarrow> nat \<Rightarrow> u8 list" where
  "sectors disk lba n = concat (map (\<lambda>i. disk (lba + of_nat i)) [0..<n])"

definition read_cluster :: "disk \<Rightarrow> FAT32_Context \<Rightarrow> u32 \<Rightarrow> u8 list option" where
  "read_cluster disk context cluster =
     (let cs = unat (ClusterSizeInBytes context);
          d = sectors disk (cluster_to_lba context cluster) (unat (SectorsPerCluster context))
      in if length d \<le> cs then Some (d @ replicate (cs - length d) 0) else None)"

section \<open>Directories\<close>

record Entry =
  Name :: buffer
  Size :: u32
  IsDirectory :: bool
  FirstCluster :: u32
  Found :: bool

definition no_entry :: Entry where
  "no_entry = \<lparr>Name = replicate 256 0, Size = 0, IsDirectory = False, FirstCluster = 0, Found = False\<rparr>"

text \<open>The three pieces of a long name entry, appended to the name collected so far.\<close>

definition add_lfn_part :: "LFN_Entry_Struct \<Rightarrow> buffer \<Rightarrow> buffer option" where
  "add_lfn_part lfn name = do {
     part1 \<leftarrow> utf16_text_to_ascii (NameChars1 lfn) 5;
     part2 \<leftarrow> utf16_text_to_ascii (NameChars2 lfn) 6;
     part3 \<leftarrow> utf16_text_to_ascii (NameChars3 lfn) 2;
     s \<leftarrow> String_construct [Chars part1, Chars part2, Chars part3];
     str_add name s }"

text \<open>The 8.3 name, trimmed and in lower case.\<close>

definition short_name :: "Directory_Entry \<Rightarrow> buffer \<Rightarrow> buffer option" where
  "short_name e name = do {
     let namePart = take 8 (DirName e) @ [0];
     let extPart = take 3 (drop 8 (DirName e)) @ [0];
     trimmed \<leftarrow> str_trim namePart;
     namePart \<leftarrow> str_copy namePart trimmed;
     trimmed \<leftarrow> str_trim extPart;
     extPart \<leftarrow> str_copy extPart trimmed;
     c \<leftarrow> rd extPart 0;
     if c = 0 then do {
       lower \<leftarrow> str_to_lower namePart;
       str_copy name lower }
     else do {
       s \<leftarrow> String_construct [Chars namePart, Chars (ascii ''.'' @ [0]), Chars extPart];
       lower \<leftarrow> str_to_lower s;
       str_copy name lower } }"

text \<open>One directory slot: \<open>Inl\<close> is the \<open>break\<close> at the end mark. The state is \<open>gotLongName\<close>, the
  caller's array and the number of entries.\<close>

definition dir_slot :: "u8 list \<Rightarrow> bool \<times> Entry list \<times> nat \<Rightarrow>
    ((bool \<times> Entry list \<times> nat) + (bool \<times> Entry list \<times> nat)) option" where
  "dir_slot slot st = (case st of (gotLongName, outEntries, outEntryCount) \<Rightarrow>
     (let e = directory_entry slot;
          nm = DirName e
      in if nm ! 0 = 0 then Some (Inl st)
      else if nm ! 0 = ch (CHR ''.'') \<and> nm ! 1 = ch (CHR '' '') then Some (Inr st)
      else if nm ! 0 = ch (CHR ''.'') \<and> nm ! 1 = ch (CHR ''.'') \<and> nm ! 2 = ch (CHR '' '') then Some (Inr st)
      else let isEntryLFN = isLFN (Attributes e)
      in if \<not> isEntryLFN \<and> VolumeID (Attributes e) then Some (Inr st)
      else if isEntryLFN then do {
        o1 \<leftarrow> rd outEntries outEntryCount;
        n \<leftarrow> add_lfn_part (lfn_entry slot) (Name o1);
        outEntries \<leftarrow> wr outEntries outEntryCount (o1\<lparr>Name := n\<rparr>);
        Some (Inr (True, outEntries, outEntryCount)) }
      else do {
        o1 \<leftarrow> rd outEntries outEntryCount;
        n \<leftarrow> (if \<not> gotLongName then short_name e (Name o1) else Some (Name o1));
        outEntries \<leftarrow> wr outEntries outEntryCount (o1\<lparr>Name := n, Size := FileSize e,
          IsDirectory := Directory (Attributes e),
          FirstCluster := push_bit 16 (ucast (FirstClusterHigh e)) OR ucast (FirstClusterLow e)\<rparr>);
        Some (Inr (False, outEntries, outEntryCount + 1)) }))"

definition get_entries_in_dir :: "FAT32_Context \<Rightarrow> u8 list \<Rightarrow> Entry list \<Rightarrow> nat \<Rightarrow> (Entry list \<times> nat) option" where
  "get_entries_in_dir context entries outEntries outEntryCount = do {
     let maxEntryCount = unat (ucast (ClusterSizeInBytes context div 32) :: u32);
     r \<leftarrow> for_until (\<lambda>i st. do { slot \<leftarrow> slice entries (32 * i) 32; dir_slot slot st })
       0 maxEntryCount (False, outEntries, outEntryCount);
     let (_, outEntries, outEntryCount) = (case r of Inl s \<Rightarrow> s | Inr s \<Rightarrow> s);
     Some (outEntries, outEntryCount) }"

definition read_dir_entries :: "disk \<Rightarrow> FAT32_Context \<Rightarrow> u32 \<Rightarrow> Entry list \<Rightarrow> nat \<Rightarrow> (Entry list \<times> nat) option" where
  "read_dir_entries disk context cluster outEntries outEntryCount =
     (if cluster < 2 \<or> cluster \<ge> EOC_START then Some (outEntries, outEntryCount)
      else do {
        tempBuffer \<leftarrow> read_cluster disk context cluster;
        get_entries_in_dir context tempBuffer outEntries outEntryCount })"

text \<open>The entries of the directory at \<open>cluster\<close>, in a fresh cleared array (272 bytes each).\<close>

definition load_dir :: "disk \<Rightarrow> FAT32_Context \<Rightarrow> u32 \<Rightarrow> (Entry list \<times> nat) option" where
  "load_dir disk context cluster = do {
     let maxEntries = (ucast (ClusterSizeInBytes context div 32) :: u32);
     _ \<leftarrow> malloc_str (272 * ucast maxEntries);
     read_dir_entries disk context cluster (replicate (unat maxEntries) no_entry) 0 }"

section \<open>Looking up a path\<close>

definition is_root_path :: "buffer \<Rightarrow> bool option" where
  "is_root_path path = do {
     a \<leftarrow> rd path 0;
     if a \<noteq> ch (CHR ''/'') then Some False else do { b \<leftarrow> rd path 1; Some (b = 0) } }"

text \<open>The loop over the entries that returns the first with this name (and, for a directory of the
  path, only a directory).\<close>

definition search_entries :: "Entry list \<Rightarrow> nat \<Rightarrow> bool \<Rightarrow> buffer \<Rightarrow> (Entry option) option" where
  "search_entries entries entryCount onlyDirs section = do {
     r \<leftarrow> for_until (\<lambda>j (_ :: unit). do {
         e \<leftarrow> rd entries j;
         if onlyDirs \<and> \<not> IsDirectory e then Some (Inr ())
         else do {
           eq \<leftarrow> str_equal (Name e) section;
           Some (if eq then Inl e else Inr ()) } }) 0 entryCount ();
     Some (case r of Inl e \<Rightarrow> Some e | Inr _ \<Rightarrow> None) }"

text \<open>\<open>Inl\<close> is the early return of the empty entry.\<close>

definition find_entry :: "disk \<Rightarrow> FAT32_Context \<Rightarrow> buffer \<Rightarrow> Entry option" where
  "find_entry disk context path = do {
     c \<leftarrow> rd path 0;
     let normalizedPath = (if c = ch (CHR ''/'') then tl path else path);
     c0 \<leftarrow> rd normalizedPath 0;
     root \<leftarrow> (if c0 = 0 then Some True else is_root_path normalizedPath);
     if root then Some (no_entry\<lparr>IsDirectory := True, FirstCluster := RootCluster context, Found := True\<rparr>)
     else do {
       (pathSections, splitCount) \<leftarrow> str_split normalizedPath (ch (CHR ''/'')) (replicate 64 []);
       r \<leftarrow> for_until (\<lambda>i currCluster. do {
           (entries, entryCount) \<leftarrow> load_dir disk context currCluster;
           section \<leftarrow> rd pathSections i;
           hit \<leftarrow> search_entries entries entryCount True section;
           Some (case hit of None \<Rightarrow> Inl no_entry | Some e \<Rightarrow> Inr (FirstCluster e)) })
         0 (splitCount - 1) (RootCluster context);
       (case r of
          Inl e \<Rightarrow> Some e
        | Inr currCluster \<Rightarrow> do {
            (entries, entryCount) \<leftarrow> load_dir disk context currCluster;
            section \<leftarrow> rd pathSections (splitCount - 1);
            hit \<leftarrow> search_entries entries entryCount False section;
            Some (case hit of None \<Rightarrow> no_entry | Some e \<Rightarrow> e\<lparr>Found := True\<rparr>) }) } }"

text \<open>The count and the array; the null pointer is the empty list.\<close>

definition get_entries :: "disk \<Rightarrow> FAT32_Context \<Rightarrow> buffer \<Rightarrow> (nat \<times> Entry list) option" where
  "get_entries disk context path = do {
     dir \<leftarrow> find_entry disk context path;
     if \<not> Found dir \<or> \<not> IsDirectory dir then Some (0, [])
     else do {
       (outEntries, entryCount) \<leftarrow> load_dir disk context (FirstCluster dir);
       Some (entryCount, outEntries) } }"

section \<open>Reading a file\<close>

text \<open>
  The loop of \<open>read_cluster_chain\<close>: it copies a cluster behind the previous one until the chain
  ends. Copying past the end of \<open>outBuffer\<close> is a fault, which also ends a cyclic chain. A
  cluster size of 0 (no valid boot sector has it; the code could then follow a cyclic chain for ever)
  is outside the model and counted as a fault.
\<close>

lemma length_cluster: "read_cluster disk context c = Some d \<Longrightarrow> length d = unat (ClusterSizeInBytes context)"
  by (auto simp: read_cluster_def Let_def split: if_splits)

function read_chain_loop :: "disk \<Rightarrow> FAT32_Context \<Rightarrow> u32 \<Rightarrow> nat \<Rightarrow> u8 list \<Rightarrow> u8 list option" where
  "read_chain_loop disk context currCluster bufferWriteOffset outBuffer =
     (let cs = unat (ClusterSizeInBytes context)
      in if currCluster < 2 \<or> currCluster \<ge> EOC_START then Some outBuffer
      else if cs = 0 \<or> length outBuffer < bufferWriteOffset + cs then None
      else case read_cluster disk context currCluster of
          None \<Rightarrow> None
        | Some tempBuffer \<Rightarrow>
            (case get_next_cluster disk context currCluster of
               None \<Rightarrow> None
             | Some next \<Rightarrow> read_chain_loop disk context next (bufferWriteOffset + cs)
                 (take bufferWriteOffset outBuffer @ tempBuffer @ drop (bufferWriteOffset + cs) outBuffer)))"
  by pat_completeness auto
termination
  by (relation "measure (\<lambda>(disk, context, c, off, out). length out - off)") (auto simp: length_cluster)

declare read_chain_loop.simps [simp del]

text \<open>\<open>None\<close> inside is the null pointer. \<open>fresh\<close> are the bytes \<open>malloc\<close> hands out.\<close>

definition read_cluster_chain :: "disk \<Rightarrow> FAT32_Context \<Rightarrow> u32 \<Rightarrow> u64 \<Rightarrow> ((u8 list) option) option" where
  "read_cluster_chain disk context startCluster sz =
     (if startCluster < 2 \<or> startCluster \<ge> EOC_START then Some None
      else if ClusterSizeInBytes context = 0 then None
      else do {
        let numClusters = divide_round_up sz (ClusterSizeInBytes context);
        outBuffer \<leftarrow> malloc_str (numClusters * ClusterSizeInBytes context + 1);
        out \<leftarrow> read_chain_loop disk context startCluster 0 outBuffer;
        Some (Some out) })"

text \<open>Writing the terminator through a null pointer is a fault.\<close>

definition fat32_read :: "disk \<Rightarrow> FAT32_Context \<Rightarrow> Entry \<Rightarrow> u8 list option" where
  "fat32_read disk context entry = do {
     r \<leftarrow> read_cluster_chain disk context (FirstCluster entry) (ucast (Size entry));
     case r of None \<Rightarrow> None | Some fileData \<Rightarrow> wr fileData (unat (Size entry)) 0 }"

definition fat32_write :: "Entry \<Rightarrow> u8 list \<Rightarrow> u64 \<Rightarrow> u64" where
  "fat32_write entry data sz = 0"

end
