(* ===== verification/Fat32Spec.thy ===== *)
theory Fat32Spec
  imports Fat32 StringProps
begin

text \<open>
  What the FAT32 driver reads: the chain of clusters of a file, and the entries of
  a directory.
\<close>

section \<open>Geometry\<close>

text \<open>Sectors of 512 bytes, a whole number of them per cluster.\<close>

definition geometry_ok :: "FAT32_Context \<Rightarrow> bool" where
  "geometry_ok context \<longleftrightarrow> BytesPerSector context = 512 \<and> SectorsPerCluster context \<noteq> 0 \<and>
     ClusterSizeInBytes context = ucast (SectorsPerCluster context) * 512"

abbreviation cluster_bytes :: "FAT32_Context \<Rightarrow> nat" where
  "cluster_bytes context \<equiv> unat (ClusterSizeInBytes context)"

definition cluster_data :: "disk \<Rightarrow> FAT32_Context \<Rightarrow> u32 \<Rightarrow> u8 list" where
  "cluster_data disk context c = sectors disk (cluster_to_lba context c) (unat (SectorsPerCluster context))"

lemma cluster_bytes_eq:
  assumes "geometry_ok context"
  shows "cluster_bytes context = 512 * unat (SectorsPerCluster context)"
proof -
  have "unat (SectorsPerCluster context) < 2 ^ 8" using unsigned_less[of "SectorsPerCluster context"] by simp
  then have s: "unat (SectorsPerCluster context) < 256" by simp
  have u: "unat (ucast (SectorsPerCluster context) :: u64) = unat (SectorsPerCluster context)"
    using s by (simp add: unsigned_ucast_eq take_bit_nat_eq_self)
  have "unat (ucast (SectorsPerCluster context) * 512 :: u64) = unat (SectorsPerCluster context) * 512"
    using s by (subst unat_mult_small) (simp_all add: u)
  with assms show ?thesis by (simp add: geometry_ok_def)
qed

lemma cluster_bytes_pos: "geometry_ok context \<Longrightarrow> 0 < cluster_bytes context"
  by (simp add: cluster_bytes_eq) (simp add: geometry_ok_def unat_gt_0)

lemma length_sectors: "disk_ok disk \<Longrightarrow> length (sectors disk lba n) = 512 * n"
proof (induction n)
  case (Suc n)
  then show ?case by (simp add: sectors_def disk_ok_def)
qed (simp add: sectors_def)

lemma read_cluster_data:
  assumes "disk_ok disk" "geometry_ok context"
  shows "read_cluster disk context c = Some (cluster_data disk context c)"
    and "length (cluster_data disk context c) = cluster_bytes context"
proof -
  show l: "length (cluster_data disk context c) = cluster_bytes context"
    using length_sectors[OF assms(1)] cluster_bytes_eq[OF assms(2)] by (simp add: cluster_data_def)
  then show "read_cluster disk context c = Some (cluster_data disk context c)"
    by (simp add: read_cluster_def Let_def cluster_data_def)
qed

section \<open>The allocation table\<close>

text \<open>The entry of a cluster: 4 bytes, 128 of them per sector, without the four reserved bits.\<close>

definition fat_next :: "disk \<Rightarrow> FAT32_Context \<Rightarrow> u32 \<Rightarrow> u32" where
  "fat_next disk context c =
     le_word (take 4 (drop (4 * (unat c mod 128)) (disk (FatStartLBA context + of_nat (unat c div 128))))) AND 0x0FFFFFFF"

lemma get_next_cluster_fat:
  assumes "disk_ok disk" "geometry_ok context" "c < EOC_START"
  shows "get_next_cluster disk context c = Some (fat_next disk context c)"
proof -
  have c: "unat c < 2 ^ 28" using assms(3) by (simp add: EOC_START_def word_less_nat_alt)
  have u4: "unat (c * 4) = 4 * unat c" using c by (subst unat_mult_small) simp_all
  have n: "4 * unat c div 512 = unat c div 128" "4 * unat c mod 512 = 4 * (unat c mod 128)"
    using div_mult_mult1[of 4 "unat c" 128] mult_mod_right[of 4 "unat c" 128] by simp_all
  have dv: "unat ((c * 4) div 512) = unat c div 128" unfolding unat_div_distrib u4 by (simp add: n)
  have md: "unat ((c * 4) mod 512) = 4 * (unat c mod 128)" unfolding unat_mod_distrib u4 by (simp add: n)
  have uc: "ucast ((c * 4) div 512) = (of_nat (unat c div 128) :: u64)"
    unfolding dv[symmetric] by simp
  have "unat c mod 128 < 128" by simp
  then have le: "4 * (unat c mod 128) + 4 \<le> 512" by linarith
  have bps: "BytesPerSector context = 512" "ucast (512 :: u16) = (512 :: u32)" using assms(2) by (simp_all add: geometry_ok_def)
  have nz: "(512 :: u16) \<noteq> 0" by code_simp
  have len: "length (disk lba) = 512" for lba using assms(1) by (simp add: disk_ok_def)
  have sl: "slice (disk lba) (4 * (unat c mod 128)) 4 = Some (take 4 (drop (4 * (unat c mod 128)) (disk lba)))" for lba
    unfolding slice_def len using le by simp
  have sec: "get_fat_sector_to_read context c = Some (FatStartLBA context + of_nat (unat c div 128))"
    unfolding get_fat_sector_to_read_def bps uc using nz by (simp only: if_False add.commute)
  have off: "unat ((c * 4) mod ucast (BytesPerSector context)) div 4 * 4 = 4 * (unat c mod 128)"
    unfolding bps md by simp
  show ?thesis
    unfolding get_next_cluster_def sec Let_def off by (simp only: bind.bind_lunit sl fat_next_def)
qed

section \<open>Cluster chains\<close>

text \<open>\<open>cluster_chain next c cs\<close>: from \<open>c\<close> on, the chain is exactly the clusters \<open>cs\<close>, then a value outside the data range.\<close>

fun cluster_chain :: "(u32 \<Rightarrow> u32) \<Rightarrow> u32 \<Rightarrow> u32 list \<Rightarrow> bool" where
  "cluster_chain next c [] \<longleftrightarrow> c < 2 \<or> c \<ge> EOC_START"
| "cluster_chain next c (x # xs) \<longleftrightarrow> x = c \<and> 2 \<le> c \<and> c < EOC_START \<and> cluster_chain next (next c) xs"

lemma cluster_chain_unique: "cluster_chain next c xs \<Longrightarrow> cluster_chain next c ys \<Longrightarrow> xs = ys"
proof (induction xs arbitrary: c ys)
  case Nil
  then show ?case by (cases ys) auto
next
  case (Cons x xs)
  then show ?case by (cases ys) auto
qed

lemma read_chain_loop_fits:
  assumes "disk_ok disk" "geometry_ok context"
  shows "cluster_chain (fat_next disk context) c cs \<Longrightarrow> off + length cs * cluster_bytes context \<le> length out \<Longrightarrow>
    read_chain_loop disk context c off out = Some (take off out @ concat (map (cluster_data disk context) cs) @
      drop (off + length cs * cluster_bytes context) out)"
proof (induction cs arbitrary: c off out)
  case Nil
  then show ?case by (subst read_chain_loop.simps) (auto simp: Let_def)
next
  case (Cons x cs)
  note rc = read_cluster_data[OF assms, of c]
  have c: "2 \<le> c" "c < EOC_START" and tl: "cluster_chain (fat_next disk context) (fat_next disk context c) cs"
    and x: "x = c" using Cons.prems(1) by simp_all
  let ?n = "cluster_bytes context" and ?d = "cluster_data disk context c"
  let ?out = "take off out @ ?d @ drop (off + ?n) out"
  have nc: "\<not> c < 2" "\<not> EOC_START \<le> c" using c by (simp_all add: not_less not_le)
  have l: "off + ?n \<le> length out" using Cons.prems(2) by simp
  have lo: "length ?out = length out" using l rc(2) by simp
  have "read_chain_loop disk context c off out = read_chain_loop disk context (fat_next disk context c) (off + ?n) ?out"
    using nc l rc(1) get_next_cluster_fat[OF assms c(2)] cluster_bytes_pos[OF assms(2)]
    by (subst read_chain_loop.simps) (simp add: Let_def)
  also have "\<dots> = Some (take (off + ?n) ?out @ concat (map (cluster_data disk context) cs) @
      drop (off + ?n + length cs * ?n) ?out)"
    by (rule Cons.IH[OF tl]) (use Cons.prems(2) in \<open>simp only: lo, simp\<close>)
  also have "take (off + ?n) ?out = take off out @ ?d" using l rc(2) by simp
  also have "drop (off + ?n + length cs * ?n) ?out = drop (off + length (x # cs) * ?n) out"
    using l rc(2) by (simp add: add_ac)
  finally show ?case by (simp add: x)
qed

text \<open>The loop only returns when the chain ends within the buffer.\<close>

lemma read_chain_loop_Some:
  assumes "disk_ok disk" "geometry_ok context"
  shows "read_chain_loop disk context c off out = Some r \<Longrightarrow> off \<le> length out \<Longrightarrow>
    \<exists>cs. cluster_chain (fat_next disk context) c cs \<and> off + length cs * cluster_bytes context \<le> length out"
proof (induction "length out - off" arbitrary: c off out rule: less_induct)
  case less
  let ?n = "cluster_bytes context"
  show ?case
  proof (cases "c < 2 \<or> c \<ge> EOC_START")
    case True
    then show ?thesis using less.prems(2) by (intro exI[of _ "[]"]) simp
  next
    case False
    then have c: "2 \<le> c" "c < EOC_START" by (simp_all add: not_less not_le)
    note rc = read_cluster_data[OF assms, of c]
    let ?out = "take off out @ cluster_data disk context c @ drop (off + ?n) out"
    have l: "off + ?n \<le> length out" "0 < ?n" and
      rec: "read_chain_loop disk context (fat_next disk context c) (off + ?n) ?out = Some r"
      using less.prems(1) False rc(1) get_next_cluster_fat[OF assms c(2)] cluster_bytes_pos[OF assms(2)]
      by (subst (asm) read_chain_loop.simps, auto simp: Let_def split: if_splits)+
    have lo: "length ?out = length out" using l rc(2) by simp
    obtain cs where cs: "cluster_chain (fat_next disk context) (fat_next disk context c) cs"
      "off + ?n + length cs * ?n \<le> length out"
    proof -
      have m: "length ?out - (off + ?n) < length out - off" "off + ?n \<le> length ?out" using l lo by linarith+
      from less.hyps[OF m(1) rec m(2)] show thesis using that unfolding lo by blast
    qed
    then show ?thesis using c by (intro exI[of _ "c # cs"]) simp
  qed
qed

section \<open>A small volume\<close>

text \<open>Every byte 0xFF: every cluster is the last of its chain.\<close>

definition sample_disk :: disk where
  "sample_disk = (\<lambda>_. replicate 512 0xFF)"

definition sample_context :: FAT32_Context where
  "sample_context = \<lparr>FatStartLBA = 1, DataRegionStartLBA = 10, RootCluster = 2, SectorsPerCluster = 1,
     BytesPerSector = 512, RootDirLBA = 10, ClusterSizeInBytes = 512\<rparr>"

definition sample_file :: Entry where
  "sample_file = no_entry\<lparr>Size := 100, FirstCluster := 2, Found := True\<rparr>"

lemma sample_disk_ok: "disk_ok sample_disk"
  by (simp add: disk_ok_def sample_disk_def)

lemma sample_geometry_ok: "geometry_ok sample_context"
  by (simp add: geometry_ok_def sample_context_def)

lemma sample_fat: "fat_next sample_disk sample_context c = 0x0FFFFFFF"
proof -
  have "unat c mod 128 < 128" by simp
  then have "take 4 (drop (4 * (unat c mod 128)) (replicate 512 (0xFF :: u8))) = replicate 4 0xFF"
    by (simp only: drop_replicate take_replicate) simp
  moreover have "(le_word (replicate 4 (0xFF :: u8)) :: u32) AND 0x0FFFFFFF = 0x0FFFFFFF" by code_simp
  ultimately show ?thesis by (simp only: fat_next_def sample_disk_def)
qed

lemma sample_chain: "cluster_chain (fat_next sample_disk sample_context) 2 [2]"
  by (simp add: sample_fat EOC_START_def)

section \<open>Reading a file\<close>

text \<open>The number of clusters a file of this size needs.\<close>

definition file_clusters :: "FAT32_Context \<Rightarrow> Entry \<Rightarrow> nat" where
  "file_clusters context e = (unat (Size e) + cluster_bytes context - 1) div cluster_bytes context"

lemma cluster_bytes_bound: "geometry_ok context \<Longrightarrow> cluster_bytes context \<le> 512 * 255"
proof -
  assume g: "geometry_ok context"
  have "unat (SectorsPerCluster context) < 2 ^ 8" using unsigned_less[of "SectorsPerCluster context"] by simp
  then show ?thesis unfolding cluster_bytes_eq[OF g] by simp
qed

lemma size_clusters:
  assumes "geometry_ok context"
  shows "unat (divide_round_up (ucast (Size e)) (ClusterSizeInBytes context)) = file_clusters context e"
proof -
  have s: "unat (Size e) < 2 ^ 32" using unsigned_less[of "Size e"] by simp
  have u: "unat (ucast (Size e) :: u64) = unat (Size e)" using s by (simp add: unsigned_ucast_eq take_bit_nat_eq_self)
  have "unat (ucast (Size e) :: u64) + cluster_bytes context \<le> 2 ^ 64"
    unfolding u using s cluster_bytes_bound[OF assms] by simp
  moreover have "ClusterSizeInBytes context \<noteq> 0" using cluster_bytes_pos[OF assms] by auto
  ultimately have "unat (divide_round_up (ucast (Size e)) (ClusterSizeInBytes context)) =
      (unat (ucast (Size e) :: u64) + cluster_bytes context - 1) div cluster_bytes context"
    by (intro unat_divide_round_up)
  then show ?thesis unfolding u file_clusters_def .
qed

lemma chain_buffer:
  assumes "geometry_ok context" "file_clusters context e * cluster_bytes context < str_max"
  shows "malloc_str (divide_round_up (ucast (Size e)) (ClusterSizeInBytes context) * ClusterSizeInBytes context + 1) =
    Some (replicate (file_clusters context e * cluster_bytes context + 1) 0)"
proof -
  let ?n = "file_clusters context e" and ?w = "divide_round_up (ucast (Size e)) (ClusterSizeInBytes context)"
  have w: "?w = of_nat ?n" unfolding size_clusters[OF assms(1), symmetric] by simp
  have cb: "ClusterSizeInBytes context = of_nat (cluster_bytes context)" by simp
  have "of_nat (?n * cluster_bytes context + 1) = of_nat ?n * of_nat (cluster_bytes context) + (1 :: u64)"
    unfolding of_nat_add of_nat_mult of_nat_1 ..
  then have e: "?w * ClusterSizeInBytes context + 1 = of_nat (?n * cluster_bytes context + 1)"
    unfolding w cb[symmetric] by simp
  have "?n * cluster_bytes context + 1 \<le> str_max" using assms(2) by simp
  from malloc_str_ok[OF this] show ?thesis unfolding e .
qed

lemma file_size_le: "geometry_ok context \<Longrightarrow> unat (Size e) \<le> file_clusters context e * cluster_bytes context"
proof -
  assume g: "geometry_ok context"
  let ?c = "cluster_bytes context"
  have "(unat (Size e) + ?c - 1) mod ?c < ?c" using cluster_bytes_pos[OF g] by simp
  moreover have "unat (Size e) + ?c - 1 = file_clusters context e * ?c + (unat (Size e) + ?c - 1) mod ?c"
    unfolding file_clusters_def by simp
  ultimately show ?thesis using cluster_bytes_pos[OF g] by linarith
qed


lemma sample_clusters: "file_clusters sample_context sample_file = 1"
  by (simp add: file_clusters_def sample_context_def sample_file_def no_entry_def)




end
