(* ===== verification/Keymap.thy ===== *)
theory Keymap
  imports Prelude
begin

text \<open>
  The key codes and the two keyboard layouts: \<^verbatim>\<open>maps/keymap.h\<close> and
  \<^verbatim>\<open>maps/keymap.cpp\<close>. A key code is a character or, from 256 on, a special key; the
  tables are indexed by the shift state and the scan code.
\<close>

datatype KeyboardLayout = LAYOUT_US | LAYOUT_DE

datatype KeyCode =
  KEY_UNKNOWN | KEY_ENTER | KEY_BACKSPACE | KEY_TAB | KEY_LSHIFT | KEY_RSHIFT | KEY_LCTRL |
  KEY_RCTRL | KEY_LALT | KEY_RALT | KEY_CAPSLOCK | KEY_ESCAPE | KEY_F1 | KEY_F2 | KEY_F3 |
  KEY_F4 | KEY_F5 | KEY_F6 | KEY_F7 | KEY_F8 | KEY_F9 | KEY_F10 | KEY_F11 | KEY_F12 |
  KEY_DE_AE | KEY_DE_OE | KEY_DE_UE | KEY_DE_SS | KEY_DE_AE_CAPS | KEY_DE_OE_CAPS |
  KEY_DE_UE_CAPS

fun key_code :: "KeyCode \<Rightarrow> u16" where
  "key_code KEY_UNKNOWN = 0"
| "key_code KEY_ENTER = 256"
| "key_code KEY_BACKSPACE = 257"
| "key_code KEY_TAB = 258"
| "key_code KEY_LSHIFT = 259"
| "key_code KEY_RSHIFT = 260"
| "key_code KEY_LCTRL = 261"
| "key_code KEY_RCTRL = 262"
| "key_code KEY_LALT = 263"
| "key_code KEY_RALT = 264"
| "key_code KEY_CAPSLOCK = 265"
| "key_code KEY_ESCAPE = 266"
| "key_code KEY_F1 = 267"
| "key_code KEY_F2 = 268"
| "key_code KEY_F3 = 269"
| "key_code KEY_F4 = 270"
| "key_code KEY_F5 = 271"
| "key_code KEY_F6 = 272"
| "key_code KEY_F7 = 273"
| "key_code KEY_F8 = 274"
| "key_code KEY_F9 = 275"
| "key_code KEY_F10 = 276"
| "key_code KEY_F11 = 277"
| "key_code KEY_F12 = 278"
| "key_code KEY_DE_AE = 500"
| "key_code KEY_DE_OE = 501"
| "key_code KEY_DE_UE = 502"
| "key_code KEY_DE_SS = 503"
| "key_code KEY_DE_AE_CAPS = 504"
| "key_code KEY_DE_OE_CAPS = 505"
| "key_code KEY_DE_UE_CAPS = 506"

definition keys :: "string \<Rightarrow> u16 list" where "keys s = map of_char s"

definition us_keymap :: "u16 list list" where
  "us_keymap = [
    [0, key_code KEY_ESCAPE] @ keys ''1234567890-='' @ [key_code KEY_BACKSPACE] @
     [key_code KEY_TAB] @ keys ''qwertyuiop[]'' @ [key_code KEY_ENTER] @
     [key_code KEY_LCTRL] @ keys ''asdfghjkl;'' @ [0x27, 0x60] @
     [key_code KEY_LSHIFT, 0x5C] @ keys ''zxcvbnm,./'' @ [key_code KEY_RSHIFT] @
     keys ''*'' @ [key_code KEY_LALT] @ keys '' '',
    [0, key_code KEY_ESCAPE] @ keys ''!@#$%^&*()_+'' @ [key_code KEY_BACKSPACE] @
     [key_code KEY_TAB] @ keys ''QWERTYUIOP{}'' @ [key_code KEY_ENTER] @
     [key_code KEY_LCTRL] @ keys ''ASDFGHJKL:'' @ [0x22] @ keys ''~'' @
     [key_code KEY_LSHIFT] @ keys ''|ZXCVBNM<>?'' @ [key_code KEY_RSHIFT] @
     keys ''*'' @ [key_code KEY_LALT] @ keys '' '']"

definition de_keymap :: "u16 list list" where
  "de_keymap = [
    [0, key_code KEY_ESCAPE] @ keys ''1234567890'' @ [key_code KEY_DE_SS, 0x27, key_code KEY_BACKSPACE] @
     [key_code KEY_TAB] @ keys ''qwertzuiop'' @ [key_code KEY_DE_UE] @ keys ''+'' @ [key_code KEY_ENTER] @
     [key_code KEY_LCTRL] @ keys ''asdfghjkl'' @ [key_code KEY_DE_OE, key_code KEY_DE_AE] @ keys ''^'' @
     [key_code KEY_LSHIFT] @ keys ''#yxcvbnm,.-'' @ [key_code KEY_RSHIFT] @
     keys ''*'' @ [key_code KEY_LALT] @ keys '' '',
    [0, key_code KEY_ESCAPE] @ keys ''!'' @ [0x22] @ keys ''3$%&/()=?'' @ [0x60, key_code KEY_BACKSPACE] @
     [key_code KEY_TAB] @ keys ''QWERTZUIOP'' @ [key_code KEY_DE_UE_CAPS] @ keys ''*'' @ [key_code KEY_ENTER] @
     [key_code KEY_LCTRL] @ keys ''ASDFGHJKL'' @ [key_code KEY_DE_OE_CAPS, key_code KEY_DE_AE_CAPS] @ keys ''2'' @
     [key_code KEY_LSHIFT, 0x27] @ keys ''YXCVBNM;:_'' @ [key_code KEY_RSHIFT] @
     keys ''*'' @ [key_code KEY_LALT] @ keys '' '']"

definition current_layout :: KeyboardLayout where "current_layout = LAYOUT_US"

definition layout_map :: "KeyboardLayout \<Rightarrow> u16 list list" where
  "layout_map l = (case l of LAYOUT_US \<Rightarrow> us_keymap | LAYOUT_DE \<Rightarrow> de_keymap)"

definition scancode_to_keycode :: "KeyboardLayout \<Rightarrow> bool \<Rightarrow> u8 \<Rightarrow> u16 option" where
  "scancode_to_keycode layout shift scancode =
     (if scancode \<ge> 0x3A then Some (key_code KEY_UNKNOWN)
      else do {
        row \<leftarrow> rd (layout_map layout) (if shift then 1 else 0);
        rd row (unat scancode) })"

end
