(* ===== verification/Screen.thy ===== *)
theory Screen
  imports Font StringLib
begin

text \<open>
  The text screen: \<^verbatim>\<open>kernel/rendering\<close> (\<open>print.cpp\<close>, \<open>clear.cpp\<close>, \<open>screenBuffer.cpp\<close>)
  with the colours of \<^verbatim>\<open>types/color.h\<close>. The globals of the three files are one
  record; the terminal and the shell extend it, so every operation is stated for
  any extension. C \<open>int\<close> is \<open>int\<close> and \<open>unsigned int\<close> is \<open>nat\<close> with the wrap-around of a
  decrement and an increment written out. The cells of all lines are one block,
  as \<open>init_empty_screen_buffer\<close> lays them out, and a line holds the index of its
  first cell: writing behind the end of a line reaches the next one, and only
  outside the block is a fault.
\<close>

section \<open>Colours\<close>

datatype Color =
  Black | DarkGray | Blue | Green | Cyan | Red | Magenta | Brown | White | LightBlue |
  LightGreen | LightCyan | LightRed | LightMagenta | Yellow | BrightWhite | Charcoal |
  Silver | Orange | DeepOrange | Pink | HotPink | Teal | Mint | Gold | Salmon | Indigo |
  Lime | Coral | Crimson | Lavender | Olive | Transparent

fun color_code :: "Color \<Rightarrow> u32" where
  "color_code Black = 0x00000000"
| "color_code DarkGray = 0x004A4A4A"
| "color_code Blue = 0x001F618D"
| "color_code Green = 0x0027AE60"
| "color_code Cyan = 0x002980B9"
| "color_code Red = 0x00C0392B"
| "color_code Magenta = 0x008E44AD"
| "color_code Brown = 0x007E5109"
| "color_code White = 0x00E5E7E9"
| "color_code LightBlue = 0x003498DB"
| "color_code LightGreen = 0x002ECC71"
| "color_code LightCyan = 0x00AED6F1"
| "color_code LightRed = 0x00E74C3C"
| "color_code LightMagenta = 0x00BB8FCE"
| "color_code Yellow = 0x00F4D03F"
| "color_code BrightWhite = 0x00FFFFFF"
| "color_code Charcoal = 0x002C3E50"
| "color_code Silver = 0x00BDC3C7"
| "color_code Orange = 0x00E67E22"
| "color_code DeepOrange = 0x00D35400"
| "color_code Pink = 0x00F48FB1"
| "color_code HotPink = 0x00E91E63"
| "color_code Teal = 0x00117A65"
| "color_code Mint = 0x00A3E4D7"
| "color_code Gold = 0x00F1C40F"
| "color_code Salmon = 0x00F1948A"
| "color_code Indigo = 0x004B0082"
| "color_code Lime = 0x0032CD32"
| "color_code Coral = 0x00FF7F50"
| "color_code Crimson = 0x00DC143C"
| "color_code Lavender = 0x00B19CD9"
| "color_code Olive = 0x00808000"
| "color_code Transparent = 0x00000000"

section \<open>The screen buffer\<close>

record Cell =
  color :: Color
  cell_text :: u8
  interactable :: bool

record Line =
  cells :: nat
  amountOfCells :: nat

record ScreenBuffer =
  lines :: "Line list"
  cellBlock :: "Cell list"
  amountOfLines :: nat
  visibleLines :: nat
  startRenderLine :: nat
  maxStoredLines :: nat

record screen =
  cursorAt_X :: int
  cursorAt_Y :: int
  cursorRendered_X :: int
  cursorRendered_Y :: int
  cursor_visible :: bool
  FONT_W :: int
  FONT_H :: int
  ADJUSTED_WIDTH :: int
  MAX_CHARS :: int
  MAX_LINES :: int
  useScreenBuffer :: bool
  isRedrawing :: bool
  screenBufferPtr :: "ScreenBuffer option"
  framebuffer :: "u32 list"

definition FONT_SIZE :: nat where "FONT_SIZE = 1"
definition CURSOR_HEIGHT :: int where "CURSOR_HEIGHT = 2"
definition SCROLL_HISTORY_LINES :: nat where "SCROLL_HISTORY_LINES = 100"

text \<open>Array accesses at an index computed in \<open>int\<close>, and \<open>unsigned int\<close> arithmetic.\<close>

definition rdi :: "'a list \<Rightarrow> int \<Rightarrow> 'a option" where
  "rdi xs i = (if 0 \<le> i then rd xs (nat i) else None)"

definition wri :: "'a list \<Rightarrow> int \<Rightarrow> 'a \<Rightarrow> 'a list option" where
  "wri xs i v = (if 0 \<le> i then wr xs (nat i) v else None)"

definition inc32 :: "nat \<Rightarrow> nat" where "inc32 n = (n + 1) mod 2 ^ 32"
definition dec32 :: "nat \<Rightarrow> nat" where "dec32 n = (n + 2 ^ 32 - 1) mod 2 ^ 32"

definition get_screen_buffer_line :: "ScreenBuffer \<Rightarrow> int \<Rightarrow> Line option" where
  "get_screen_buffer_line sb y = rdi (lines sb) y"

text \<open>The index of a cell in the block, and the cell of a line.\<close>

definition get_screen_buffer_cell :: "ScreenBuffer \<Rightarrow> Line \<Rightarrow> int \<Rightarrow> Cell option" where
  "get_screen_buffer_cell sb line x = rdi (cellBlock sb) (int (cells line) + x)"

definition put_screen_buffer_cell :: "ScreenBuffer \<Rightarrow> Line \<Rightarrow> int \<Rightarrow> Cell \<Rightarrow> ScreenBuffer option" where
  "put_screen_buffer_cell sb line x c = do {
     cb \<leftarrow> wri (cellBlock sb) (int (cells line) + x) c;
     Some (sb\<lparr>cellBlock := cb\<rparr>) }"

definition put_screen_buffer_line :: "ScreenBuffer \<Rightarrow> int \<Rightarrow> Line \<Rightarrow> ScreenBuffer option" where
  "put_screen_buffer_line sb y line = do {
     ls \<leftarrow> wri (lines sb) y line;
     Some (sb\<lparr>lines := ls\<rparr>) }"

definition empty_cell :: Cell where
  "empty_cell = \<lparr>color = Black, cell_text = 0, interactable = False\<rparr>"

text \<open>\<open>alloc\<close> says whether \<open>malloc\<close> of that many bytes succeeds; the cells are cleared, so the contents
  of the fresh memory do not matter. The sizes of the three structures are 24, 12 and 8 bytes.\<close>

definition init_empty_screen_buffer :: "(int \<Rightarrow> bool) \<Rightarrow> 'a screen_scheme \<Rightarrow> bool \<times> 'a screen_scheme" where
  "init_empty_screen_buffer alloc st =
     (let allLines = MAX_LINES st + int SCROLL_HISTORY_LINES;
          st = st\<lparr>screenBufferPtr := None\<rparr>
      in if \<not> alloc (24 + 12 * allLines + 8 * allLines * MAX_CHARS st) then (False, st)
         else (True, st\<lparr>screenBufferPtr := Some \<lparr>
           lines = map (\<lambda>i. \<lparr>cells = i * nat (MAX_CHARS st), amountOfCells = 0\<rparr>) [0..<nat allLines],
           cellBlock = replicate (nat (allLines * MAX_CHARS st)) empty_cell,
           amountOfLines = nat (cursorAt_Y st), visibleLines = nat (MAX_LINES st),
           startRenderLine = 0, maxStoredLines = nat allLines\<rparr>\<rparr>))"

definition init_screen_buffer :: "(int \<Rightarrow> bool) \<Rightarrow> 'a screen_scheme \<Rightarrow> bool \<times> 'a screen_scheme" where
  "init_screen_buffer alloc st =
     (let (ok, st) = init_empty_screen_buffer alloc st
      in if \<not> ok then (False, st)
         else (True, st\<lparr>useScreenBuffer := True, cursorRendered_X := cursorAt_X st, cursorRendered_Y := cursorAt_Y st\<rparr>))"

section \<open>Drawing\<close>

text \<open>The pixel loops of \<open>draw_char\<close>, at the cell in column \<open>px\<close> of screen row \<open>renderY\<close>.\<close>

definition draw_glyph :: "u8 \<Rightarrow> int \<Rightarrow> int \<Rightarrow> Color \<Rightarrow> 'a screen_scheme \<Rightarrow> 'a screen_scheme option" where
  "draw_glyph c px renderY col st = do {
     let x = px * FONT_W st;
     let y = renderY * FONT_H st;
     fb \<leftarrow> for_range (\<lambda>row fb. do {
         glyph \<leftarrow> rd font8x16 (unat c);
         bits \<leftarrow> rd glyph (row div FONT_SIZE);
         for_range (\<lambda>cl fb. wri fb ((y + int row) * ADJUSTED_WIDTH st + (x + int cl))
             (if bits AND drop_bit (cl div FONT_SIZE) 0x80 \<noteq> 0 then color_code col else 0))
           0 (nat (FONT_W st)) fb })
       0 (nat (FONT_H st)) (framebuffer st);
     Some (st\<lparr>framebuffer := fb\<rparr>) }"

text \<open>The part of \<open>draw_char\<close> that stores the character, at the cursor.\<close>

definition store_char :: "u8 \<Rightarrow> Color \<Rightarrow> bool \<Rightarrow> 'a screen_scheme \<Rightarrow> 'a screen_scheme option" where
  "store_char c col act st = do {
     sb \<leftarrow> screenBufferPtr st;
     line \<leftarrow> get_screen_buffer_line sb (cursorAt_Y st);
     sb \<leftarrow> put_screen_buffer_cell sb line (cursorAt_X st) \<lparr>color = col, cell_text = c, interactable = act\<rparr>;
     sb \<leftarrow> (if int (amountOfCells line) < cursorAt_X st + 1
       then put_screen_buffer_line sb (cursorAt_Y st) (line\<lparr>amountOfCells := nat (cursorAt_X st + 1)\<rparr>)
       else Some sb);
     Some (st\<lparr>screenBufferPtr := Some sb\<rparr>) }"

definition draw_char :: "u8 \<Rightarrow> int \<Rightarrow> int \<Rightarrow> Color \<Rightarrow> bool \<Rightarrow> 'a screen_scheme \<Rightarrow> 'a screen_scheme option" where
  "draw_char c printAt_X printAt_Y col act st = do {
     st \<leftarrow> (if useScreenBuffer st \<and> \<not> isRedrawing st then store_char c col act st else Some st);
     start \<leftarrow> (if useScreenBuffer st then map_option startRenderLine (screenBufferPtr st) else Some 0);
     let renderY = printAt_Y - int start;
     if renderY < 0 \<or> MAX_LINES st \<le> renderY then Some st
     else if MAX_CHARS st \<le> printAt_X then Some st
     else draw_glyph c printAt_X renderY col st }"

definition redraw_line :: "int \<Rightarrow> 'a screen_scheme \<Rightarrow> 'a screen_scheme option" where
  "redraw_line line st = do {
     sb \<leftarrow> screenBufferPtr st;
     l \<leftarrow> get_screen_buffer_line sb line;
     for_range (\<lambda>i st. do {
         st \<leftarrow> (if i < amountOfCells l then do {
               sb \<leftarrow> screenBufferPtr st;
               l \<leftarrow> get_screen_buffer_line sb line;
               cell \<leftarrow> get_screen_buffer_cell sb l (int i);
               draw_char (cell_text cell) (cursorAt_X st) (cursorAt_Y st) (color cell) (interactable cell) st }
             else draw_char 0x20 (cursorAt_X st) (cursorAt_Y st) White False st);
         Some (st\<lparr>cursorAt_X := cursorAt_X st + 1\<rparr>) })
       0 (nat (MAX_CHARS st)) (st\<lparr>cursorAt_X := 0, cursorAt_Y := line\<rparr>) }"

definition redraw :: "'a screen_scheme \<Rightarrow> 'a screen_scheme option" where
  "redraw st = do {
     let st = st\<lparr>isRedrawing := True\<rparr>;
     let savedX = cursorAt_X st;
     let savedY = cursorAt_Y st;
     sb \<leftarrow> screenBufferPtr st;
     st \<leftarrow> for_range (\<lambda>i. redraw_line (int (startRenderLine sb) + int i)) 0 (visibleLines sb) st;
     let st = st\<lparr>cursorAt_X := savedX, cursorAt_Y := savedY, isRedrawing := False\<rparr>;
     Some (st\<lparr>cursorRendered_X := cursorAt_X st, cursorRendered_Y := cursorAt_Y st\<rparr>) }"

definition render_cursor :: "int \<Rightarrow> int \<Rightarrow> Color \<Rightarrow> 'a screen_scheme \<Rightarrow> 'a screen_scheme option" where
  "render_cursor printAt_X printAt_Y col st =
     (if MAX_CHARS st \<le> printAt_X then Some st
      else do {
        sb \<leftarrow> screenBufferPtr st;
        let x = printAt_X * FONT_W st;
        let y = (printAt_Y - int (startRenderLine sb)) * FONT_H st;
        let r0 = FONT_H st - CURSOR_HEIGHT * int FONT_SIZE;
        fb \<leftarrow> for_range (\<lambda>k fb. for_range (\<lambda>cl fb.
               wri fb ((y + (r0 + int k)) * ADJUSTED_WIDTH st + (x + int cl)) (color_code col))
             0 (nat (FONT_W st)) fb)
           0 (nat (FONT_H st - r0)) (framebuffer st);
        Some (st\<lparr>framebuffer := fb\<rparr>) })"

definition update_cursor_render :: "'a screen_scheme \<Rightarrow> 'a screen_scheme option" where
  "update_cursor_render st =
     (if \<not> useScreenBuffer st then Some st
      else if isRedrawing st then Some st
      else do {
        sb \<leftarrow> screenBufferPtr st;
        line \<leftarrow> get_screen_buffer_line sb (cursorRendered_Y st);
        cell \<leftarrow> get_screen_buffer_cell sb line (cursorRendered_X st);
        let restoreChar = (if cursorRendered_X st < int (amountOfCells line) then cell_text cell else 0x20);
        let st = st\<lparr>isRedrawing := True\<rparr>;
        st \<leftarrow> draw_char restoreChar (cursorRendered_X st) (cursorRendered_Y st) (color cell) (interactable cell) st;
        st \<leftarrow> (if cursor_visible st then render_cursor (cursorAt_X st) (cursorAt_Y st) White st else Some st);
        let st = st\<lparr>isRedrawing := False\<rparr>;
        Some (st\<lparr>cursorRendered_X := cursorAt_X st, cursorRendered_Y := cursorAt_Y st\<rparr>) })"

section \<open>Lines\<close>

text \<open>One iteration of the loop in \<open>handle_scroll\<close> that drops the oldest line: the cells of line
  \<open>l + 1\<close> become those of line \<open>l\<close>.\<close>

definition shift_line :: "nat \<Rightarrow> ScreenBuffer \<Rightarrow> ScreenBuffer option" where
  "shift_line l sb = do {
     curr \<leftarrow> get_screen_buffer_line sb (int l);
     next_line \<leftarrow> get_screen_buffer_line sb (int (l + 1));
     let cellAmount = amountOfCells next_line;
     sb \<leftarrow> put_screen_buffer_line sb (int l) (curr\<lparr>amountOfCells := cellAmount\<rparr>);
     for_range (\<lambda>cell sb. do {
         c \<leftarrow> get_screen_buffer_cell sb next_line (int cell);
         put_screen_buffer_cell sb curr (int cell) c }) 0 cellAmount sb }"

definition drop_oldest_line :: "'a screen_scheme \<Rightarrow> 'a screen_scheme option" where
  "drop_oldest_line st = do {
     sb \<leftarrow> screenBufferPtr st;
     sb \<leftarrow> for_range shift_line 0 (maxStoredLines sb - 1) sb;
     let sb = sb\<lparr>amountOfLines := dec32 (amountOfLines sb)\<rparr>;
     let sb = (if 0 < startRenderLine sb then sb\<lparr>startRenderLine := startRenderLine sb - 1\<rparr> else sb);
     let st = st\<lparr>cursorAt_Y := cursorAt_Y st - 1\<rparr>;
     line \<leftarrow> get_screen_buffer_line sb (cursorAt_Y st);
     sb \<leftarrow> put_screen_buffer_line sb (cursorAt_Y st) (line\<lparr>amountOfCells := 0\<rparr>);
     Some (st\<lparr>screenBufferPtr := Some sb\<rparr>) }"

definition handle_scroll :: "'a screen_scheme \<Rightarrow> 'a screen_scheme option" where
  "handle_scroll st =
     (if \<not> useScreenBuffer st \<or> isRedrawing st then Some st
      else do {
        sb \<leftarrow> screenBufferPtr st;
        st \<leftarrow> (if int (maxStoredLines sb) \<le> cursorAt_Y st then drop_oldest_line st else Some st);
        sb \<leftarrow> screenBufferPtr st;
        st \<leftarrow> (if int (startRenderLine sb + visibleLines sb) \<le> cursorAt_Y st
             then redraw (st\<lparr>screenBufferPtr := Some (sb\<lparr>startRenderLine := inc32 (startRenderLine sb)\<rparr>)\<rparr>)
             else Some st);
        update_cursor_render st })"

definition newline :: "'a screen_scheme \<Rightarrow> 'a screen_scheme option" where
  "newline st = do {
     st \<leftarrow> (if useScreenBuffer st \<and> \<not> isRedrawing st
          then do { sb \<leftarrow> screenBufferPtr st;
                    Some (st\<lparr>screenBufferPtr := Some (sb\<lparr>amountOfLines := inc32 (amountOfLines sb)\<rparr>)\<rparr>) }
          else Some st);
     handle_scroll (st\<lparr>cursorAt_X := 0, cursorAt_Y := cursorAt_Y st + 1\<rparr>) }"

definition prevline :: "'a screen_scheme \<Rightarrow> 'a screen_scheme option" where
  "prevline st = do {
     st \<leftarrow> (if useScreenBuffer st \<and> \<not> isRedrawing st
          then do { sb \<leftarrow> screenBufferPtr st;
                    Some (st\<lparr>screenBufferPtr := Some (sb\<lparr>amountOfLines := dec32 (amountOfLines sb)\<rparr>)\<rparr>) }
          else Some st);
     handle_scroll (st\<lparr>cursorAt_Y := cursorAt_Y st - 1\<rparr>) }"

definition handle_automatic_newline :: "'a screen_scheme \<Rightarrow> 'a screen_scheme option" where
  "handle_automatic_newline st = (if MAX_CHARS st \<le> cursorAt_X st then newline st else Some st)"

section \<open>Printing\<close>

definition print_char :: "u8 \<Rightarrow> Color \<Rightarrow> bool \<Rightarrow> 'a screen_scheme \<Rightarrow> 'a screen_scheme option" where
  "print_char c col act st = do {
     st \<leftarrow> draw_char c (cursorAt_X st) (cursorAt_Y st) col act st;
     st \<leftarrow> update_cursor_render (st\<lparr>cursorAt_X := cursorAt_X st + 1\<rparr>);
     handle_automatic_newline st }"

text \<open>The text is a zero-terminated character buffer.\<close>

definition print_chars :: "u8 list \<Rightarrow> Color \<Rightarrow> bool \<Rightarrow> 'a screen_scheme \<Rightarrow> 'a screen_scheme option" where
  "print_chars txt col act st = do {
     s_len \<leftarrow> str_length txt;
     for_range (\<lambda>i st. do {
         c \<leftarrow> rd txt i;
         if c = 0x0D then Some st
         else if c = 0x0A then newline st
         else do {
           st \<leftarrow> draw_char c (cursorAt_X st) (cursorAt_Y st) col act st;
           st \<leftarrow> update_cursor_render (st\<lparr>cursorAt_X := cursorAt_X st + 1\<rparr>);
           handle_automatic_newline st } }) 0 s_len st }"

definition print_inline :: "u8 list \<Rightarrow> Color \<Rightarrow> 'a screen_scheme \<Rightarrow> 'a screen_scheme option" where
  "print_inline txt col st = print_chars txt col False st"

definition print_text :: "u8 list \<Rightarrow> Color \<Rightarrow> 'a screen_scheme \<Rightarrow> 'a screen_scheme option" where
  "print_text txt col st = do { st \<leftarrow> print_chars txt col False st; newline st }"

section \<open>Set up and clearing\<close>

text \<open>\<open>pitch\<close> and \<open>height\<close> come from the boot loader's framebuffer description.\<close>

definition init_print :: "nat \<Rightarrow> nat \<Rightarrow> 'a screen_scheme \<Rightarrow> 'a screen_scheme" where
  "init_print pitch height st =
     (let w = int (pitch div 4)
      in st\<lparr>useScreenBuffer := False, FONT_W := 8 * int FONT_SIZE, FONT_H := 16 * int FONT_SIZE,
          ADJUSTED_WIDTH := w, MAX_CHARS := w div (8 * int FONT_SIZE),
          MAX_LINES := int (height div nat (16 * int FONT_SIZE))\<rparr>)"

definition clearScreen :: "(int \<Rightarrow> bool) \<Rightarrow> nat \<Rightarrow> 'a screen_scheme \<Rightarrow> 'a screen_scheme option" where
  "clearScreen alloc height st = do {
     let st = (if useScreenBuffer st then snd (init_empty_screen_buffer alloc st) else st);
     fb \<leftarrow> for_range (\<lambda>y fb. for_range (\<lambda>x fb. wri fb (int y * ADJUSTED_WIDTH st + int x) 0)
          0 (nat (ADJUSTED_WIDTH st)) fb) 0 height (framebuffer st);
     Some (st\<lparr>framebuffer := fb\<rparr>) }"

definition clear_char :: "int \<Rightarrow> int \<Rightarrow> 'a screen_scheme \<Rightarrow> 'a screen_scheme option" where
  "clear_char printAt_X printAt_Y st = do {
     start \<leftarrow> (if useScreenBuffer st then map_option startRenderLine (screenBufferPtr st) else Some 0);
     let x = printAt_X * FONT_W st;
     let y = (printAt_Y - int start) * FONT_H st;
     fb \<leftarrow> for_range (\<lambda>row fb. for_range (\<lambda>cl fb. wri fb ((y + int row) * ADJUSTED_WIDTH st + (x + int cl)) 0)
          0 (nat (FONT_W st)) fb) 0 (nat (FONT_H st)) (framebuffer st);
     Some (st\<lparr>framebuffer := fb\<rparr>) }"

end
