(* ===== verification/InfoText.thy ===== *)
theory InfoText
  imports Screen
begin

text \<open>
  Messages on the screen: \<^verbatim>\<open>helper/info_text/info_text.cpp\<close> and
  \<^verbatim>\<open>helper/print_helper/print_helper.cpp\<close>. A string literal is its characters with
  the terminating zero, as the compiler stores it.
\<close>

abbreviation lit :: "string \<Rightarrow> buffer" where "lit s \<equiv> ascii s @ [0]"

datatype InfoTextType = Info | Warning | Error | Success | Loading | KernelPanic | PanicInfo | Debug

fun text_tag :: "InfoTextType \<Rightarrow> Color \<times> buffer" where
  "text_tag Info = (LightCyan, lit ''[INFO]: '')"
| "text_tag Warning = (Yellow, lit ''[WARNING]: '')"
| "text_tag Error = (Red, lit ''[ERROR]: '')"
| "text_tag Success = (Green, lit ''[SUCCESS]: '')"
| "text_tag Loading = (LightBlue, lit ''[LOADING]: '')"
| "text_tag KernelPanic = (Red, lit ''[KERNEL PANIC]: '')"
| "text_tag PanicInfo = (LightRed, lit ''[PANIC INFO]: '')"
| "text_tag Debug = (HotPink, lit ''[DEBUG]: '')"

definition printInfoLine :: "InfoTextType \<Rightarrow> buffer \<Rightarrow> 'a screen_scheme \<Rightarrow> 'a screen_scheme option" where
  "printInfoLine textType infoText st = do {
     let (textTagColor, textTagText) = text_tag textType;
     st \<leftarrow> print_inline textTagText textTagColor st;
     st \<leftarrow> print_inline infoText White st;
     newline st }"

text \<open>A message composed by the \<open>String\<close> constructor.\<close>

definition print_info_string :: "InfoTextType \<Rightarrow> string_arg list \<Rightarrow> 'a screen_scheme \<Rightarrow> 'a screen_scheme option" where
  "print_info_string textType parts st = do { s \<leftarrow> String_construct parts; printInfoLine textType s st }"

section \<open>Separators, the header and the boot messages\<close>

definition print_separator :: "'a screen_scheme \<Rightarrow> 'a screen_scheme option" where
  "print_separator st = do {
     s \<leftarrow> str_repeat (lit ''-'') (word_of_int (MAX_CHARS st div 2));
     st \<leftarrow> print_inline s DarkGray st;
     newline st }"

definition OS_NAME :: buffer where "OS_NAME = lit ''ESZ-OS''"
definition OS_AUTHOR :: buffer where "OS_AUTHOR = lit ''Jonas Paprotka''"
definition ARCH_NAME :: buffer where "ARCH_NAME = lit ''x86_64''"
definition OS_VERSION_STRING :: buffer where "OS_VERSION_STRING = lit ''v0.4.5''"

definition printSysinfo :: "'a screen_scheme \<Rightarrow> 'a screen_scheme option" where
  "printSysinfo st = print_info_string Info [Chars OS_NAME, Chars (lit '' - ''), Chars ARCH_NAME, Chars (lit '' - (''),
     Chars OS_VERSION_STRING, Chars (lit '') by ''), Chars OS_AUTHOR] st"

definition printTerminalHeader :: "'a screen_scheme \<Rightarrow> 'a screen_scheme option" where
  "printTerminalHeader st = do {
     st \<leftarrow> print_separator st;
     st \<leftarrow> print_text (lit ''   #####  #####  #####'') White st;
     st \<leftarrow> print_text (lit ''   ##     ##        ##'') White st;
     st \<leftarrow> print_text (lit ''   #####  #####   ##  '') White st;
     st \<leftarrow> print_text (lit ''   ##        ##  ##   '') White st;
     st \<leftarrow> print_text (lit ''   #####  #####  #####'') White st;
     st \<leftarrow> newline st;
     st \<leftarrow> printSysinfo st;
     print_separator st }"

definition printLoadingStart :: "buffer \<Rightarrow> 'a screen_scheme \<Rightarrow> 'a screen_scheme option" where
  "printLoadingStart txt st = do {
     st \<leftarrow> print_inline (lit ''[LOADING]: '') LightBlue st;
     st \<leftarrow> print_inline txt White st;
     print_inline (lit ''...'') White st }"

definition printLoadingStatus :: "bool \<Rightarrow> 'a screen_scheme \<Rightarrow> 'a screen_scheme option" where
  "printLoadingStatus success st = do {
     st \<leftarrow> (if success then print_inline (lit '' [OK]'') Green st
       else print_inline (lit '' [NOK]'') Red st);
     newline st }"

section \<open>Percentage bars\<close>

definition getPercentBar :: "u64 \<Rightarrow> u64 \<Rightarrow> u64 \<Rightarrow> bool \<Rightarrow> buffer option" where
  "getPercentBar count outOf elements showPercentage =
     (if outOf = 0 then malloc_empty_str
      else do {
        let sz = elements + 9;
        outText \<leftarrow> malloc_str sz;
        outText \<leftarrow> for_range (\<lambda>i outText. wr outText i 0) 0 (unat sz) outText;
        outText \<leftarrow> wr outText 0 (ch (CHR ''[''));
        outText \<leftarrow> wr outText (unat (elements + 1)) (ch (CHR '']''));
        outText \<leftarrow> (if showPercentage then wr outText (unat (elements + 8)) 0 else wr outText (unat (elements + 2)) 0);
        let percentage = count * 100 div outOf;
        let elementCount = percentage * elements div 100;
        outText \<leftarrow> for_range (\<lambda>i outText. wr outText i (ch (CHR ''#''))) 1 (unat (elementCount + 1)) outText;
        outText \<leftarrow> (if elements > elementCount
          then for_range (\<lambda>i outText. wr outText i (ch (CHR ''-''))) (unat (elementCount + 1)) (unat (elements + 1)) outText
          else Some outText);
        if showPercentage then do {
          s \<leftarrow> String_construct [Chars (lit '' ''), Unsigned percentage, Chars (lit ''%'')];
          str_add outText s }
        else Some outText })"

definition printPercentBar :: "u64 \<Rightarrow> u64 \<Rightarrow> u64 \<Rightarrow> bool \<Rightarrow> 'a screen_scheme \<Rightarrow> 'a screen_scheme option" where
  "printPercentBar count outOf elements showPercentage st = do {
     percentBarText \<leftarrow> getPercentBar count outOf elements showPercentage;
     print_text percentBarText White st }"

end
