(* ===== verification/ScreenDraw.thy ===== *)
theory ScreenDraw
  imports Screen StringSpec
begin

text \<open>
  Drawing and redrawing of \<open>Screen\<close>: within the geometry \<open>init_print\<close> computes no access leaves
  the framebuffer, the font or the cell block, and redrawing changes nothing but pixels.
\<close>

section \<open>Array accesses by int\<close>

lemma rdi_nat [simp]: "rdi xs (int n) = rd xs n"
  by (simp add: rdi_def)

lemma wri_nat [simp]: "wri xs (int n) v = wr xs n v"
  by (simp add: wri_def)

lemma wri_in: "0 \<le> i \<Longrightarrow> i < int (length xs) \<Longrightarrow> wri xs i v = Some (xs[nat i := v])"
  by (simp add: wri_def wr_def nat_less_iff)

lemma rdi_in: "0 \<le> i \<Longrightarrow> i < int (length xs) \<Longrightarrow> rdi xs i = Some (xs ! nat i)"
  by (simp add: rdi_def rd_def nat_less_iff)

lemma write_row:
  assumes "\<And>j. j < n \<Longrightarrow> 0 \<le> f j \<and> f j < int (length fb)"
  shows "\<exists>fb'. for_loop (\<lambda>j fb. wri fb (f j) (g j)) 0 n fb = Some fb' \<and> length fb' = length fb"
  using for_loop_rule[where I = "\<lambda>_ fb'. length fb' = length fb" and body = "\<lambda>j fb. wri fb (f j) (g j)"
      and lo = 0 and n = n and s = fb] assms by (auto simp: wri_in)

section \<open>Geometry\<close>

definition geometry :: "'a screen_scheme \<Rightarrow> bool" where
  "geometry st \<longleftrightarrow> FONT_W st = 8 \<and> FONT_H st = 16 \<and> 0 < MAX_CHARS st \<and> MAX_CHARS st < 2 ^ 31 \<and> 0 < MAX_LINES st \<and>
     MAX_CHARS st * 8 \<le> ADJUSTED_WIDTH st \<and>
     MAX_LINES st * 16 * ADJUSTED_WIDTH st \<le> int (length (framebuffer st))"

text \<open>The pixels of the cell in column \<open>px\<close> of screen row \<open>ry\<close> lie in the framebuffer.\<close>

lemma pixel_bounds:
  assumes g: "geometry st" and x: "0 \<le> px" "px < MAX_CHARS st" and y: "0 \<le> ry" "ry < MAX_LINES st"
    and r: "0 \<le> row" "row < 16" and c: "0 \<le> cl" "cl < 8"
  shows "0 \<le> (ry * FONT_H st + row) * ADJUSTED_WIDTH st + (px * FONT_W st + cl) \<and>
    (ry * FONT_H st + row) * ADJUSTED_WIDTH st + (px * FONT_W st + cl) < int (length (framebuffer st))"
proof -
  let ?W = "ADJUSTED_WIDTH st"
  have w: "0 \<le> px * 8 + cl" "px * 8 + cl < ?W" using x c g by (auto simp: geometry_def)
  have h: "0 \<le> ry * 16 + row" "ry * 16 + row + 1 \<le> MAX_LINES st * 16" using y r by auto
  have W: "0 \<le> ?W" using w by simp
  have "(ry * 16 + row) * ?W + ?W \<le> MAX_LINES st * 16 * ?W"
    using mult_right_mono[OF h(2) W] by (simp add: distrib_right)
  moreover have "0 \<le> (ry * 16 + row) * ?W" using h(1) W by simp
  ultimately show ?thesis using w g by (auto simp: geometry_def)
qed

lemma draw_glyph_total:
  assumes g: "geometry st" and x: "0 \<le> px" "px < MAX_CHARS st" and y: "0 \<le> ry" "ry < MAX_LINES st"
    and c: "c < 128"
  shows "\<exists>fb. draw_glyph c px ry col st = Some (st\<lparr>framebuffer := fb\<rparr>) \<and> length fb = length (framebuffer st)"
proof -
  have c': "unat c < 128" using c by (simp add: word_less_nat_alt)
  have w: "nat (FONT_W st) = 8" "nat (FONT_H st) = 16" using g by (simp_all add: geometry_def)
  have "\<exists>fb. for_loop (\<lambda>row fb. do {
         glyph \<leftarrow> rd font8x16 (unat c);
         bits \<leftarrow> rd glyph (row div FONT_SIZE);
         for_range (\<lambda>cl fb. wri fb ((ry * FONT_H st + int row) * ADJUSTED_WIDTH st + (px * FONT_W st + int cl))
             (if bits AND drop_bit (cl div FONT_SIZE) 0x80 \<noteq> 0 then color_code col else 0))
           0 (nat (FONT_W st)) fb }) 0 16 (framebuffer st) = Some fb \<and> length fb = length (framebuffer st)"
  proof (rule for_loop_rule[where I = "\<lambda>_ fb. length fb = length (framebuffer st)"])
    fix row :: nat and fb :: "u32 list" assume r: "row < 0 + 16" and l: "length fb = length (framebuffer st)"
    show "\<exists>s'. do {
         glyph \<leftarrow> rd font8x16 (unat c);
         bits \<leftarrow> rd glyph (row div FONT_SIZE);
         for_range (\<lambda>cl fb. wri fb ((ry * FONT_H st + int row) * ADJUSTED_WIDTH st + (px * FONT_W st + int cl))
             (if bits AND drop_bit (cl div FONT_SIZE) 0x80 \<noteq> 0 then color_code col else 0))
           0 (nat (FONT_W st)) fb } = Some s' \<and> length s' = length (framebuffer st)"
      using c' r l pixel_bounds[OF g x y, of "int row"] write_row[of 8
        "\<lambda>cl. (ry * FONT_H st + int row) * ADJUSTED_WIDTH st + (px * FONT_W st + int cl)" fb
        "\<lambda>cl. if font8x16 ! unat c ! row AND drop_bit cl 0x80 \<noteq> 0 then color_code col else 0"]
      by (simp add: w FONT_SIZE_def)
  qed simp
  then show ?thesis by (auto simp: draw_glyph_def Let_def w)
qed

text \<open>While redrawing, drawing only touches the framebuffer.\<close>

lemma draw_char_redrawing:
  assumes "geometry st" and "isRedrawing st" and "useScreenBuffer st \<longrightarrow> screenBufferPtr st \<noteq> None"
    and "0 \<le> px" and "c < 128"
  shows "\<exists>fb. draw_char c px py col act st = Some (st\<lparr>framebuffer := fb\<rparr>) \<and> length fb = length (framebuffer st)"
proof -
  obtain start where s: "(if useScreenBuffer st then map_option startRenderLine (screenBufferPtr st) else Some 0) = Some start"
    using assms(3) by (cases "useScreenBuffer st") auto
  have same: "\<exists>fb. Some st = Some (st\<lparr>framebuffer := fb\<rparr>) \<and> length fb = length (framebuffer st)"
    by (intro exI[of _ "framebuffer st"]) simp
  show ?thesis
    using same draw_glyph_total[OF assms(1,4) _ _ _ assms(5), of "py - int start" col] s assms(2)
    by (auto simp: draw_char_def Let_def not_le)
qed

text \<open>The contents of the buffer: the cells of line \<open>i\<close>.\<close>

definition buffer_wf :: "int \<Rightarrow> ScreenBuffer \<Rightarrow> bool" where
  "buffer_wf w sb \<longleftrightarrow> length (lines sb) = maxStoredLines sb \<and>
     length (cellBlock sb) = maxStoredLines sb * nat w \<and> maxStoredLines sb < 2 ^ 31 \<and>
     (\<forall>i < maxStoredLines sb. cells (lines sb ! i) = i * nat w \<and> amountOfCells (lines sb ! i) \<le> nat w) \<and>
     (\<forall>c \<in> set (cellBlock sb). cell_text c < 128)"

definition row :: "ScreenBuffer \<Rightarrow> nat \<Rightarrow> Cell list" where
  "row sb i = map (\<lambda>x. cellBlock sb ! (cells (lines sb ! i) + x)) [0..<amountOfCells (lines sb ! i)]"

lemma length_row [simp]: "length (row sb i) = amountOfCells (lines sb ! i)"
  by (simp add: row_def)

lemma nth_row: "x < amountOfCells (lines sb ! i) \<Longrightarrow> row sb i ! x = cellBlock sb ! (cells (lines sb ! i) + x)"
  by (simp add: row_def)

lemma cell_index: "i < (n::nat) \<Longrightarrow> x < w \<Longrightarrow> i * w + x < n * w"
proof -
  assume "i < n" "x < w"
  then have "i * w + x < (i + 1) * w" "(i + 1) * w \<le> n * w" by (simp, intro mult_le_mono1) simp
  then show ?thesis by linarith
qed

lemma cell_index_inject: "x < w \<Longrightarrow> y < w \<Longrightarrow> i * w + x = j * w + y \<longleftrightarrow> i = j \<and> x = (y :: nat)"
  by (metis add.commute div_mult_self3 div_less mod_mult_self3 mod_less add_0 less_nat_zero_code not_less0 add.right_neutral)

lemma line_wf:
  assumes "buffer_wf w sb" and "i < maxStoredLines sb"
  shows "get_screen_buffer_line sb (int i) = Some (lines sb ! i)" "cells (lines sb ! i) = i * nat w"
    "amountOfCells (lines sb ! i) \<le> nat w" "i < length (lines sb)"
  using assms by (simp_all add: get_screen_buffer_line_def buffer_wf_def)

lemma cell_wf:
  assumes "buffer_wf w sb" and "i < maxStoredLines sb" and "x < nat w"
  shows "get_screen_buffer_cell sb (lines sb ! i) (int x) = Some (cellBlock sb ! (i * nat w + x))"
    "cell_text (cellBlock sb ! (i * nat w + x)) < 128" "i * nat w + x < length (cellBlock sb)"
proof -
  show b: "i * nat w + x < length (cellBlock sb)"
    using assms cell_index[OF assms(2,3)] by (simp add: buffer_wf_def)
  have "int (i * nat w) + int x = int (i * nat w + x)" by (simp only: of_nat_add)
  with b show "get_screen_buffer_cell sb (lines sb ! i) (int x) = Some (cellBlock sb ! (i * nat w + x))"
    by (simp only: get_screen_buffer_cell_def line_wf[OF assms(1,2)] rdi_nat rd_Some)
  show "cell_text (cellBlock sb ! (i * nat w + x)) < 128" using b assms(1) by (simp add: buffer_wf_def)
qed

section \<open>Redrawing\<close>

lemma redraw_line_total:
  assumes g: "geometry st" and r: "isRedrawing st" and sb: "screenBufferPtr st = Some sb" "buffer_wf (MAX_CHARS st) sb"
    and l: "l < maxStoredLines sb"
  shows "\<exists>fb. redraw_line (int l) st = Some (st\<lparr>framebuffer := fb, cursorAt_X := MAX_CHARS st, cursorAt_Y := int l\<rparr>) \<and>
    length fb = length (framebuffer st)"
proof -
  note ln = line_wf[OF sb(2) l]
  let ?body = "\<lambda>i st'. do {
         st' \<leftarrow> (if i < amountOfCells (lines sb ! l) then do {
               sb \<leftarrow> screenBufferPtr st';
               l \<leftarrow> get_screen_buffer_line sb (int l);
               cell \<leftarrow> get_screen_buffer_cell sb l (int i);
               draw_char (cell_text cell) (cursorAt_X st') (cursorAt_Y st') (color cell) (interactable cell) st' }
             else draw_char 0x20 (cursorAt_X st') (cursorAt_Y st') White False st');
         Some (st'\<lparr>cursorAt_X := cursorAt_X st' + 1\<rparr>) }"
  let ?I = "\<lambda>i st'. \<exists>fb. st' = st\<lparr>framebuffer := fb, cursorAt_X := int i, cursorAt_Y := int l\<rparr> \<and>
    length fb = length (framebuffer st)"
  have "\<exists>s. for_loop ?body 0 (nat (MAX_CHARS st)) (st\<lparr>cursorAt_X := 0, cursorAt_Y := int l\<rparr>) = Some s \<and>
      ?I (0 + nat (MAX_CHARS st)) s"
  proof (rule for_loop_rule[where I = ?I])
    show "?I 0 (st\<lparr>cursorAt_X := 0, cursorAt_Y := int l\<rparr>)" by (intro exI[of _ "framebuffer st"]) simp
  next
    fix i st' assume i: "i < 0 + nat (MAX_CHARS st)" and "?I i st'"
    then obtain fb where st': "st' = st\<lparr>framebuffer := fb, cursorAt_X := int i, cursorAt_Y := int l\<rparr>"
      "length fb = length (framebuffer st)" by blast
    have g': "geometry st'" and r': "isRedrawing st'" and s': "screenBufferPtr st' = Some sb"
      using g r sb(1) st'(2) by (simp_all add: st'(1) geometry_def)
    have x: "0 \<le> cursorAt_X st'" by (simp add: st'(1))
    have i': "i < nat (MAX_CHARS st)" using i by simp
    note cw = cell_wf[OF sb(2) l i']
    have d: "\<exists>fb. draw_char c (cursorAt_X st') (cursorAt_Y st') col act st' = Some (st'\<lparr>framebuffer := fb\<rparr>) \<and>
        length fb = length (framebuffer st')" if "c < 128" for c col act
      by (rule draw_char_redrawing[OF g' r' _ x that]) (simp add: s')
    show "\<exists>s'. ?body i st' = Some s' \<and> ?I (Suc i) s'"
    proof (cases "i < amountOfCells (lines sb ! l)")
      case True
      from d[OF cw(2)] obtain fb' where
        "draw_char (cell_text (cellBlock sb ! (l * nat (MAX_CHARS st) + i))) (cursorAt_X st') (cursorAt_Y st')
           (color (cellBlock sb ! (l * nat (MAX_CHARS st) + i)))
           (interactable (cellBlock sb ! (l * nat (MAX_CHARS st) + i))) st' = Some (st'\<lparr>framebuffer := fb'\<rparr>)"
        "length fb' = length (framebuffer st')" by blast
      with True show ?thesis
        using s' ln(1) cw(1) st'(2) by (simp add: st'(1)) (intro exI[of _ fb'], simp)
    next
      case False
      from d[of "0x20"] obtain fb' where
        "draw_char 0x20 (cursorAt_X st') (cursorAt_Y st') White False st' = Some (st'\<lparr>framebuffer := fb'\<rparr>)"
        "length fb' = length (framebuffer st')" by auto
      with False show ?thesis
        using st'(2) by (simp add: st'(1)) (intro exI[of _ fb'], simp)
    qed
  qed
  moreover have "0 \<le> MAX_CHARS st" using g by (simp add: geometry_def)
  ultimately show ?thesis by (auto simp: redraw_line_def sb(1) ln(1))
qed

lemma stop_redrawing: "\<not> isRedrawing st \<Longrightarrow> st\<lparr>framebuffer := fb, isRedrawing := False\<rparr> = st\<lparr>framebuffer := fb\<rparr>"
  by (cases st) simp

lemma redraw_total:
  assumes g: "geometry st" and r: "\<not> isRedrawing st" and sb: "screenBufferPtr st = Some sb" "buffer_wf (MAX_CHARS st) sb"
    and v: "startRenderLine sb + visibleLines sb \<le> maxStoredLines sb"
  shows "\<exists>fb. redraw st = Some (st\<lparr>framebuffer := fb, cursorRendered_X := cursorAt_X st, cursorRendered_Y := cursorAt_Y st\<rparr>) \<and>
    length fb = length (framebuffer st)"
proof -
  let ?I = "\<lambda>i (st'). \<exists>fb x y. st' = st\<lparr>isRedrawing := True, framebuffer := fb, cursorAt_X := x, cursorAt_Y := y\<rparr> \<and>
    length fb = length (framebuffer st)"
  have "\<exists>s. for_loop (\<lambda>i. redraw_line (int (startRenderLine sb) + int i)) 0 (visibleLines sb) (st\<lparr>isRedrawing := True\<rparr>) = Some s \<and>
      ?I (0 + visibleLines sb) s"
  proof (rule for_loop_rule[where I = ?I])
    show "?I 0 (st\<lparr>isRedrawing := True\<rparr>)"
      by (intro exI[of _ "framebuffer st"] exI[of _ "cursorAt_X st"] exI[of _ "cursorAt_Y st"]) simp
  next
    fix i st' assume i: "i < 0 + visibleLines sb" and "?I i st'"
    then obtain fb x y where st': "st' = st\<lparr>isRedrawing := True, framebuffer := fb, cursorAt_X := x, cursorAt_Y := y\<rparr>"
      "length fb = length (framebuffer st)" by blast
    have g': "geometry st'" and r': "isRedrawing st'" and s': "screenBufferPtr st' = Some sb" "buffer_wf (MAX_CHARS st') sb"
      using g sb st'(2) by (simp_all add: st'(1) geometry_def)
    have l: "startRenderLine sb + i < maxStoredLines sb" using i v by simp
    from redraw_line_total[OF g' r' s' l] obtain fb' where
      "redraw_line (int (startRenderLine sb + i)) st' =
        Some (st'\<lparr>framebuffer := fb', cursorAt_X := MAX_CHARS st', cursorAt_Y := int (startRenderLine sb + i)\<rparr>)"
      "length fb' = length (framebuffer st')" by blast
    then show "\<exists>s'. redraw_line (int (startRenderLine sb) + int i) st' = Some s' \<and> ?I (Suc i) s'"
      using st'(2) by (auto simp: st'(1))
  qed
  then show ?thesis using stop_redrawing[OF r] by (auto simp: redraw_def Let_def sb(1))
qed

section \<open>The cursor\<close>

lemma render_cursor_total:
  assumes g: "geometry st" and sb: "screenBufferPtr st = Some sb" and x: "0 \<le> px"
    and y: "px < MAX_CHARS st \<longrightarrow> int (startRenderLine sb) \<le> py \<and> py < int (startRenderLine sb) + MAX_LINES st"
  shows "\<exists>fb. render_cursor px py col st = Some (st\<lparr>framebuffer := fb\<rparr>) \<and> length fb = length (framebuffer st)"
proof (cases "MAX_CHARS st \<le> px")
  case True
  then show ?thesis by (intro exI[of _ "framebuffer st"]) (simp add: render_cursor_def)
next
  case False
  let ?ry = "py - int (startRenderLine sb)"
  have ry: "0 \<le> ?ry" "?ry < MAX_LINES st" using y False by auto
  have w: "nat (FONT_W st) = 8" "FONT_H st = 16" using g by (simp_all add: geometry_def)
  have "\<exists>fb. for_loop (\<lambda>k fb. for_loop (\<lambda>cl fb.
      wri fb ((?ry * FONT_H st + (14 + int k)) * ADJUSTED_WIDTH st + (px * FONT_W st + int cl)) (color_code col)) 0 8 fb)
    0 2 (framebuffer st) = Some fb \<and> length fb = length (framebuffer st)"
  proof (rule for_loop_rule[where I = "\<lambda>_ fb. length fb = length (framebuffer st)"])
    fix k :: nat and fb :: "u32 list" assume "k < 0 + 2" and l: "length fb = length (framebuffer st)"
    then have k: "0 \<le> 14 + int k" "14 + int k < 16" by simp_all
    show "\<exists>s'. for_loop (\<lambda>cl fb. wri fb ((?ry * FONT_H st + (14 + int k)) * ADJUSTED_WIDTH st + (px * FONT_W st + int cl)) (color_code col)) 0 8 fb
        = Some s' \<and> length s' = length (framebuffer st)"
      using write_row[of 8 "\<lambda>cl. (?ry * FONT_H st + (14 + int k)) * ADJUSTED_WIDTH st + (px * FONT_W st + int cl)" fb "\<lambda>_. color_code col"]
        pixel_bounds[OF g x _ ry k] False l by simp
  qed simp
  then show ?thesis using False sb
    by (auto simp: render_cursor_def Let_def w CURSOR_HEIGHT_def FONT_SIZE_def)
qed

text \<open>The last rendered position is inside the cell block.\<close>

definition rendered_in :: "'a screen_scheme \<Rightarrow> ScreenBuffer \<Rightarrow> bool" where
  "rendered_in st sb \<longleftrightarrow> 0 \<le> cursorRendered_X st \<and> 0 \<le> cursorRendered_Y st \<and>
     cursorRendered_Y st < int (maxStoredLines sb) \<and>
     cursorRendered_Y st * MAX_CHARS st + cursorRendered_X st < int (maxStoredLines sb) * MAX_CHARS st"

lemma rendered_cell:
  assumes "0 < MAX_CHARS st" and "buffer_wf (MAX_CHARS st) sb" and "rendered_in st sb"
  obtains cell where "get_screen_buffer_line sb (cursorRendered_Y st) = Some (lines sb ! nat (cursorRendered_Y st))"
    "get_screen_buffer_cell sb (lines sb ! nat (cursorRendered_Y st)) (cursorRendered_X st) = Some cell"
    "cell_text cell < 128"
proof -
  define y x where "y = nat (cursorRendered_Y st)" and "x = nat (cursorRendered_X st)"
  have yx: "cursorRendered_Y st = int y" "cursorRendered_X st = int x" "y < maxStoredLines sb"
    using assms(3) by (auto simp: y_def x_def rendered_in_def)
  note ln = line_wf[OF assms(2) yx(3)]
  have "int y * MAX_CHARS st + int x < int (maxStoredLines sb) * MAX_CHARS st"
    using assms(3) by (simp add: rendered_in_def yx)
  then have "int (y * nat (MAX_CHARS st) + x) < int (maxStoredLines sb * nat (MAX_CHARS st))" using assms(1) by simp
  then have "y * nat (MAX_CHARS st) + x < maxStoredLines sb * nat (MAX_CHARS st)" by (simp only: of_nat_less_iff)
  then have b: "y * nat (MAX_CHARS st) + x < length (cellBlock sb)" using assms(2) by (simp add: buffer_wf_def)
  then have "cell_text (cellBlock sb ! (y * nat (MAX_CHARS st) + x)) < 128" using assms(2) by (simp add: buffer_wf_def)
  moreover have "int (y * nat (MAX_CHARS st)) + int x = int (y * nat (MAX_CHARS st) + x)" by (simp only: of_nat_add)
  then have "get_screen_buffer_cell sb (lines sb ! y) (int x) = Some (cellBlock sb ! (y * nat (MAX_CHARS st) + x))"
    using b by (simp only: get_screen_buffer_cell_def ln(2) rdi_nat rd_Some)
  ultimately show thesis using that ln(1) by (simp add: yx)
qed

lemma update_cursor_total:
  assumes g: "geometry st" and u: "useScreenBuffer st" "\<not> isRedrawing st"
    and sb: "screenBufferPtr st = Some sb" "buffer_wf (MAX_CHARS st) sb" and rin: "rendered_in st sb"
    and x: "0 \<le> cursorAt_X st"
    and y: "cursorAt_X st < MAX_CHARS st \<longrightarrow>
      int (startRenderLine sb) \<le> cursorAt_Y st \<and> cursorAt_Y st < int (startRenderLine sb) + MAX_LINES st"
  shows "\<exists>fb. update_cursor_render st =
      Some (st\<lparr>framebuffer := fb, cursorRendered_X := cursorAt_X st, cursorRendered_Y := cursorAt_Y st\<rparr>) \<and>
    length fb = length (framebuffer st)"
proof -
  have "0 < MAX_CHARS st" using g by (simp add: geometry_def)
  from rendered_cell[OF this sb(2) rin] obtain cell where c:
    "get_screen_buffer_line sb (cursorRendered_Y st) = Some (lines sb ! nat (cursorRendered_Y st))"
    "get_screen_buffer_cell sb (lines sb ! nat (cursorRendered_Y st)) (cursorRendered_X st) = Some cell"
    "cell_text cell < 128" by blast
  let ?st = "st\<lparr>isRedrawing := True\<rparr>"
  let ?ch = "if cursorRendered_X st < int (amountOfCells (lines sb ! nat (cursorRendered_Y st))) then cell_text cell else 0x20"
  have g1: "geometry ?st" using g by (simp add: geometry_def)
  have "\<exists>fb. draw_char ?ch (cursorRendered_X st) (cursorRendered_Y st) (color cell) (interactable cell) ?st =
      Some (?st\<lparr>framebuffer := fb\<rparr>) \<and> length fb = length (framebuffer ?st)"
    by (rule draw_char_redrawing) (use g1 sb(1) rin c(3) in \<open>auto simp: rendered_in_def\<close>)
  then obtain fb1 where d: "draw_char ?ch (cursorRendered_X st) (cursorRendered_Y st) (color cell) (interactable cell) ?st =
      Some (?st\<lparr>framebuffer := fb1\<rparr>)" "length fb1 = length (framebuffer st)" by auto
  let ?st1 = "?st\<lparr>framebuffer := fb1\<rparr>"
  have g2: "geometry ?st1" using g d(2) by (simp add: geometry_def)
  have "\<exists>fb. render_cursor (cursorAt_X st) (cursorAt_Y st) White ?st1 = Some (?st1\<lparr>framebuffer := fb\<rparr>) \<and>
      length fb = length (framebuffer ?st1)"
    by (rule render_cursor_total[OF g2]) (use sb(1) x y in simp_all)
  then obtain fb2 where r: "render_cursor (cursorAt_X st) (cursorAt_Y st) White ?st1 = Some (?st1\<lparr>framebuffer := fb2\<rparr>)"
    "length fb2 = length (framebuffer st)" using d(2) by auto
  note k = stop_redrawing[OF u(2)]
  have e: "update_cursor_render st = do {
      st \<leftarrow> draw_char ?ch (cursorRendered_X st) (cursorRendered_Y st) (color cell) (interactable cell) ?st;
      st \<leftarrow> (if cursor_visible st then render_cursor (cursorAt_X st) (cursorAt_Y st) White st else Some st);
      let st = st\<lparr>isRedrawing := False\<rparr>;
      Some (st\<lparr>cursorRendered_X := cursorAt_X st, cursorRendered_Y := cursorAt_Y st\<rparr>) }"
    using u sb(1) c by (simp add: update_cursor_render_def)
  show ?thesis
  proof (cases "cursor_visible st")
    case True
    with d(1) r(1) k[of fb2] have "update_cursor_render st =
        Some (st\<lparr>framebuffer := fb2, cursorRendered_X := cursorAt_X st, cursorRendered_Y := cursorAt_Y st\<rparr>)"
      unfolding e by simp
    with r(2) show ?thesis by blast
  next
    case False
    with d(1) k[of fb1] have "update_cursor_render st =
        Some (st\<lparr>framebuffer := fb1, cursorRendered_X := cursorAt_X st, cursorRendered_Y := cursorAt_Y st\<rparr>)"
      unfolding e by simp
    with d(2) show ?thesis by blast
  qed
qed

end
