(* ===== verification/ScreenSpec.thy ===== *)
theory ScreenSpec
  imports ScreenDraw
begin

text \<open>
  What the screen buffer promises: printing appends characters to a scroll-back of
  lines. The abstract scroll-back is a list of rows of cells, oldest first, of at most
  \<open>maxStoredLines\<close> rows; a full row starts a new one, and a new row beyond the limit
  drops the oldest. \<open>print_chars\<close> implements it without a fault.
\<close>

section \<open>The abstract scroll-back\<close>

definition tty_newline :: "nat \<Rightarrow> Cell list list \<Rightarrow> Cell list list" where
  "tty_newline n ls = (if length ls < n then ls @ [[]] else tl ls @ [[]])"

definition tty_put :: "nat \<Rightarrow> nat \<Rightarrow> Cell \<Rightarrow> Cell list list \<Rightarrow> Cell list list" where
  "tty_put w n c ls =
     (let ls = butlast ls @ [last ls @ [c]]
      in if length (last ls) < w then ls else tty_newline n ls)"

definition tty_char :: "nat \<Rightarrow> nat \<Rightarrow> Color \<Rightarrow> bool \<Rightarrow> u8 \<Rightarrow> Cell list list \<Rightarrow> Cell list list" where
  "tty_char w n col act c ls =
     (if c = 0x0D then ls
      else if c = 0x0A then tty_newline n ls
      else tty_put w n \<lparr>color = col, cell_text = c, interactable = act\<rparr> ls)"

section \<open>Cells and lines\<close>

definition same_shape :: "ScreenBuffer \<Rightarrow> ScreenBuffer \<Rightarrow> bool" where
  "same_shape sb sb' \<longleftrightarrow> startRenderLine sb' = startRenderLine sb \<and> visibleLines sb' = visibleLines sb \<and>
     maxStoredLines sb' = maxStoredLines sb"

lemma same_shape_trans: "same_shape a b \<Longrightarrow> same_shape b c \<Longrightarrow> same_shape a c"
  by (simp add: same_shape_def)

lemma row_eqI:
  assumes "amountOfCells (lines sb' ! i) = amountOfCells (lines sb ! j)"
    and "\<And>x. x < amountOfCells (lines sb ! j) \<Longrightarrow>
      cellBlock sb' ! (cells (lines sb' ! i) + x) = cellBlock sb ! (cells (lines sb ! j) + x)"
  shows "row sb' i = row sb j"
  using assms by (simp add: row_def)

text \<open>Writing one cell changes no other row.\<close>

lemma put_cell_wf:
  assumes wf: "buffer_wf w sb" and i: "i < maxStoredLines sb" and x: "x < nat w" and c: "cell_text c < 128"
  shows "\<exists>sb'. put_screen_buffer_cell sb (lines sb ! i) (int x) c = Some sb' \<and> buffer_wf w sb' \<and>
    lines sb' = lines sb \<and> same_shape sb sb' \<and>
    (\<forall>j y. j < maxStoredLines sb \<longrightarrow> y < nat w \<longrightarrow> cellBlock sb' ! (j * nat w + y) =
      (if j = i \<and> y = x then c else cellBlock sb ! (j * nat w + y)))"
proof -
  let ?k = "i * nat w + x"
  note b = cell_wf(3)[OF wf i x]
  have "int (i * nat w) + int x = int ?k" by (simp only: of_nat_add)
  with b line_wf(2)[OF wf i] have p: "put_screen_buffer_cell sb (lines sb ! i) (int x) c = Some (sb\<lparr>cellBlock := (cellBlock sb)[?k := c]\<rparr>)"
    by (simp add: put_screen_buffer_cell_def del: of_nat_add)
  have "buffer_wf w (sb\<lparr>cellBlock := (cellBlock sb)[?k := c]\<rparr>)"
    using wf c by (auto simp: buffer_wf_def dest!: set_update_subset_insert[THEN subsetD])
  moreover have "(cellBlock sb)[?k := c] ! (j * nat w + y) = (if j = i \<and> y = x then c else cellBlock sb ! (j * nat w + y))"
    if "j < maxStoredLines sb" "y < nat w" for j y
    using cell_index_inject[OF that(2) x, of j i] b by (auto simp: nth_list_update)
  ultimately show ?thesis using p by (intro exI[of _ "sb\<lparr>cellBlock := (cellBlock sb)[?k := c]\<rparr>"]) (simp add: same_shape_def)
qed

lemma put_amount_wf:
  assumes wf: "buffer_wf w sb" and i: "i < maxStoredLines sb" and n: "n \<le> nat w"
  shows "\<exists>sb'. put_screen_buffer_line sb (int i) ((lines sb ! i)\<lparr>amountOfCells := n\<rparr>) = Some sb' \<and> buffer_wf w sb' \<and>
    cellBlock sb' = cellBlock sb \<and> same_shape sb sb' \<and> lines sb' = (lines sb)[i := (lines sb ! i)\<lparr>amountOfCells := n\<rparr>]"
  using assms line_wf[OF wf i]
  by (auto simp: put_screen_buffer_line_def same_shape_def buffer_wf_def nth_list_update)

section \<open>The state between prints\<close>

definition screen_base :: "'a screen_scheme \<Rightarrow> ScreenBuffer \<Rightarrow> bool" where
  "screen_base st sb \<longleftrightarrow> geometry st \<and> useScreenBuffer st \<and> \<not> isRedrawing st \<and>
     screenBufferPtr st = Some sb \<and> buffer_wf (MAX_CHARS st) sb \<and>
     visibleLines sb = nat (MAX_LINES st) \<and> visibleLines sb < maxStoredLines sb \<and>
     startRenderLine sb + visibleLines sb \<le> maxStoredLines sb \<and>
     int (startRenderLine sb) \<le> cursorAt_Y st \<and> cursorAt_Y st < int (startRenderLine sb + visibleLines sb) \<and>
     (\<forall>i. cursorAt_Y st < int i \<and> i < maxStoredLines sb \<longrightarrow> amountOfCells (lines sb ! i) = 0)"

definition at_end :: "'a screen_scheme \<Rightarrow> ScreenBuffer \<Rightarrow> bool" where
  "at_end st sb \<longleftrightarrow> cursorAt_X st = int (amountOfCells (lines sb ! nat (cursorAt_Y st))) \<and> cursorAt_X st < MAX_CHARS st"

text \<open>The state in which text can be printed: the cursor is behind the last character.\<close>

definition screen_ok :: "'a screen_scheme \<Rightarrow> bool" where
  "screen_ok st \<longleftrightarrow> (\<exists>sb. screen_base st sb \<and> rendered_in st sb \<and> at_end st sb)"

text \<open>The scroll-back: the rows up to the cursor.\<close>

definition rows_upto :: "ScreenBuffer \<Rightarrow> nat \<Rightarrow> Cell list list" where
  "rows_upto sb y = map (row sb) [0..<Suc y]"

definition scrollback :: "'a screen_scheme \<Rightarrow> Cell list list" where
  "scrollback st = (case screenBufferPtr st of None \<Rightarrow> [] | Some sb \<Rightarrow> rows_upto sb (nat (cursorAt_Y st)))"

definition stored_lines :: "'a screen_scheme \<Rightarrow> nat" where
  "stored_lines st = (case screenBufferPtr st of None \<Rightarrow> 0 | Some sb \<Rightarrow> maxStoredLines sb)"

text \<open>What printing may change: the rest of the record, extensions included, stays.\<close>

definition moved :: "'a screen_scheme \<Rightarrow> 'a screen_scheme \<Rightarrow> bool" where
  "moved st st' \<longleftrightarrow> st' = st\<lparr>cursorAt_X := cursorAt_X st', cursorAt_Y := cursorAt_Y st',
     cursorRendered_X := cursorRendered_X st', cursorRendered_Y := cursorRendered_Y st',
     screenBufferPtr := screenBufferPtr st', framebuffer := framebuffer st'\<rparr>"

lemma moved_upd [simp]:
  "moved st (st\<lparr>framebuffer := fb, cursorRendered_X := rx, cursorRendered_Y := ry\<rparr>)"
  "moved st (st\<lparr>screenBufferPtr := p, cursorAt_X := x, cursorAt_Y := y\<rparr>)"
  "moved st (st\<lparr>screenBufferPtr := p\<rparr>)" "moved st (st\<lparr>cursorAt_X := x\<rparr>)" "moved st st"
  by (cases st; simp add: moved_def)+

lemma moved_trans [trans]: "moved a b \<Longrightarrow> moved b c \<Longrightarrow> moved a c"
  by (cases a; cases b; cases c; simp add: moved_def)

lemma moved_fields:
  assumes "moved st st'"
  shows "MAX_CHARS st' = MAX_CHARS st" "MAX_LINES st' = MAX_LINES st" "FONT_W st' = FONT_W st" "FONT_H st' = FONT_H st"
    "ADJUSTED_WIDTH st' = ADJUSTED_WIDTH st" "useScreenBuffer st' = useScreenBuffer st"
    "isRedrawing st' = isRedrawing st" "cursor_visible st' = cursor_visible st" "screen.more st' = screen.more st"
  using assms by (cases st; cases st'; simp add: moved_def)+

lemma screen_base_y:
  assumes "screen_base st sb"
  shows "cursorAt_Y st = int (nat (cursorAt_Y st))" "nat (cursorAt_Y st) < maxStoredLines sb"
    "startRenderLine sb \<le> nat (cursorAt_Y st)" "nat (cursorAt_Y st) < startRenderLine sb + visibleLines sb"
proof -
  have "int (startRenderLine sb) \<le> cursorAt_Y st" "cursorAt_Y st < int (startRenderLine sb + visibleLines sb)"
    "startRenderLine sb + visibleLines sb \<le> maxStoredLines sb" using assms unfolding screen_base_def by blast+
  then show "cursorAt_Y st = int (nat (cursorAt_Y st))" "nat (cursorAt_Y st) < maxStoredLines sb"
    "startRenderLine sb \<le> nat (cursorAt_Y st)" "nat (cursorAt_Y st) < startRenderLine sb + visibleLines sb"
    by linarith+
qed

lemma store_char_effect:
  assumes base: "screen_base st sb" and e: "at_end st sb" and c: "c < 128"
  shows "\<exists>sb'. store_char c col act st = Some (st\<lparr>screenBufferPtr := Some sb'\<rparr>) \<and>
    screen_base (st\<lparr>screenBufferPtr := Some sb'\<rparr>) sb' \<and> same_shape sb sb' \<and>
    amountOfCells (lines sb' ! nat (cursorAt_Y st)) = Suc (nat (cursorAt_X st)) \<and>
    rows_upto sb' (nat (cursorAt_Y st)) = butlast (rows_upto sb (nat (cursorAt_Y st))) @
      [last (rows_upto sb (nat (cursorAt_Y st))) @ [\<lparr>color = col, cell_text = c, interactable = act\<rparr>]]"
proof -
  let ?w = "nat (MAX_CHARS st)" and ?c = "\<lparr>color = col, cell_text = c, interactable = act\<rparr>"
  define y x where "y = nat (cursorAt_Y st)" and "x = amountOfCells (lines sb ! nat (cursorAt_Y st))"
  have wf: "buffer_wf (MAX_CHARS st) sb" and ptr: "screenBufferPtr st = Some sb"
    using base by (simp_all add: screen_base_def)
  have y: "cursorAt_Y st = int y" "y < maxStoredLines sb" using screen_base_y[OF base] by (simp_all add: y_def)
  have x: "cursorAt_X st = int x" "x < ?w" using e by (auto simp: at_end_def x_def)
  note ln = line_wf[OF wf y(2)]
  obtain sb1 where p1: "put_screen_buffer_cell sb (lines sb ! y) (int x) ?c = Some sb1" "buffer_wf (MAX_CHARS st) sb1"
    "lines sb1 = lines sb" "same_shape sb sb1"
    "\<forall>j z. j < maxStoredLines sb \<longrightarrow> z < ?w \<longrightarrow> cellBlock sb1 ! (j * ?w + z) =
      (if j = y \<and> z = x then ?c else cellBlock sb ! (j * ?w + z))"
    using put_cell_wf[OF wf y(2) x(2), of ?c] c by auto
  have m1: "y < maxStoredLines sb1" using y(2) p1(4) by (simp add: same_shape_def)
  obtain sb2 where p2: "put_screen_buffer_line sb1 (int y) ((lines sb1 ! y)\<lparr>amountOfCells := Suc x\<rparr>) = Some sb2"
    "buffer_wf (MAX_CHARS st) sb2" "cellBlock sb2 = cellBlock sb1" "same_shape sb1 sb2"
    "lines sb2 = (lines sb1)[y := (lines sb1 ! y)\<lparr>amountOfCells := Suc x\<rparr>]"
    using put_amount_wf[OF p1(2) m1, of "Suc x"] x(2) by auto
  have sh: "same_shape sb sb2" using p1(4) p2(4) by (rule same_shape_trans)
  have xa: "amountOfCells (lines sb ! y) = x" by (simp add: x_def y_def)
  have l2: "lines sb2 ! j = (if j = y then (lines sb ! y)\<lparr>amountOfCells := Suc x\<rparr> else lines sb ! j)" for j
    using ln(4) by (simp add: p2(5) p1(3) nth_list_update)
  have "nat (cursorAt_X st + 1) = Suc x" "int (amountOfCells (lines sb ! y)) < cursorAt_X st + 1"
    by (simp_all add: x(1) xa)
  then have st: "store_char c col act st = Some (st\<lparr>screenBufferPtr := Some sb2\<rparr>)"
    using ptr ln(1) p1(1,3) p2(1) by (simp add: store_char_def y(1) x(1))
  have other: "row sb2 j = row sb j" if "j < y" for j
  proof (rule row_eqI)
    have jm: "j < maxStoredLines sb" using that y(2) by simp
    note lj = line_wf[OF wf jm]
    show "amountOfCells (lines sb2 ! j) = amountOfCells (lines sb ! j)" using that by (simp add: l2)
    fix z assume "z < amountOfCells (lines sb ! j)"
    then show "cellBlock sb2 ! (cells (lines sb2 ! j) + z) = cellBlock sb ! (cells (lines sb ! j) + z)"
      using that p1(5) jm lj by (simp add: l2 p2(3))
  qed
  have this_row: "row sb2 y = row sb y @ [?c]"
  proof -
    have "cellBlock sb1 ! (y * ?w + z) = cellBlock sb ! (y * ?w + z)" if "z < x" for z
      using p1(5) y(2) x(2) that by simp
    moreover have "cellBlock sb1 ! (y * ?w + x) = ?c" using p1(5) y(2) x(2) by simp
    ultimately show ?thesis by (simp add: row_def l2 p2(3) xa ln(2))
  qed
  have rows: "rows_upto sb2 y = butlast (rows_upto sb y) @ [last (rows_upto sb y) @ [?c]]"
    using other this_row by (simp add: rows_upto_def)
  have base2: "screen_base (st\<lparr>screenBufferPtr := Some sb2\<rparr>) sb2"
    using base sh p2(2) l2 y(1) by (auto simp: screen_base_def same_shape_def geometry_def)
  have am: "amountOfCells (lines sb2 ! y) = Suc x" by (simp add: l2)
  show ?thesis
    by (intro exI[of _ sb2] conjI st base2 sh) (use am rows in \<open>simp_all add: y(1) x(1)\<close>)
qed

section \<open>Scrolling\<close>

lemma shift_line_effect:
  assumes wf: "buffer_wf w sb" and l: "Suc l < maxStoredLines sb"
  shows "\<exists>sb'. shift_line l sb = Some sb' \<and> buffer_wf w sb' \<and> same_shape sb sb' \<and>
    (\<forall>j < maxStoredLines sb. row sb' j = (if j = l then row sb (Suc l) else row sb j))"
proof -
  let ?w = "nat w" and ?a = "amountOfCells (lines sb ! Suc l)"
  have l': "l < maxStoredLines sb" using l by simp
  note ln = line_wf[OF wf l'] and nx = line_wf[OF wf l]
  obtain sb0 where p0: "put_screen_buffer_line sb (int l) ((lines sb ! l)\<lparr>amountOfCells := ?a\<rparr>) = Some sb0" "buffer_wf w sb0"
    "cellBlock sb0 = cellBlock sb" "same_shape sb sb0" "lines sb0 = (lines sb)[l := (lines sb ! l)\<lparr>amountOfCells := ?a\<rparr>]"
    using put_amount_wf[OF wf l' nx(3)] by blast
  let ?body = "\<lambda>cell sb'. do {
         c \<leftarrow> get_screen_buffer_cell sb' (lines sb ! Suc l) (int cell);
         put_screen_buffer_cell sb' (lines sb ! l) (int cell) c }"
  let ?I = "\<lambda>k s. buffer_wf w s \<and> lines s = lines sb0 \<and> same_shape sb s \<and>
    (\<forall>j z. j < maxStoredLines sb \<longrightarrow> z < ?w \<longrightarrow> cellBlock s ! (j * ?w + z) =
      (if j = l \<and> z < k then cellBlock sb ! (Suc l * ?w + z) else cellBlock sb ! (j * ?w + z)))"
  have "\<exists>s. for_loop ?body 0 ?a sb0 = Some s \<and> ?I (0 + ?a) s"
  proof (rule for_loop_rule[where I = ?I])
    show "?I 0 sb0" using p0 by simp
  next
    fix k s assume k: "k < 0 + ?a" and I: "?I k s"
    have kw: "k < ?w" using k nx(3) by simp
    have m: "l < maxStoredLines s" "Suc l < maxStoredLines s" using I l by (simp_all add: same_shape_def)
    have same: "lines s ! Suc l = lines sb ! Suc l" "cells (lines s ! l) = cells (lines sb ! l)"
      using I ln(4) by (simp_all add: p0(5))
    have c: "get_screen_buffer_cell s (lines sb ! Suc l) (int k) = Some (cellBlock s ! (Suc l * ?w + k))"
      "cell_text (cellBlock s ! (Suc l * ?w + k)) < 128"
      using cell_wf[of w s "Suc l" k] I m(2) kw same(1) by simp_all
    let ?v = "cellBlock s ! (Suc l * ?w + k)"
    obtain s' where s': "put_screen_buffer_cell s (lines s ! l) (int k) ?v = Some s'" "buffer_wf w s'"
      "lines s' = lines s" "same_shape s s'"
      "\<forall>j z. j < maxStoredLines s \<longrightarrow> z < ?w \<longrightarrow> cellBlock s' ! (j * ?w + z) =
        (if j = l \<and> z = k then ?v else cellBlock s ! (j * ?w + z))"
      using put_cell_wf[of w s l k ?v] I m(1) kw c(2) by blast
    have "put_screen_buffer_cell s (lines sb ! l) (int k) ?v = Some s'"
      using s'(1) same(2) by (simp add: put_screen_buffer_cell_def)
    moreover have "?v = cellBlock sb ! (Suc l * ?w + k)" using I kw l by (simp del: mult_Suc)
    ultimately show "\<exists>s'. ?body k s = Some s' \<and> ?I (Suc k) s'"
      using c(1) s' I m(1) by (auto simp: same_shape_def less_Suc_eq)
  qed
  then obtain s where s: "for_loop ?body 0 ?a sb0 = Some s" "?I ?a s" by auto
  have "shift_line l sb = Some s"
    using ln(1) nx(1) p0(1) s(1) by (simp add: shift_line_def)
  moreover have "row s j = (if j = l then row sb (Suc l) else row sb j)" if j: "j < maxStoredLines sb" for j
  proof -
    have lj: "cells (lines s ! j) = j * ?w" using s(2) line_wf(2)[of w s j] j by (simp add: same_shape_def)
    have aj: "amountOfCells (lines s ! j) = (if j = l then ?a else amountOfCells (lines sb ! j))"
      using s(2) ln(4) by (simp add: p0(5) nth_list_update)
    show ?thesis
    proof (cases "j = l")
      case True
      then show ?thesis using s(2) lj aj nx j by (auto intro!: row_eqI)
    next
      case False
      then show ?thesis using s(2) lj aj line_wf[OF wf j] j by (auto intro!: row_eqI)
    qed
  qed
  ultimately show ?thesis using s(2) by blast
qed

lemma amount_of_row: "row sb i = row sb' j \<Longrightarrow> amountOfCells (lines sb ! i) = amountOfCells (lines sb' ! j)"
  by (metis length_row)

lemma drop_oldest_effect:
  assumes sb: "screenBufferPtr st = Some sb" "buffer_wf w sb" and m: "0 < maxStoredLines sb"
    and y: "cursorAt_Y st = int (maxStoredLines sb)"
  shows "\<exists>sb'. drop_oldest_line st = Some (st\<lparr>cursorAt_Y := int (maxStoredLines sb - 1), screenBufferPtr := Some sb'\<rparr>) \<and>
    buffer_wf w sb' \<and> startRenderLine sb' = startRenderLine sb - 1 \<and> visibleLines sb' = visibleLines sb \<and>
    maxStoredLines sb' = maxStoredLines sb \<and>
    (\<forall>j < maxStoredLines sb. row sb' j = (if Suc j = maxStoredLines sb then [] else row sb (Suc j)))"
proof -
  let ?m = "maxStoredLines sb"
  let ?I = "\<lambda>l s. buffer_wf w s \<and> same_shape sb s \<and>
    (\<forall>j < ?m. row s j = (if j < l then row sb (Suc j) else row sb j))"
  have "\<exists>s. for_loop shift_line 0 (?m - 1) sb = Some s \<and> ?I (0 + (?m - 1)) s"
  proof (rule for_loop_rule[where I = ?I])
    show "?I 0 sb" using sb(2) by (simp add: same_shape_def)
  next
    fix l s assume l: "l < 0 + (?m - 1)" and I: "?I l s"
    then have sl: "Suc l < maxStoredLines s" by (simp add: same_shape_def)
    have I1: "buffer_wf w s" using I by blast
    from shift_line_effect[OF I1 sl] obtain s' where
      s': "shift_line l s = Some s'" "buffer_wf w s'" "same_shape s s'"
      "\<forall>j < maxStoredLines s. row s' j = (if j = l then row s (Suc l) else row s j)" by blast
    have "row s' j = (if j < Suc l then row sb (Suc j) else row sb j)" if "j < ?m" for j
      using s'(4) I sl that by (auto simp: same_shape_def)
    with s' I show "\<exists>s'. shift_line l s = Some s' \<and> ?I (Suc l) s'"
      by (intro exI[of _ s']) (auto intro: same_shape_trans)
  qed
  then obtain s where s: "for_loop shift_line 0 (?m - 1) sb = Some s" "?I (?m - 1) s" by auto
  define s1 where "s1 = (let s = s\<lparr>amountOfLines := dec32 (amountOfLines s)\<rparr>
    in if 0 < startRenderLine s then s\<lparr>startRenderLine := startRenderLine s - 1\<rparr> else s)"
  have s1: "lines s1 = lines s" "cellBlock s1 = cellBlock s" "maxStoredLines s1 = ?m"
    "visibleLines s1 = visibleLines sb" "startRenderLine s1 = startRenderLine sb - 1"
    using s(2) by (auto simp: s1_def same_shape_def Let_def)
  have wf1: "buffer_wf w s1" using s(2) s1 by (simp add: buffer_wf_def same_shape_def)
  have l: "?m - 1 < maxStoredLines s1" using m s1(3) by simp
  note ln = line_wf[OF wf1 l]
  obtain s2 where p: "put_screen_buffer_line s1 (int (?m - 1)) ((lines s1 ! (?m - 1))\<lparr>amountOfCells := 0\<rparr>) = Some s2"
    "buffer_wf w s2" "cellBlock s2 = cellBlock s1" "same_shape s1 s2"
    "lines s2 = (lines s1)[?m - 1 := (lines s1 ! (?m - 1))\<lparr>amountOfCells := 0\<rparr>]"
    using put_amount_wf[OF wf1 l, of 0] by auto
  have y': "cursorAt_Y st - 1 = int (?m - 1)" using y m by simp
  have "drop_oldest_line st = Some (st\<lparr>cursorAt_Y := int (?m - 1), screenBufferPtr := Some s2\<rparr>)"
    using s(1) ln(1) p(1) unfolding drop_oldest_line_def sb(1) s1_def by (simp add: y' Let_def)
  moreover have "row s2 j = (if Suc j = ?m then [] else row sb (Suc j))" if "j < ?m" for j
  proof (cases "Suc j = ?m")
    case True
    then have "j = ?m - 1" by simp
    then show ?thesis using True ln(4) by (simp add: row_def p(5))
  next
    case False
    with that have "j < ?m - 1" by simp
    with that s(2) have "row s j = row sb (Suc j)" by simp
    moreover have "row s2 j = row s j" using \<open>j < ?m - 1\<close> by (simp add: row_def p(3,5) s1)
    ultimately show ?thesis using False by simp
  qed
  ultimately show ?thesis using p(2,4) s1 by (intro exI[of _ s2]) (simp add: same_shape_def)
qed

text \<open>\<open>newline\<close> starts a new row, and drops the oldest when the buffer is full. The cursor may be
  rendered one cell behind the block before, as the last character of the last line leaves it.\<close>

lemma update_cursor_base:
  assumes base: "screen_base st sb" and rin: "rendered_in st sb" and x: "0 \<le> cursorAt_X st"
  shows "\<exists>fb. update_cursor_render st =
      Some (st\<lparr>framebuffer := fb, cursorRendered_X := cursorAt_X st, cursorRendered_Y := cursorAt_Y st\<rparr>) \<and>
    length fb = length (framebuffer st)"
proof (rule update_cursor_total[where sb = sb, OF _ _ _ _ _ rin x])
  have "0 < MAX_LINES st" using base by (simp add: screen_base_def geometry_def)
  then show "cursorAt_X st < MAX_CHARS st \<longrightarrow>
      int (startRenderLine sb) \<le> cursorAt_Y st \<and> cursorAt_Y st < int (startRenderLine sb) + MAX_LINES st"
    using base by (auto simp: screen_base_def)
qed (use base in \<open>simp_all add: screen_base_def\<close>)

lemma base_rendered:
  assumes "screen_base st sb" and "length fb = length (framebuffer st)"
  shows "screen_base (st\<lparr>framebuffer := fb, cursorRendered_X := rx, cursorRendered_Y := ry\<rparr>) sb"
  using assms by (auto simp: screen_base_def geometry_def)

lemma rendered_here:
  assumes "screen_base st sb" and "0 \<le> cursorAt_X st" and "cursorAt_X st < MAX_CHARS st"
    and "cursorRendered_X st = cursorAt_X st" and "cursorRendered_Y st = cursorAt_Y st"
  shows "rendered_in st sb"
proof -
  have y: "cursorAt_Y st + 1 \<le> int (maxStoredLines sb)" "0 \<le> cursorAt_Y st"
    using screen_base_y[OF assms(1)] by linarith+
  have "(cursorAt_Y st + 1) * MAX_CHARS st \<le> int (maxStoredLines sb) * MAX_CHARS st"
    using y(1) assms(2,3) by (intro mult_right_mono) simp_all
  then have "cursorAt_Y st * MAX_CHARS st + cursorAt_X st < int (maxStoredLines sb) * MAX_CHARS st"
    using assms(3) by (simp add: distrib_right)
  with y assms show ?thesis by (simp add: rendered_in_def)
qed

text \<open>Rendering the cursor at the start of an empty row.\<close>

lemma cursor_shown:
  assumes base: "screen_base st sb" and rin: "rendered_in st sb" and x: "cursorAt_X st = 0"
    and empty: "amountOfCells (lines sb ! nat (cursorAt_Y st)) = 0"
  shows "\<exists>st'. update_cursor_render st = Some st' \<and> moved st st' \<and> screen_ok st' \<and> cursorAt_X st' = 0 \<and>
    cursorAt_Y st' = cursorAt_Y st \<and> screenBufferPtr st' = Some sb"
proof -
  have g: "geometry st" and ptr: "screenBufferPtr st = Some sb" using base by (simp_all add: screen_base_def)
  obtain fb where up: "update_cursor_render st =
      Some (st\<lparr>framebuffer := fb, cursorRendered_X := cursorAt_X st, cursorRendered_Y := cursorAt_Y st\<rparr>)"
    "length fb = length (framebuffer st)" using update_cursor_base[OF base rin] x by auto
  let ?st = "st\<lparr>framebuffer := fb, cursorRendered_X := cursorAt_X st, cursorRendered_Y := cursorAt_Y st\<rparr>"
  have base': "screen_base ?st sb" by (rule base_rendered[OF base up(2)])
  have "rendered_in ?st sb" by (rule rendered_here[OF base']) (use x g in \<open>simp_all add: geometry_def\<close>)
  moreover have "at_end ?st sb" using x empty g by (simp add: at_end_def geometry_def)
  ultimately have "screen_ok ?st" using base' by (auto simp: screen_ok_def)
  then show ?thesis using up(1) x ptr by (intro exI[of _ ?st]) simp
qed

text \<open>The second half of \<open>handle_scroll\<close>: move the visible part down by a line if needed, and render
  the cursor.\<close>

lemma scroll_tail:
  fixes st :: "'a screen_scheme"
  assumes g: "geometry st" and u: "useScreenBuffer st" "\<not> isRedrawing st"
    and sb: "screenBufferPtr st = Some sb" "buffer_wf (MAX_CHARS st) sb" "visibleLines sb = nat (MAX_LINES st)"
      "visibleLines sb < maxStoredLines sb"
    and x: "cursorAt_X st = 0" and y: "cursorAt_Y st = int y" "startRenderLine sb \<le> y" "y \<le> startRenderLine sb + visibleLines sb"
      "y < maxStoredLines sb" "startRenderLine sb + visibleLines sb \<le> maxStoredLines sb"
    and z: "\<forall>i. y \<le> i \<and> i < maxStoredLines sb \<longrightarrow> amountOfCells (lines sb ! i) = 0"
    and rin: "y < startRenderLine sb + visibleLines sb \<longrightarrow> rendered_in st sb"
  shows "\<exists>st' sb'. do {
        sb \<leftarrow> screenBufferPtr st;
        st \<leftarrow> (if int (startRenderLine sb + visibleLines sb) \<le> cursorAt_Y st
             then redraw (st\<lparr>screenBufferPtr := Some (sb\<lparr>startRenderLine := inc32 (startRenderLine sb)\<rparr>)\<rparr>)
             else Some st);
        update_cursor_render st } = Some st' \<and> moved st st' \<and> screen_ok st' \<and>
      cursorAt_X st' = 0 \<and> cursorAt_Y st' = int y \<and> screenBufferPtr st' = Some sb' \<and>
      lines sb' = lines sb \<and> cellBlock sb' = cellBlock sb \<and> maxStoredLines sb' = maxStoredLines sb"
proof (cases "y = startRenderLine sb + visibleLines sb")
  case True
  define sb1 where "sb1 = sb\<lparr>startRenderLine := inc32 (startRenderLine sb)\<rparr>"
  have "maxStoredLines sb < 2 ^ 31" using sb(2) by (simp add: buffer_wf_def)
  then have st1: "startRenderLine sb1 = Suc (startRenderLine sb)"
    using y(5) by (simp add: sb1_def inc32_def)
  have e1: "lines sb1 = lines sb" "cellBlock sb1 = cellBlock sb" "maxStoredLines sb1 = maxStoredLines sb" "visibleLines sb1 = visibleLines sb"
    by (simp_all add: sb1_def)
  have wf1: "buffer_wf (MAX_CHARS st) sb1" using sb(2) by (simp add: buffer_wf_def e1)
  let ?st1 = "st\<lparr>screenBufferPtr := Some sb1\<rparr>"
  have g1: "geometry ?st1" using g by (simp add: geometry_def)
  have v1: "startRenderLine sb1 + visibleLines sb1 \<le> maxStoredLines sb1" using True y(4) st1 e1 by simp
  obtain fb where r: "redraw ?st1 = Some (?st1\<lparr>framebuffer := fb, cursorRendered_X := cursorAt_X ?st1, cursorRendered_Y := cursorAt_Y ?st1\<rparr>)"
    "length fb = length (framebuffer ?st1)"
    using redraw_total[OF g1, of sb1] u(2) wf1 v1 by auto
  let ?st2 = "?st1\<lparr>framebuffer := fb, cursorRendered_X := cursorAt_X ?st1, cursorRendered_Y := cursorAt_Y ?st1\<rparr>"
  have v0: "0 < visibleLines sb" using g sb(3) by (simp add: geometry_def)
  have base2: "screen_base ?st2 sb1"
    unfolding screen_base_def
  proof (intro conjI allI impI)
    show "geometry ?st2" using g r(2) by (simp add: geometry_def)
    show "int (startRenderLine sb1) \<le> cursorAt_Y ?st2" using True v0 st1 by (simp add: y(1))
    show "cursorAt_Y ?st2 < int (startRenderLine sb1 + visibleLines sb1)" using True st1 e1 by (simp add: y(1))
    fix i assume "cursorAt_Y ?st2 < int i \<and> i < maxStoredLines sb1"
    then show "amountOfCells (lines sb1 ! i) = 0" using z e1 by (simp add: y(1))
  qed (use u wf1 sb e1 v1 in simp_all)
  have "rendered_in ?st2 sb1" by (rule rendered_here[OF base2]) (use x g in \<open>simp_all add: geometry_def\<close>)
  from cursor_shown[OF base2 this] x z y(1,4) e1 obtain st' where
    up: "update_cursor_render ?st2 = Some st'" "moved ?st2 st'" "screen_ok st'" "cursorAt_X st' = 0" "cursorAt_Y st' = int y"
      "screenBufferPtr st' = Some sb1" by auto
  have "moved st ?st2" by (cases st) (simp add: moved_def)
  then have "moved st st'" using up(2) by (rule moved_trans)
  moreover have "int (startRenderLine sb + visibleLines sb) \<le> cursorAt_Y st" using True y(1) by simp
  ultimately show ?thesis using sb(1) r(1) up e1(1-3) by (intro exI[of _ st'] exI[of _ sb1]) (simp add: sb1_def)
next
  case False
  then have yb: "y < startRenderLine sb + visibleLines sb" using y(3) by simp
  have "screen_base st sb" unfolding screen_base_def using g u sb y yb z by auto
  from cursor_shown[OF this] rin yb x z y(1,4) obtain st' where
    "update_cursor_render st = Some st'" "moved st st'" "screen_ok st'" "cursorAt_X st' = 0" "cursorAt_Y st' = int y"
    "screenBufferPtr st' = Some sb" by auto
  then show ?thesis using sb(1) yb y(1) by (intro exI[of _ st'] exI[of _ sb]) simp
qed

text \<open>The state a newline can start from: the cursor may be rendered behind the last cell of the block,
  where the last character of the last line leaves it.\<close>

definition before_newline :: "'a screen_scheme \<Rightarrow> ScreenBuffer \<Rightarrow> bool" where
  "before_newline st sb \<longleftrightarrow> screen_base st sb \<and> (Suc (nat (cursorAt_Y st)) < maxStoredLines sb \<longrightarrow> rendered_in st sb)"

text \<open>The state after the cursor has moved from row \<open>y\<close> to the start of the next one, before scrolling.\<close>

definition advanced :: "nat \<Rightarrow> 'a screen_scheme \<Rightarrow> ScreenBuffer \<Rightarrow> bool" where
  "advanced y st sb \<longleftrightarrow> geometry st \<and> useScreenBuffer st \<and> \<not> isRedrawing st \<and> screenBufferPtr st = Some sb \<and>
     buffer_wf (MAX_CHARS st) sb \<and> visibleLines sb = nat (MAX_LINES st) \<and> visibleLines sb < maxStoredLines sb \<and>
     startRenderLine sb + visibleLines sb \<le> maxStoredLines sb \<and> cursorAt_X st = 0 \<and> cursorAt_Y st = int (Suc y) \<and>
     y < maxStoredLines sb \<and> startRenderLine sb \<le> y \<and> y < startRenderLine sb + visibleLines sb \<and>
     (\<forall>i. y < i \<and> i < maxStoredLines sb \<longrightarrow> amountOfCells (lines sb ! i) = 0)"

definition scrolls_to :: "Cell list list \<Rightarrow> 'a screen_scheme \<Rightarrow> ScreenBuffer \<Rightarrow> bool" where
  "scrolls_to rows st sb \<longleftrightarrow> (\<exists>st'. handle_scroll st = Some st' \<and> moved st st' \<and> screen_ok st' \<and> cursorAt_X st' = 0 \<and>
     stored_lines st' = maxStoredLines sb \<and> scrollback st' = rows)"

lemma row_cong: "lines a = lines b \<Longrightarrow> cellBlock a = cellBlock b \<Longrightarrow> row a = row b"
  by (rule ext) (simp add: row_def)

text \<open>While the buffer has room the next row is empty.\<close>

lemma scroll_room:
  assumes adv: "advanced y st sb" and room: "Suc y < maxStoredLines sb" and rin: "rendered_in st sb"
  shows "scrolls_to (rows_upto sb y @ [[]]) st sb"
proof -
  have z: "\<forall>i. Suc y \<le> i \<and> i < maxStoredLines sb \<longrightarrow> amountOfCells (lines sb ! i) = 0" using adv by (simp add: advanced_def)
  obtain st' sb' where t: "do {
        sb \<leftarrow> screenBufferPtr st;
        st \<leftarrow> (if int (startRenderLine sb + visibleLines sb) \<le> cursorAt_Y st
             then redraw (st\<lparr>screenBufferPtr := Some (sb\<lparr>startRenderLine := inc32 (startRenderLine sb)\<rparr>)\<rparr>)
             else Some st);
        update_cursor_render st } = Some st'" "moved st st'" "screen_ok st'" "cursorAt_X st' = 0" "cursorAt_Y st' = int (Suc y)"
      "screenBufferPtr st' = Some sb'" "lines sb' = lines sb" "cellBlock sb' = cellBlock sb" "maxStoredLines sb' = maxStoredLines sb"
    using scroll_tail[of st sb "Suc y"] adv room rin z by (auto simp: advanced_def)
  have "handle_scroll st = Some st'" using adv room t(1) by (simp add: handle_scroll_def advanced_def)
  moreover have "nat (cursorAt_Y st') = Suc y" by (simp only: t(5) nat_int)
  then have "scrollback st' = rows_upto sb (Suc y)"
    by (simp only: scrollback_def t(6) rows_upto_def option.case row_cong[OF t(7,8)])
  moreover have "row sb (Suc y) = []" using z room by (simp add: row_def)
  then have "rows_upto sb (Suc y) = rows_upto sb y @ [[]]" by (simp add: rows_upto_def)
  ultimately show ?thesis using t(2-4,6,9) unfolding scrolls_to_def by (intro exI[of _ st']) (simp add: stored_lines_def)
qed

text \<open>When it is full the oldest row goes and the others move up.\<close>

lemma rows_dropped:
  assumes "\<forall>j < Suc y. row sb' j = (if j = y then [] else row sb (Suc j))"
  shows "rows_upto sb' y = tl (rows_upto sb y) @ [[]]"
proof (rule nth_equalityI)
  fix i assume "i < length (rows_upto sb' y)"
  then have "i < Suc y" by (simp add: rows_upto_def)
  with assms show "rows_upto sb' y ! i = (tl (rows_upto sb y) @ [[]]) ! i"
    by (cases "i = y") (simp_all add: rows_upto_def nth_append nth_tl del: upt_Suc)
qed (simp add: rows_upto_def)

lemma scroll_full:
  assumes adv: "advanced y st sb" and full: "Suc y = maxStoredLines sb"
  shows "scrolls_to (tl (rows_upto sb y) @ [[]]) st sb"
proof -
  have a: "screenBufferPtr st = Some sb" "buffer_wf (MAX_CHARS st) sb" "cursorAt_Y st = int (maxStoredLines sb)" "0 < maxStoredLines sb"
    "geometry st" "useScreenBuffer st" "\<not> isRedrawing st" "visibleLines sb = nat (MAX_LINES st)" "visibleLines sb < maxStoredLines sb"
    "cursorAt_X st = 0" using adv full by (simp_all add: advanced_def)
  have top: "startRenderLine sb + visibleLines sb = maxStoredLines sb" using adv full by (simp add: advanced_def)
  obtain sb1 where d: "drop_oldest_line st = Some (st\<lparr>cursorAt_Y := int (maxStoredLines sb - 1), screenBufferPtr := Some sb1\<rparr>)"
      "buffer_wf (MAX_CHARS st) sb1" "startRenderLine sb1 = startRenderLine sb - 1" "visibleLines sb1 = visibleLines sb"
      "maxStoredLines sb1 = maxStoredLines sb"
      "\<forall>j < maxStoredLines sb. row sb1 j = (if Suc j = maxStoredLines sb then [] else row sb (Suc j))"
    using drop_oldest_effect[OF a(1,2,4,3)] by blast
  define s1 where "s1 = st\<lparr>cursorAt_Y := int y, screenBufferPtr := Some sb1\<rparr>"
  have "maxStoredLines sb - 1 = y" unfolding full[symmetric] by simp
  then have d1: "drop_oldest_line st = Some s1" using d(1) by (simp only: s1_def)
  have f1: "geometry s1" "useScreenBuffer s1" "\<not> isRedrawing s1" "MAX_CHARS s1 = MAX_CHARS st" "MAX_LINES s1 = MAX_LINES st"
    "screenBufferPtr s1 = Some sb1" "cursorAt_Y s1 = int y" "cursorAt_X s1 = 0"
    using a by (simp_all add: s1_def geometry_def)
  have r: "\<forall>j < Suc y. row sb1 j = (if j = y then [] else row sb (Suc j))" using d(6) by (simp add: full[symmetric])
  have z1: "\<forall>i. y \<le> i \<and> i < maxStoredLines sb1 \<longrightarrow> amountOfCells (lines sb1 ! i) = 0"
    using r full d(5) length_row[of sb1 y] by (auto simp: le_less less_Suc_eq)
  have sh: "startRenderLine sb1 \<le> y" "y \<le> startRenderLine sb1 + visibleLines sb1" "y < maxStoredLines sb1"
      "startRenderLine sb1 + visibleLines sb1 \<le> maxStoredLines sb1" "\<not> y < startRenderLine sb1 + visibleLines sb1"
    using d(3-5) full top a(9) by simp_all
  obtain st' sb' where t: "do {
        sb \<leftarrow> screenBufferPtr s1;
        st \<leftarrow> (if int (startRenderLine sb + visibleLines sb) \<le> cursorAt_Y s1
             then redraw (s1\<lparr>screenBufferPtr := Some (sb\<lparr>startRenderLine := inc32 (startRenderLine sb)\<rparr>)\<rparr>)
             else Some s1);
        update_cursor_render st } = Some st'" "moved s1 st'" "screen_ok st'" "cursorAt_X st' = 0" "cursorAt_Y st' = int y"
      "screenBufferPtr st' = Some sb'" "lines sb' = lines sb1" "cellBlock sb' = cellBlock sb1" "maxStoredLines sb' = maxStoredLines sb1"
    using scroll_tail[of s1 sb1 y, OF f1(1-3,6) _ _ _ f1(8,7) sh(1,2,3,4) z1] d(2,4,5) a(8,9) sh(5) f1(4,5) by auto
  have "handle_scroll st = Some st'" using a(1,3,6,7) d1 t(1) by (simp add: handle_scroll_def)
  moreover have "scrollback st' = tl (rows_upto sb y) @ [[]]"
    using rows_dropped[OF r] by (simp add: scrollback_def t(5,6) rows_upto_def row_cong[OF t(7,8)])
  moreover have "moved st s1" by (cases st) (simp add: s1_def moved_def)
  then have "moved st st'" using t(2) by (rule moved_trans)
  ultimately show ?thesis using t(3,4,6,9) d(5) unfolding scrolls_to_def by (intro exI[of _ st']) (simp add: stored_lines_def)
qed

lemma newline_effect:
  assumes b: "before_newline st sb"
  shows "\<exists>st'. newline st = Some st' \<and> moved st st' \<and> screen_ok st' \<and> cursorAt_X st' = 0 \<and>
    stored_lines st' = maxStoredLines sb \<and> scrollback st' = tty_newline (maxStoredLines sb) (scrollback st)"
proof -
  define y where "y = nat (cursorAt_Y st)"
  have base: "screen_base st sb" using b by (simp add: before_newline_def)
  note yy = screen_base_y[OF base, folded y_def]
  let ?sb = "sb\<lparr>amountOfLines := inc32 (amountOfLines sb)\<rparr>"
  let ?st = "st\<lparr>screenBufferPtr := Some ?sb, cursorAt_X := 0, cursorAt_Y := int (Suc y)\<rparr>"
  have ptr: "screenBufferPtr st = Some sb" using base by (simp add: screen_base_def)
  have adv: "advanced y ?st ?sb" using base yy by (auto simp: advanced_def screen_base_def buffer_wf_def geometry_def)
  have rows: "rows_upto ?sb y = scrollback st" by (simp add: scrollback_def ptr y_def rows_upto_def row_cong[of ?sb sb])
  have sc: "scrolls_to (tty_newline (maxStoredLines sb) (scrollback st)) ?st ?sb"
  proof (cases "Suc y < maxStoredLines sb")
    case True
    have "rendered_in ?st ?sb" using b True by (simp add: before_newline_def rendered_in_def y_def)
    with scroll_room[OF adv] True have "scrolls_to (rows_upto ?sb y @ [[]]) ?st ?sb" by simp
    moreover have "length (scrollback st) < maxStoredLines sb" using True by (simp add: rows[symmetric] rows_upto_def)
    ultimately show ?thesis by (simp only: rows tty_newline_def if_True)
  next
    case False
    with yy(2) have full: "Suc y = maxStoredLines ?sb" by simp
    have "\<not> length (scrollback st) < maxStoredLines sb" using full by (simp add: rows[symmetric] rows_upto_def)
    with scroll_full[OF adv full] show ?thesis by (simp only: rows tty_newline_def if_False)
  qed
  have nl: "newline st = handle_scroll ?st" using base yy(1) by (simp add: newline_def screen_base_def add.commute)
  have mv: "moved st ?st" by simp
  from sc show ?thesis unfolding scrolls_to_def nl by (auto dest: moved_trans[OF mv] simp del: of_nat_Suc)
qed

section \<open>Printing\<close>

lemma draw_char_effect:
  assumes base: "screen_base st sb" and e: "at_end st sb" and c: "c < 128"
  shows "\<exists>sb' fb. draw_char c (cursorAt_X st) (cursorAt_Y st) col act st =
      Some (st\<lparr>screenBufferPtr := Some sb', framebuffer := fb\<rparr>) \<and>
    screen_base (st\<lparr>screenBufferPtr := Some sb', framebuffer := fb\<rparr>) sb' \<and> same_shape sb sb' \<and>
    amountOfCells (lines sb' ! nat (cursorAt_Y st)) = Suc (nat (cursorAt_X st)) \<and>
    rows_upto sb' (nat (cursorAt_Y st)) = butlast (rows_upto sb (nat (cursorAt_Y st))) @
      [last (rows_upto sb (nat (cursorAt_Y st))) @ [\<lparr>color = col, cell_text = c, interactable = act\<rparr>]]"
proof -
  from store_char_effect[OF base e c, of col act] obtain sb' where
    s: "store_char c col act st = Some (st\<lparr>screenBufferPtr := Some sb'\<rparr>)" "screen_base (st\<lparr>screenBufferPtr := Some sb'\<rparr>) sb'"
    "same_shape sb sb'" "amountOfCells (lines sb' ! nat (cursorAt_Y st)) = Suc (nat (cursorAt_X st))"
    "rows_upto sb' (nat (cursorAt_Y st)) = butlast (rows_upto sb (nat (cursorAt_Y st))) @
      [last (rows_upto sb (nat (cursorAt_Y st))) @ [\<lparr>color = col, cell_text = c, interactable = act\<rparr>]]" by blast
  let ?s1 = "st\<lparr>screenBufferPtr := Some sb'\<rparr>" and ?ry = "cursorAt_Y st - int (startRenderLine sb')"
  have g1: "geometry ?s1" using s(2) by (simp add: screen_base_def)
  have x: "0 \<le> cursorAt_X st" "cursorAt_X st < MAX_CHARS ?s1" using e by (auto simp: at_end_def)
  have ry: "0 \<le> ?ry" "?ry < MAX_LINES ?s1"
    using s(2) g1 unfolding screen_base_def geometry_def by auto
  obtain fb where d: "draw_glyph c (cursorAt_X st) ?ry col ?s1 = Some (?s1\<lparr>framebuffer := fb\<rparr>)" "length fb = length (framebuffer ?s1)"
    using draw_glyph_total[OF g1 x ry c] by blast
  have "draw_char c (cursorAt_X st) (cursorAt_Y st) col act st = Some (?s1\<lparr>framebuffer := fb\<rparr>)"
    using base s(1) d(1) x(2) ry by (simp add: draw_char_def screen_base_def)
  moreover have "screen_base (?s1\<lparr>framebuffer := fb\<rparr>) sb'"
    using s(2) d(2) by (auto simp: screen_base_def geometry_def)
  ultimately show ?thesis using s(3-5) by blast
qed

text \<open>A character drawn at the end of its row and the cursor behind it: the row has grown by a cell, and it may be full.\<close>

definition typed_to :: "Cell \<Rightarrow> 'a screen_scheme \<Rightarrow> ScreenBuffer \<Rightarrow> 'a screen_scheme \<Rightarrow> ScreenBuffer \<Rightarrow> bool" where
  "typed_to cell st sb st' sb' \<longleftrightarrow> moved st st' \<and> screen_base st' sb' \<and> same_shape sb sb' \<and>
     cursorAt_X st' = cursorAt_X st + 1 \<and> cursorAt_Y st' = cursorAt_Y st \<and>
     cursorRendered_X st' = cursorAt_X st + 1 \<and> cursorRendered_Y st' = cursorAt_Y st \<and>
     amountOfCells (lines sb' ! nat (cursorAt_Y st)) = Suc (nat (cursorAt_X st)) \<and>
     scrollback st' = butlast (scrollback st) @ [last (scrollback st) @ [cell]]"

lemma char_typed:
  assumes base: "screen_base st sb" and rin: "rendered_in st sb" and e: "at_end st sb" and c: "c < 128"
  shows "\<exists>st' sb'. do {
       st \<leftarrow> draw_char c (cursorAt_X st) (cursorAt_Y st) col act st;
       update_cursor_render (st\<lparr>cursorAt_X := cursorAt_X st + 1\<rparr>) } = Some st' \<and>
     typed_to \<lparr>color = col, cell_text = c, interactable = act\<rparr> st sb st' sb'"
proof -
  from draw_char_effect[OF base e c, of col act] obtain sb' fb where
    d: "draw_char c (cursorAt_X st) (cursorAt_Y st) col act st = Some (st\<lparr>screenBufferPtr := Some sb', framebuffer := fb\<rparr>)"
    "screen_base (st\<lparr>screenBufferPtr := Some sb', framebuffer := fb\<rparr>) sb'" "same_shape sb sb'"
    "amountOfCells (lines sb' ! nat (cursorAt_Y st)) = Suc (nat (cursorAt_X st))"
    "rows_upto sb' (nat (cursorAt_Y st)) = butlast (rows_upto sb (nat (cursorAt_Y st))) @
      [last (rows_upto sb (nat (cursorAt_Y st))) @ [\<lparr>color = col, cell_text = c, interactable = act\<rparr>]]" by blast
  let ?s2 = "st\<lparr>screenBufferPtr := Some sb', framebuffer := fb\<rparr>"
  let ?s3 = "?s2\<lparr>cursorAt_X := cursorAt_X ?s2 + 1\<rparr>"
  have base3: "screen_base ?s3 sb'" using d(2) by (auto simp: screen_base_def geometry_def)
  have rin3: "rendered_in ?s3 sb'" using rin d(3) by (simp add: rendered_in_def same_shape_def)
  obtain fb' where up: "update_cursor_render ?s3 =
      Some (?s3\<lparr>framebuffer := fb', cursorRendered_X := cursorAt_X ?s3, cursorRendered_Y := cursorAt_Y ?s3\<rparr>)"
    "length fb' = length (framebuffer ?s3)" using update_cursor_base[OF base3 rin3] e by (auto simp: at_end_def)
  let ?s4 = "?s3\<lparr>framebuffer := fb', cursorRendered_X := cursorAt_X ?s3, cursorRendered_Y := cursorAt_Y ?s3\<rparr>"
  have "screen_base ?s4 sb'" by (rule base_rendered[OF base3 up(2)])
  moreover have "moved st ?s4" by (cases st) (simp add: moved_def)
  moreover have "scrollback ?s4 = rows_upto sb' (nat (cursorAt_Y st))" "scrollback st = rows_upto sb (nat (cursorAt_Y st))"
    using base by (simp_all add: scrollback_def screen_base_def)
  ultimately show ?thesis using d up(1) by (intro exI[of _ ?s4] exI[of _ sb']) (simp add: typed_to_def)
qed

text \<open>A full row is followed by a newline, which may start although the cursor stands behind the last cell.\<close>

lemma typed_full:
  assumes t: "typed_to cell st sb st' sb'" and x: "0 \<le> cursorAt_X st" "cursorAt_X st < MAX_CHARS st" and base: "screen_base st sb"
  shows "before_newline st' sb'"
proof -
  have "rendered_in st' sb'" if "Suc (nat (cursorAt_Y st')) < maxStoredLines sb'"
  proof -
    have f: "cursorRendered_X st' = cursorAt_X st + 1" "cursorRendered_Y st' = cursorAt_Y st" "cursorAt_Y st' = cursorAt_Y st"
      "MAX_CHARS st' = MAX_CHARS st" using t moved_fields(1) by (auto simp: typed_to_def)
    have yb: "cursorAt_Y st + 2 \<le> int (maxStoredLines sb')" "0 \<le> cursorAt_Y st"
      using that screen_base_y[OF base] f(3) by linarith+
    have "(cursorAt_Y st + 2) * MAX_CHARS st \<le> int (maxStoredLines sb') * MAX_CHARS st"
      using yb(1) x by (intro mult_right_mono) simp_all
    then have "cursorAt_Y st * MAX_CHARS st + 2 * MAX_CHARS st \<le> int (maxStoredLines sb') * MAX_CHARS st"
      by (simp add: distrib_right)
    with x yb show ?thesis unfolding rendered_in_def f by linarith
  qed
  with t show ?thesis by (simp add: before_newline_def typed_to_def)
qed

lemma print_step:
  assumes ok: "screen_ok st" and c: "c < 128"
  shows "\<exists>st'. do {
       st \<leftarrow> draw_char c (cursorAt_X st) (cursorAt_Y st) col act st;
       st \<leftarrow> update_cursor_render (st\<lparr>cursorAt_X := cursorAt_X st + 1\<rparr>);
       handle_automatic_newline st } = Some st' \<and> moved st st' \<and> screen_ok st' \<and> stored_lines st' = stored_lines st \<and>
     scrollback st' = tty_put (nat (MAX_CHARS st)) (stored_lines st)
       \<lparr>color = col, cell_text = c, interactable = act\<rparr> (scrollback st)"
proof -
  let ?c = "\<lparr>color = col, cell_text = c, interactable = act\<rparr>" and ?w = "nat (MAX_CHARS st)"
  from ok obtain sb where base: "screen_base st sb" and rin: "rendered_in st sb" and e: "at_end st sb"
    by (auto simp: screen_ok_def)
  from char_typed[OF base rin e c, of col act] obtain s4 sb' where
    run: "do {
       st \<leftarrow> draw_char c (cursorAt_X st) (cursorAt_Y st) col act st;
       update_cursor_render (st\<lparr>cursorAt_X := cursorAt_X st + 1\<rparr>) } = Some s4" and t: "typed_to ?c st sb s4 sb'" by blast
  then have base4: "screen_base s4 sb'" and mv: "moved st s4" and f4: "cursorAt_X s4 = cursorAt_X st + 1" "cursorAt_Y s4 = cursorAt_Y st"
      "cursorRendered_X s4 = cursorAt_X st + 1" "cursorRendered_Y s4 = cursorAt_Y st"
      "amountOfCells (lines sb' ! nat (cursorAt_Y st)) = Suc (nat (cursorAt_X st))"
    and rows: "scrollback s4 = butlast (scrollback st) @ [last (scrollback st) @ [?c]]" by (simp_all add: typed_to_def)
  have w: "MAX_CHARS s4 = MAX_CHARS st" by (rule moved_fields(1)[OF mv])
  have x: "0 \<le> cursorAt_X st" "cursorAt_X st < MAX_CHARS st" using e by (auto simp: at_end_def)
  have n: "stored_lines st = maxStoredLines sb" "stored_lines s4 = maxStoredLines sb" "maxStoredLines sb' = maxStoredLines sb"
    using base base4 t by (simp_all add: stored_lines_def screen_base_def typed_to_def same_shape_def)
  have "last (scrollback st) = row sb (nat (cursorAt_Y st))" using base by (simp add: scrollback_def rows_upto_def screen_base_def)
  then have "length (last (scrollback st)) = nat (cursorAt_X st)" using e by (simp add: at_end_def)
  then have put: "tty_put ?w (maxStoredLines sb) ?c (scrollback st) =
      (if Suc (nat (cursorAt_X st)) < ?w then scrollback s4 else tty_newline (maxStoredLines sb) (scrollback s4))"
    unfolding rows by (simp add: tty_put_def)
  have auto_nl: "do {
       st \<leftarrow> draw_char c (cursorAt_X st) (cursorAt_Y st) col act st;
       st \<leftarrow> update_cursor_render (st\<lparr>cursorAt_X := cursorAt_X st + 1\<rparr>);
       handle_automatic_newline st } = handle_automatic_newline s4"
    using run by (simp add: Option.bind_assoc[symmetric])
  show ?thesis
  proof (cases "cursorAt_X st + 1 < MAX_CHARS st")
    case True
    have "rendered_in s4 sb'" by (rule rendered_here[OF base4]) (use f4 w x True in simp_all)
    moreover have "at_end s4 sb'" using x True f4 w by (simp add: at_end_def)
    ultimately have "screen_ok s4" using base4 by (auto simp: screen_ok_def)
    moreover have "Suc (nat (cursorAt_X st)) < ?w" using True x(1) by simp
    ultimately show ?thesis using True auto_nl mv n put f4(1) w by (intro exI[of _ s4]) (simp add: handle_automatic_newline_def)
  next
    case False
    from newline_effect[OF typed_full[OF t x base]] obtain st' where "newline s4 = Some st'" "moved s4 st'" "screen_ok st'"
      "stored_lines st' = maxStoredLines sb'" "scrollback st' = tty_newline (maxStoredLines sb') (scrollback s4)" by blast
    moreover have "\<not> Suc (nat (cursorAt_X st)) < ?w" using False by simp
    ultimately show ?thesis using False auto_nl moved_trans[OF mv] n put f4(1) w by (intro exI[of _ st']) (simp add: handle_automatic_newline_def)
  qed
qed

lemma newline_step:
  assumes "screen_ok st"
  shows "\<exists>st'. newline st = Some st' \<and> moved st st' \<and> screen_ok st' \<and> stored_lines st' = stored_lines st \<and>
    cursorAt_X st' = 0 \<and> scrollback st' = tty_newline (stored_lines st) (scrollback st)"
proof -
  from assms obtain sb where b: "screen_base st sb" "rendered_in st sb" by (auto simp: screen_ok_def)
  then have "before_newline st sb" by (simp add: before_newline_def)
  moreover have "stored_lines st = maxStoredLines sb" using b(1) by (simp add: stored_lines_def screen_base_def)
  ultimately show ?thesis using newline_effect[of st sb] by auto
qed

definition tty_text :: "nat \<Rightarrow> nat \<Rightarrow> Color \<Rightarrow> bool \<Rightarrow> u8 list \<Rightarrow> Cell list list \<Rightarrow> Cell list list" where
  "tty_text w n col act s ls = foldl (\<lambda>ls c. tty_char w n col act c ls) ls s"

definition printable :: "u8 list \<Rightarrow> bool" where
  "printable s \<longleftrightarrow> (\<forall>c \<in> set s. c < 128)"

lemma print_chars_effect:
  assumes ok: "screen_ok st" and s: "cstr s txt" "printable s"
  shows "\<exists>st'. print_chars txt col act st = Some st' \<and> moved st st' \<and> screen_ok st' \<and> stored_lines st' = stored_lines st \<and>
    scrollback st' = tty_text (nat (MAX_CHARS st)) (stored_lines st) col act s (scrollback st)"
proof -
  let ?body = "\<lambda>i st. do {
         c \<leftarrow> rd txt i;
         if c = 0x0D then Some st
         else if c = 0x0A then newline st
         else do {
           st \<leftarrow> draw_char c (cursorAt_X st) (cursorAt_Y st) col act st;
           st \<leftarrow> update_cursor_render (st\<lparr>cursorAt_X := cursorAt_X st + 1\<rparr>);
           handle_automatic_newline st } }"
  let ?I = "\<lambda>i st'. moved st st' \<and> screen_ok st' \<and> stored_lines st' = stored_lines st \<and>
    scrollback st' = tty_text (nat (MAX_CHARS st)) (stored_lines st) col act (take i s) (scrollback st)"
  have "\<exists>s'. for_loop ?body 0 (length s) st = Some s' \<and> ?I (0 + length s) s'"
  proof (rule for_loop_rule[where I = ?I])
    show "?I 0 st" using ok by (simp add: tty_text_def)
  next
    fix i st1 assume i: "i < 0 + length s" and I: "?I i st1"
    then have ok1: "screen_ok st1" and mv: "moved st st1" by simp_all
    let ?c = "s ! i"
    have c: "?c < 128" using s(2) i by (simp add: printable_def)
    have r: "rd txt i = Some ?c" using cstr_rd[OF s(1)] i by simp
    have w: "MAX_CHARS st1 = MAX_CHARS st" by (rule moved_fields(1)[OF mv])
    have tk: "tty_text w n col act (take (Suc i) s) ls = tty_char w n col act ?c (tty_text w n col act (take i s) ls)" for w n ls
      using i by (simp add: tty_text_def take_Suc_conv_app_nth)
    show "\<exists>s'. ?body i st1 = Some s' \<and> ?I (Suc i) s'"
    proof (cases "?c = 0x0D \<or> ?c = 0x0A")
      case True
      then show ?thesis
        using newline_step[OF ok1] I r by (auto simp: tk tty_char_def intro: moved_trans)
    next
      case False
      then show ?thesis
        using print_step[OF ok1 c, of col act] I r by (auto simp: tk tty_char_def w intro: moved_trans)
    qed
  qed
  then show ?thesis using s(1) by (simp add: print_chars_def)
qed

end
