(* ===== verification/Terminal.thy ===== *)
theory Terminal
  imports ScreenSpec
begin

text \<open>
  The line editor of the terminal: \<^verbatim>\<open>kernel/terminal/terminal.cpp\<close> with
  \<^verbatim>\<open>cmd_history.cpp\<close> and the keyboard state of \<^verbatim>\<open>keyboard.cpp\<close>. The input line lives twice,
  in \<open>lineInputBuffer\<close> and in the cells of the screen line the cursor is on, and every
  editing operation changes both. The globals extend the screen's record. The rows of
  \<open>commandHistory\<close> are separate objects.
\<close>

record terminal = screen +
  lineInputLength :: nat
  lineInputBuffer :: "u8 list"
  lineInputCursorPos :: nat
  lineInputStart_X :: nat
  commandHistory :: "u8 list list"
  cmdHistCount :: nat
  goThroughHistoryCount :: nat
  shift :: bool
  isExtendedScancode :: bool
  currentPath :: "u8 list"

definition TERMINAL_BUFFER_SIZE :: nat where "TERMINAL_BUFFER_SIZE = 256"
definition MAX_COMMAND_HISTORY :: nat where "MAX_COMMAND_HISTORY = 100"

section \<open>The input line\<close>

definition reset_line_input :: "'a terminal_scheme \<Rightarrow> 'a terminal_scheme option" where
  "reset_line_input st = do {
     b \<leftarrow> wr (lineInputBuffer st) 0 0;
     Some (st\<lparr>lineInputLength := 0, lineInputCursorPos := 0, lineInputBuffer := b\<rparr>) }"

text \<open>Redrawing the line of the cursor, as the editing operations bracket it.\<close>

definition redraw_input_line :: "'a screen_scheme \<Rightarrow> 'a screen_scheme option" where
  "redraw_input_line st = do {
     st \<leftarrow> redraw_line (cursorAt_Y st) (st\<lparr>isRedrawing := True\<rparr>);
     Some (st\<lparr>isRedrawing := False\<rparr>) }"

definition clear_input_on_screen :: "'a terminal_scheme \<Rightarrow> 'a terminal_scheme option" where
  "clear_input_on_screen st = do {
     sb \<leftarrow> screenBufferPtr st;
     line \<leftarrow> get_screen_buffer_line sb (cursorAt_Y st);
     let totalCells = amountOfCells line;
     sb \<leftarrow> for_range (\<lambda>i sb. put_screen_buffer_cell sb line (int i)
             \<lparr>color = White, cell_text = 0, interactable = False\<rparr>)
       (lineInputStart_X st) (min totalCells (nat (MAX_CHARS st))) sb;
     sb \<leftarrow> put_screen_buffer_line sb (cursorAt_Y st) (line\<lparr>amountOfCells := lineInputStart_X st\<rparr>);
     st \<leftarrow> redraw_input_line (st\<lparr>screenBufferPtr := Some sb\<rparr>);
     update_cursor_render (st\<lparr>cursorAt_X := int (lineInputStart_X st), lineInputCursorPos := 0\<rparr>) }"

definition newTerminalInputLine :: "'a terminal_scheme \<Rightarrow> 'a terminal_scheme option" where
  "newTerminalInputLine st = do {
     linePrefix \<leftarrow> String_construct [Chars (currentPath st), Chars (ascii '' >> '' @ [0])];
     st \<leftarrow> print_inline linePrefix White st;
     Some (st\<lparr>lineInputStart_X := nat (cursorAt_X st)\<rparr>) }"

text \<open>The two halves of \<open>insert_char_at_cursor\<close>: the buffer, and the cells of the screen line. The
  loops run downwards from the end; iteration \<open>k\<close> handles index \<open>length - k\<close>.\<close>

definition insert_in_buffer :: "u8 \<Rightarrow> 'a terminal_scheme \<Rightarrow> 'a terminal_scheme option" where
  "insert_in_buffer c st = do {
     let n = lineInputLength st;
     let pos = lineInputCursorPos st;
     b \<leftarrow> for_range (\<lambda>k b. do { v \<leftarrow> rd b (n - k - 1); wr b (n - k) v }) 0 (n - pos) (lineInputBuffer st);
     b \<leftarrow> wr b pos c;
     b \<leftarrow> wr b (n + 1) 0;
     Some (st\<lparr>lineInputBuffer := b, lineInputLength := n + 1\<rparr>) }"

definition insert_in_line :: "u8 \<Rightarrow> 'a screen_scheme \<Rightarrow> 'a screen_scheme option" where
  "insert_in_line c st = do {
     sb \<leftarrow> screenBufferPtr st;
     line \<leftarrow> get_screen_buffer_line sb (cursorAt_Y st);
     let amount = int (amountOfCells line);
     sb \<leftarrow> for_range (\<lambda>k sb. do {
           v \<leftarrow> get_screen_buffer_cell sb line (amount - int k - 1);
           put_screen_buffer_cell sb line (amount - int k) v }) 0 (nat (amount - cursorAt_X st)) sb;
     sb \<leftarrow> put_screen_buffer_cell sb line (cursorAt_X st) \<lparr>color = White, cell_text = c, interactable = True\<rparr>;
     sb \<leftarrow> put_screen_buffer_line sb (cursorAt_Y st) (line\<lparr>amountOfCells := amountOfCells line + 1\<rparr>);
     Some (st\<lparr>screenBufferPtr := Some sb\<rparr>) }"

definition insert_char_at_cursor :: "u8 \<Rightarrow> 'a terminal_scheme \<Rightarrow> 'a terminal_scheme option" where
  "insert_char_at_cursor c st = do {
     st \<leftarrow> insert_in_buffer c st;
     st \<leftarrow> insert_in_line c st;
     let st = st\<lparr>lineInputCursorPos := lineInputCursorPos st + 1, cursorAt_X := cursorAt_X st + 1\<rparr>;
     let savedX = cursorAt_X st;
     st \<leftarrow> redraw_input_line st;
     update_cursor_render (st\<lparr>cursorAt_X := savedX\<rparr>) }"

definition cursor_move_inline :: "bool \<Rightarrow> 'a terminal_scheme \<Rightarrow> 'a terminal_scheme option" where
  "cursor_move_inline move_right st =
     (if move_right then
        if lineInputLength st \<le> lineInputCursorPos st then Some st
        else update_cursor_render (st\<lparr>cursorAt_X := cursorAt_X st + 1, lineInputCursorPos := lineInputCursorPos st + 1\<rparr>)
      else
        if lineInputCursorPos st = 0 then Some st
        else update_cursor_render (st\<lparr>cursorAt_X := cursorAt_X st - 1, lineInputCursorPos := lineInputCursorPos st - 1\<rparr>))"

definition delete_in_buffer :: "'a terminal_scheme \<Rightarrow> 'a terminal_scheme option" where
  "delete_in_buffer st = do {
     let n = lineInputLength st;
     b \<leftarrow> for_range (\<lambda>i b. do { v \<leftarrow> rd b (i + 1); wr b i v }) (lineInputCursorPos st - 1) (n - 1) (lineInputBuffer st);
     b \<leftarrow> wr b (n - 1) 0;
     Some (st\<lparr>lineInputBuffer := b, lineInputLength := n - 1\<rparr>) }"

definition delete_in_line :: "Line \<Rightarrow> 'a screen_scheme \<Rightarrow> 'a screen_scheme option" where
  "delete_in_line line st = do {
     sb \<leftarrow> screenBufferPtr st;
     let amount = int (amountOfCells line);
     let x = cursorAt_X st - 1;
     sb \<leftarrow> for_range (\<lambda>k sb. do {
           v \<leftarrow> get_screen_buffer_cell sb line (x + int k + 1);
           put_screen_buffer_cell sb line (x + int k) v }) 0 (nat (amount - 1 - x)) sb;
     last_cell \<leftarrow> get_screen_buffer_cell sb line (amount - 1);
     sb \<leftarrow> put_screen_buffer_cell sb line (amount - 1) (last_cell\<lparr>cell_text := 0, interactable := False\<rparr>);
     sb \<leftarrow> put_screen_buffer_line sb (cursorAt_Y st) (line\<lparr>amountOfCells := dec32 (amountOfCells line)\<rparr>);
     Some (st\<lparr>screenBufferPtr := Some sb\<rparr>) }"

definition handle_input_buffer_deletion :: "'a terminal_scheme \<Rightarrow> 'a terminal_scheme option" where
  "handle_input_buffer_deletion st =
     (if lineInputLength st = 0 then Some st
      else if lineInputCursorPos st = 0 then Some st
      else do {
        sb \<leftarrow> screenBufferPtr st;
        line \<leftarrow> get_screen_buffer_line sb (cursorAt_Y st);
        if cursorAt_X st \<le> 0 then Some st
        else do {
          cell \<leftarrow> get_screen_buffer_cell sb line (cursorAt_X st - 1);
          if \<not> interactable cell then Some st
          else do {
            st \<leftarrow> delete_in_buffer st;
            st \<leftarrow> delete_in_line line st;
            let st = st\<lparr>lineInputCursorPos := lineInputCursorPos st - 1, cursorAt_X := cursorAt_X st - 1\<rparr>;
            let savedX = cursorAt_X st;
            st \<leftarrow> redraw_input_line st;
            update_cursor_render (st\<lparr>cursorAt_X := savedX\<rparr>) } } })"

text \<open>The loop that moves the cursor to the end of the token is bounded by the rest of the line.\<close>

function move_to_token_end :: "nat \<Rightarrow> 'a terminal_scheme \<Rightarrow> 'a terminal_scheme option" where
  "move_to_token_end fuel st =
     (if lineInputCursorPos st < lineInputLength st then
        do { c \<leftarrow> rd (lineInputBuffer st) (lineInputCursorPos st);
             if c \<noteq> 0x20 then
               (case fuel of 0 \<Rightarrow> None
                | Suc fuel \<Rightarrow> do { st \<leftarrow> cursor_move_inline True st; move_to_token_end fuel st })
             else Some st }
      else Some st)"
  by pat_completeness auto
termination by (relation "measure fst") auto

declare move_to_token_end.simps [simp del]

definition replaceCurrentToken :: "u8 list \<Rightarrow> u8 list \<Rightarrow> 'a terminal_scheme \<Rightarrow> 'a terminal_scheme option" where
  "replaceCurrentToken oldToken newToken st = do {
     st \<leftarrow> move_to_token_end (lineInputLength st) st;
     n \<leftarrow> str_length oldToken;
     st \<leftarrow> for_range (\<lambda>_. handle_input_buffer_deletion) 0 n st;
     n \<leftarrow> str_length newToken;
     for_range (\<lambda>i st. do { c \<leftarrow> rd newToken i; insert_char_at_cursor c st }) 0 n st }"

section \<open>The command history\<close>

definition add_command_to_history :: "u8 list \<Rightarrow> 'a terminal_scheme \<Rightarrow> 'a terminal_scheme option" where
  "add_command_to_history command st = do {
     st \<leftarrow> (if MAX_COMMAND_HISTORY \<le> cmdHistCount st then do {
            h \<leftarrow> for_range (\<lambda>i h. do {
                  a \<leftarrow> rd h i;
                  b \<leftarrow> rd h (i + 1);
                  a \<leftarrow> str_copy a b;
                  wr h i a }) 0 (cmdHistCount st - 1) (commandHistory st);
            r \<leftarrow> rd h (cmdHistCount st - 1);
            r \<leftarrow> wr r 0 0;
            h \<leftarrow> wr h (cmdHistCount st - 1) r;
            Some (st\<lparr>commandHistory := h, cmdHistCount := cmdHistCount st - 1\<rparr>) }
          else Some st);
     r \<leftarrow> rd (commandHistory st) (cmdHistCount st);
     r \<leftarrow> str_copy r command;
     h \<leftarrow> wr (commandHistory st) (cmdHistCount st) r;
     Some (st\<lparr>commandHistory := h, cmdHistCount := cmdHistCount st + 1\<rparr>) }"

definition handle_show_history :: "'a terminal_scheme \<Rightarrow> 'a terminal_scheme option" where
  "handle_show_history st = do {
     st \<leftarrow> clear_input_on_screen st;
     r \<leftarrow> rd (commandHistory st) (cmdHistCount st - goThroughHistoryCount st);
     b \<leftarrow> str_copy (lineInputBuffer st) r;
     n \<leftarrow> str_length b;
     print_chars b White True (st\<lparr>lineInputBuffer := b, lineInputLength := n, lineInputCursorPos := n\<rparr>) }"

end
