(* ===== verification/Shell.thy ===== *)
theory Shell
  imports Keymap InfoText Terminal
begin

text \<open>
  The shell: \<^verbatim>\<open>shell/args.cpp\<close>, \<^verbatim>\<open>shell/autocomplete/autocomplete.cpp\<close>, the rest of
  \<^verbatim>\<open>terminal/terminal.cpp\<close> that dispatches the keys, and the scan code handler of
  \<^verbatim>\<open>io/keyboard/keyboard.cpp\<close>. The command table is a list without the terminating
  null entry, and a parameter here: the commands themselves are modelled apart.
\<close>

record 'a Command =
  name :: buffer
  execute :: "buffer \<Rightarrow> 'a terminal_scheme \<Rightarrow> 'a terminal_scheme option"

section \<open>Tokens and arguments\<close>

text \<open>The scan to the left of the cursor stops at a blank that is not under the cursor; index 0 is not looked at.\<close>

fun find_token_start :: "buffer \<Rightarrow> nat \<Rightarrow> nat \<Rightarrow> nat option" where
  "find_token_start inputBuffer cursor 0 = Some 0"
| "find_token_start inputBuffer cursor (Suc i) = do {
     c \<leftarrow> rd inputBuffer (Suc i);
     if c = 0x20 \<and> Suc i \<noteq> cursor then Some (Suc i) else find_token_start inputBuffer cursor i }"

definition getCurrTokenFromBuffer :: "nat \<Rightarrow> nat \<Rightarrow> buffer \<Rightarrow> buffer option" where
  "getCurrTokenFromBuffer inputBufferCursorAt_X inputBufferLength inputBuffer = do {
     tokenStartsAt \<leftarrow> find_token_start inputBuffer inputBufferCursorAt_X inputBufferCursorAt_X;
     let tokenStartsAt = (if tokenStartsAt \<noteq> 0 then tokenStartsAt + 1 else tokenStartsAt);
     retToken \<leftarrow> malloc_str (of_nat (inputBufferLength + 1));
     r \<leftarrow> for_until (\<lambda>i retToken. do {
           c \<leftarrow> rd inputBuffer i;
           if c = 0x20 then Some (Inl retToken)
           else do { retToken \<leftarrow> str_add_char retToken c; Some (Inr retToken) } })
         tokenStartsAt (inputBufferLength - tokenStartsAt) retToken;
     Some (case r of Inl retToken \<Rightarrow> retToken | Inr retToken \<Rightarrow> retToken) }"

text \<open>\<open>args\<close> points behind the first blank, which becomes the end of the command's name.\<close>

definition getInputArgs :: "nat \<Rightarrow> buffer \<Rightarrow> (buffer \<times> buffer) option" where
  "getInputArgs inputLength inputBuffer = do {
     r \<leftarrow> for_until (\<lambda>i (_ :: unit). do {
           c \<leftarrow> rd inputBuffer i;
           if c = 0x20 then do {
             b \<leftarrow> wr inputBuffer i 0;
             Some (Inl (drop (i + 1) b, b)) }
           else Some (Inr ()) }) 0 inputLength ();
     Some (case r of Inl v \<Rightarrow> v | Inr _ \<Rightarrow> (lit '''', inputBuffer)) }"

fun executeCommand :: "'a Command list \<Rightarrow> buffer \<Rightarrow> buffer \<Rightarrow> 'a terminal_scheme \<Rightarrow> (bool \<times> 'a terminal_scheme) option" where
  "executeCommand [] inputBuffer args st = Some (False, st)"
| "executeCommand (c # commands) inputBuffer args st = do {
     eq \<leftarrow> str_equal inputBuffer (name c);
     if eq then do {
       st \<leftarrow> newline st;
       st \<leftarrow> execute c args st;
       Some (True, st) }
     else executeCommand commands inputBuffer args st }"

section \<open>The input line\<close>

definition displayTerminalError :: "string_arg list \<Rightarrow> 'a terminal_scheme \<Rightarrow> 'a terminal_scheme option" where
  "displayTerminalError parts st = do {
     Text \<leftarrow> String_construct parts;
     st \<leftarrow> newline st;
     st \<leftarrow> printInfoLine Error Text st;
     reset_line_input st }"

definition processLineInputBuffer :: "'a Command list \<Rightarrow> 'a terminal_scheme \<Rightarrow> 'a terminal_scheme option" where
  "processLineInputBuffer commands st =
     (if lineInputLength st = 0 then do { st \<leftarrow> newline st; reset_line_input st }
      else if lineInputLength st \<ge> TERMINAL_BUFFER_SIZE then
        displayTerminalError [Chars (lit ''Command exceeds ''), Unsigned (of_nat TERMINAL_BUFFER_SIZE), Chars (lit '' chars'')] st
      else do {
        st \<leftarrow> add_command_to_history (lineInputBuffer st) st;
        (args, b) \<leftarrow> getInputArgs (lineInputLength st) (lineInputBuffer st);
        let st = st\<lparr>lineInputBuffer := b\<rparr>;
        (ok, st) \<leftarrow> executeCommand commands b args st;
        if ok then reset_line_input st
        else displayTerminalError [Chars (ascii ''Unknown Command: '' @ [0x27, 0]), Chars (lineInputBuffer st), Chars [0x27, 0]] st })"

section \<open>Completion\<close>

definition find_candidates :: "'a Command list \<Rightarrow> buffer \<Rightarrow> buffer list option" where
  "find_candidates commands currentToken =
     for_range (\<lambda>i cs. do {
         p \<leftarrow> str_starts_with (name (commands ! i)) currentToken;
         Some (if p then cs @ [name (commands ! i)] else cs) })
       0 (length commands) []"

definition show_candidates :: "buffer list \<Rightarrow> 'a terminal_scheme \<Rightarrow> 'a terminal_scheme option" where
  "show_candidates candidates st = do {
     st \<leftarrow> newline st;
     st \<leftarrow> for_range (\<lambda>i st. do {
           c \<leftarrow> rd candidates i;
           st \<leftarrow> print_chars c White False st;
           if i \<noteq> length candidates - 1 then print_chars (lit '' | '') White False st else Some st })
         0 (length candidates) st;
     st \<leftarrow> newline st;
     st \<leftarrow> newTerminalInputLine st;
     st \<leftarrow> print_chars (lineInputBuffer st) White True st;
     Some (st\<lparr>lineInputCursorPos := lineInputLength st\<rparr>) }"

definition handleTabAutoCompletion :: "'a Command list \<Rightarrow> 'a terminal_scheme \<Rightarrow> 'a terminal_scheme option" where
  "handleTabAutoCompletion commands st =
     (if lineInputLength st = 0 then Some st
      else do {
        currentToken \<leftarrow> getCurrTokenFromBuffer (lineInputCursorPos st) (lineInputLength st) (lineInputBuffer st);
        c \<leftarrow> rd currentToken 0;
        if c = 0 then Some st
        else do {
          candidates \<leftarrow> find_candidates commands currentToken;
          (case candidates of
             [] \<Rightarrow> Some st
           | [only] \<Rightarrow> replaceCurrentToken currentToken only st
           | _ \<Rightarrow> show_candidates candidates st) } })"

section \<open>Keys\<close>

text \<open>The key code is narrowed to a character.\<close>

definition handle_input_buffer_insertion :: "u16 \<Rightarrow> 'a terminal_scheme \<Rightarrow> 'a terminal_scheme option" where
  "handle_input_buffer_insertion key st =
     (let c = ucast key :: u8 in if c = 0 then Some st else insert_char_at_cursor c st)"

definition extended_key :: "u8 \<Rightarrow> 'a terminal_scheme \<Rightarrow> 'a terminal_scheme option" where
  "extended_key scancode st =
     (if scancode = 0x48 then
        (if cmdHistCount st = 0 then Some st
         else if goThroughHistoryCount st < cmdHistCount st
         then handle_show_history (st\<lparr>goThroughHistoryCount := goThroughHistoryCount st + 1\<rparr>)
         else Some st)
      else if scancode = 0x50 then
        (if goThroughHistoryCount st = 0 then Some st
         else let st = st\<lparr>goThroughHistoryCount := goThroughHistoryCount st - 1\<rparr>
              in if goThroughHistoryCount st = 0 then do { st \<leftarrow> clear_input_on_screen st; reset_line_input st }
                 else handle_show_history st)
      else if scancode = 0x4B then cursor_move_inline False st
      else if scancode = 0x4D then cursor_move_inline True st
      else Some st)"

definition terminal_on_key :: "'a Command list \<Rightarrow> u8 \<Rightarrow> 'a terminal_scheme \<Rightarrow> 'a terminal_scheme option" where
  "terminal_on_key commands scancode st = do {
     key \<leftarrow> scancode_to_keycode current_layout (shift st) scancode;
     if isExtendedScancode st then do {
       st \<leftarrow> extended_key scancode st;
       Some (st\<lparr>isExtendedScancode := False\<rparr>) }
     else if key = key_code KEY_ENTER then do {
       st \<leftarrow> processLineInputBuffer commands (st\<lparr>goThroughHistoryCount := 0\<rparr>);
       newTerminalInputLine st }
     else if key = key_code KEY_BACKSPACE then handle_input_buffer_deletion st
     else if key = key_code KEY_TAB then handleTabAutoCompletion commands st
     else handle_input_buffer_insertion key st }"

definition terminal_init :: "'a terminal_scheme \<Rightarrow> 'a terminal_scheme option" where
  "terminal_init st = do { st \<leftarrow> printTerminalHeader st; newTerminalInputLine st }"

text \<open>\<open>scancode\<close> is what the keyboard controller's port 0x60 delivers; the end of interrupt goes to port 0x20.\<close>

definition keyboard_handler :: "'a Command list \<Rightarrow> u8 \<Rightarrow> 'a terminal_scheme \<Rightarrow> 'a terminal_scheme option" where
  "keyboard_handler commands scancode st =
     (if scancode = 0x2A \<or> scancode = 0x36 then Some (st\<lparr>shift := True\<rparr>)
      else if scancode = 0xAA \<or> scancode = 0xB6 then Some (st\<lparr>shift := False\<rparr>)
      else if scancode = 0xE0 then Some (st\<lparr>isExtendedScancode := True\<rparr>)
      else if scancode AND 0x80 \<noteq> 0 then Some (st\<lparr>isExtendedScancode := False\<rparr>)
      else if scancode \<noteq> 0 then terminal_on_key commands scancode st
      else Some st)"

end
