(* ===== verification/TerminalSpec.thy ===== *)
theory TerminalSpec
  imports Terminal
begin

text \<open>
  The line editor against its specification: a text with a cursor, as the two parts
  before and behind the cursor. Every editing operation changes the input buffer and the
  cells of the screen line consistently, and nothing else of the screen.
\<close>

section \<open>Inserting and deleting in lists\<close>

lemma insert_list_eqI:
  assumes "length ys = length xs" and "n < length xs" and "p \<le> n"
    and "\<And>j. j \<le> n \<Longrightarrow> ys ! j = (if j = p then c else if p < j \<and> j \<le> n then xs ! (j - 1) else xs ! j)"
  shows "take (Suc n) ys = take p xs @ c # drop p (take n xs)"
proof (rule nth_equalityI)
  show "length (take (Suc n) ys) = length (take p xs @ c # drop p (take n xs))" using assms by simp
  fix j assume "j < length (take (Suc n) ys)"
  then have j: "j \<le> n" "j < length xs" using assms(1,2) by simp_all
  with assms show "take (Suc n) ys ! j = (take p xs @ c # drop p (take n xs)) ! j"
    by (auto simp: nth_append nth_Cons')
qed

lemma delete_list_eqI:
  assumes "length ys = length xs" and "n \<le> length xs" and "0 < n" and "p < n"
    and "\<And>j. j < n - 1 \<Longrightarrow> ys ! j = (if p \<le> j then xs ! Suc j else xs ! j)"
  shows "take (n - 1) ys = take p xs @ drop (Suc p) (take n xs)"
proof (rule nth_equalityI)
  show "length (take (n - 1) ys) = length (take p xs @ drop (Suc p) (take n xs))" using assms by simp
  fix j assume "j < length (take (n - 1) ys)"
  then have j: "j < n - 1" by simp
  with assms show "take (n - 1) ys ! j = (take p xs @ drop (Suc p) (take n xs)) ! j"
    by (auto simp: nth_append)
qed

section \<open>The buffer\<close>

lemma cstr_takeI:
  assumes "take (length s) b = s" and "length s < length b" and "b ! length s = 0" and "0 \<notin> set s"
  shows "cstr s b"
  using cstrI[OF assms(4), of "drop (Suc (length s)) b"] id_take_nth_drop[OF assms(2)] assms(1,3) by simp

lemma insert_in_buffer_effect:
  assumes s: "cstr s (lineInputBuffer st)" "length s = lineInputLength st" and p: "lineInputCursorPos st \<le> length s"
    and c: "c \<noteq> 0" and room: "Suc (length s) < length (lineInputBuffer st)"
  shows "\<exists>b. insert_in_buffer c st = Some (st\<lparr>lineInputBuffer := b, lineInputLength := Suc (length s)\<rparr>) \<and>
    length b = length (lineInputBuffer st) \<and>
    cstr (take (lineInputCursorPos st) s @ c # drop (lineInputCursorPos st) s) b"
proof -
  let ?b = "lineInputBuffer st" and ?n = "length s" and ?p = "lineInputCursorPos st"
  have hn: "?n < length ?b" "?n - ?p \<le> ?n" using room by simp_all
  obtain b1 where b1: "for_loop (\<lambda>k b. do { v \<leftarrow> rd b (?n - k - 1); wr b (?n - k) v }) 0 (?n - ?p) ?b = Some b1"
    "length b1 = length ?b" "\<forall>j. rd b1 j = (if ?n - (?n - ?p) < j \<and> j \<le> ?n then rd ?b (j - 1) else rd ?b j)"
    using buf.shift_up[OF hn] by blast
  define b2 where "b2 = b1[?p := c, Suc ?n := 0]"
  have ins: "insert_in_buffer c st = Some (st\<lparr>lineInputBuffer := b2, lineInputLength := Suc ?n\<rparr>)"
    using b1(1,2) p room s(2) by (simp add: insert_in_buffer_def Let_def b2_def)
  have nth1: "b1 ! j = (if ?p < j \<and> j \<le> ?n then ?b ! (j - 1) else ?b ! j)" if "j < length ?b" for j
    using spec[OF b1(3), of j] that b1(2) p by (auto split: if_splits)
  have "take (Suc ?n) b2 = take ?p ?b @ c # drop ?p (take ?n ?b)"
  proof (rule insert_list_eqI)
    show "b2 ! j = (if j = ?p then c else if ?p < j \<and> j \<le> ?n then ?b ! (j - 1) else ?b ! j)" if "j \<le> ?n" for j
      using that nth1[of j] b1(2) p room by (auto simp: b2_def nth_list_update)
  qed (use b1(2) p room in \<open>simp_all add: b2_def\<close>)
  moreover have "take ?n ?b = s" by (rule cstr_take[OF s(1)])
  moreover have "take ?p ?b = take ?p s" using p cstr_take[OF s(1)] by (metis min.absorb1 take_take)
  ultimately have "take (Suc ?n) b2 = take ?p s @ c # drop ?p s" by simp
  moreover have "0 \<notin> set (take ?p s @ c # drop ?p s)"
    using s(1) c by (auto simp: cstr_def dest: in_set_takeD in_set_dropD)
  ultimately have "cstr (take ?p s @ c # drop ?p s) b2"
    using p room b1(2) by (intro cstr_takeI) (simp_all add: b2_def)
  with ins b1(2) show ?thesis by (intro exI[of _ b2]) (simp add: b2_def)
qed

lemma delete_in_buffer_effect:
  assumes s: "cstr s (lineInputBuffer st)" "length s = lineInputLength st" and p: "lineInputCursorPos st \<le> length s"
    and pos: "0 < lineInputCursorPos st"
  shows "\<exists>b. delete_in_buffer st = Some (st\<lparr>lineInputBuffer := b, lineInputLength := length s - 1\<rparr>) \<and>
    length b = length (lineInputBuffer st) \<and>
    cstr (take (lineInputCursorPos st - 1) s @ drop (lineInputCursorPos st) s) b"
proof -
  let ?b = "lineInputBuffer st" and ?n = "length s" and ?p = "lineInputCursorPos st"
  have room: "?n < length ?b" by (rule cstr_length[OF s(1)])
  have n0: "s \<noteq> []" using p pos by auto
  have lo: "?p - 1 + (?n - ?p) < length ?b" using room p pos by simp
  obtain b1 where b1: "for_loop (\<lambda>k b. do { v \<leftarrow> rd b (?p - 1 + k + 1); wr b (?p - 1 + k) v }) 0 (?n - ?p) ?b = Some b1"
    "length b1 = length ?b" "\<forall>j. rd b1 j = (if ?p - 1 \<le> j \<and> j < ?p - 1 + (?n - ?p) then rd ?b (j + 1) else rd ?b j)"
    using buf.shift_down[OF lo] by blast
  have cnt: "?n - 1 - (?p - 1) = ?n - ?p" using pos by simp
  have "for_loop (\<lambda>i b. do { v \<leftarrow> rd b (i + 1); wr b i v }) (?p - 1) (?n - 1 - (?p - 1)) ?b = Some b1"
    using for_loop_shift[of "\<lambda>i (b :: u8 list). do { v \<leftarrow> rd b (i + 1); wr b i v }" "?p - 1" 0 "?n - ?p"] b1(1)
    unfolding cnt by simp
  then have del: "delete_in_buffer st = Some (st\<lparr>lineInputBuffer := b1[?n - 1 := 0], lineInputLength := ?n - 1\<rparr>)"
    using b1(2) room s(2) by (simp add: delete_in_buffer_def Let_def)
  define b2 where "b2 = b1[?n - 1 := 0]"
  have nth1: "b1 ! j = (if ?p - 1 \<le> j \<and> j < ?p - 1 + (?n - ?p) then ?b ! (j + 1) else ?b ! j)" if "j < ?n" for j
    using spec[OF b1(3), of j] that b1(2) room by (auto split: if_splits)
  have "take (?n - 1) b2 = take (?p - 1) ?b @ drop (Suc (?p - 1)) (take ?n ?b)"
  proof (rule delete_list_eqI)
    show "b2 ! j = (if ?p - 1 \<le> j then ?b ! Suc j else ?b ! j)" if "j < ?n - 1" for j
      using that nth1[of j] b1(2) p pos by (auto simp: b2_def)
  qed (use b1(2) p room pos n0 in \<open>simp_all add: b2_def\<close>)
  moreover have "take ?n ?b = s" by (rule cstr_take[OF s(1)])
  moreover have "take (?p - 1) ?b = take (?p - 1) s" using p cstr_take[OF s(1)] by (metis diff_le_self le_trans min.absorb1 take_take)
  ultimately have "take (?n - 1) b2 = take (?p - 1) s @ drop ?p s" using pos by simp
  moreover have "length (take (?p - 1) s @ drop ?p s) = ?n - 1" using p pos by simp
  moreover have "0 \<notin> set (take (?p - 1) s @ drop ?p s)"
    using s(1) by (auto simp: cstr_def dest: in_set_takeD in_set_dropD)
  moreover have "b2 ! (?n - 1) = 0" "?n - 1 < length b2" using b1(2) room by (simp_all add: b2_def)
  ultimately have "cstr (take (?p - 1) s @ drop ?p s) b2" by (intro cstr_takeI) simp_all
  with del b1(2) show ?thesis by (intro exI[of _ b2]) (simp add: b2_def)
qed

section \<open>The screen line\<close>

text \<open>The loops over the cells of a line are loops over the cell block.\<close>

lemma cell_loop:
  assumes "\<And>k. k < n \<Longrightarrow> int (cells line) + f k = int (f' k) \<and> int (cells line) + g k = int (g' k)"
  shows "for_loop (\<lambda>k sb. do { v \<leftarrow> get_screen_buffer_cell sb line (f k); put_screen_buffer_cell sb line (g k) v }) 0 n sb =
    map_option (\<lambda>cb. sb\<lparr>cellBlock := cb\<rparr>)
      (for_loop (\<lambda>k cb. do { v \<leftarrow> rd cb (f' k); wr cb (g' k) v }) 0 n (cellBlock sb))"
proof -
  have "for_loop (\<lambda>k sb. do { v \<leftarrow> get_screen_buffer_cell sb line (f k); put_screen_buffer_cell sb line (g k) v }) lo m sb =
    map_option (\<lambda>cb. sb\<lparr>cellBlock := cb\<rparr>)
      (for_loop (\<lambda>k cb. do { v \<leftarrow> rd cb (f' k); wr cb (g' k) v }) lo m (cellBlock sb))" if "lo + m \<le> n" for lo m sb
    using that
  proof (induction m arbitrary: lo sb)
    case (Suc m)
    have e: "int (cells line) + f lo = int (f' lo)" "int (cells line) + g lo = int (g' lo)"
      using assms[of lo] Suc.prems by simp_all
    show ?case
      using Suc.IH[of "Suc lo"] Suc.prems
      by (simp add: get_screen_buffer_cell_def put_screen_buffer_cell_def e option.map_comp comp_def
          split: Option.bind_splits)
  qed simp
  from this[of 0 n] show ?thesis by simp
qed

definition typed :: "u8 \<Rightarrow> Cell" where
  "typed c = \<lparr>color = White, cell_text = c, interactable = True\<rparr>"

lemma moved_cells:
  assumes "length cb' = length cb" and "\<And>j. \<exists>k. rd cb' j = rd cb k" and "\<forall>c \<in> set cb. P c"
  shows "\<forall>c \<in> set cb'. P c"
proof
  fix c assume "c \<in> set cb'"
  then obtain j where "j < length cb'" "cb' ! j = c" by (auto simp: in_set_conv_nth)
  then have "rd cb' j = Some c" by simp
  with assms(2) obtain k where "rd cb k = Some c" by metis
  with assms(3) show "P c" by (auto simp: rd_eq_Some_iff)
qed

text \<open>A new cell block and a new length of line \<open>y\<close>: the other rows stay when only cells of \<open>y\<close> change.\<close>

lemma edit_line_base:
  assumes base: "screen_base st sb" and y: "y = nat (cursorAt_Y st)" and n: "n \<le> nat (MAX_CHARS st)"
    and len: "length cb = length (cellBlock sb)" and p: "\<forall>c \<in> set cb. cell_text c < 128"
    and same: "\<forall>j z. j < maxStoredLines sb \<longrightarrow> z < nat (MAX_CHARS st) \<longrightarrow> j \<noteq> y \<longrightarrow>
      cb ! (j * nat (MAX_CHARS st) + z) = cellBlock sb ! (j * nat (MAX_CHARS st) + z)"
    and sb': "sb' = sb\<lparr>cellBlock := cb, lines := (lines sb)[y := (lines sb ! y)\<lparr>amountOfCells := n\<rparr>]\<rparr>"
  shows "screen_base (st\<lparr>screenBufferPtr := Some sb'\<rparr>) sb'" and "same_shape sb sb'"
    and "j < maxStoredLines sb \<Longrightarrow> j \<noteq> y \<Longrightarrow> row sb' j = row sb j"
    and "row sb' y = map (\<lambda>z. cb ! (y * nat (MAX_CHARS st) + z)) [0..<n]"
proof -
  note yy = screen_base_y[OF base]
  have wf: "buffer_wf (MAX_CHARS st) sb" using base unfolding screen_base_def by blast
  have ym: "y < length (lines sb)" using yy(2) wf y by (simp add: buffer_wf_def)
  have l: "lines sb' ! j = (if j = y then (lines sb ! y)\<lparr>amountOfCells := n\<rparr> else lines sb ! j)" for j
    using ym by (simp add: sb' nth_list_update)
  have m: "maxStoredLines sb' = maxStoredLines sb" "startRenderLine sb' = startRenderLine sb" "visibleLines sb' = visibleLines sb"
    "cellBlock sb' = cb" by (simp_all add: sb')
  show "same_shape sb sb'" by (simp add: same_shape_def m)
  have wf': "buffer_wf (MAX_CHARS st) sb'"
    using wf len p n yy(2) y by (auto simp: buffer_wf_def m l) (simp_all add: sb')
  have z: "amountOfCells (lines sb' ! i) = 0" if "cursorAt_Y st < int i" "i < maxStoredLines sb" for i
    using that base yy(1) y by (auto simp: screen_base_def l)
  show "screen_base (st\<lparr>screenBufferPtr := Some sb'\<rparr>) sb'"
    using base wf' z by (auto simp: screen_base_def geometry_def m)
  show "row sb' j = row sb j" if "j < maxStoredLines sb" "j \<noteq> y"
    using that line_wf[OF wf that(1)] by (intro row_eqI) (simp_all add: l m same)
  show "row sb' y = map (\<lambda>z. cb ! (y * nat (MAX_CHARS st) + z)) [0..<n]"
    using line_wf(2)[OF wf] yy(2) y by (simp add: row_def l m)
qed

lemma dec32_pos: "0 < n \<Longrightarrow> n < 2 ^ 32 \<Longrightarrow> dec32 n = n - 1"
  by (cases n) (simp_all add: dec32_def)

text \<open>An index of the block between two cells of row \<open>y\<close> belongs to row \<open>y\<close>.\<close>

lemma row_of_index:
  fixes w :: nat
  assumes "z < w" and "b \<le> w" and "y * w + a \<le> j * w + z" and "j * w + z < y * w + b"
  shows "j = y"
proof (rule ccontr)
  assume "j \<noteq> y"
  then consider "Suc j \<le> y" | "Suc y \<le> j" by linarith
  then show False
  proof cases
    case 1
    then have "Suc j * w \<le> y * w" by (rule mult_le_mono1)
    with assms(1,3) show ?thesis by simp
  next
    case 2
    then have "Suc y * w \<le> j * w" by (rule mult_le_mono1)
    with assms(2,4) show ?thesis by simp
  qed
qed

lemma rows_upto_edit:
  assumes "\<forall>j < y. row sb' j = row sb j"
  shows "rows_upto sb' y = butlast (rows_upto sb y) @ [row sb' y]"
  using assms by (simp add: rows_upto_def)

text \<open>The loops that move the rest of a row by a cell, in terms of rows and columns.\<close>

lemma row_shifted_up:
  assumes wf: "buffer_wf W sb" and y: "y < maxStoredLines sb" and xa: "x \<le> a" "a < nat W"
  obtains cb where "for_loop (\<lambda>k sb'. do {
        v \<leftarrow> get_screen_buffer_cell sb' (lines sb ! y) (int a - int k - 1);
        put_screen_buffer_cell sb' (lines sb ! y) (int a - int k) v }) 0 (a - x) sb = Some (sb\<lparr>cellBlock := cb\<rparr>)"
    "length cb = length (cellBlock sb)" "\<forall>c \<in> set cb. cell_text c < 128"
    "\<And>j z. j < maxStoredLines sb \<Longrightarrow> z < nat W \<Longrightarrow> cb ! (j * nat W + z) =
      (if j = y \<and> x < z \<and> z \<le> a then cellBlock sb ! (y * nat W + z - 1) else cellBlock sb ! (j * nat W + z))"
proof -
  define w where "w = nat W"
  note ln = line_wf[OF wf y, folded w_def]
  let ?hi = "y * w + a"
  have hi: "?hi < length (cellBlock sb)" "a - x \<le> ?hi" using cell_wf(3)[OF wf y] xa by (simp_all add: w_def)
  obtain cb where cb: "for_loop (\<lambda>k cb. do { v \<leftarrow> rd cb (?hi - k - 1); wr cb (?hi - k) v }) 0 (a - x) (cellBlock sb) = Some cb"
    "length cb = length (cellBlock sb)"
    "\<forall>j. rd cb j = (if ?hi - (a - x) < j \<and> j \<le> ?hi then rd (cellBlock sb) (j - 1) else rd (cellBlock sb) j)"
    using buf.shift_up[OF hi] by blast
  have loop: "for_loop (\<lambda>k sb'. do {
        v \<leftarrow> get_screen_buffer_cell sb' (lines sb ! y) (int a - int k - 1);
        put_screen_buffer_cell sb' (lines sb ! y) (int a - int k) v }) 0 (a - x) sb = Some (sb\<lparr>cellBlock := cb\<rparr>)"
    using cell_loop[of "a - x" "lines sb ! y" "\<lambda>k. int a - int k - 1" "\<lambda>k. ?hi - k - 1" "\<lambda>k. int a - int k" "\<lambda>k. ?hi - k" sb]
      ln(2) cb(1) by (simp add: of_nat_diff)
  have nth: "cb ! (j * w + z) = (if j = y \<and> x < z \<and> z \<le> a then cellBlock sb ! (y * w + z - 1) else cellBlock sb ! (j * w + z))"
    if "j < maxStoredLines sb" "z < w" for j z
  proof -
    have b: "j * w + z < length (cellBlock sb)" using cell_wf(3)[OF wf that[unfolded w_def]] by (simp add: w_def)
    have "?hi - (a - x) = y * w + x" using xa(1) by simp
    moreover have "y * w + x < j * w + z \<and> j * w + z \<le> y * w + a \<longleftrightarrow> j = y \<and> x < z \<and> z \<le> a"
      using row_of_index[OF that(2), of "Suc a" y x j] xa by (auto simp: w_def)
    ultimately show ?thesis using spec[OF cb(3), of "j * w + z"] b cb(2) by (auto split: if_splits)
  qed
  have "\<exists>k. rd cb j = rd (cellBlock sb) k" for j using cb(3) by auto
  from moved_cells[OF cb(2) this, of "\<lambda>c. cell_text c < 128"] wf have pr: "\<forall>c \<in> set cb. cell_text c < 128" by (simp add: buffer_wf_def)
  from that[OF loop cb(2) pr nth[unfolded w_def]] show thesis .
qed

lemma row_shifted_down:
  assumes wf: "buffer_wf W sb" and y: "y < maxStoredLines sb" and xa: "Suc x \<le> a" "a \<le> nat W"
  obtains cb where "for_loop (\<lambda>k sb'. do {
        v \<leftarrow> get_screen_buffer_cell sb' (lines sb ! y) (int x + int k + 1);
        put_screen_buffer_cell sb' (lines sb ! y) (int x + int k) v }) 0 (a - 1 - x) sb = Some (sb\<lparr>cellBlock := cb\<rparr>)"
    "length cb = length (cellBlock sb)" "\<forall>c \<in> set cb. cell_text c < 128"
    "\<And>j z. j < maxStoredLines sb \<Longrightarrow> z < nat W \<Longrightarrow> cb ! (j * nat W + z) =
      (if j = y \<and> x \<le> z \<and> z < a - 1 then cellBlock sb ! (y * nat W + Suc z) else cellBlock sb ! (j * nat W + z))"
proof -
  define w where "w = nat W"
  note ln = line_wf[OF wf y, folded w_def]
  let ?lo = "y * w + x"
  have lo: "?lo + (a - 1 - x) < length (cellBlock sb)" using cell_wf(3)[OF wf y, of "a - 1"] xa by (simp add: w_def)
  obtain cb where cb: "for_loop (\<lambda>k cb. do { v \<leftarrow> rd cb (?lo + k + 1); wr cb (?lo + k) v }) 0 (a - 1 - x) (cellBlock sb) = Some cb"
    "length cb = length (cellBlock sb)"
    "\<forall>j. rd cb j = (if ?lo \<le> j \<and> j < ?lo + (a - 1 - x) then rd (cellBlock sb) (j + 1) else rd (cellBlock sb) j)"
    using buf.shift_down[OF lo] by blast
  have loop: "for_loop (\<lambda>k sb'. do {
        v \<leftarrow> get_screen_buffer_cell sb' (lines sb ! y) (int x + int k + 1);
        put_screen_buffer_cell sb' (lines sb ! y) (int x + int k) v }) 0 (a - 1 - x) sb = Some (sb\<lparr>cellBlock := cb\<rparr>)"
    using cell_loop[of "a - 1 - x" "lines sb ! y" "\<lambda>k. int x + int k + 1" "\<lambda>k. ?lo + k + 1" "\<lambda>k. int x + int k" "\<lambda>k. ?lo + k" sb]
      ln(2) cb(1) by simp
  have nth: "cb ! (j * w + z) = (if j = y \<and> x \<le> z \<and> z < a - 1 then cellBlock sb ! (y * w + Suc z) else cellBlock sb ! (j * w + z))"
    if "j < maxStoredLines sb" "z < w" for j z
  proof -
    have b: "j * w + z < length (cellBlock sb)" using cell_wf(3)[OF wf that[unfolded w_def]] by (simp add: w_def)
    have "?lo + (a - 1 - x) = y * w + (a - 1)" using xa(1) by simp
    moreover have "?lo \<le> j * w + z \<and> j * w + z < y * w + (a - 1) \<longleftrightarrow> j = y \<and> x \<le> z \<and> z < a - 1"
      using row_of_index[OF that(2), of "a - 1" y x j] xa by (auto simp: w_def)
    ultimately show ?thesis using spec[OF cb(3), of "j * w + z"] b cb(2) lo by (auto split: if_splits)
  qed
  have "\<exists>k. rd cb j = rd (cellBlock sb) k" for j using cb(3) by auto
  from moved_cells[OF cb(2) this, of "\<lambda>c. cell_text c < 128"] wf have pr: "\<forall>c \<in> set cb. cell_text c < 128" by (simp add: buffer_wf_def)
  from that[OF loop cb(2) pr nth[unfolded w_def]] show thesis .
qed

lemma insert_in_line_effect:
  assumes base: "screen_base st sb" and x: "0 \<le> cursorAt_X st" "cursorAt_X st \<le> int (amountOfCells (lines sb ! nat (cursorAt_Y st)))"
    and a: "amountOfCells (lines sb ! nat (cursorAt_Y st)) < nat (MAX_CHARS st)" and c: "c < 128"
  shows "\<exists>sb'. insert_in_line c st = Some (st\<lparr>screenBufferPtr := Some sb'\<rparr>) \<and>
    screen_base (st\<lparr>screenBufferPtr := Some sb'\<rparr>) sb' \<and> same_shape sb sb' \<and>
    row sb' (nat (cursorAt_Y st)) = take (nat (cursorAt_X st)) (row sb (nat (cursorAt_Y st))) @
      typed c # drop (nat (cursorAt_X st)) (row sb (nat (cursorAt_Y st))) \<and>
    (\<forall>j < maxStoredLines sb. j \<noteq> nat (cursorAt_Y st) \<longrightarrow> row sb' j = row sb j)"
proof -
  define y x a w where "y = nat (cursorAt_Y st)" and "x = nat (cursorAt_X st)" and
    "a = amountOfCells (lines sb ! nat (cursorAt_Y st))" and "w = nat (MAX_CHARS st)"
  note yy = screen_base_y[OF base]
  have ptr: "screenBufferPtr st = Some sb" and wf: "buffer_wf (MAX_CHARS st) sb" using base unfolding screen_base_def by blast+
  have d: "cursorAt_Y st = int y" "cursorAt_X st = int x" "y < maxStoredLines sb" "x \<le> a" "a < w"
    using yy x assms(2-4) by (simp_all add: y_def x_def a_def w_def)
  note ln = line_wf[OF wf d(3), folded w_def]
  have am: "amountOfCells (lines sb ! y) = a" by (simp add: a_def y_def)
  have hi: "y * w + a < length (cellBlock sb)" using cell_wf(3)[OF wf d(3)] d(5) by (simp add: w_def)
  obtain cb1 where loop: "for_loop (\<lambda>k sb'. do {
        v \<leftarrow> get_screen_buffer_cell sb' (lines sb ! y) (int a - int k - 1);
        put_screen_buffer_cell sb' (lines sb ! y) (int a - int k) v }) 0 (a - x) sb = Some (sb\<lparr>cellBlock := cb1\<rparr>)"
    and cb1: "length cb1 = length (cellBlock sb)" "\<forall>c \<in> set cb1. cell_text c < 128"
    and nth1: "\<And>j z. j < maxStoredLines sb \<Longrightarrow> z < w \<Longrightarrow> cb1 ! (j * w + z) =
      (if j = y \<and> x < z \<and> z \<le> a then cellBlock sb ! (y * w + z - 1) else cellBlock sb ! (j * w + z))"
    using row_shifted_up[OF wf d(3,4)] d(5) unfolding w_def by blast
  define cb where "cb = cb1[y * w + x := typed c]"
  define sb' where "sb' = sb\<lparr>cellBlock := cb, lines := (lines sb)[y := (lines sb ! y)\<lparr>amountOfCells := Suc a\<rparr>]\<rparr>"
  have xb: "y * w + x < length cb1" using hi d(4) cb1(1) by simp
  have put: "put_screen_buffer_cell (sb\<lparr>cellBlock := cb1\<rparr>) (lines sb ! y) (int x) (typed c) = Some (sb\<lparr>cellBlock := cb\<rparr>)"
  proof -
    have "int (cells (lines sb ! y)) + int x = int (y * w + x)" by (simp add: ln(2))
    then show ?thesis using xb by (simp add: put_screen_buffer_cell_def cb_def del: of_nat_add of_nat_mult)
  qed
  have na: "nat (int a - int x) = a - x" using d(4) by linarith
  have ins: "insert_in_line c st = Some (st\<lparr>screenBufferPtr := Some sb'\<rparr>)"
    using ptr ln(1,4) loop put d(1,2) by (simp add: insert_in_line_def Let_def am typed_def put_screen_buffer_line_def sb'_def na)
  have nth: "cb ! (j * w + z) = (if j = y then if z = x then typed c else if x < z \<and> z \<le> a then cellBlock sb ! (y * w + (z - 1))
      else cellBlock sb ! (y * w + z) else cellBlock sb ! (j * w + z))"
    if "j < maxStoredLines sb" "z < w" for j z
    using nth1[OF that] xb cell_index_inject[of z w x j y] that d(4,5) by (auto simp: cb_def nth_list_update)
  have pr: "\<forall>c \<in> set cb. cell_text c < 128"
    using cb1(2) c by (auto simp: cb_def typed_def dest!: set_update_subset_insert[THEN subsetD])
  have len: "length cb = length (cellBlock sb)" using cb1(1) by (simp add: cb_def)
  have n: "Suc a \<le> nat (MAX_CHARS st)" using d(5) by (simp add: w_def)
  have same: "\<forall>j z. j < maxStoredLines sb \<longrightarrow> z < nat (MAX_CHARS st) \<longrightarrow> j \<noteq> y \<longrightarrow>
      cb ! (j * nat (MAX_CHARS st) + z) = cellBlock sb ! (j * nat (MAX_CHARS st) + z)"
    using nth by (auto simp: w_def)
  note ed = edit_line_base[OF base y_def n len pr same sb'_def]
  have "row sb' y = take (Suc a) (row sb' y)" by (simp add: ed(4))
  also have "\<dots> = take x (map (\<lambda>z. cellBlock sb ! (y * w + z)) [0..<Suc a]) @ typed c #
      drop x (take a (map (\<lambda>z. cellBlock sb ! (y * w + z)) [0..<Suc a]))"
  proof (rule insert_list_eqI)
    show "row sb' y ! j = (if j = x then typed c
        else if x < j \<and> j \<le> a then map (\<lambda>z. cellBlock sb ! (y * w + z)) [0..<Suc a] ! (j - 1)
        else map (\<lambda>z. cellBlock sb ! (y * w + z)) [0..<Suc a] ! j)" if "j \<le> a" for j
    proof -
      have "row sb' y ! j = cb ! (y * w + j)" using that by (simp add: ed(4) w_def[symmetric] del: upt_Suc)
      moreover have "map (\<lambda>z. cellBlock sb ! (y * w + z)) [0..<Suc a] ! k = cellBlock sb ! (y * w + k)" if "k \<le> a" for k
        using that by (simp del: upt_Suc)
      ultimately show ?thesis using nth[of y j] d(3,5) that by simp
    qed
  qed (use d(4) in \<open>simp_all add: ed(4)\<close>)
  also have "take a (map (\<lambda>z. cellBlock sb ! (y * w + z)) [0..<Suc a]) = row sb y"
    by (simp add: row_def am ln(2) take_map)
  also have "take x (map (\<lambda>z. cellBlock sb ! (y * w + z)) [0..<Suc a]) = take x (row sb y)"
    using d(4) by (simp add: row_def am ln(2) take_map del: upt_Suc)
  finally have "row sb' y = take x (row sb y) @ typed c # drop x (row sb y)" .
  with ins ed(1-3) show ?thesis
    by (intro exI[of _ sb']) (auto simp: y_def[symmetric] x_def[symmetric])
qed

lemma delete_in_line_effect:
  assumes base: "screen_base st sb" and x: "0 < cursorAt_X st" "cursorAt_X st \<le> int (amountOfCells (lines sb ! nat (cursorAt_Y st)))"
  shows "\<exists>sb'. delete_in_line (lines sb ! nat (cursorAt_Y st)) st = Some (st\<lparr>screenBufferPtr := Some sb'\<rparr>) \<and>
    screen_base (st\<lparr>screenBufferPtr := Some sb'\<rparr>) sb' \<and> same_shape sb sb' \<and>
    row sb' (nat (cursorAt_Y st)) = take (nat (cursorAt_X st) - 1) (row sb (nat (cursorAt_Y st))) @
      drop (nat (cursorAt_X st)) (row sb (nat (cursorAt_Y st))) \<and>
    (\<forall>j < maxStoredLines sb. j \<noteq> nat (cursorAt_Y st) \<longrightarrow> row sb' j = row sb j)"
proof -
  define y x a w where "y = nat (cursorAt_Y st)" and "x = nat (cursorAt_X st) - 1" and
    "a = amountOfCells (lines sb ! nat (cursorAt_Y st))" and "w = nat (MAX_CHARS st)"
  note yy = screen_base_y[OF base]
  have ptr: "screenBufferPtr st = Some sb" and wf: "buffer_wf (MAX_CHARS st) sb" using base unfolding screen_base_def by blast+
  have d: "cursorAt_Y st = int y" "cursorAt_X st = int (Suc x)" "y < maxStoredLines sb" "Suc x \<le> a"
    using yy x by (simp_all add: y_def x_def a_def)
  note ln = line_wf[OF wf d(3), folded w_def]
  have am: "amountOfCells (lines sb ! y) = a" by (simp add: a_def y_def)
  have aw: "a \<le> w" using ln(3) by (simp add: am)
  obtain cb1 where loop: "for_loop (\<lambda>k sb'. do {
        v \<leftarrow> get_screen_buffer_cell sb' (lines sb ! y) (int x + int k + 1);
        put_screen_buffer_cell sb' (lines sb ! y) (int x + int k) v }) 0 (a - 1 - x) sb = Some (sb\<lparr>cellBlock := cb1\<rparr>)"
    and cb1: "length cb1 = length (cellBlock sb)" "\<forall>c \<in> set cb1. cell_text c < 128"
    and nth1: "\<And>j z. j < maxStoredLines sb \<Longrightarrow> z < w \<Longrightarrow> cb1 ! (j * w + z) =
      (if j = y \<and> x \<le> z \<and> z < a - 1 then cellBlock sb ! (y * w + Suc z) else cellBlock sb ! (j * w + z))"
    using row_shifted_down[OF wf d(3,4)] aw unfolding w_def by blast
  let ?l = "y * w + (a - 1)"
  have lb: "?l < length cb1" using cell_wf(3)[OF wf d(3), of "a - 1"] d(4) aw cb1(1) by (simp add: w_def)
  define cb where "cb = cb1[?l := (cb1 ! ?l)\<lparr>cell_text := 0, interactable := False\<rparr>]"
  define sb' where "sb' = sb\<lparr>cellBlock := cb, lines := (lines sb)[y := (lines sb ! y)\<lparr>amountOfCells := a - 1\<rparr>]\<rparr>"
  have ca: "int (cells (lines sb ! y)) + (int a - 1) = int ?l" using d(4) by (simp add: ln(2))
  have get: "get_screen_buffer_cell (sb\<lparr>cellBlock := cb1\<rparr>) (lines sb ! y) (int a - 1) = Some (cb1 ! ?l)"
    using lb by (simp add: get_screen_buffer_cell_def ca del: of_nat_add of_nat_mult)
  have put: "put_screen_buffer_cell (sb\<lparr>cellBlock := cb1\<rparr>) (lines sb ! y) (int a - 1)
      ((cb1 ! ?l)\<lparr>cell_text := 0, interactable := False\<rparr>) = Some (sb\<lparr>cellBlock := cb\<rparr>)"
    using lb by (simp add: put_screen_buffer_cell_def ca cb_def del: of_nat_add of_nat_mult)
  have na: "nat (int a - 1 - int x) = a - 1 - x" "cursorAt_X st - 1 = int x" using d(2,4) by linarith+
  have "w < 2 ^ 31" using base by (auto simp: screen_base_def geometry_def w_def)
  then have dc: "dec32 a = a - 1" using aw d(4) by (intro dec32_pos) simp_all
  have del: "delete_in_line (lines sb ! y) st = Some (st\<lparr>screenBufferPtr := Some sb'\<rparr>)"
    using ptr ln(4) loop get put d(1,2) by (simp add: delete_in_line_def Let_def am put_screen_buffer_line_def sb'_def na dc)
  have nth: "cb ! (j * w + z) = (if j = y \<and> x \<le> z then cellBlock sb ! (y * w + Suc z) else cellBlock sb ! (j * w + z))"
    if "j < maxStoredLines sb" "z < w" "j = y \<Longrightarrow> z < a - 1" for j z
  proof -
    have "a - 1 < w" using d(4) aw by linarith
    from cell_index_inject[OF that(2) this, of j y] show ?thesis
      using nth1[OF that(1,2)] lb that by (auto simp: cb_def)
  qed
  have pr: "\<forall>c \<in> set cb. cell_text c < 128"
    using cb1(2) lb by (auto simp: cb_def dest!: set_update_subset_insert[THEN subsetD])
  have len: "length cb = length (cellBlock sb)" using cb1(1) by (simp add: cb_def)
  have n: "a - 1 \<le> nat (MAX_CHARS st)" using aw by (simp add: w_def)
  have same: "\<forall>j z. j < maxStoredLines sb \<longrightarrow> z < nat (MAX_CHARS st) \<longrightarrow> j \<noteq> y \<longrightarrow>
      cb ! (j * nat (MAX_CHARS st) + z) = cellBlock sb ! (j * nat (MAX_CHARS st) + z)"
    using nth by (auto simp: w_def)
  note ed = edit_line_base[OF base y_def n len pr same sb'_def]
  let ?xs = "map (\<lambda>z. cellBlock sb ! (y * w + z)) [0..<a]"
  have rw: "row sb y = ?xs" by (simp add: row_def am ln(2))
  have "row sb' y = take (a - 1) (row sb' y)" by (simp add: ed(4))
  also have "\<dots> = take x ?xs @ drop (Suc x) (take a ?xs)"
  proof -
    have "take (a - 1) (row sb' y @ [undefined]) = take x ?xs @ drop (Suc x) (take a ?xs)"
    proof (rule delete_list_eqI)
      show "(row sb' y @ [undefined]) ! j = (if x \<le> j then ?xs ! Suc j else ?xs ! j)" if "j < a - 1" for j
        using nth[of y j] d(3,4) aw that by (simp add: ed(4) nth_append w_def[symmetric])
    qed (use d(4) in \<open>simp_all add: ed(4)\<close>)
    moreover have "min (a - 1) x = x" using d(4) by simp
    ultimately show ?thesis by (simp add: ed(4))
  qed
  finally have "row sb' y = take x (row sb y) @ drop (Suc x) (row sb y)" by (simp add: rw)
  moreover have "nat (cursorAt_X st) - 1 = x" "nat (cursorAt_X st) = Suc x" using d(2) by (simp_all add: x_def)
  ultimately show ?thesis using del ed(1-3)
    by (intro exI[of _ sb']) (auto simp: y_def[symmetric])
qed

section \<open>The editor\<close>

text \<open>The specification: the text before the cursor and the text behind it.\<close>

datatype edit = Insert u8 | Backspace | CursorLeft | CursorRight

fun edit_text :: "edit \<Rightarrow> u8 list \<times> u8 list \<Rightarrow> u8 list \<times> u8 list" where
  "edit_text (Insert c) (l, r) = (l @ [c], r)"
| "edit_text Backspace (l, r) = (butlast l, r)"
| "edit_text CursorLeft (l, r) = (if l = [] then (l, r) else (butlast l, last l # r))"
| "edit_text CursorRight (l, r) = (case r of [] \<Rightarrow> (l, r) | c # r \<Rightarrow> (l @ [c], r))"

fun exec_edit :: "edit \<Rightarrow> 'a terminal_scheme \<Rightarrow> 'a terminal_scheme option" where
  "exec_edit (Insert c) st = insert_char_at_cursor c st"
| "exec_edit Backspace st = handle_input_buffer_deletion st"
| "exec_edit CursorLeft st = cursor_move_inline False st"
| "exec_edit CursorRight st = cursor_move_inline True st"

text \<open>The state while a line is edited: behind \<open>prompt\<close>, the screen line holds the text \<open>l @ r\<close>, as the
  input buffer does, and the cursor is behind \<open>l\<close>.\<close>

definition editing :: "Cell list list \<Rightarrow> Cell list \<Rightarrow> u8 list \<Rightarrow> u8 list \<Rightarrow> 'a terminal_scheme \<Rightarrow> bool" where
  "editing older prompt l r st \<longleftrightarrow> (\<exists>sb. screen_base st sb \<and> rendered_in st sb \<and>
     rows_upto sb (nat (cursorAt_Y st)) = older @ [prompt @ map typed (l @ r)] \<and>
     int (length prompt + length (l @ r)) < MAX_CHARS st \<and> cursorAt_X st = int (length prompt + length l) \<and>
     lineInputStart_X st = length prompt \<and> lineInputCursorPos st = length l \<and> lineInputLength st = length (l @ r) \<and>
     length (lineInputBuffer st) = TERMINAL_BUFFER_SIZE \<and> cstr (l @ r) (lineInputBuffer st))"

text \<open>What the operations on the line leave as it is.\<close>

definition kept :: "'a terminal_scheme \<Rightarrow> 'a terminal_scheme \<Rightarrow> bool" where
  "kept st st' \<longleftrightarrow> MAX_CHARS st' = MAX_CHARS st \<and> commandHistory st' = commandHistory st \<and> cmdHistCount st' = cmdHistCount st \<and>
     goThroughHistoryCount st' = goThroughHistoryCount st \<and> shift st' = shift st \<and>
     isExtendedScancode st' = isExtendedScancode st \<and> currentPath st' = currentPath st \<and> terminal.more st' = terminal.more st"

lemma kept_refl [simp]: "kept st st"
  by (simp add: kept_def)

lemma kept_trans [trans]: "kept a b \<Longrightarrow> kept b c \<Longrightarrow> kept a c"
  by (simp add: kept_def)

lemma kept_MAX_CHARS: "kept st st' \<Longrightarrow> MAX_CHARS st' = MAX_CHARS st"
  by (simp add: kept_def)

lemma redraw_input_total:
  assumes base: "screen_base st sb"
  shows "\<exists>fb. redraw_input_line st = Some (st\<lparr>framebuffer := fb, cursorAt_X := MAX_CHARS st\<rparr>) \<and>
    length fb = length (framebuffer st)"
proof -
  let ?st = "st\<lparr>isRedrawing := True\<rparr>"
  note y = screen_base_y[OF base]
  have g: "geometry ?st" and u: "\<not> isRedrawing st" and sb: "screenBufferPtr ?st = Some sb" "buffer_wf (MAX_CHARS ?st) sb"
    using base by (auto simp: screen_base_def geometry_def)
  from redraw_line_total[OF g _ sb y(2)] obtain fb where
    r: "redraw_line (int (nat (cursorAt_Y st))) ?st = Some (?st\<lparr>framebuffer := fb, cursorAt_X := MAX_CHARS ?st, cursorAt_Y := int (nat (cursorAt_Y st))\<rparr>)"
    "length fb = length (framebuffer ?st)" by auto
  have "st\<lparr>isRedrawing := True, framebuffer := fb, cursorAt_X := x, cursorAt_Y := cursorAt_Y st, isRedrawing := False\<rparr> =
      st\<lparr>framebuffer := fb, cursorAt_X := x\<rparr>" for x using u by (cases st) simp
  with r y(1) show ?thesis by (intro exI[of _ fb]) (simp add: redraw_input_line_def)
qed

text \<open>The last steps of every edit: redraw the line, put the cursor back, render it.\<close>

lemma finish_edit:
  fixes st :: "'a terminal_scheme"
  assumes base: "screen_base st sb" and rin: "rendered_in st sb" and x: "0 \<le> cursorAt_X st" "cursorAt_X st < MAX_CHARS st"
  shows "\<exists>fb. do { st' \<leftarrow> redraw_input_line st; update_cursor_render (st'\<lparr>cursorAt_X := cursorAt_X st\<rparr>) } =
      Some (st\<lparr>framebuffer := fb, cursorRendered_X := cursorAt_X st, cursorRendered_Y := cursorAt_Y st\<rparr>) \<and>
    screen_base (st\<lparr>framebuffer := fb, cursorRendered_X := cursorAt_X st, cursorRendered_Y := cursorAt_Y st\<rparr>) sb \<and>
    rendered_in (st\<lparr>framebuffer := fb, cursorRendered_X := cursorAt_X st, cursorRendered_Y := cursorAt_Y st\<rparr>) sb"
proof -
  obtain fb1 where r: "redraw_input_line st = Some (st\<lparr>framebuffer := fb1, cursorAt_X := MAX_CHARS st\<rparr>)"
    "length fb1 = length (framebuffer st)" using redraw_input_total[OF base] by blast
  let ?s1 = "st\<lparr>framebuffer := fb1, cursorAt_X := cursorAt_X st\<rparr>"
  have s1: "?s1 = st\<lparr>framebuffer := fb1\<rparr>" by (cases st) simp
  have base1: "screen_base ?s1 sb" using base r(2) by (auto simp: screen_base_def geometry_def)
  have rin1: "rendered_in ?s1 sb" using rin by (simp add: rendered_in_def)
  obtain fb where up: "update_cursor_render ?s1 =
      Some (?s1\<lparr>framebuffer := fb, cursorRendered_X := cursorAt_X ?s1, cursorRendered_Y := cursorAt_Y ?s1\<rparr>)"
    "length fb = length (framebuffer ?s1)" using update_cursor_base[OF base1 rin1] x(1) by auto
  have l: "length fb = length (framebuffer st)" using up(2) r(2) by simp
  note b2 = base_rendered[OF base l, where rx = "cursorAt_X st" and ry = "cursorAt_Y st"]
  have "rendered_in (st\<lparr>framebuffer := fb, cursorRendered_X := cursorAt_X st, cursorRendered_Y := cursorAt_Y st\<rparr>) sb"
    by (rule rendered_here[OF b2]) (use x in simp_all)
  with b2 r(1) up(1) show ?thesis by (intro exI[of _ fb]) (simp add: s1)
qed

lemma editing_row:
  assumes "screen_base st sb" and "rows_upto sb (nat (cursorAt_Y st)) = older @ [rw]"
  shows "row sb (nat (cursorAt_Y st)) = rw" "amountOfCells (lines sb ! nat (cursorAt_Y st)) = length rw"
    "butlast (rows_upto sb (nat (cursorAt_Y st))) = older"
proof -
  have "row sb (nat (cursorAt_Y st)) = last (rows_upto sb (nat (cursorAt_Y st)))" by (simp add: rows_upto_def)
  then show r: "row sb (nat (cursorAt_Y st)) = rw" by (simp add: assms(2))
  show "amountOfCells (lines sb ! nat (cursorAt_Y st)) = length rw" using length_row[of sb "nat (cursorAt_Y st)"] unfolding r by simp
  show "butlast (rows_upto sb (nat (cursorAt_Y st))) = older" by (simp add: assms(2))
qed

lemma screen_base_more:
  "screen_base (st\<lparr>lineInputBuffer := b, lineInputLength := n\<rparr>) sb = screen_base st sb"
  "screen_base (st\<lparr>lineInputCursorPos := p\<rparr>) sb = screen_base st sb"
  "screen_base (st\<lparr>cursorAt_X := x\<rparr>) sb = screen_base st sb"
  "rendered_in (st\<lparr>lineInputBuffer := b, lineInputLength := n\<rparr>) sb = rendered_in st sb"
  "rendered_in (st\<lparr>lineInputCursorPos := p\<rparr>) sb = rendered_in st sb"
  "rendered_in (st\<lparr>cursorAt_X := x\<rparr>) sb = rendered_in st sb"
  by (simp_all add: screen_base_def geometry_def rendered_in_def)

lemma editing_insert:
  assumes ed: "editing older prompt l r st" and c: "c \<noteq> 0" "c < 128"
    and room: "Suc (length (l @ r)) < TERMINAL_BUFFER_SIZE" "int (length prompt + Suc (length (l @ r))) < MAX_CHARS st"
  shows "\<exists>st'. insert_char_at_cursor c st = Some st' \<and> editing older prompt (l @ [c]) r st' \<and> kept st st'"
proof -
  let ?y = "nat (cursorAt_Y st)"
  from ed obtain sb where base: "screen_base st sb" and rin: "rendered_in st sb"
    and rows: "rows_upto sb ?y = older @ [prompt @ map typed (l @ r)]"
    and x: "cursorAt_X st = int (length prompt + length l)" and start: "lineInputStart_X st = length prompt"
    and pos: "lineInputCursorPos st = length l" and n: "lineInputLength st = length (l @ r)"
    and b: "length (lineInputBuffer st) = TERMINAL_BUFFER_SIZE" "cstr (l @ r) (lineInputBuffer st)"
    unfolding editing_def by blast
  note rw = editing_row[OF base rows]
  obtain b' where ib: "insert_in_buffer c st = Some (st\<lparr>lineInputBuffer := b', lineInputLength := Suc (length (l @ r))\<rparr>)"
    "length b' = length (lineInputBuffer st)" "cstr (l @ c # r) b'"
    using insert_in_buffer_effect[OF b(2) n[symmetric] _ c(1)] pos room(1) b(1) by auto
  let ?s1 = "st\<lparr>lineInputBuffer := b', lineInputLength := Suc (length (l @ r))\<rparr>"
  have base1: "screen_base ?s1 sb" using base by (simp only: screen_base_more)
  have x1: "0 \<le> cursorAt_X ?s1" "cursorAt_X ?s1 \<le> int (amountOfCells (lines sb ! nat (cursorAt_Y ?s1)))"
    "amountOfCells (lines sb ! nat (cursorAt_Y ?s1)) < nat (MAX_CHARS ?s1)"
    using x rw(2) room(2) by simp_all
  obtain sb' where il: "insert_in_line c ?s1 = Some (?s1\<lparr>screenBufferPtr := Some sb'\<rparr>)"
    "screen_base (?s1\<lparr>screenBufferPtr := Some sb'\<rparr>) sb'" "same_shape sb sb'"
    "row sb' ?y = take (nat (cursorAt_X st)) (row sb ?y) @ typed c # drop (nat (cursorAt_X st)) (row sb ?y)"
    "\<forall>j < maxStoredLines sb. j \<noteq> ?y \<longrightarrow> row sb' j = row sb j"
    using insert_in_line_effect[OF base1 x1 c(2)] by auto
  let ?s2 = "?s1\<lparr>screenBufferPtr := Some sb'\<rparr>"
  let ?s3 = "?s2\<lparr>lineInputCursorPos := lineInputCursorPos ?s2 + 1, cursorAt_X := cursorAt_X ?s2 + 1\<rparr>"
  have base3: "screen_base ?s3 sb'" using il(2) by (simp only: screen_base_more)
  have rin3: "rendered_in ?s3 sb'" using rin il(3) by (simp add: rendered_in_def same_shape_def)
  have x3: "0 \<le> cursorAt_X ?s3" "cursorAt_X ?s3 < MAX_CHARS ?s3" using x room(2) by simp_all
  from finish_edit[OF base3 rin3 x3] obtain fb where fin:
    "do { st' \<leftarrow> redraw_input_line ?s3; update_cursor_render (st'\<lparr>cursorAt_X := cursorAt_X ?s3\<rparr>) } =
      Some (?s3\<lparr>framebuffer := fb, cursorRendered_X := cursorAt_X ?s3, cursorRendered_Y := cursorAt_Y ?s3\<rparr>)"
    "screen_base (?s3\<lparr>framebuffer := fb, cursorRendered_X := cursorAt_X ?s3, cursorRendered_Y := cursorAt_Y ?s3\<rparr>) sb'"
    "rendered_in (?s3\<lparr>framebuffer := fb, cursorRendered_X := cursorAt_X ?s3, cursorRendered_Y := cursorAt_Y ?s3\<rparr>) sb'" by blast
  let ?s4 = "?s3\<lparr>framebuffer := fb, cursorRendered_X := cursorAt_X ?s3, cursorRendered_Y := cursorAt_Y ?s3\<rparr>"
  have run: "insert_char_at_cursor c st = Some ?s4"
    using ib(1) il(1) fin(1) by (simp add: insert_char_at_cursor_def)
  have row': "row sb' ?y = prompt @ map typed ((l @ [c]) @ r)"
    unfolding il(4) rw(1) x by simp
  have "\<forall>j < ?y. row sb' j = row sb j" using il(5) screen_base_y(2)[OF base] by simp
  from rows_upto_edit[OF this] have rows': "rows_upto sb' ?y = older @ [prompt @ map typed ((l @ [c]) @ r)]"
    unfolding row' rw(3) by simp
  have "editing older prompt (l @ [c]) r ?s4"
    unfolding editing_def
    by (intro exI[of _ sb'] conjI fin(2,3)) (use rows' x start pos ib(2,3) b(1) room(2) in simp_all)
  with run show ?thesis by (auto simp: kept_def)
qed

lemma editing_backspace:
  assumes ed: "editing older prompt l r st"
  shows "\<exists>st'. handle_input_buffer_deletion st = Some st' \<and> editing older prompt (butlast l) r st' \<and> kept st st'"
proof (cases "l = []")
  case True
  with ed show ?thesis by (auto simp: handle_input_buffer_deletion_def editing_def)
next
  case False
  let ?y = "nat (cursorAt_Y st)"
  from ed obtain sb where base: "screen_base st sb" and rin: "rendered_in st sb"
    and rows: "rows_upto sb ?y = older @ [prompt @ map typed (l @ r)]"
    and mx: "int (length prompt + length (l @ r)) < MAX_CHARS st"
    and x: "cursorAt_X st = int (length prompt + length l)" and start: "lineInputStart_X st = length prompt"
    and pos: "lineInputCursorPos st = length l" and n: "lineInputLength st = length (l @ r)"
    and b: "length (lineInputBuffer st) = TERMINAL_BUFFER_SIZE" "cstr (l @ r) (lineInputBuffer st)"
    unfolding editing_def by blast
  note rw = editing_row[OF base rows] and yy = screen_base_y[OF base]
  have wf: "buffer_wf (MAX_CHARS st) sb" and ptr: "screenBufferPtr st = Some sb" using base unfolding screen_base_def by blast+
  obtain m where l0: "length l = Suc m" using False by (cases l) simp_all
  note ln = line_wf[OF wf yy(2)]
  have line: "get_screen_buffer_line sb (cursorAt_Y st) = Some (lines sb ! ?y)" using ln(1) yy(1) by simp
  let ?k = "length prompt + length l - 1"
  have k: "?k < nat (MAX_CHARS st)" "?k < amountOfCells (lines sb ! ?y)"
    using mx l0 unfolding rw(2) length_append length_map by linarith+
  have k3: "cursorAt_X st - 1 = int ?k" using l0 unfolding x by linarith
  have "?k = length prompt + (length l - 1)" using l0 by linarith
  then have "row sb ?y ! ?k = typed (last l)" using False by (cases l rule: rev_cases) (simp_all add: rw(1) nth_append)
  then have "cellBlock sb ! (?y * nat (MAX_CHARS st) + ?k) = typed (last l)" using nth_row[OF k(2)] ln(2) by simp
  with cell_wf(1)[OF wf yy(2) k(1)] have cell: "get_screen_buffer_cell sb (lines sb ! ?y) (cursorAt_X st - 1) = Some (typed (last l))"
    unfolding k3 by simp
  obtain b' where ib: "delete_in_buffer st = Some (st\<lparr>lineInputBuffer := b', lineInputLength := length (l @ r) - 1\<rparr>)"
    "length b' = length (lineInputBuffer st)" "cstr (butlast l @ r) b'"
    using delete_in_buffer_effect[OF b(2) n[symmetric]] pos l0 by (auto simp: butlast_conv_take)
  let ?s1 = "st\<lparr>lineInputBuffer := b', lineInputLength := length (l @ r) - 1\<rparr>"
  have base1: "screen_base ?s1 sb" using base by (simp only: screen_base_more)
  have x1: "0 < cursorAt_X ?s1" "cursorAt_X ?s1 \<le> int (amountOfCells (lines sb ! nat (cursorAt_Y ?s1)))"
    using x rw(2) l0 by simp_all
  obtain sb' where il: "delete_in_line (lines sb ! ?y) ?s1 = Some (?s1\<lparr>screenBufferPtr := Some sb'\<rparr>)"
    "screen_base (?s1\<lparr>screenBufferPtr := Some sb'\<rparr>) sb'" "same_shape sb sb'"
    "row sb' ?y = take (nat (cursorAt_X st) - 1) (row sb ?y) @ drop (nat (cursorAt_X st)) (row sb ?y)"
    "\<forall>j < maxStoredLines sb. j \<noteq> ?y \<longrightarrow> row sb' j = row sb j"
    using delete_in_line_effect[OF base1 x1] by auto
  let ?s2 = "?s1\<lparr>screenBufferPtr := Some sb'\<rparr>"
  let ?s3 = "?s2\<lparr>lineInputCursorPos := lineInputCursorPos ?s2 - 1, cursorAt_X := cursorAt_X ?s2 - 1\<rparr>"
  have base3: "screen_base ?s3 sb'" using il(2) by (simp only: screen_base_more)
  have rin3: "rendered_in ?s3 sb'" using rin il(3) by (simp add: rendered_in_def same_shape_def)
  have x3: "0 \<le> cursorAt_X ?s3" "cursorAt_X ?s3 < MAX_CHARS ?s3" using x mx l0 by simp_all
  from finish_edit[OF base3 rin3 x3] obtain fb where fin:
    "do { st' \<leftarrow> redraw_input_line ?s3; update_cursor_render (st'\<lparr>cursorAt_X := cursorAt_X ?s3\<rparr>) } =
      Some (?s3\<lparr>framebuffer := fb, cursorRendered_X := cursorAt_X ?s3, cursorRendered_Y := cursorAt_Y ?s3\<rparr>)"
    "screen_base (?s3\<lparr>framebuffer := fb, cursorRendered_X := cursorAt_X ?s3, cursorRendered_Y := cursorAt_Y ?s3\<rparr>) sb'"
    "rendered_in (?s3\<lparr>framebuffer := fb, cursorRendered_X := cursorAt_X ?s3, cursorRendered_Y := cursorAt_Y ?s3\<rparr>) sb'" by blast
  let ?s4 = "?s3\<lparr>framebuffer := fb, cursorRendered_X := cursorAt_X ?s3, cursorRendered_Y := cursorAt_Y ?s3\<rparr>"
  have cond: "lineInputLength st \<noteq> 0" "lineInputCursorPos st \<noteq> 0" "\<not> cursorAt_X st \<le> 0" "interactable (typed (last l))"
    using n pos x l0 by (simp_all add: typed_def)
  have run: "handle_input_buffer_deletion st = Some ?s4"
    using cond ptr line cell ib(1) il(1) fin(1) by (simp add: handle_input_buffer_deletion_def)
  have "map typed (butlast l) = butlast (map typed l)" by (simp add: map_butlast)
  then have row': "row sb' ?y = prompt @ map typed (butlast l @ r)"
    unfolding il(4) rw(1) x nat_int using l0 by (simp add: butlast_conv_take take_map)
  have "\<forall>j < ?y. row sb' j = row sb j" using il(5) yy(2) by simp
  from rows_upto_edit[OF this] have rows': "rows_upto sb' ?y = older @ [prompt @ map typed (butlast l @ r)]"
    unfolding row' rw(3) by simp
  have "editing older prompt (butlast l) r ?s4"
    unfolding editing_def
    by (intro exI[of _ sb'] conjI fin(2,3)) (use rows' x start pos ib(2,3) b(1) mx l0 in simp_all)
  with run show ?thesis by (auto simp: kept_def)
qed


text \<open>Cursor moves change nothing but the cursor.\<close>

lemma editing_move:
  fixes st :: "'a terminal_scheme"
  assumes ed: "editing older prompt l r st" and lr: "l' @ r' = l @ r"
  shows "\<exists>st'. update_cursor_render (st\<lparr>cursorAt_X := int (length prompt + length l'), lineInputCursorPos := length l'\<rparr>) = Some st' \<and>
    editing older prompt l' r' st' \<and> kept st st'"
proof -
  let ?st = "st\<lparr>cursorAt_X := int (length prompt + length l'), lineInputCursorPos := length l'\<rparr>"
  from ed obtain sb where base: "screen_base st sb" and rin: "rendered_in st sb"
    and rows: "rows_upto sb (nat (cursorAt_Y st)) = older @ [prompt @ map typed (l @ r)]"
    and fits: "int (length prompt + length (l @ r)) < MAX_CHARS st"
    and rest: "lineInputStart_X st = length prompt" "lineInputLength st = length (l @ r)"
      "length (lineInputBuffer st) = TERMINAL_BUFFER_SIZE" "cstr (l @ r) (lineInputBuffer st)"
    unfolding editing_def by blast
  have base1: "screen_base ?st sb" using base by (simp only: screen_base_more)
  have rin1: "rendered_in ?st sb" using rin by (simp only: screen_base_more)
  have "length (l @ r) = length (l' @ r')" by (simp only: lr)
  then have x: "0 \<le> cursorAt_X ?st" "cursorAt_X ?st < MAX_CHARS ?st" using fits by simp_all
  from update_cursor_base[OF base1 rin1 x(1)] obtain fb where
    u: "update_cursor_render ?st = Some (?st\<lparr>framebuffer := fb, cursorRendered_X := cursorAt_X ?st, cursorRendered_Y := cursorAt_Y ?st\<rparr>)"
    "length fb = length (framebuffer ?st)" by blast
  let ?st2 = "?st\<lparr>framebuffer := fb, cursorRendered_X := cursorAt_X ?st, cursorRendered_Y := cursorAt_Y ?st\<rparr>"
  have base2: "screen_base ?st2 sb" by (rule base_rendered[OF base1 u(2)])
  have rin2: "rendered_in ?st2 sb" by (rule rendered_here[OF base2]) (use x in simp_all)
  have "editing older prompt l' r' ?st2"
    unfolding editing_def
    by (intro exI[of _ sb] conjI base2 rin2) (use rows fits rest in \<open>simp_all add: lr del: length_append map_append\<close>)
  with u(1) show ?thesis by (auto simp: kept_def)
qed

lemma editing_left:
  assumes ed: "editing older prompt l r st"
  shows "\<exists>st'. cursor_move_inline False st = Some st' \<and>
    editing older prompt (butlast l) (if l = [] then r else last l # r) st' \<and> kept st st'"
proof (cases l rule: rev_cases)
  case Nil
  with ed show ?thesis by (auto simp: cursor_move_inline_def editing_def)
next
  case (snoc l' c)
  have "cursorAt_X st = int (length prompt + length l)" "lineInputCursorPos st = length l" using ed by (auto simp: editing_def)
  then show ?thesis
    using editing_move[OF ed, of l' "c # r"] snoc by (simp add: cursor_move_inline_def)
qed

lemma editing_right:
  assumes ed: "editing older prompt l r st"
  shows "\<exists>st'. cursor_move_inline True st = Some st' \<and>
    editing older prompt (l @ take 1 r) (drop 1 r) st' \<and> kept st st'"
proof (cases r)
  case Nil
  with ed show ?thesis by (auto simp: cursor_move_inline_def editing_def)
next
  case (Cons c r')
  have "cursorAt_X st = int (length prompt + length l)" "lineInputCursorPos st = length l"
    "lineInputLength st = length (l @ r)" using ed by (auto simp: editing_def)
  then show ?thesis
    using editing_move[OF ed, of "l @ [c]" r'] Cons by (simp add: cursor_move_inline_def add.commute add.left_commute)
qed

section \<open>Sequences of edits\<close>

text \<open>An edit fits when the text stays shorter than the buffer and than the line of the screen.\<close>

definition edit_fits :: "nat \<Rightarrow> edit \<Rightarrow> u8 list \<times> u8 list \<Rightarrow> bool" where
  "edit_fits room e t = (case e of Insert c \<Rightarrow> c \<noteq> 0 \<and> c < 128 \<and> Suc (length (fst t @ snd t)) < min TERMINAL_BUFFER_SIZE room | _ \<Rightarrow> True)"

fun edits_fit :: "nat \<Rightarrow> edit list \<Rightarrow> u8 list \<times> u8 list \<Rightarrow> bool" where
  "edits_fit room [] t = True"
| "edits_fit room (e # es) t = (edit_fits room e t \<and> edits_fit room es (edit_text e t))"

definition edits_text :: "edit list \<Rightarrow> u8 list \<times> u8 list \<Rightarrow> u8 list \<times> u8 list" where
  "edits_text es t = foldl (\<lambda>t e. edit_text e t) t es"

fun exec_edits :: "edit list \<Rightarrow> 'a terminal_scheme \<Rightarrow> 'a terminal_scheme option" where
  "exec_edits [] st = Some st"
| "exec_edits (e # es) st = do { st \<leftarrow> exec_edit e st; exec_edits es st }"

lemma editing_edit:
  assumes ed: "editing older prompt l r st" and fits: "edit_fits (nat (MAX_CHARS st) - length prompt) e (l, r)"
  shows "\<exists>st'. exec_edit e st = Some st' \<and> editing older prompt (fst (edit_text e (l, r))) (snd (edit_text e (l, r))) st' \<and>
    kept st st'"
proof (cases e)
  case (Insert c)
  with fits have "c \<noteq> 0" "c < 128" "Suc (length (l @ r)) < TERMINAL_BUFFER_SIZE"
    "int (length prompt + Suc (length (l @ r))) < MAX_CHARS st" by (auto simp: edit_fits_def)
  from editing_insert[OF ed this] Insert show ?thesis by simp
next
  case Backspace then show ?thesis using editing_backspace[OF ed] by simp
next
  case CursorLeft then show ?thesis using editing_left[OF ed] by (cases "l = []") simp_all
next
  case CursorRight then show ?thesis using editing_right[OF ed] by (cases r) simp_all
qed

lemma exec_edits_editing:
  assumes "editing older prompt l r st" and "edits_fit (nat (MAX_CHARS st) - length prompt) es (l, r)"
  shows "\<exists>st'. exec_edits es st = Some st' \<and>
    editing older prompt (fst (edits_text es (l, r))) (snd (edits_text es (l, r))) st'"
  using assms
proof (induction es arbitrary: l r st)
  case Nil
  then show ?case by (simp add: edits_text_def)
next
  case (Cons e es)
  obtain l' r' where lr: "edit_text e (l, r) = (l', r')" by force
  from Cons.prems(2) have f: "edit_fits (nat (MAX_CHARS st) - length prompt) e (l, r)"
    "edits_fit (nat (MAX_CHARS st) - length prompt) es (l', r')" by (simp_all add: lr)
  from editing_edit[OF Cons.prems(1) f(1)] obtain st1 where
    s1: "exec_edit e st = Some st1" "editing older prompt l' r' st1" "kept st st1" by (auto simp: lr)
  from Cons.IH[OF s1(2)] f(2) s1(1) kept_MAX_CHARS[OF s1(3)] show ?case by (simp add: edits_text_def lr)
qed

end
