(* ===== verification/HistorySpec.thy ===== *)
theory HistorySpec
  imports TerminalSpec StringBuild
begin

text \<open>
  The command history: the rows of \<open>commandHistory\<close> hold the last \<open>MAX_COMMAND_HISTORY\<close>
  commands, oldest first, and showing one of them replaces the input line by it, in the
  buffer and on the screen.
\<close>

section \<open>Recording commands\<close>

definition history_ok :: "u8 list list \<Rightarrow> 'a terminal_scheme \<Rightarrow> bool" where
  "history_ok cs st \<longleftrightarrow> length (commandHistory st) = MAX_COMMAND_HISTORY \<and>
     (\<forall>b \<in> set (commandHistory st). length b = TERMINAL_BUFFER_SIZE) \<and>
     length cs \<le> MAX_COMMAND_HISTORY \<and> cmdHistCount st = length cs \<and>
     (\<forall>i < length cs. cstr (cs ! i) (commandHistory st ! i))"

definition remember :: "u8 list \<Rightarrow> u8 list list \<Rightarrow> u8 list list" where
  "remember c cs = (if length cs < MAX_COMMAND_HISTORY then cs else tl cs) @ [c]"

lemma str_copy_cstr:
  assumes "cstr s src" and "length s < length dest"
  shows "\<exists>d. str_copy dest src = Some d \<and> cstr s d \<and> length d = length dest"
  using str_copy_spec[OF assms] assms by (auto simp: cstr_def)

text \<open>The rows move down by one.\<close>

lemma shift_history:
  assumes len: "length h = Suc n" and rows: "\<forall>b \<in> set h. length b = TERMINAL_BUFFER_SIZE"
    and cs: "length cs = Suc n" "\<forall>i < Suc n. cstr (cs ! i) (h ! i)" "\<forall>c \<in> set cs. length c < TERMINAL_BUFFER_SIZE"
  shows "\<exists>h'. for_loop (\<lambda>i h. do { a \<leftarrow> rd h i; b \<leftarrow> rd h (i + 1); a \<leftarrow> str_copy a b; wr h i a }) 0 n h = Some h' \<and>
    length h' = Suc n \<and> (\<forall>b \<in> set h'. length b = TERMINAL_BUFFER_SIZE) \<and> (\<forall>i < n. cstr (cs ! Suc i) (h' ! i))"
proof -
  let ?body = "\<lambda>i (h :: u8 list list). do { a \<leftarrow> rd h i; b \<leftarrow> rd h (i + 1); a \<leftarrow> str_copy a b; wr h i a }"
  let ?I = "\<lambda>k h'. length h' = Suc n \<and> (\<forall>i. i \<le> n \<longrightarrow> length (h' ! i) = TERMINAL_BUFFER_SIZE) \<and>
    (\<forall>i < k. cstr (cs ! Suc i) (h' ! i)) \<and> (\<forall>i. k \<le> i \<longrightarrow> i \<le> n \<longrightarrow> h' ! i = h ! i)"
  have "\<exists>h'. for_loop ?body 0 n h = Some h' \<and> ?I (0 + n) h'"
  proof (rule for_loop_rule[where I = ?I])
    show "?I 0 h" using len rows by simp
  next
    fix k h' assume k: "k < 0 + n" and I: "?I k h'"
    have kn: "k \<le> n" "Suc k \<le> n" using k by simp_all
    have "length (cs ! Suc k) < TERMINAL_BUFFER_SIZE" using cs(1,3) k by simp
    moreover have "cstr (cs ! Suc k) (h' ! Suc k)" using I cs(2) k by auto
    moreover have "length (h' ! k) = TERMINAL_BUFFER_SIZE" using I kn by blast
    ultimately obtain d where d: "str_copy (h' ! k) (h' ! Suc k) = Some d" "cstr (cs ! Suc k) d" "length d = TERMINAL_BUFFER_SIZE"
      using str_copy_cstr[of "cs ! Suc k" "h' ! Suc k" "h' ! k"] by auto
    have "?body k h' = Some (h'[k := d])" using d(1) I k by simp
    moreover have "?I (Suc k) (h'[k := d])" using I d(2,3) k by (auto simp: nth_list_update less_Suc_eq)
    ultimately show "\<exists>s'. ?body k h' = Some s' \<and> ?I (Suc k) s'" by blast
  qed
  then obtain h' where h': "for_loop ?body 0 n h = Some h'" "?I n h'" by auto
  then have "\<forall>b \<in> set h'. length b = TERMINAL_BUFFER_SIZE" by (auto simp: in_set_conv_nth)
  with h' show ?thesis by auto
qed

lemma add_command_effect:
  assumes ok: "history_ok cs st" and cs: "\<forall>c \<in> set cs. length c < TERMINAL_BUFFER_SIZE"
    and c: "cstr c command" "length c < TERMINAL_BUFFER_SIZE"
  shows "\<exists>st'. add_command_to_history command st = Some st' \<and> history_ok (remember c cs) st' \<and>
    (\<exists>h n. st' = st\<lparr>commandHistory := h, cmdHistCount := n\<rparr>)"
proof -
  note h = ok[unfolded history_ok_def]
  obtain h1 where first: "(if MAX_COMMAND_HISTORY \<le> cmdHistCount st then do {
            h \<leftarrow> for_range (\<lambda>i h. do { a \<leftarrow> rd h i; b \<leftarrow> rd h (i + 1); a \<leftarrow> str_copy a b; wr h i a })
                  0 (cmdHistCount st - 1) (commandHistory st);
            r \<leftarrow> rd h (cmdHistCount st - 1);
            r \<leftarrow> wr r 0 0;
            h \<leftarrow> wr h (cmdHistCount st - 1) r;
            Some (st\<lparr>commandHistory := h, cmdHistCount := cmdHistCount st - 1\<rparr>) }
          else Some st) = Some (st\<lparr>commandHistory := h1, cmdHistCount := length (remember c cs) - 1\<rparr>)"
    and h1: "length h1 = MAX_COMMAND_HISTORY" "\<forall>b \<in> set h1. length b = TERMINAL_BUFFER_SIZE"
      "\<forall>i < length (remember c cs) - 1. cstr (remember c cs ! i) (h1 ! i)"
  proof (cases "length cs < MAX_COMMAND_HISTORY")
    case True
    then show ?thesis using h by (intro that[of "commandHistory st"]) (simp_all add: remember_def nth_append)
  next
    case False
    then have full: "length cs = MAX_COMMAND_HISTORY" "MAX_COMMAND_HISTORY = Suc 99" using h by (simp_all add: MAX_COMMAND_HISTORY_def)
    then have "length (commandHistory st) = Suc 99" "length cs = Suc 99" "\<forall>i < Suc 99. cstr (cs ! i) (commandHistory st ! i)"
      using h by simp_all
    from shift_history[OF this(1) _ this(2,3) cs] h obtain h' where
      h': "for_loop (\<lambda>i h. do { a \<leftarrow> rd h i; b \<leftarrow> rd h (i + 1); a \<leftarrow> str_copy a b; wr h i a }) 0 99 (commandHistory st) = Some h'"
      "length h' = Suc 99" "\<forall>b \<in> set h'. length b = TERMINAL_BUFFER_SIZE" "\<forall>i < 99. cstr (cs ! Suc i) (h' ! i)" by blast
    have l: "length (h' ! 99) = TERMINAL_BUFFER_SIZE" "0 < TERMINAL_BUFFER_SIZE" using h'(2,3) by (simp_all add: TERMINAL_BUFFER_SIZE_def)
    have r: "remember c cs = tl cs @ [c]" "length (tl cs) = 99" using full by (simp_all add: remember_def)
    show ?thesis
    proof (rule that[of "h'[99 := (h' ! 99)[0 := 0]]"])
      show "\<forall>i < length (remember c cs) - 1. cstr (remember c cs ! i) (h'[99 := (h' ! 99)[0 := 0]] ! i)"
        using h'(4) r by (auto simp: nth_append nth_tl)
      show "\<forall>b \<in> set (h'[99 := (h' ! 99)[0 := 0]]). length b = TERMINAL_BUFFER_SIZE"
        using h'(3) l by (auto dest!: set_update_subset_insert[THEN subsetD])
    qed (use h h' full r l in simp_all)
  qed
  let ?n = "length (remember c cs) - 1"
  have n: "?n < MAX_COMMAND_HISTORY" "length (remember c cs) = Suc ?n" "remember c cs ! ?n = c" "length (remember c cs) \<le> MAX_COMMAND_HISTORY"
    using h by (auto simp: remember_def nth_append MAX_COMMAND_HISTORY_def)
  then have "length (h1 ! ?n) = TERMINAL_BUFFER_SIZE" using h1(1,2) by simp
  then obtain d where d: "str_copy (h1 ! ?n) command = Some d" "cstr c d" "length d = TERMINAL_BUFFER_SIZE"
    using str_copy_cstr[OF c(1), of "h1 ! ?n"] c(2) by auto
  have "add_command_to_history command st = Some (st\<lparr>commandHistory := h1[?n := d], cmdHistCount := ?n + 1\<rparr>)"
    using first d(1) h1(1) n(1) by (simp add: add_command_to_history_def)
  moreover have "history_ok (remember c cs) (st\<lparr>commandHistory := h1[?n := d], cmdHistCount := ?n + 1\<rparr>)"
    unfolding history_ok_def
  proof (intro conjI)
    show "\<forall>b \<in> set (commandHistory (st\<lparr>commandHistory := h1[?n := d], cmdHistCount := ?n + 1\<rparr>)). length b = TERMINAL_BUFFER_SIZE"
      using h1(2) d(3) by (auto dest!: set_update_subset_insert[THEN subsetD])
    show "\<forall>i < length (remember c cs). cstr (remember c cs ! i)
        (commandHistory (st\<lparr>commandHistory := h1[?n := d], cmdHistCount := ?n + 1\<rparr>) ! i)"
      using h1(1,3) d(2) n by (auto simp: nth_list_update less_Suc_eq)
  qed (use h1(1) n in simp_all)
  ultimately show ?thesis by blast
qed


section \<open>Clearing the input line\<close>

text \<open>Blanking the cells of a line behind \<open>k\<close> keeps the other rows and the first \<open>k\<close> cells.\<close>

lemma blank_cells:
  assumes wf: "buffer_wf w sb" and i: "i < maxStoredLines sb" and hi: "lo + n \<le> nat w"
  shows "\<exists>sb'. for_loop (\<lambda>x sb'. put_screen_buffer_cell sb' (lines sb ! i) (int x)
        \<lparr>color = White, cell_text = 0, interactable = False\<rparr>) lo n sb = Some sb' \<and>
    buffer_wf w sb' \<and> (\<exists>cb. sb' = sb\<lparr>cellBlock := cb\<rparr>) \<and>
    (\<forall>j y. j < maxStoredLines sb \<longrightarrow> y < nat w \<longrightarrow> j \<noteq> i \<or> y < lo \<longrightarrow>
      cellBlock sb' ! (j * nat w + y) = cellBlock sb ! (j * nat w + y))"
proof -
  let ?body = "\<lambda>x sb'. put_screen_buffer_cell sb' (lines sb ! i) (int x) \<lparr>color = White, cell_text = 0, interactable = False\<rparr>"
  let ?I = "\<lambda>_ sb'. buffer_wf w sb' \<and> (\<exists>cb. sb' = sb\<lparr>cellBlock := cb\<rparr>) \<and>
    (\<forall>j y. j < maxStoredLines sb \<longrightarrow> y < nat w \<longrightarrow> j \<noteq> i \<or> y < lo \<longrightarrow>
      cellBlock sb' ! (j * nat w + y) = cellBlock sb ! (j * nat w + y))"
  show ?thesis
  proof (rule for_loop_rule[where I = ?I])
    have "sb = sb\<lparr>cellBlock := cellBlock sb\<rparr>" by simp
    with wf show "?I lo sb" by blast
  next
    fix x sb1 assume x: "lo \<le> x" "x < lo + n" and I: "?I x sb1"
    then obtain cb where sb1: "sb1 = sb\<lparr>cellBlock := cb\<rparr>" by blast
    have f: "maxStoredLines sb1 = maxStoredLines sb" "lines sb1 = lines sb" by (simp_all add: sb1)
    have a: "buffer_wf w sb1" "i < maxStoredLines sb1" "x < nat w" "cell_text \<lparr>color = White, cell_text = 0, interactable = False\<rparr> < 128"
      using i hi x I f by simp_all
    from put_cell_wf[OF a, unfolded f] obtain sb2 where b: "?body x sb1 = Some sb2" "buffer_wf w sb2"
      "\<forall>j y. j < maxStoredLines sb \<longrightarrow> y < nat w \<longrightarrow> cellBlock sb2 ! (j * nat w + y) =
        (if j = i \<and> y = x then \<lparr>color = White, cell_text = 0, interactable = False\<rparr> else cellBlock sb1 ! (j * nat w + y))" by blast
    have "\<exists>cb. sb2 = sb\<lparr>cellBlock := cb\<rparr>"
      using b(1) by (auto simp: put_screen_buffer_cell_def sb1 split: Option.bind_splits)
    with b I x have "?I (Suc x) sb2" by simp
    with b(1) show "\<exists>s'. ?body x sb1 = Some s' \<and> ?I (Suc x) s'" by blast
  qed
qed

lemma clear_input_effect:
  fixes st :: "'a terminal_scheme"
  assumes ed: "editing older prompt l r st"
  shows "\<exists>st'. clear_input_on_screen st = Some st' \<and> moved (st\<lparr>lineInputCursorPos := 0\<rparr>) st' \<and>
    screen_ok st' \<and> scrollback st' = older @ [prompt] \<and> cursorAt_X st' = int (length prompt) \<and> cursorAt_Y st' = cursorAt_Y st"
proof -
  let ?y = "nat (cursorAt_Y st)" and ?w = "nat (MAX_CHARS st)"
  from ed obtain sb where base: "screen_base st sb" and rin: "rendered_in st sb"
    and rows: "rows_upto sb ?y = older @ [prompt @ map typed (l @ r)]"
    and mx: "int (length prompt + length (l @ r)) < MAX_CHARS st" and start: "lineInputStart_X st = length prompt"
    unfolding editing_def by blast
  note rw = editing_row[OF base rows] and yy = screen_base_y[OF base]
  have wf: "buffer_wf (MAX_CHARS st) sb" and ptr: "screenBufferPtr st = Some sb" using base unfolding screen_base_def by blast+
  note ln = line_wf[OF wf yy(2)]
  have line: "get_screen_buffer_line sb (cursorAt_Y st) = Some (lines sb ! ?y)" using ln(1) yy(1) by simp
  have cnt: "min (amountOfCells (lines sb ! ?y)) ?w - lineInputStart_X st = length (l @ r)" "length prompt + length (l @ r) \<le> ?w"
    "length prompt \<le> ?w" using mx rw(2) start by auto
  from blank_cells[OF wf yy(2) cnt(2)] obtain sb1 where b1:
    "for_loop (\<lambda>x sb'. put_screen_buffer_cell sb' (lines sb ! ?y) (int x)
        \<lparr>color = White, cell_text = 0, interactable = False\<rparr>) (length prompt) (length (l @ r)) sb = Some sb1"
    "buffer_wf (MAX_CHARS st) sb1" "\<exists>cb. sb1 = sb\<lparr>cellBlock := cb\<rparr>"
    "\<forall>j x. j < maxStoredLines sb \<longrightarrow> x < ?w \<longrightarrow> j \<noteq> ?y \<or> x < length prompt \<longrightarrow>
      cellBlock sb1 ! (j * ?w + x) = cellBlock sb ! (j * ?w + x)" by blast
  define sb2 where "sb2 = sb\<lparr>cellBlock := cellBlock sb1, lines := (lines sb)[?y := (lines sb ! ?y)\<lparr>amountOfCells := length prompt\<rparr>]\<rparr>"
  obtain cb where cb: "sb1 = sb\<lparr>cellBlock := cb\<rparr>" using b1(3) by blast
  have len: "length (cellBlock sb1) = length (cellBlock sb)" and p: "\<forall>c \<in> set (cellBlock sb1). cell_text c < 128"
    using b1(2) wf by (simp_all add: buffer_wf_def cb)
  have same: "\<forall>j z. j < maxStoredLines sb \<longrightarrow> z < ?w \<longrightarrow> j \<noteq> ?y \<longrightarrow>
      cellBlock sb1 ! (j * ?w + z) = cellBlock sb ! (j * ?w + z)" using b1(4) by blast
  note e = edit_line_base[OF base refl cnt(3) len p same sb2_def]
  have put: "put_screen_buffer_line sb1 (cursorAt_Y st) ((lines sb ! ?y)\<lparr>amountOfCells := length prompt\<rparr>) = Some sb2"
    using ln(4) wri_in[of "cursorAt_Y st" "lines sb"] yy(1) by (simp add: put_screen_buffer_line_def sb2_def cb split: if_splits)
  have "row sb2 ?y = take (length prompt) (row sb ?y)"
    using b1(4) yy(2) ln(2) rw(2) cnt(3) by (intro nth_equalityI) (simp_all add: e(4) nth_row)
  then have row2: "row sb2 ?y = prompt" by (simp add: rw(1))
  have "\<forall>j < ?y. row sb2 j = row sb j" using e(3) yy(2) by simp
  from rows_upto_edit[OF this] have rows2: "rows_upto sb2 ?y = older @ [prompt]" by (simp add: row2 rw(3))
  let ?s1 = "st\<lparr>screenBufferPtr := Some sb2\<rparr>"
  obtain fb1 where r: "redraw_input_line ?s1 = Some (?s1\<lparr>framebuffer := fb1, cursorAt_X := MAX_CHARS ?s1\<rparr>)"
    "length fb1 = length (framebuffer ?s1)" using redraw_input_total[OF e(1)] by blast
  let ?s2 = "?s1\<lparr>framebuffer := fb1, cursorAt_X := int (length prompt), lineInputCursorPos := 0\<rparr>"
  have base2: "screen_base ?s2 sb2" using e(1) r(2) by (auto simp: screen_base_def geometry_def)
  have rin2: "rendered_in ?s2 sb2" using rin e(2) by (simp add: rendered_in_def same_shape_def)
  have x2: "0 \<le> cursorAt_X ?s2" "cursorAt_X ?s2 < MAX_CHARS ?s2" using mx by simp_all
  from update_cursor_base[OF base2 rin2 x2(1)] obtain fb where
    u: "update_cursor_render ?s2 = Some (?s2\<lparr>framebuffer := fb, cursorRendered_X := cursorAt_X ?s2, cursorRendered_Y := cursorAt_Y ?s2\<rparr>)"
    "length fb = length (framebuffer ?s2)" by blast
  let ?s3 = "?s2\<lparr>framebuffer := fb, cursorRendered_X := cursorAt_X ?s2, cursorRendered_Y := cursorAt_Y ?s2\<rparr>"
  have base3: "screen_base ?s3 sb2" by (rule base_rendered[OF base2 u(2)])
  have rin3: "rendered_in ?s3 sb2" by (rule rendered_here[OF base3]) (use x2 in simp_all)
  have am: "amountOfCells (lines sb2 ! ?y) = length prompt" using length_row[of sb2 ?y] unfolding row2 by simp
  have "at_end ?s3 sb2" using x2 by (simp add: at_end_def am)
  with base3 rin3 have "screen_ok ?s3" by (auto simp: screen_ok_def)
  moreover have "clear_input_on_screen st = Some ?s3"
    using ptr line b1(1) put r(1) u(1) cnt(1) by (simp add: clear_input_on_screen_def start)
  moreover have "moved (st\<lparr>lineInputCursorPos := 0\<rparr>) ?s3" by (cases st) (simp add: moved_def)
  moreover have "scrollback ?s3 = older @ [prompt]" by (simp add: scrollback_def rows2)
  ultimately show ?thesis by (intro exI[of _ ?s3]) simp
qed


section \<open>Showing a command of the history\<close>

text \<open>A command that can be typed on one line behind the prompt.\<close>

definition plain :: "u8 list \<Rightarrow> bool" where
  "plain s \<longleftrightarrow> length s < TERMINAL_BUFFER_SIZE \<and> (\<forall>c \<in> set s. c \<noteq> 0 \<and> c < 128 \<and> c \<noteq> 0x0A \<and> c \<noteq> 0x0D)"

lemma tty_text_row:
  assumes "\<forall>c \<in> set s. c \<noteq> 0x0A \<and> c \<noteq> 0x0D" and "length rw + length s < w"
  shows "tty_text w n col act s (older @ [rw]) = older @ [rw @ map (\<lambda>c. \<lparr>color = col, cell_text = c, interactable = act\<rparr>) s]"
  using assms
proof (induction s arbitrary: rw)
  case (Cons c s)
  let ?c = "\<lparr>color = col, cell_text = c, interactable = act\<rparr>"
  have "tty_char w n col act c (older @ [rw]) = older @ [rw @ [?c]]"
    using Cons.prems by (simp add: tty_char_def tty_put_def)
  then show ?case using Cons.IH[of "rw @ [?c]"] Cons.prems by (simp add: tty_text_def)
qed (simp add: tty_text_def)

lemma tty_text_one_line:
  assumes "\<forall>c \<in> set s. c \<noteq> 0x0A \<and> c \<noteq> 0x0D" and "length rw + length s < w"
  shows "tty_text w n White True s (older @ [rw]) = older @ [rw @ map typed s]"
  using tty_text_row[OF assms] by (simp add: typed_def[abs_def])

lemma at_end_row:
  assumes "screen_base st sb" and "at_end st sb" and "scrollback st = older @ [rw]"
  shows "cursorAt_X st = int (length rw)" "rows_upto sb (nat (cursorAt_Y st)) = older @ [rw]"
proof -
  have ptr: "screenBufferPtr st = Some sb" using assms(1) unfolding screen_base_def by blast
  then show rows: "rows_upto sb (nat (cursorAt_Y st)) = older @ [rw]" using assms(3) by (simp add: scrollback_def)
  show "cursorAt_X st = int (length rw)" using editing_row(2)[OF assms(1) rows] assms(2) by (simp add: at_end_def)
qed

text \<open>Printing changes no field of the terminal.\<close>

lemma moved_terminal:
  assumes "moved st st'"
  shows "lineInputLength st' = lineInputLength st" "lineInputBuffer st' = lineInputBuffer st"
    "lineInputCursorPos st' = lineInputCursorPos st" "lineInputStart_X st' = lineInputStart_X st"
    "commandHistory st' = commandHistory st" "cmdHistCount st' = cmdHistCount st"
    "goThroughHistoryCount st' = goThroughHistoryCount st" "shift st' = shift st"
    "isExtendedScancode st' = isExtendedScancode st" "currentPath st' = currentPath st" "terminal.more st' = terminal.more st"
  using assms by (cases st; cases st'; simp add: moved_def)+

lemma show_history_effect:
  fixes st :: "'a terminal_scheme"
  assumes ed: "editing older prompt l r st" and h: "history_ok cs st" and k: "0 < k" "k \<le> length cs" "goThroughHistoryCount st = k"
    and cmd: "plain (cs ! (length cs - k))" "int (length prompt + length (cs ! (length cs - k))) < MAX_CHARS st"
  shows "\<exists>st'. handle_show_history st = Some st' \<and> editing older prompt (cs ! (length cs - k)) [] st' \<and>
    history_ok cs st' \<and> kept st st'"
proof -
  let ?i = "length cs - k" and ?c = "cs ! (length cs - k)"
  obtain st1 where c1: "clear_input_on_screen st = Some st1" "moved (st\<lparr>lineInputCursorPos := 0\<rparr>) st1"
    "screen_ok st1" "scrollback st1 = older @ [prompt]" using clear_input_effect[OF ed] by blast
  note m1 = moved_terminal[OF c1(2)] moved_fields(1)[OF c1(2)]
  have b: "length (lineInputBuffer st) = TERMINAL_BUFFER_SIZE" "lineInputStart_X st = length prompt" using ed by (auto simp: editing_def)
  have h1: "commandHistory st1 = commandHistory st" "cmdHistCount st1 = cmdHistCount st" "goThroughHistoryCount st1 = k"
    "lineInputBuffer st1 = lineInputBuffer st" "lineInputStart_X st1 = length prompt" "MAX_CHARS st1 = MAX_CHARS st"
    using m1 k(3) b(2) by simp_all
  have i: "?i < length cs" using k by simp
  have r: "rd (commandHistory st1) (cmdHistCount st1 - goThroughHistoryCount st1) = Some (commandHistory st ! ?i)"
    and row: "cstr ?c (commandHistory st ! ?i)" using h i by (simp_all add: h1 history_ok_def)
  have pl: "length ?c < TERMINAL_BUFFER_SIZE" "printable ?c" "\<forall>c \<in> set ?c. c \<noteq> 0x0A \<and> c \<noteq> 0x0D"
    using cmd(1) by (auto simp: plain_def printable_def)
  obtain b' where b': "str_copy (lineInputBuffer st1) (commandHistory st ! ?i) = Some b'" "cstr ?c b'"
    "length b' = TERMINAL_BUFFER_SIZE" using str_copy_cstr[OF row, of "lineInputBuffer st1"] pl(1) b by (auto simp: h1)
  let ?s2 = "st1\<lparr>lineInputBuffer := b', lineInputLength := length ?c, lineInputCursorPos := length ?c\<rparr>"
  have ok2: "screen_ok ?s2" using c1(3) by (simp add: screen_ok_def screen_base_def geometry_def rendered_in_def at_end_def)
  have "cursorAt_Y ?s2 = cursorAt_Y st1" "screenBufferPtr ?s2 = screenBufferPtr st1" by simp_all
  then have sc2: "scrollback ?s2 = older @ [prompt]" using c1(4) unfolding scrollback_def by (cases "screenBufferPtr st1") simp_all
  obtain st3 where p: "print_chars b' White True ?s2 = Some st3" "moved ?s2 st3" "screen_ok st3"
    "scrollback st3 = tty_text (nat (MAX_CHARS ?s2)) (stored_lines ?s2) White True ?c (scrollback ?s2)"
    using print_chars_effect[OF ok2 b'(2) pl(2)] by blast
  note m3 = moved_terminal[OF p(2)] moved_fields(1)[OF p(2)]
  have "length prompt + length ?c < nat (MAX_CHARS ?s2)" using cmd(2) by (simp add: h1)
  from tty_text_one_line[OF pl(3) this, of "stored_lines ?s2" older]
  have sc: "scrollback st3 = older @ [prompt @ map typed ?c]" unfolding p(4) sc2 .
  from p(3) obtain sb where sb: "screen_base st3 sb" "rendered_in st3 sb" "at_end st3 sb" by (auto simp: screen_ok_def)
  note ae = at_end_row[OF sb(1,3) sc]
  have f3: "lineInputBuffer st3 = b'" "lineInputLength st3 = length ?c" "lineInputCursorPos st3 = length ?c"
    "lineInputStart_X st3 = length prompt" "commandHistory st3 = commandHistory st" "cmdHistCount st3 = cmdHistCount st"
    "goThroughHistoryCount st3 = k" "MAX_CHARS st3 = MAX_CHARS st" using m3 h1 by simp_all
  have "editing older prompt ?c [] st3"
    unfolding editing_def by (intro exI[of _ sb] conjI sb(1,2)) (use ae f3 b' cmd(2) in simp_all)
  moreover have "handle_show_history st = Some st3"
    using c1(1) r b'(1) p(1) str_length_cstr[OF b'(2)] by (simp add: handle_show_history_def)
  moreover have "history_ok cs st3" using h by (simp add: history_ok_def f3)
  moreover have "kept st st3" using m1 m3 by (simp add: kept_def)
  ultimately show ?thesis by blast
qed

end
