(* ===== verification/InfoSpec.thy ===== *)
theory InfoSpec
  imports InfoText StringNumbers ScreenSpec
begin

text \<open>
  What the composed messages are: the text the \<open>String\<close> constructor builds, the shape of a
  percentage bar, and the printing of an information line.
\<close>

section \<open>The String constructor\<close>

text \<open>The text an argument contributes.\<close>

fun arg_text :: "string_arg \<Rightarrow> u8 list \<Rightarrow> bool" where
  "arg_text (Chars b) s = cstr s b"
| "arg_text (Char c) s = (c \<noteq> 0 \<and> s = [c])"
| "arg_text (Unsigned n) s = (s = number_text 10 n)"
| "arg_text (Signed n) s = (0 \<le>s n \<and> s = number_text 10 n)"

lemma number_text_ten: "cstr (number_text 10 n) (number_text 10 n @ [0])" "to_string n 10 = Some (number_text 10 n @ [0])"
  using number_text_cstr[of 10 n] to_string_spec[of 10 n] by simp_all

lemma to_cstr_spec:
  assumes "arg_text a s" and "length s < str_max"
  shows "\<exists>b. to_cstr a = Some b \<and> cstr s b"
proof (cases a)
  case (Chars c)
  then have c: "cstr s c" using assms(1) by simp
  then show ?thesis using Chars malloc_str_Suc[OF assms(2)] str_copy_spec[OF c, of "replicate (length s) 0 @ [0]"]
    by (auto simp: cstr_def)
next
  case (Char c)
  with assms show ?thesis using malloc_str_ok[of 2] by (auto simp: cstr_def numeral_2_eq_2)
next
  case (Unsigned n)
  with assms number_text_ten[of n] show ?thesis by simp
next
  case (Signed n)
  with assms number_text_ten[of n] show ?thesis by (simp add: to_string_signed_def)
qed

lemma convert_args_spec:
  assumes "list_all2 arg_text args ss" and "\<forall>s \<in> set ss. length s < str_max"
  shows "\<exists>bs. convert_args args = Some bs \<and> list_all2 cstr ss bs"
  using assms
proof (induction args ss rule: list_all2_induct)
  case (Cons a args s ss)
  then obtain b bs where "to_cstr a = Some b" "cstr s b" "convert_args args = Some bs" "list_all2 cstr ss bs"
    using to_cstr_spec[of a s] by auto
  then show ?case by simp
qed simp

lemma combine_parts_spec:
  assumes "list_all2 cstr ss bs" and "cstr s data" and "length s + sum_list (map length ss) < str_max"
  shows "\<exists>b. combine_parts data bs = Some b \<and> cstr (s @ concat ss) b"
  using assms
proof (induction ss bs arbitrary: s data rule: list_all2_induct)
  case (Cons t ss b bs)
  have c: "str_combine data b = Some (s @ t @ [0])"
    by (rule str_combine_spec[OF Cons.prems(1) Cons.hyps(1)]) (use Cons.prems(2) in simp)
  have "cstr (s @ t) (s @ t @ [0])" using cstrI[of "s @ t" "[]"] Cons.prems(1) Cons.hyps(1) by (auto simp: cstr_def)
  from Cons.IH[OF this] Cons.prems(2) c show ?case
    by auto
qed simp

lemma String_construct_spec:
  assumes "list_all2 arg_text args ss" and "sum_list (map length ss) < str_max"
  shows "\<exists>b. String_construct args = Some b \<and> cstr (concat ss) b"
proof -
  have "length s \<le> sum_list (map length ss)" if "s \<in> set ss" for s using that by (induction ss) auto
  with assms(2) have "\<forall>s \<in> set ss. length s < str_max" by (meson le_less_trans)
  from convert_args_spec[OF assms(1) this] obtain bs where bs: "convert_args args = Some bs" "list_all2 cstr ss bs" by blast
  have m: "malloc_str 1 = Some [0]" using malloc_str_ok[of 1] by simp
  have "cstr [] [0]" using cstrI[of "[]" "[]"] by simp
  from combine_parts_spec[OF bs(2) this] assms(2) bs(1) m show ?thesis by (auto simp: String_construct_def)
qed

section \<open>Percentage bars\<close>

lemma fill_const:
  assumes "lo + n \<le> length buf"
  shows "for_loop (\<lambda>i b. wr b i c) lo n buf = Some (take lo buf @ replicate n c @ drop (lo + n) buf)"
proof -
  have "for_loop (\<lambda>i b. wr b i c) lo n buf = for_loop (\<lambda>i b. wr b (lo + i) c) 0 n buf"
    using for_loop_shift[of "\<lambda>i b. wr b i c" lo 0 n buf] by simp
  also have "\<dots> = Some (take lo buf @ map (\<lambda>_. c) [0..<n] @ drop (lo + n) buf)" by (rule fill_loop[OF assms refl])
  finally show ?thesis by (simp add: map_replicate_trivial map_replicate_const)
qed

lemma length_digits_ten: "unat v < 10 ^ k \<Longrightarrow> length (digits 10 v) \<le> k"
proof (induction k arbitrary: v)
  case 0
  then have "v = 0" by (simp add: unat_eq_zero)
  then show ?case by (simp add: digits.simps)
next
  case (Suc k)
  have "unat (v div 10) < 10 ^ k" using Suc.prems by (simp add: unat_div less_mult_imp_div_less mult.commute)
  from Suc.IH[OF this] show ?case by (subst digits.simps) simp
qed

lemma length_number_text_ten: "unat v < 10 ^ Suc k \<Longrightarrow> length (number_text 10 v) \<le> Suc k"
  using length_digits_ten[of v "Suc k"] by (simp add: number_text_def)

text \<open>The marks of a bar of \<open>n\<close> elements, \<open>k\<close> of them set.\<close>

definition bar_text :: "nat \<Rightarrow> nat \<Rightarrow> u8 list" where
  "bar_text n k = ch (CHR ''['') # replicate k (ch (CHR ''#'')) @ replicate (n - k) (ch (CHR ''-'')) @ [ch (CHR '']'')]"

lemma percent_words:
  fixes count outOf elements :: u64
  assumes "count \<le> outOf" and "unat outOf * 100 < 2 ^ 64" and "unat elements + 9 \<le> str_max"
  shows "unat (count * 100 div outOf) = unat count * 100 div unat outOf" "unat count * 100 div unat outOf \<le> 100"
    "unat (count * 100 div outOf * elements div 100) = unat count * 100 div unat outOf * unat elements div 100"
    "unat count * 100 div unat outOf * unat elements div 100 \<le> unat elements"
proof -
  have c: "unat count \<le> unat outOf" using assms(1) by (simp add: word_le_nat_alt)
  then have "unat count * 100 < 2 ^ 64" using assms(2) by linarith
  then have m: "unat (count * 100) = unat count * 100" by (simp add: unat_mult_lem[THEN iffD1])
  show p: "unat (count * 100 div outOf) = unat count * 100 div unat outOf" by (simp add: unat_div m)
  show p100: "unat count * 100 div unat outOf \<le> 100"
  proof (cases "unat outOf = 0")
    case False
    have "unat count * 100 div unat outOf \<le> unat outOf * 100 div unat outOf" using c by (intro div_le_mono) simp
    with False show ?thesis by simp
  qed simp
  have le: "unat count * 100 div unat outOf * unat elements \<le> 100 * unat elements" using p100 by simp
  then have "unat (count * 100 div outOf) * unat elements < 2 ^ 64"
    unfolding p by (rule le_less_trans) (use assms(3) in simp)
  then have "unat (count * 100 div outOf * elements) = unat count * 100 div unat outOf * unat elements"
    using p unat_mult_lem[of "count * 100 div outOf" elements] by simp
  then show "unat (count * 100 div outOf * elements div 100) = unat count * 100 div unat outOf * unat elements div 100"
    by (simp add: unat_div)
  show "unat count * 100 div unat outOf * unat elements div 100 \<le> unat elements"
    using div_le_mono[OF le, of 100] by simp
qed


lemma percent_bar_fill:
  assumes "k \<le> n"
  defines "w \<equiv> ch (CHR ''['') # replicate n 0 @ ch (CHR '']'') # replicate 7 0"
  shows "for_loop (\<lambda>i b. wr b i (ch (CHR ''#''))) 1 k w = Some (ch (CHR ''['') # replicate k (ch (CHR ''#'')) @
      replicate (n - k) 0 @ ch (CHR '']'') # replicate 7 0)" (is "?l = Some ?w1")
    and "for_loop (\<lambda>i b. wr b i (ch (CHR ''-''))) (Suc k) (n - k) (ch (CHR ''['') # replicate k (ch (CHR ''#'')) @
      replicate (n - k) 0 @ ch (CHR '']'') # replicate 7 0) = Some (bar_text n k @ replicate 7 0)"
proof -
  have "1 + k \<le> length w" using assms(1) by (simp add: w_def)
  from fill_const[OF this, of "ch (CHR ''#'')"] show "?l = Some ?w1" using assms(1) by (simp add: w_def)
  have "Suc k + (n - k) \<le> length ?w1" using assms(1) by simp
  from fill_const[OF this, of "ch (CHR ''-'')"]
  show "for_loop (\<lambda>i b. wr b i (ch (CHR ''-''))) (Suc k) (n - k) ?w1 = Some (bar_text n k @ replicate 7 0)"
    using assms(1) by (simp add: bar_text_def)
qed

text \<open>The steps on the buffer: clear, brackets, marks.\<close>

definition bar_frame :: "nat \<Rightarrow> u8 list" where
  "bar_frame n = ch (CHR ''['') # replicate n 0 @ ch (CHR '']'') # replicate 7 0"

lemma percent_bar_frame:
  assumes "z = n + 8 \<or> z = n + 2"
  shows "do {
      b \<leftarrow> for_loop (\<lambda>i b. wr b i 0) 0 (n + 9) (replicate (n + 9) 0);
      b \<leftarrow> wr b 0 (ch (CHR ''[''));
      b \<leftarrow> wr b (Suc n) (ch (CHR '']''));
      wr b z 0 } = Some (bar_frame n)"
proof -
  have z: "for_loop (\<lambda>i b. wr b i 0) 0 (n + 9) (replicate (n + 9) 0) = Some (replicate (n + 9) (0 :: u8))"
    using fill_const[of 0 "n + 9" "replicate (n + 9) (0 :: u8)" 0] by simp
  have r: "replicate (n + 9) (0 :: u8) = 0 # replicate n 0 @ 0 # replicate 7 0"
    using replicate_add[of "Suc n" 8 "0 :: u8"] by (simp add: numeral_eq_Suc)
  show ?thesis unfolding z unfolding r bar_frame_def using assms by (auto simp add: list_update_append numeral_eq_Suc)
qed

lemma percent_bar_marks:
  assumes "k \<le> n"
  shows "do {
      b \<leftarrow> for_loop (\<lambda>i b. wr b i (ch (CHR ''#''))) 1 k (bar_frame n);
      if k < n then for_loop (\<lambda>i b. wr b i (ch (CHR ''-''))) (Suc k) (n - k) b else Some b } =
    Some (bar_text n k @ replicate 7 0)"
proof -
  note f = percent_bar_fill[OF assms]
  show ?thesis
  proof (cases "k < n")
    case False
    with assms have "k = n" by simp
    then show ?thesis using f(1) by (simp add: bar_frame_def bar_text_def)
  next
    case True
    then show ?thesis unfolding bar_frame_def f(1) bind.simps using f(2) by simp
  qed
qed

lemma bar_cstr: "cstr (bar_text n k) (bar_text n k @ replicate 7 0)"
proof -
  have "replicate 7 (0 :: u8) = 0 # replicate 6 0" by (simp add: numeral_eq_Suc)
  then show ?thesis using cstrI[of "bar_text n k" "replicate 6 0"] by (simp add: bar_text_def)
qed

lemma percent_bar_program:
  fixes elements :: u64
  assumes "0 < outOf" "count \<le> outOf" and "unat outOf * 100 < 2 ^ 64" and "unat elements + 9 \<le> str_max"
  defines "n \<equiv> unat elements" and "k \<equiv> unat count * 100 div unat outOf * unat elements div 100"
  shows "getPercentBar count outOf elements showPercentage = (if showPercentage then do {
      s \<leftarrow> String_construct [Chars (lit '' ''), Unsigned (count * 100 div outOf), Chars (lit ''%'')];
      str_add (bar_text n k @ replicate 7 0) s } else Some (bar_text n k @ replicate 7 0))"
proof -
  note w = percent_words[OF assms(2-4)]
  have small: "n + 9 < 2 ^ 64" using assms(4) by (simp add: n_def)
  have u: "unat (elements + 9) = n + 9" "unat (elements + 1) = Suc n" "unat (elements + 8) = n + 8" "unat (elements + 2) = n + 2"
    using small by (simp_all add: n_def unat_add_lem[THEN iffD1])
  have k: "unat (count * 100 div outOf * elements div 100) = k" "k \<le> n" using w(3,4) by (simp_all add: n_def k_def)
  have lt: "count * 100 div outOf * elements div 100 < elements \<longleftrightarrow> k < n" by (simp add: word_less_nat_alt k n_def)
  have uk: "unat (count * 100 div outOf * elements div 100 + 1) = Suc k" using k small by (simp add: unat_add_lem[THEN iffD1])
  have "of_nat (n + 9) = elements + 9" by (simp add: n_def of_nat_add)
  then have m: "malloc_str (elements + 9) = Some (replicate (n + 9) 0)" using malloc_str_ok[OF assms(4)] by (simp add: n_def)
  let ?z = "if showPercentage then n + 8 else n + 2"
  have "getPercentBar count outOf elements showPercentage = do {
      b \<leftarrow> do {
        b \<leftarrow> for_loop (\<lambda>i b. wr b i 0) 0 (n + 9) (replicate (n + 9) 0);
        b \<leftarrow> wr b 0 (ch (CHR ''[''));
        b \<leftarrow> wr b (Suc n) (ch (CHR '']''));
        wr b ?z 0 };
      b \<leftarrow> do {
        b \<leftarrow> for_loop (\<lambda>i b. wr b i (ch (CHR ''#''))) 1 k b;
        if k < n then for_loop (\<lambda>i b. wr b i (ch (CHR ''-''))) (Suc k) (n - k) b else Some b };
      if showPercentage then do {
        s \<leftarrow> String_construct [Chars (lit '' ''), Unsigned (count * 100 div outOf), Chars (lit ''%'')];
        str_add b s } else Some b }"
    using assms(1) by (cases showPercentage)
      (simp_all only: getPercentBar_def Let_def m u uk lt if_True if_False Option.bind_assoc bind.simps diff_Suc_Suc diff_Suc_1 minus_nat.diff_0
        word_neq_0_conv[symmetric] simp_thms)
  also have "\<dots> = (if showPercentage then do {
      s \<leftarrow> String_construct [Chars (lit '' ''), Unsigned (count * 100 div outOf), Chars (lit ''%'')];
      str_add (bar_text n k @ replicate 7 0) s } else Some (bar_text n k @ replicate 7 0))"
    using percent_bar_frame[of ?z n] by (simp only: percent_bar_marks[OF k(2)] bind.simps if_True if_False simp_thms split: if_splits)
  finally show ?thesis .
qed


text \<open>C36. The bar of a share of a whole: a frame of the given width whose filled part is the rounded down share,
  followed by the rounded down percentage when it is asked for.\<close>

theorem percent_bar_text:
  assumes "0 < outOf" "count \<le> outOf" and "unat outOf * 100 < 2 ^ 64" and "unat elements + 9 \<le> str_max"
  shows "\<exists>b. getPercentBar count outOf elements showPercentage = Some b \<and>
    cstr (bar_text (unat elements) (unat count * 100 div unat outOf * unat elements div 100) @
      (if showPercentage then ch (CHR '' '') # number_text 10 (count * 100 div outOf) @ [ch (CHR ''%'')] else [])) b"
proof -
  let ?b = "bar_text (unat elements) (unat count * 100 div unat outOf * unat elements div 100)"
  let ?p = "count * 100 div outOf" and ?args = "[Chars (lit '' ''), Unsigned (count * 100 div outOf), Chars (lit ''%'')]"
  note prog = percent_bar_program[OF assms, of showPercentage] and bar = bar_cstr[of "unat elements" "unat count * 100 div unat outOf * unat elements div 100"]
  show ?thesis
  proof (cases showPercentage)
    case False
    then show ?thesis using prog bar by simp
  next
    case True
    let ?s = "ch (CHR '' '') # number_text 10 ?p @ [ch (CHR ''%'')]"
    have "unat ?p < 10 ^ Suc 2" using percent_words(1,2)[OF assms(2-4)] by simp
    then have ln: "length (number_text 10 ?p) \<le> 3" using length_number_text_ten[of ?p 2] by simp
    have "cstr [ch (CHR '' '')] (lit '' '')" "cstr [ch (CHR ''%'')] (lit ''%'')"
      using cstrI[of "[ch (CHR '' '')]" "[]"] cstrI[of "[ch (CHR ''%'')]" "[]"] by simp_all
    then have "list_all2 arg_text ?args [[ch (CHR '' '')], number_text 10 ?p, [ch (CHR ''%'')]]" by simp
    from String_construct_spec[OF this] ln obtain t where t: "String_construct ?args = Some t" "cstr ?s t" by auto
    have "length ?b + length ?s < length (?b @ replicate 7 0)" using ln by simp
    from str_add_spec[OF bar t(2) this] have add: "str_add (?b @ replicate 7 0) t =
      Some ((?b @ ?s) @ 0 # drop (Suc (length ?b + length ?s)) (?b @ replicate 7 0))" by (simp only: append_assoc)
    have "0 \<notin> set ?b" "0 \<notin> set ?s" using bar t(2) unfolding cstr_def by blast+
    then have "0 \<notin> set (?b @ ?s)" by (simp only: set_append Un_iff simp_thms)
    from cstrI[OF this] prog t(1) add True show ?thesis by (simp only: if_True bind.simps) blast
  qed
qed

text \<open>Half of two hundred elements, with the percentage.\<close>

lemma percent_bar_text_witness:
  "\<exists>b. getPercentBar 1 2 10 True = Some b \<and>
    cstr (ascii ''[#####-----] 50%'') b"
proof -
  have n: "number_text 10 50 = ascii ''50''" by code_simp
  have t: "bar_text 10 5 @ ch (CHR '' '') # ascii ''50'' @ [ch (CHR ''%'')] = ascii ''[#####-----] 50%''" by code_simp
  have u: "(1 * 100 div 2 :: u64) = 50" "unat (10 :: u64) = 10" "unat (1 :: u64) * 100 div unat (2 :: u64) * 10 div 100 = 5"
    "(0 :: u64) < 2" "(1 :: u64) \<le> 2" "unat (2 :: u64) * 100 < 2 ^ 64" "unat (10 :: u64) + 9 \<le> str_max" by simp_all
  have "\<exists>b. getPercentBar 1 2 10 True = Some b \<and> cstr (bar_text 10 5 @ ch (CHR '' '') # ascii ''50'' @ [ch (CHR ''%'')]) b"
    using percent_bar_text[OF u(4-7), of True] unfolding u(1,2,3) n by (simp only: if_True)
  then show ?thesis unfolding t .
qed

end
