(* ===== verification/ShellSpec.thy ===== *)
theory ShellSpec
  imports Shell HistorySpec InfoSpec
begin

text \<open>
  Tokens, completion and dispatch of the shell, over the texts its buffers hold: the token
  under the cursor, the replacement of that token by the only candidate, the split of a
  line into a command and its arguments, and the command that runs.
\<close>

section \<open>The token under the cursor\<close>

lemma find_token_start_none:
  assumes "cstr s buf" and "cursor \<le> length s" and "i \<le> cursor" and "\<forall>j. 0 < j \<and> j \<le> i \<and> j \<noteq> cursor \<longrightarrow> s ! j \<noteq> 0x20"
  shows "find_token_start buf cursor i = Some 0"
  using assms(3,4)
proof (induction i)
  case (Suc i)
  have "\<exists>c. rd buf (Suc i) = Some c \<and> (Suc i \<noteq> cursor \<longrightarrow> c \<noteq> 0x20)"
  proof (cases "Suc i = length s")
    case True
    then show ?thesis unfolding True using cstr_rd_end[OF assms(1)] by simp
  next
    case False
    then show ?thesis using Suc.prems assms(2) cstr_rd[OF assms(1), of "Suc i"] by auto
  qed
  with Suc show ?case by auto
qed simp

lemma find_token_start_blank:
  assumes "cstr s buf" and "cursor \<le> length s" and "i \<le> cursor" and "0 < k" "k \<le> i" "k \<noteq> cursor" "s ! k = 0x20"
    and "\<forall>j. k < j \<and> j \<le> i \<and> j \<noteq> cursor \<longrightarrow> s ! j \<noteq> 0x20"
  shows "find_token_start buf cursor i = Some k"
  using assms(3,5,8)
proof (induction i)
  case (Suc i)
  show ?case
  proof (cases "Suc i = k")
    case True
    then have "k < length s" using Suc.prems(1) assms(2,6) by simp
    with cstr_rd[OF assms(1), of k] assms(6,7) show ?thesis unfolding True[symmetric] by simp
  next
    case False
    then have k: "k \<le> i" using Suc.prems(2) by simp
    have "\<exists>c. rd buf (Suc i) = Some c \<and> (Suc i \<noteq> cursor \<longrightarrow> c \<noteq> 0x20)"
    proof (cases "Suc i = length s")
      case True
      then show ?thesis unfolding True using cstr_rd_end[OF assms(1)] by simp
    next
      case False
      then show ?thesis using Suc.prems assms(2) cstr_rd[OF assms(1), of "Suc i"] k by auto
    qed
    with Suc k show ?thesis by auto
  qed
qed (use assms(4) in simp)

text \<open>A line around a token: nothing or text with a blank before it, nothing or a blank behind it.\<close>

definition token_at :: "u8 list \<Rightarrow> u8 list \<Rightarrow> u8 list \<Rightarrow> bool" where
  "token_at pre tok post \<longleftrightarrow> 0x20 \<notin> set tok \<and> (post = [] \<or> hd post = 0x20) \<and>
     (pre = [] \<or> (\<exists>p. p \<noteq> [] \<and> pre = p @ [0x20]))"

lemma token_start:
  assumes s: "cstr (pre @ tok @ post) buf" and t: "token_at pre tok post"
    and c: "length pre \<le> cursor" "cursor \<le> length pre + length tok"
  shows "\<exists>k. find_token_start buf cursor cursor = Some k \<and> (if k \<noteq> 0 then k + 1 else k) = length pre"
proof (cases "pre = []")
  case True
  have "\<forall>j. 0 < j \<and> j \<le> cursor \<and> j \<noteq> cursor \<longrightarrow> (pre @ tok @ post) ! j \<noteq> 0x20"
    using t c True by (auto simp: token_at_def nth_append in_set_conv_nth)
  from find_token_start_none[OF s _ order_refl this] c True show ?thesis by simp
next
  case False
  with t obtain p where p: "p \<noteq> []" "pre = p @ [0x20]" by (auto simp: token_at_def)
  have "\<forall>j. length p < j \<and> j \<le> cursor \<and> j \<noteq> cursor \<longrightarrow> (pre @ tok @ post) ! j \<noteq> 0x20"
    using t c p(2) by (auto simp: token_at_def nth_append in_set_conv_nth)
  moreover have "(pre @ tok @ post) ! length p = 0x20" by (simp add: p(2) nth_append)
  ultimately have "find_token_start buf cursor cursor = Some (length p)"
    using find_token_start_blank[OF s, of cursor cursor "length p"] c p by simp
  then show ?thesis using p by simp
qed

lemma collect_token:
  assumes s: "cstr (pre @ tok @ post) buf" and t: "0x20 \<notin> set tok" "post = [] \<or> hd post = 0x20"
    and d: "cstr (take i tok) d" "length tok < length d" and i: "i \<le> length tok"
  shows "\<exists>v d'. for_until (\<lambda>i retToken. do {
           c \<leftarrow> rd buf i;
           if c = 0x20 then Some (Inl retToken)
           else do { retToken \<leftarrow> str_add_char retToken c; Some (Inr retToken) } })
         (length pre + i) (length (pre @ tok @ post) - (length pre + i)) d = Some v \<and>
    (case v of Inl r \<Rightarrow> r | Inr r \<Rightarrow> r) = d' \<and> cstr tok d'"
  using d i
proof (induction "length tok - i" arbitrary: i d)
  case 0
  then have il: "i = length tok" by simp
  show ?case
  proof (cases post)
    case Nil
    with il 0 show ?thesis by simp
  next
    case (Cons c r)
    then have "rd buf (length pre + i) = Some 0x20"
      using cstr_rd[OF s, of "length pre + i"] t(2) il by (simp add: nth_append)
    with Cons il 0 show ?thesis by simp
  qed
next
  case (Suc n)
  then have i: "i < length tok" by simp
  let ?c = "tok ! i"
  have r: "rd buf (length pre + i) = Some ?c" using cstr_rd[OF s, of "length pre + i"] i by (simp add: nth_append)
  have "0 \<notin> set tok" using s by (auto simp: cstr_def)
  then have c: "?c \<noteq> 0x20" "?c \<noteq> 0" using t(1) nth_mem[OF i] by metis+
  have "length (take i tok) + 1 < length d" using Suc.prems(2) i by simp
  from str_add_char_spec[OF Suc.prems(1) this, of ?c] have a: "str_add_char d ?c =
    Some (take (Suc i) tok @ 0 # drop (Suc (Suc (length (take i tok)))) d)" using i by (simp add: take_Suc_conv_app_nth)
  let ?d = "take (Suc i) tok @ 0 # drop (Suc (Suc (length (take i tok)))) d"
  have "0 \<notin> set (take (Suc i) tok)" using s by (auto simp: cstr_def dest: in_set_takeD)
  then have "cstr (take (Suc i) tok) ?d" by (rule cstrI)
  moreover have "length tok < length ?d" using Suc.prems(2) i by simp
  ultimately have ih: "\<exists>v d'. for_until (\<lambda>i retToken. do {
           c \<leftarrow> rd buf i;
           if c = 0x20 then Some (Inl retToken)
           else do { retToken \<leftarrow> str_add_char retToken c; Some (Inr retToken) } })
         (length pre + Suc i) (length (pre @ tok @ post) - (length pre + Suc i)) ?d = Some v \<and>
    (case v of Inl r \<Rightarrow> r | Inr r \<Rightarrow> r) = d' \<and> cstr tok d'"
    using Suc.hyps(1)[of "Suc i" ?d] Suc.hyps(2) i by simp
  have "length (pre @ tok @ post) - (length pre + i) = Suc (length (pre @ tok @ post) - (length pre + Suc i))" using i by simp
  with ih r c(1) a show ?case by simp
qed

lemma getCurrToken_spec:
  assumes s: "cstr (pre @ tok @ post) buf" and t: "token_at pre tok post"
    and c: "length pre \<le> cursor" "cursor \<le> length pre + length tok" and small: "length (pre @ tok @ post) < str_max"
  shows "\<exists>d. getCurrTokenFromBuffer cursor (length (pre @ tok @ post)) buf = Some d \<and> cstr tok d"
proof -
  let ?n = "length (pre @ tok @ post)"
  from token_start[OF s t c] obtain k where k: "find_token_start buf cursor cursor = Some k"
    "(if k \<noteq> 0 then k + 1 else k) = length pre" by blast
  have m: "malloc_str (of_nat (?n + 1)) = Some (replicate (Suc ?n) 0)" using malloc_str_ok[of "?n + 1"] small by simp
  have "cstr (take 0 tok) (replicate (Suc ?n) 0)" "length tok < length (replicate (Suc ?n) (0 :: u8))" by (simp_all add: cstr_def)
  from collect_token[OF s _ _ this] t k m show ?thesis
    by (auto simp: token_at_def getCurrTokenFromBuffer_def Let_def simp del: replicate_Suc length_append)
qed


section \<open>Replacing the token\<close>

lemma move_to_end:
  fixes st :: "'a terminal_scheme"
  assumes "editing older prompt l (t @ post) st" and "0x20 \<notin> set t" and "post = [] \<or> hd post = 0x20" and "length t \<le> fuel"
  shows "\<exists>st'. move_to_token_end fuel st = Some st' \<and> editing older prompt (l @ t) post st' \<and> kept st st'"
  using assms(1,2,4)
proof (induction t arbitrary: l st fuel)
  case Nil
  then have e: "editing older prompt l post st" by simp
  show ?case
  proof (cases post)
    case Nil
    with e have "\<not> lineInputCursorPos st < lineInputLength st" by (auto simp: editing_def)
    with e show ?thesis by (subst move_to_token_end.simps) simp
  next
    case (Cons c r)
    have b: "lineInputCursorPos st = length l" "lineInputLength st = length (l @ post)" "cstr (l @ post) (lineInputBuffer st)"
      using e by (auto simp: editing_def)
    have "rd (lineInputBuffer st) (length l) = Some 0x20"
      using cstr_rd[OF b(3), of "length l"] Cons assms(3) by (simp add: nth_append)
    with b e Cons show ?thesis by (subst move_to_token_end.simps) simp
  qed
next
  case (Cons c t)
  then obtain fuel' where f: "fuel = Suc fuel'" "length t \<le> fuel'" by (cases fuel) auto
  have b: "lineInputCursorPos st = length l" "lineInputLength st = length (l @ (c # t) @ post)"
    "cstr (l @ (c # t) @ post) (lineInputBuffer st)" using Cons.prems(1) by (auto simp: editing_def)
  have r: "rd (lineInputBuffer st) (length l) = Some c" using cstr_rd[OF b(3), of "length l"] by (simp add: nth_append)
  from editing_right[OF Cons.prems(1)] obtain st1 where
    st1: "cursor_move_inline True st = Some st1" "editing older prompt (l @ [c]) (t @ post) st1" "kept st st1" by auto
  from Cons.IH[OF st1(2) _ f(2)] Cons.prems(2) obtain st2 where
    "move_to_token_end fuel' st1 = Some st2" "editing older prompt ((l @ [c]) @ t) post st2" "kept st1 st2" by auto
  with b(1,2) r st1(1) kept_trans[OF st1(3)] f(1) Cons.prems(2) show ?case by (subst move_to_token_end.simps) simp
qed

lemma delete_chars:
  fixes st :: "'a terminal_scheme"
  assumes "editing older prompt (l @ t) r st"
  shows "\<exists>st'. for_loop (\<lambda>_. handle_input_buffer_deletion) i (length t) st = Some st' \<and> editing older prompt l r st' \<and>
    kept st st'"
  using assms
proof (induction t arbitrary: i st rule: rev_induct)
  case (snoc c t)
  from editing_backspace[OF snoc.prems] obtain st1 where
    st1: "handle_input_buffer_deletion st = Some st1" "editing older prompt (l @ t) r st1" "kept st st1"
    by (auto simp: butlast_append)
  from snoc.IH[OF st1(2)] st1(1) kept_trans[OF st1(3)] show ?case by auto
qed simp

lemma insert_chars:
  fixes st :: "'a terminal_scheme"
  assumes "editing older prompt l r st" and "cstr s buf" and "\<forall>c \<in> set s. c < 128"
    and "length (l @ s @ r) < TERMINAL_BUFFER_SIZE" and "int (length prompt + length (l @ s @ r)) < MAX_CHARS st"
  shows "\<exists>st'. for_loop (\<lambda>i st. do { c \<leftarrow> rd buf i; insert_char_at_cursor c st }) 0 (length s) st = Some st' \<and>
    editing older prompt (l @ s) r st' \<and> kept st st'"
proof -
  let ?body = "\<lambda>i st. do { c \<leftarrow> rd buf i; insert_char_at_cursor c st }"
  let ?I = "\<lambda>i st'. editing older prompt (l @ take i s) r st' \<and> kept st st'"
  have "\<exists>s'. for_loop ?body 0 (length s) st = Some s' \<and> ?I (0 + length s) s'"
  proof (rule for_loop_rule[where I = ?I])
    show "?I 0 st" using assms(1) by simp
  next
    fix i st1 assume i: "i < 0 + length s" and I: "?I i st1"
    have "0 \<notin> set s" using assms(2) by (simp add: cstr_def)
    then have c: "s ! i \<noteq> 0" "s ! i < 128" using assms(3) nth_mem[of i s] i by (metis add_0)+
    have rm: "Suc (length ((l @ take i s) @ r)) < TERMINAL_BUFFER_SIZE"
      "int (length prompt + Suc (length ((l @ take i s) @ r))) < MAX_CHARS st1" using assms(4,5) i I kept_MAX_CHARS[of st st1] by simp_all
    from editing_insert[OF conjunct1[OF I] c rm] obtain st2 where
      "insert_char_at_cursor (s ! i) st1 = Some st2" "editing older prompt ((l @ take i s) @ [s ! i]) r st2" "kept st1 st2" by blast
    with I i cstr_rd[OF assms(2), of i] kept_trans[of st st1 st2] show "\<exists>s'. ?body i st1 = Some s' \<and> ?I (Suc i) s'"
      by (simp add: take_Suc_conv_app_nth)
  qed
  then show ?thesis by simp
qed

lemma replace_token_effect:
  fixes st :: "'a terminal_scheme"
  assumes ed: "editing older prompt (pre @ t1) (t2 @ post) st" and t: "0x20 \<notin> set (t1 @ t2)" "post = [] \<or> hd post = 0x20"
    and tok: "cstr (t1 @ t2) tok" and n: "cstr new buf" "\<forall>c \<in> set new. c < 128"
    and fits: "length (pre @ new @ post) < TERMINAL_BUFFER_SIZE" "int (length prompt + length (pre @ new @ post)) < MAX_CHARS st"
  shows "\<exists>st'. replaceCurrentToken tok buf st = Some st' \<and> editing older prompt (pre @ new) post st' \<and> kept st st'"
proof -
  have fuel: "length t2 \<le> lineInputLength st" using ed by (auto simp: editing_def)
  from t(1) have "0x20 \<notin> set t2" by simp
  from move_to_end[OF ed this t(2) fuel] obtain st1 where
    st1: "move_to_token_end (lineInputLength st) st = Some st1" "editing older prompt (pre @ (t1 @ t2)) post st1" "kept st st1"
    by auto
  from delete_chars[OF st1(2), of 0] obtain st2 where
    st2: "for_loop (\<lambda>_. handle_input_buffer_deletion) 0 (length (t1 @ t2)) st1 = Some st2" "editing older prompt pre post st2"
    "kept st1 st2" by blast
  note k = kept_trans[OF st1(3) st2(3)]
  from insert_chars[OF st2(2) n fits(1)] fits(2) kept_MAX_CHARS[OF k] obtain st3 where
    "for_loop (\<lambda>i st. do { c \<leftarrow> rd buf i; insert_char_at_cursor c st }) 0 (length new) st2 = Some st3"
    "editing older prompt (pre @ new) post st3" "kept st2 st3" by auto
  with st1(1) st2(1) tok n(1) kept_trans[OF k] show ?thesis by (simp add: replaceCurrentToken_def)
qed

section \<open>Completion\<close>

definition commands_ok :: "'a Command list \<Rightarrow> u8 list list \<Rightarrow> bool" where
  "commands_ok commands names \<longleftrightarrow> list_all2 (\<lambda>c n. cstr n (name c) \<and> n \<noteq> [] \<and> 0x20 \<notin> set n \<and> (\<forall>x \<in> set n. x < 128)) commands names"

lemma commands_okD:
  assumes "commands_ok commands names" and "i < length commands"
  shows "i < length names" "cstr (names ! i) (name (commands ! i))" "\<forall>x \<in> set (names ! i). x < 128"
  using assms by (auto simp: commands_ok_def list_all2_conv_all_nth)

lemma find_candidates_spec:
  assumes ok: "commands_ok commands names" and t: "cstr tok b"
  shows "\<exists>cs. find_candidates commands b = Some cs \<and> list_all2 cstr (filter (prefix tok) names) cs"
proof -
  let ?body = "\<lambda>i cs. do { p \<leftarrow> str_starts_with (name (commands ! i)) b; Some (if p then cs @ [name (commands ! i)] else cs) }"
  let ?I = "\<lambda>i cs. list_all2 cstr (filter (prefix tok) (take i names)) cs"
  have "\<exists>cs. for_loop ?body 0 (length commands) [] = Some cs \<and> ?I (0 + length commands) cs"
  proof (rule for_loop_rule[where I = ?I])
    fix i cs assume "i < 0 + length commands" and I: "?I i cs"
    then have i: "i < length commands" by simp
    note k = commands_okD[OF ok i]
    from str_starts_with_spec[OF k(2) t] I k(1,2) show "\<exists>s'. ?body i cs = Some s' \<and> ?I (Suc i) s'"
      by (auto simp: take_Suc_conv_app_nth intro!: list_all2_appendI)
  qed simp
  moreover have "length commands = length names" using ok by (auto simp: commands_ok_def dest: list_all2_lengthD)
  ultimately show ?thesis by (simp add: find_candidates_def)
qed

lemma completion_effect:
  fixes st :: "'a terminal_scheme"
  assumes ed: "editing older prompt (pre @ t1) (t2 @ post) st" and t: "token_at pre (t1 @ t2) post" "t1 @ t2 \<noteq> []"
    and ok: "commands_ok commands names" and one: "filter (prefix (t1 @ t2)) names = [new]"
    and fits: "length (pre @ new @ post) < TERMINAL_BUFFER_SIZE" "int (length prompt + length (pre @ new @ post)) < MAX_CHARS st"
  shows "\<exists>st'. handleTabAutoCompletion commands st = Some st' \<and> editing older prompt (pre @ new) post st' \<and> kept st st'"
proof -
  let ?tok = "t1 @ t2"
  have b: "lineInputCursorPos st = length (pre @ t1)" "lineInputLength st = length (pre @ ?tok @ post)"
    "cstr (pre @ ?tok @ post) (lineInputBuffer st)" "length (lineInputBuffer st) = TERMINAL_BUFFER_SIZE"
    using ed by (auto simp: editing_def)
  have "length (pre @ ?tok @ post) < str_max" using cstr_length[OF b(3)] b(4) by (simp add: TERMINAL_BUFFER_SIZE_def)
  from getCurrToken_spec[OF b(3) t(1) _ _ this, of "length (pre @ t1)"] obtain d where
    d: "getCurrTokenFromBuffer (lineInputCursorPos st) (lineInputLength st) (lineInputBuffer st) = Some d" "cstr ?tok d"
    unfolding b(1,2) by auto
  have hd: "rd d 0 = Some (?tok ! 0)" using cstr_rd[OF d(2), of 0] t(2) by (simp add: length_greater_0_conv)
  have "?tok ! 0 \<in> set ?tok" using t(2) nth_mem[of 0 ?tok] by (simp add: length_greater_0_conv)
  then have nz: "?tok ! 0 \<noteq> 0" using d(2) unfolding cstr_def by metis
  from find_candidates_spec[OF ok d(2)] one obtain c where cs: "find_candidates commands d = Some [c]" "cstr new c"
    by (auto simp: list_all2_Cons1)
  have "new \<in> set (filter (prefix ?tok) names)" by (simp only: one) simp
  then have "new \<in> set names" by simp
  then obtain i where "i < length names" "names ! i = new" by (auto simp: in_set_conv_nth)
  moreover have "length commands = length names" using ok by (auto simp: commands_ok_def dest: list_all2_lengthD)
  ultimately have "\<forall>x \<in> set new. x < 128" using commands_okD(3)[OF ok, of i] by simp
  from replace_token_effect[OF ed _ _ d(2) cs(2) this fits] t(1) obtain st' where
    "replaceCurrentToken d c st = Some st'" "editing older prompt (pre @ new) post st'" "kept st st'" by (auto simp: token_at_def)
  moreover have "lineInputLength st \<noteq> 0" using b(2) t(2) by auto
  ultimately show ?thesis using d(1) hd nz cs(1) by (simp add: handleTabAutoCompletion_def)
qed

section \<open>Dispatch\<close>

lemma scan_blank:
  assumes s: "cstr s b" and w: "0x20 \<notin> set (take k s)" and k: "k \<le> length s"
  shows "lo \<le> k \<Longrightarrow> k - lo \<le> n \<Longrightarrow> for_until (\<lambda>i (_ :: unit). do {
           c \<leftarrow> rd b i;
           if c = 0x20 then do { b \<leftarrow> wr b i 0; Some (Inl (drop (i + 1) b, b)) } else Some (Inr ()) }) lo n () =
    for_until (\<lambda>i (_ :: unit). do {
           c \<leftarrow> rd b i;
           if c = 0x20 then do { b \<leftarrow> wr b i 0; Some (Inl (drop (i + 1) b, b)) } else Some (Inr ()) }) k (n - (k - lo)) ()"
proof (induction n arbitrary: lo)
  case (Suc n)
  show ?case
  proof (cases "lo = k")
    case False
    then have lo: "lo < k" using Suc.prems by simp
    then have "s ! lo \<in> set (take k s)" using k by (auto simp: in_set_conv_nth intro!: exI[of _ lo])
    then have "s ! lo \<noteq> 0x20" using w by metis
    moreover have "rd b lo = Some (s ! lo)" using cstr_rd[OF s, of lo] lo k by simp
    moreover have "Suc n - (k - lo) = n - (k - Suc lo)" using lo by simp
    ultimately show ?thesis using Suc.IH[of "Suc lo"] lo Suc.prems by simp
  qed simp
qed simp

lemma getInputArgs_blank:
  assumes s: "cstr (w @ 0x20 # rest) b" and w: "0x20 \<notin> set w"
  shows "getInputArgs (length (w @ 0x20 # rest)) b = Some (drop (Suc (length w)) b, b[length w := 0])"
    and "cstr w (b[length w := 0])" and "cstr rest (drop (Suc (length w)) b)"
proof -
  have r: "rd b (length w) = Some 0x20" "length w < length b"
    using cstr_rd[OF s, of "length w"] cstr_length[OF s] by (simp_all add: nth_append)
  have "length (w @ 0x20 # rest) - (length w - 0) = Suc (length rest)" by simp
  then show "getInputArgs (length (w @ 0x20 # rest)) b = Some (drop (Suc (length w)) b, b[length w := 0])"
    using scan_blank[OF s, of "length w" 0 "length (w @ 0x20 # rest)"] w r by (simp add: getInputArgs_def)
  from s obtain t where "b = (w @ 0x20 # rest) @ 0 # t" "0 \<notin> set (w @ 0x20 # rest)" by (rule cstrE)
  then show "cstr w (b[length w := 0])" "cstr rest (drop (Suc (length w)) b)" by (simp_all add: cstr_def)
qed

lemma getInputArgs_none:
  assumes "cstr s b" and "0x20 \<notin> set s"
  shows "getInputArgs (length s) b = Some (lit '''', b)"
  using scan_blank[OF assms(1), of "length s" 0 "length s"] assms by (simp add: getInputArgs_def)

text \<open>The words of a line: up to the first blank, and behind it.\<close>

definition command_word :: "u8 list \<Rightarrow> u8 list" where "command_word s = takeWhile (\<lambda>c. c \<noteq> 0x20) s"
definition command_args :: "u8 list \<Rightarrow> u8 list" where "command_args s = drop (Suc (length (command_word s))) s"

lemma getInputArgs_spec:
  assumes "cstr s b"
  shows "\<exists>args b'. getInputArgs (length s) b = Some (args, b') \<and> cstr (command_word s) b' \<and> cstr (command_args s) args \<and>
    length b' = length b"
proof (cases "0x20 \<in> set s")
  case True
  then obtain w rest where s: "s = w @ 0x20 # rest" "0x20 \<notin> set w" by (metis split_list_first)
  then have "command_word s = w" by (auto simp: command_word_def takeWhile_append)
  then have "command_args s = rest" by (simp add: command_args_def s(1))
  with \<open>command_word s = w\<close> getInputArgs_blank[of w rest b] assms s show ?thesis by auto
next
  case False
  then have "command_word s = s" by (auto simp: command_word_def takeWhile_eq_all_conv)
  then show ?thesis using getInputArgs_none[OF assms False] assms cstrI[of "[]" "[]"] by (simp add: command_args_def)
qed

text \<open>The first entry of the table with the name runs, after a newline.\<close>

lemma executeCommand_first:
  assumes ok: "commands_ok commands names" and w: "cstr w b"
  shows "i < length names \<Longrightarrow> names ! i = w \<Longrightarrow> w \<notin> set (take i names) \<Longrightarrow>
      executeCommand commands b args st = do { st \<leftarrow> newline st; st \<leftarrow> execute (commands ! i) args st; Some (True, st) }"
    and "w \<notin> set names \<Longrightarrow> executeCommand commands b args st = Some (False, st)"
proof -
  have "(\<forall>i < length names. names ! i = w \<longrightarrow> w \<notin> set (take i names) \<longrightarrow>
      executeCommand commands b args st = do { st \<leftarrow> newline st; st \<leftarrow> execute (commands ! i) args st; Some (True, st) }) \<and>
    (w \<notin> set names \<longrightarrow> executeCommand commands b args st = Some (False, st))"
    using ok unfolding commands_ok_def
  proof (induction commands names rule: list_all2_induct)
    case (Cons c cs n ns)
    have e: "str_equal b (name c) = Some (w = n)" using str_equal_spec[OF w, of n "name c"] Cons.hyps(1) by simp
    show ?case
    proof (cases "w = n")
      case True
      with e show ?thesis by (auto simp: nth_Cons split: nat.splits)
    next
      case False
      with e Cons.IH show ?thesis by (auto simp: nth_Cons split: nat.splits)
    qed
  qed simp
  then show "i < length names \<Longrightarrow> names ! i = w \<Longrightarrow> w \<notin> set (take i names) \<Longrightarrow>
      executeCommand commands b args st = do { st \<leftarrow> newline st; st \<leftarrow> execute (commands ! i) args st; Some (True, st) }"
    and "w \<notin> set names \<Longrightarrow> executeCommand commands b args st = Some (False, st)" by blast+
qed

text \<open>Before the command runs only the history and the buffer with the split line differ.\<close>

lemma dispatch_line:
  fixes st :: "'a terminal_scheme"
  assumes s: "cstr s (lineInputBuffer st)" "lineInputLength st = length s" "s \<noteq> []" "length s < TERMINAL_BUFFER_SIZE"
    and h: "history_ok cs st" "\<forall>c \<in> set cs. length c < TERMINAL_BUFFER_SIZE" and ok: "commands_ok commands names"
  obtains st1 cmds n b args where "st1 = st\<lparr>commandHistory := cmds, cmdHistCount := n, lineInputBuffer := b\<rparr>"
    "length b = length (lineInputBuffer st)" "history_ok (remember s cs) st1"
    "cstr (command_word s) (lineInputBuffer st1)" "cstr (command_args s) args"
    "\<forall>i < length names. names ! i = command_word s \<longrightarrow> command_word s \<notin> set (take i names) \<longrightarrow>
      processLineInputBuffer commands st = do {
        st \<leftarrow> newline st1; st \<leftarrow> execute (commands ! i) args st; reset_line_input st }"
    "command_word s \<notin> set names \<longrightarrow> processLineInputBuffer commands st =
      displayTerminalError [Chars (ascii ''Unknown Command: '' @ [0x27, 0]), Chars (lineInputBuffer st1), Chars [0x27, 0]] st1"
proof -
  from add_command_effect[OF h s(1,4)] obtain st0 cmds n where
    st0: "add_command_to_history (lineInputBuffer st) st = Some st0" "history_ok (remember s cs) st0"
      "st0 = st\<lparr>commandHistory := cmds, cmdHistCount := n\<rparr>" by blast
  from getInputArgs_spec[OF s(1)] obtain args b where
    b: "getInputArgs (length s) (lineInputBuffer st) = Some (args, b)" "cstr (command_word s) b" "cstr (command_args s) args"
      "length b = length (lineInputBuffer st)" by blast
  let ?st1 = "st0\<lparr>lineInputBuffer := b\<rparr>"
  have run: "processLineInputBuffer commands st = do {
      (ok, st) \<leftarrow> executeCommand commands b args ?st1;
      if ok then reset_line_input st
      else displayTerminalError [Chars (ascii ''Unknown Command: '' @ [0x27, 0]), Chars (lineInputBuffer st), Chars [0x27, 0]] st }"
    using st0(1) b(1) s(2-4) by (simp add: processLineInputBuffer_def st0(3))
  note first = executeCommand_first[OF ok b(2), where args = args and st = ?st1]
  show ?thesis
  proof (rule that[of ?st1 b n cmds args])
    show "history_ok (remember s cs) ?st1" using st0(2) by (simp add: history_ok_def)
    show "\<forall>i < length names. names ! i = command_word s \<longrightarrow> command_word s \<notin> set (take i names) \<longrightarrow>
        processLineInputBuffer commands st = do {
          st \<leftarrow> newline ?st1; st \<leftarrow> execute (commands ! i) args st; reset_line_input st }"
      using run first(1) by (auto simp: Option.bind_assoc)
    show "command_word s \<notin> set names \<longrightarrow> processLineInputBuffer commands st =
        displayTerminalError [Chars (ascii ''Unknown Command: '' @ [0x27, 0]), Chars (lineInputBuffer ?st1), Chars [0x27, 0]] ?st1"
      using run first(2) by auto
  qed (use b st0(3) in simp_all)
qed

lemma dispatch_effect:
  fixes st :: "'a terminal_scheme"
  assumes s: "cstr s (lineInputBuffer st)" "lineInputLength st = length s" "s \<noteq> []" "length s < TERMINAL_BUFFER_SIZE"
    and h: "history_ok cs st" "\<forall>c \<in> set cs. length c < TERMINAL_BUFFER_SIZE" and ok: "commands_ok commands names"
  shows "\<exists>st1 args. history_ok (remember s cs) st1 \<and> screen.truncate st1 = screen.truncate st \<and>
    cstr (command_word s) (lineInputBuffer st1) \<and> cstr (command_args s) args \<and>
    (\<forall>i < length names. names ! i = command_word s \<longrightarrow> command_word s \<notin> set (take i names) \<longrightarrow>
      processLineInputBuffer commands st = do {
        st \<leftarrow> newline st1; st \<leftarrow> execute (commands ! i) args st; reset_line_input st }) \<and>
    (command_word s \<notin> set names \<longrightarrow> processLineInputBuffer commands st =
      displayTerminalError [Chars (ascii ''Unknown Command: '' @ [0x27, 0]), Chars (lineInputBuffer st1), Chars [0x27, 0]] st1)"
proof -
  obtain st1 args cmds n b where st1: "st1 = st\<lparr>commandHistory := cmds, cmdHistCount := n, lineInputBuffer := b\<rparr>"
    "history_ok (remember s cs) st1" "cstr (command_word s) (lineInputBuffer st1)" "cstr (command_args s) args"
    "\<forall>i < length names. names ! i = command_word s \<longrightarrow> command_word s \<notin> set (take i names) \<longrightarrow>
      processLineInputBuffer commands st = do {
        st \<leftarrow> newline st1; st \<leftarrow> execute (commands ! i) args st; reset_line_input st }"
    "command_word s \<notin> set names \<longrightarrow> processLineInputBuffer commands st =
      displayTerminalError [Chars (ascii ''Unknown Command: '' @ [0x27, 0]), Chars (lineInputBuffer st1), Chars [0x27, 0]] st1"
    by (rule dispatch_line[OF assms]) blast
  have "screen.truncate st1 = screen.truncate st" by (simp add: st1(1) screen.truncate_def)
  then show ?thesis using st1(2-) by blast
qed

end
