(* ===== verification/PrintSpec.thy ===== *)
theory PrintSpec
  imports InfoSpec
begin

text \<open>
  What a printing operation shows, as a list of pieces: coloured texts and line breaks. An
  operation \<open>prints\<close> its pieces when, on every screen that is ready for printing, it succeeds,
  appends them to the scroll-back and touches nothing but the screen. The lemmas follow
  the structure of the operations, so the output of a composed one is computed from its parts.
\<close>

datatype piece = Txt Color "u8 list" | NL

fun tty_piece :: "nat \<Rightarrow> nat \<Rightarrow> piece \<Rightarrow> Cell list list \<Rightarrow> Cell list list" where
  "tty_piece w n (Txt col s) ls = tty_text w n col False s ls"
| "tty_piece w n NL ls = tty_newline n ls"

definition tty_pieces :: "nat \<Rightarrow> nat \<Rightarrow> piece list \<Rightarrow> Cell list list \<Rightarrow> Cell list list" where
  "tty_pieces w n ps ls = foldl (\<lambda>ls p. tty_piece w n p ls) ls ps"

lemma tty_pieces_simps [simp]:
  "tty_pieces w n [] ls = ls" "tty_pieces w n (p # ps) ls = tty_pieces w n ps (tty_piece w n p ls)"
  "tty_pieces w n (ps @ qs) ls = tty_pieces w n qs (tty_pieces w n ps ls)"
  by (simp_all add: tty_pieces_def)

text \<open>The output of one run from a given state.\<close>

definition printed :: "piece list \<Rightarrow> 'a screen_scheme \<Rightarrow> 'a screen_scheme option \<Rightarrow> bool" where
  "printed ps st r \<longleftrightarrow> (\<exists>st'. r = Some st' \<and> moved st st' \<and> screen_ok st' \<and> stored_lines st' = stored_lines st \<and>
     scrollback st' = tty_pieces (nat (MAX_CHARS st)) (stored_lines st) ps (scrollback st))"

definition prints :: "piece list \<Rightarrow> ('a screen_scheme \<Rightarrow> 'a screen_scheme option) \<Rightarrow> bool" where
  "prints ps f \<longleftrightarrow> (\<forall>st. screen_ok st \<longrightarrow> printed ps st (f st))"

named_theorems prints_intro "rules that compute the output of an operation"

lemma printsD: "prints ps f \<Longrightarrow> screen_ok st \<Longrightarrow> printed ps st (f st)"
  by (simp add: prints_def)

lemma prints_done [prints_intro]: "prints [] Some"
  by (simp add: prints_def printed_def)

lemma prints_bind:
  assumes "prints ps f" and "prints qs g"
  shows "prints (ps @ qs) (\<lambda>st. f st \<bind> g)"
  unfolding prints_def
proof (intro allI impI)
  fix st :: "'a screen_scheme" assume "screen_ok st"
  with assms(1) obtain st1 where 1: "f st = Some st1" "moved st st1" "screen_ok st1" "stored_lines st1 = stored_lines st"
    "scrollback st1 = tty_pieces (nat (MAX_CHARS st)) (stored_lines st) ps (scrollback st)"
    by (auto simp: prints_def printed_def)
  from printsD[OF assms(2) 1(3)] obtain st2 where 2: "g st1 = Some st2" "moved st1 st2" "screen_ok st2" "stored_lines st2 = stored_lines st1"
    "scrollback st2 = tty_pieces (nat (MAX_CHARS st1)) (stored_lines st1) qs (scrollback st1)"
    by (auto simp: printed_def)
  have "MAX_CHARS st1 = MAX_CHARS st" using moved_fields[OF 1(2)] by blast
  with 1 2 show "printed (ps @ qs) st (f st \<bind> g)"
    using moved_trans[OF 1(2) 2(2)] by (simp add: printed_def)
qed

lemma prints_newline: "prints [NL] newline"
  using newline_step by (auto simp: prints_def printed_def)

lemma prints_inline:
  assumes "cstr s txt" and "printable s"
  shows "prints [Txt col s] (print_inline txt col)"
  using print_chars_effect[OF _ assms] by (auto simp: prints_def printed_def print_inline_def)

lemma prints_text:
  assumes "cstr s txt" and "printable s"
  shows "prints [Txt col s, NL] (print_text txt col)"
proof -
  have "prints ([Txt col s] @ [NL]) (\<lambda>st. print_inline txt col st \<bind> newline)"
    by (rule prints_bind[OF prints_inline[OF assms] prints_newline])
  then show ?thesis by (simp add: print_text_def[abs_def] print_inline_def)
qed

lemma prints_if: "prints ps f \<Longrightarrow> prints qs g \<Longrightarrow> prints (if b then ps else qs) (if b then f else g)"
  by simp

text \<open>A loop prints the concatenation of what its rounds print.\<close>

lemma prints_for:
  assumes "\<forall>i < n. prints (ps (lo + i)) (body (lo + i))"
  shows "prints (concat (map ps [lo ..< lo + n])) (for_loop body lo n)"
  using assms
proof (induction n arbitrary: lo)
  case 0
  then show ?case by (simp add: prints_def printed_def)
next
  case (Suc n)
  have 1: "prints (ps lo) (body lo)" using Suc.prems by (auto dest: spec[of _ 0])
  have "\<forall>i < n. prints (ps (Suc lo + i)) (body (Suc lo + i))"
  proof (intro allI impI)
    fix i assume "i < n"
    with Suc.prems have "prints (ps (lo + Suc i)) (body (lo + Suc i))" by blast
    then show "prints (ps (Suc lo + i)) (body (Suc lo + i))" by simp
  qed
  from prints_bind[OF 1 Suc.IH[OF this]] show ?case
    by (simp add: upt_conv_Cons del: upt_Suc)
qed

lemma prints_range:
  assumes "\<forall>i < n. prints (ps i) (body i)"
  shows "prints (concat (map ps [0 ..< n])) (for_range body 0 n)"
  using prints_for[of n ps 0 body] assms by simp

section \<open>Composed texts\<close>

lemma prints_string:
  assumes "list_all2 arg_text args ss" and "sum_list (map length ss) < str_max"
    and "\<And>b. cstr (concat ss) b \<Longrightarrow> prints ps (k b)"
  shows "prints ps (\<lambda>st. String_construct args \<bind> (\<lambda>s. k s st))"
proof -
  from String_construct_spec[OF assms(1,2)] obtain b where "String_construct args = Some b" "cstr (concat ss) b" by blast
  with assms(3) show ?thesis by simp
qed

lemma cstr_lit: "\<forall>c \<in> set s. of_char c \<noteq> (0 :: u8) \<Longrightarrow> cstr (ascii s) (lit s)"
  using cstrI[of "ascii s" "[]"] by fastforce

lemma prints_lit:
  assumes "\<forall>c \<in> set s. 0 < (of_char c :: u8) \<and> (of_char c :: u8) < 128"
  shows "prints [Txt col (ascii s)] (print_inline (lit s) col)"
  using assms by (intro prints_inline cstr_lit) (auto simp: printable_def)

lemma printable_concat: "printable (concat ss) \<longleftrightarrow> (\<forall>s \<in> set ss. printable s)"
  by (auto simp: printable_def)

lemma printable_append: "printable (s @ t) \<longleftrightarrow> printable s \<and> printable t"
  by (auto simp: printable_def)

text \<open>The digits of a number are printable.\<close>

lemma printable_number: "printable (number_text 10 n)"
proof -
  have "\<forall>d \<in> set (map of_nat [0..<36]). digit_char d < 128" by code_simp
  then have "digit_char d < 128" if "d < 36" for d using small_word_cases[OF that] by blast
  then show ?thesis using number_text_chars[of 10 _ n] by (fastforce simp: printable_def)
qed

text \<open>Printing composed text inline and as an information line.\<close>

lemma prints_string_inline:
  assumes "list_all2 arg_text args ss" and "sum_list (map length ss) < str_max" and "\<forall>s \<in> set ss. printable s"
  shows "prints [Txt col (concat ss)] (\<lambda>st. String_construct args \<bind> (\<lambda>s. print_inline s col st))"
  using assms by (intro prints_string prints_inline) (simp_all add: printable_concat)

definition tag_pieces :: "InfoTextType \<Rightarrow> u8 list \<Rightarrow> piece list" where
  "tag_pieces t s = [Txt (fst (text_tag t)) (butlast (snd (text_tag t))), Txt White s, NL]"

lemma prints_info:
  assumes "cstr s txt" and "printable s"
  shows "prints (tag_pieces t s) (printInfoLine t txt)"
proof -
  obtain col tag where t: "text_tag t = (col, tag)" by fastforce
  have tag: "cstr (butlast tag) tag" "printable (butlast tag)"
    using t by (cases t; fastforce simp: cstr_def printable_def)+
  have "prints ([Txt col (butlast tag)] @ [Txt White s] @ [NL])
      (\<lambda>st. print_inline tag col st \<bind> (\<lambda>st. print_inline txt White st \<bind> newline))"
    by (intro prints_bind prints_inline prints_newline tag assms)
  then show ?thesis by (simp add: tag_pieces_def t printInfoLine_def[abs_def])
qed

end
