(* ===== verification/EarlyPrint.thy ===== *)
theory EarlyPrint
  imports PrintSpec
begin

text \<open>
  Printing before the screen buffer exists and the change to it: until \<open>init_screen_buffer\<close> characters only go to the
  framebuffer, then the first character stored behind the early text makes the columns before it cells of the row.
\<close>

section \<open>Without a screen buffer\<close>

definition early_at :: "nat \<Rightarrow> nat \<Rightarrow> 'a screen_scheme \<Rightarrow> bool" where
  "early_at x y st \<longleftrightarrow> geometry st \<and> \<not> useScreenBuffer st \<and> \<not> isRedrawing st \<and>
     cursorAt_X st = int x \<and> cursorAt_Y st = int y"

lemma draw_char_early:
  assumes "early_at x y st" and "c < 128"
  shows "\<exists>fb. draw_char c (cursorAt_X st) (cursorAt_Y st) col act st = Some (st\<lparr>framebuffer := fb\<rparr>) \<and>
    length fb = length (framebuffer st)"
proof -
  have same: "\<exists>fb. Some st = Some (st\<lparr>framebuffer := fb\<rparr>) \<and> length fb = length (framebuffer st)"
    by (intro exI[of _ "framebuffer st"]) simp
  from assms(1) have g: "geometry st" by (simp add: early_at_def)
  show ?thesis
    using same draw_glyph_total[OF g _ _ _ _ assms(2), of "int x" "int y" col] assms(1)
    by (auto simp: draw_char_def Let_def early_at_def not_le)
qed

lemma early_char:
  assumes "early_at x y st" and "Suc x < nat (MAX_CHARS st)" and "c < 128"
  shows "\<exists>st'. do {
      st \<leftarrow> draw_char c (cursorAt_X st) (cursorAt_Y st) col act st;
      st \<leftarrow> update_cursor_render (st\<lparr>cursorAt_X := cursorAt_X st + 1\<rparr>);
      handle_automatic_newline st } = Some st' \<and> moved st st' \<and> early_at (Suc x) y st'"
proof -
  from draw_char_early[OF assms(1,3)] obtain fb where
    fb: "draw_char c (cursorAt_X st) (cursorAt_Y st) col act st = Some (st\<lparr>framebuffer := fb\<rparr>)" "length fb = length (framebuffer st)" by blast
  let ?st = "st\<lparr>framebuffer := fb, cursorAt_X := cursorAt_X st + 1\<rparr>"
  have "moved st ?st" by (cases st) (simp add: moved_def)
  moreover have "early_at (Suc x) y ?st" using assms(1) fb(2) by (simp add: early_at_def geometry_def)
  ultimately show ?thesis
    using assms(1,2) fb(1) by (auto simp: update_cursor_render_def handle_automatic_newline_def early_at_def)
qed

text \<open>A text that stays on its row, and the end of the row.\<close>

lemma early_inline:
  assumes e: "early_at x y st" and s: "cstr s txt" "printable s" "0x0D \<notin> set s" "0x0A \<notin> set s"
    and room: "x + length s < nat (MAX_CHARS st)"
  shows "\<exists>st'. print_inline txt col st = Some st' \<and> moved st st' \<and> early_at (x + length s) y st'"
proof -
  let ?body = "\<lambda>i st. do {
         c \<leftarrow> rd txt i;
         if c = 0x0D then Some st
         else if c = 0x0A then newline st
         else do {
           st \<leftarrow> draw_char c (cursorAt_X st) (cursorAt_Y st) col False st;
           st \<leftarrow> update_cursor_render (st\<lparr>cursorAt_X := cursorAt_X st + 1\<rparr>);
           handle_automatic_newline st } }"
  let ?I = "\<lambda>i st'. moved st st' \<and> early_at (x + i) y st'"
  have "\<exists>s'. for_loop ?body 0 (length s) st = Some s' \<and> ?I (0 + length s) s'"
  proof (rule for_loop_rule[where I = ?I])
    show "?I 0 st" using e by simp
  next
    fix i st1 assume i: "i < 0 + length s" and I: "?I i st1"
    then have "MAX_CHARS st1 = MAX_CHARS st" using moved_fields(1) by blast
    then have r: "Suc (x + i) < nat (MAX_CHARS st1)" using room i by simp
    have "s ! i \<in> set s" using i by simp
    then have c: "s ! i < 128" "s ! i \<noteq> 0x0D" "s ! i \<noteq> 0x0A" using s by (auto simp: printable_def)
    have "rd txt i = Some (s ! i)" using cstr_rd[OF s(1)] i by simp
    with early_char[OF conjunct2[OF I] r c(1), of col False] c I show "\<exists>s'. ?body i st1 = Some s' \<and> ?I (Suc i) s'"
      by (auto intro: moved_trans)
  qed
  then show ?thesis using s(1) by (auto simp: print_inline_def print_chars_def)
qed

lemma early_lit:
  assumes "early_at x y st" and "\<forall>c \<in> set s. 0 < (of_char c :: u8) \<and> (of_char c :: u8) < 128 \<and> (of_char c :: u8) \<notin> {0x0A, 0x0D}"
    and "x + length s < nat (MAX_CHARS st)"
  shows "\<exists>st'. print_inline (lit s) col st = Some st' \<and> moved st st' \<and> early_at (x + length s) y st'"
  using early_inline[OF assms(1), of "ascii s" "lit s" col] assms(2,3) cstr_lit[of s] by (fastforce simp: printable_def)

lemma early_newline:
  assumes "early_at x y st"
  shows "\<exists>st'. newline st = Some st' \<and> moved st st' \<and> early_at 0 (Suc y) st'"
proof -
  let ?st = "st\<lparr>cursorAt_X := 0, cursorAt_Y := cursorAt_Y st + 1\<rparr>"
  have "newline st = Some ?st" using assms by (simp add: newline_def handle_scroll_def early_at_def)
  moreover have "moved st ?st" by (cases st) (simp add: moved_def)
  moreover have "early_at 0 (Suc y) ?st" using assms by (simp add: early_at_def geometry_def)
  ultimately show ?thesis by blast
qed

section \<open>The change to the screen buffer\<close>

lemma init_screen_buffer_base:
  assumes "geometry st" and "\<not> isRedrawing st" and "alloc (24 + 12 * (MAX_LINES st + 100) + 8 * (MAX_LINES st + 100) * MAX_CHARS st)"
    and "0 \<le> cursorAt_X st" "cursorAt_X st < MAX_CHARS st" and "0 \<le> cursorAt_Y st" "cursorAt_Y st < MAX_LINES st"
    and "MAX_LINES st < 2 ^ 30"
  obtains sb st1 where "init_screen_buffer alloc st = (True, st1)"
    "st1 = st\<lparr>screenBufferPtr := Some sb, useScreenBuffer := True, cursorRendered_X := cursorAt_X st, cursorRendered_Y := cursorAt_Y st\<rparr>"
    "screen_base st1 sb" "rendered_in st1 sb" "maxStoredLines sb = nat (MAX_LINES st) + 100"
    "\<And>i. i < maxStoredLines sb \<Longrightarrow> lines sb ! i = \<lparr>cells = i * nat (MAX_CHARS st), amountOfCells = 0\<rparr>"
    "\<And>i. i < maxStoredLines sb * nat (MAX_CHARS st) \<Longrightarrow> cellBlock sb ! i = empty_cell"
proof -
  define n w where "n = nat (MAX_LINES st) + 100" and "w = nat (MAX_CHARS st)"
  have nn: "nat (MAX_LINES st + 100) = n" "nat ((MAX_LINES st + 100) * MAX_CHARS st) = n * w"
    using assms(1) by (simp_all add: n_def w_def geometry_def nat_mult_distrib nat_add_distrib)
  obtain st1 sb where i: "init_screen_buffer alloc st = (True, st1)"
    and sb: "lines sb = map (\<lambda>i. \<lparr>cells = i * w, amountOfCells = 0\<rparr>) [0..<n]" "cellBlock sb = replicate (n * w) empty_cell"
      "visibleLines sb = nat (MAX_LINES st)" "startRenderLine sb = 0" "maxStoredLines sb = n"
    and st1: "st1 = st\<lparr>screenBufferPtr := Some sb, useScreenBuffer := True, cursorRendered_X := cursorAt_X st, cursorRendered_Y := cursorAt_Y st\<rparr>"
    using assms(3) by (simp add: init_screen_buffer_def init_empty_screen_buffer_def Let_def SCROLL_HISTORY_LINES_def nn w_def)
  have wf: "buffer_wf (MAX_CHARS st1) sb"
    using assms(1,8) by (simp add: buffer_wf_def sb st1 w_def empty_cell_def geometry_def n_def)
  have vis: "int (visibleLines sb) = MAX_LINES st" "visibleLines sb < n" using assms(1) by (simp_all add: sb n_def geometry_def)
  have base: "screen_base st1 sb"
    unfolding screen_base_def
  proof (intro conjI)
    show "geometry st1" using assms(1) by (simp add: geometry_def st1)
    show "\<forall>i. cursorAt_Y st1 < int i \<and> i < maxStoredLines sb \<longrightarrow> amountOfCells (lines sb ! i) = 0" by (simp add: sb)
  qed (use assms wf vis sb in \<open>simp_all add: st1\<close>)
  have "rendered_in st1 sb"
    by (rule rendered_here[OF base]) (use assms in \<open>simp_all add: st1\<close>)
  with that[of st1 sb, OF i st1 base] show thesis by (simp add: sb n_def w_def)
qed

text \<open>The state as if the columns before the cursor already were cells of the row: printing a character gives the same
  from both.\<close>

definition fill_gap :: "'a screen_scheme \<Rightarrow> 'a screen_scheme" where
  "fill_gap st = (case screenBufferPtr st of None \<Rightarrow> st | Some sb \<Rightarrow>
     let y = nat (cursorAt_Y st) in
     st\<lparr>screenBufferPtr := Some (sb\<lparr>lines := (lines sb)[y := (lines sb ! y)\<lparr>amountOfCells := nat (cursorAt_X st)\<rparr>]\<rparr>)\<rparr>)"

lemma fill_gap_fields [simp]:
  "cursorAt_X (fill_gap st) = cursorAt_X st" "cursorAt_Y (fill_gap st) = cursorAt_Y st"
  "useScreenBuffer (fill_gap st) = useScreenBuffer st" "isRedrawing (fill_gap st) = isRedrawing st"
  by (simp_all add: fill_gap_def Let_def split: option.split)

lemma moved_fill_gap: "moved st (fill_gap st)"
  by (simp add: fill_gap_def Let_def split: option.split)

lemma store_char_fill_gap:
  assumes "screen_base st sb" and "0 \<le> cursorAt_X st" and "int (amountOfCells (lines sb ! nat (cursorAt_Y st))) \<le> cursorAt_X st"
  shows "store_char c col act (fill_gap st) = store_char c col act st"
proof -
  note y = screen_base_y[OF assms(1)]
  have ptr: "screenBufferPtr st = Some sb" and wf: "buffer_wf (MAX_CHARS st) sb" using assms(1) by (simp_all add: screen_base_def)
  have len: "nat (cursorAt_Y st) < length (lines sb)" using y(2) wf by (simp add: buffer_wf_def)
  have l: "0 \<le> cursorAt_Y st" "cursorAt_Y st < int (length (lines sb))" using y(1) len by linarith+
  show ?thesis
    using assms(2,3) l len
    by (simp add: store_char_def fill_gap_def Let_def ptr get_screen_buffer_line_def put_screen_buffer_line_def put_screen_buffer_cell_def
        rdi_in wri_in split: Option.bind_splits)
qed

lemma print_inline_fill_gap:
  assumes "screen_base st sb" and "0 \<le> cursorAt_X st" and "int (amountOfCells (lines sb ! nat (cursorAt_Y st))) \<le> cursorAt_X st"
    and "cstr (c # s) txt" and "c \<notin> {0x0A, 0x0D}"
  shows "print_inline txt col (fill_gap st) = print_inline txt col st"
proof -
  have u: "useScreenBuffer st" "\<not> isRedrawing st" using assms(1) by (simp_all add: screen_base_def)
  have "draw_char d px py col act (fill_gap st) = draw_char d px py col act st" for d px py act
    using u store_char_fill_gap[OF assms(1-3)] by (simp add: draw_char_def)
  moreover have "rd txt 0 = Some c" using cstr_rd[OF assms(4), of 0] by simp
  ultimately show ?thesis using assms(4,5) by (simp add: print_inline_def print_chars_def)
qed

text \<open>After \<open>init_screen_buffer\<close>: the scroll-back holds an empty row for every early one, and the row of the cursor is blank
  up to it.\<close>

lemma screen_opened:
  assumes e: "early_at x y st" and x: "int x < MAX_CHARS st" and y: "int y < MAX_LINES st" "MAX_LINES st < 2 ^ 30"
    and alloc: "alloc (24 + 12 * (MAX_LINES st + 100) + 8 * (MAX_LINES st + 100) * MAX_CHARS st)"
  shows "\<exists>st1. init_screen_buffer alloc st = (True, st1) \<and> screen_ok (fill_gap st1) \<and>
    stored_lines (fill_gap st1) = nat (MAX_LINES st) + 100 \<and> scrollback (fill_gap st1) = replicate y [] @ [replicate x empty_cell] \<and>
    MAX_CHARS st1 = MAX_CHARS st \<and> screen.more st1 = screen.more st \<and>
    (\<forall>c s buf col. cstr (c # s) buf \<longrightarrow> c \<notin> {0x0A, 0x0D} \<longrightarrow> print_inline buf col (fill_gap st1) = print_inline buf col st1)"
proof -
  have a: "geometry st" "\<not> isRedrawing st" "cursorAt_X st = int x" "cursorAt_Y st = int y" using e by (simp_all add: early_at_def)
  let ?w = "nat (MAX_CHARS st)" and ?n = "nat (MAX_LINES st) + 100"
  obtain sb st1 where i: "init_screen_buffer alloc st = (True, st1)"
    and st1: "st1 = st\<lparr>screenBufferPtr := Some sb, useScreenBuffer := True, cursorRendered_X := cursorAt_X st, cursorRendered_Y := cursorAt_Y st\<rparr>"
    and base: "screen_base st1 sb" and rin: "rendered_in st1 sb" and n: "maxStoredLines sb = ?n"
    and ls: "\<And>i. i < maxStoredLines sb \<Longrightarrow> lines sb ! i = \<lparr>cells = i * ?w, amountOfCells = 0\<rparr>"
    and cb: "\<And>i. i < maxStoredLines sb * ?w \<Longrightarrow> cellBlock sb ! i = empty_cell"
    by (rule init_screen_buffer_base[of st alloc]) (use a x y alloc in auto)
  define sb' where "sb' = sb\<lparr>lines := (lines sb)[y := (lines sb ! y)\<lparr>amountOfCells := x\<rparr>]\<rparr>"
  have fill: "fill_gap st1 = st1\<lparr>screenBufferPtr := Some sb'\<rparr>" using a by (simp add: fill_gap_def st1 sb'_def)
  have yn: "y < ?n" using y(1) by simp
  have len: "length (lines sb) = ?n" using base by (simp add: screen_base_def buffer_wf_def n)
  have l': "lines sb' ! i = \<lparr>cells = i * ?w, amountOfCells = (if i = y then x else 0)\<rparr>" if "i < ?n" for i
    using ls[of i] that n len yn by (auto simp: sb'_def nth_list_update)
  have xw: "x < ?w" using x by simp
  have base': "screen_base (fill_gap st1) sb'"
    using base l' yn xw a n unfolding fill screen_base_def buffer_wf_def geometry_def by (auto simp: sb'_def st1)
  have rin': "rendered_in (fill_gap st1) sb'" using rin unfolding fill rendered_in_def by (simp add: sb'_def)
  have "at_end (fill_gap st1) sb'" using x l'[OF yn] unfolding fill by (simp add: at_end_def st1 a)
  with base' rin' have ok: "screen_ok (fill_gap st1)" unfolding screen_ok_def by blast
  have "row sb' i = []" if "i < y" for i using l'[of i] that yn by (simp add: row_def)
  moreover have "row sb' y = replicate x empty_cell"
    using l'[OF yn] cb cell_index[OF yn, of _ ?w] xw n by (simp add: row_def sb'_def map_replicate_trivial list_eq_iff_nth_eq)
  ultimately have "scrollback (fill_gap st1) = replicate y [] @ [replicate x empty_cell]"
    unfolding fill by (simp add: scrollback_def st1 rows_upto_def a list_eq_iff_nth_eq nth_append less_Suc_eq del: upt_Suc replicate_Suc)
  moreover have "print_inline buf col (fill_gap st1) = print_inline buf col st1"
    if "cstr (c # s) buf" "c \<notin> {0x0A, 0x0D}" for c s buf col
    by (rule print_inline_fill_gap[OF base _ _ that]) (use ls[of y] yn n a in \<open>simp_all add: st1\<close>)
  moreover have "stored_lines (fill_gap st1) = ?n" unfolding fill by (simp add: stored_lines_def sb'_def n)
  moreover have "MAX_CHARS st1 = MAX_CHARS st" "screen.more st1 = screen.more st" by (simp_all add: st1)
  ultimately show ?thesis using i ok by blast
qed

end
