(* ===== verification/TerminalProps.thy ===== *)
theory TerminalProps
  imports HistorySpec EarlyPrint
begin

text \<open>
  The properties of the screen and the terminal: the first print after the set up of the
  screen buffer, printing as appending to a scroll-back, the line editor as a text with a
  cursor, its limit, and the command history.
\<close>

section \<open>A small terminal\<close>

text \<open>A screen of one line of four characters with two stored lines.\<close>

definition sample_screen :: "'a \<Rightarrow> 'a screen_scheme" where
  "sample_screen m = \<lparr>cursorAt_X = 0, cursorAt_Y = 0, cursorRendered_X = 0, cursorRendered_Y = 0, cursor_visible = True,
     FONT_W = 8, FONT_H = 16, ADJUSTED_WIDTH = 32, MAX_CHARS = 4, MAX_LINES = 1, useScreenBuffer = True, isRedrawing = False,
     screenBufferPtr = Some \<lparr>lines = [\<lparr>cells = 0, amountOfCells = 0\<rparr>, \<lparr>cells = 4, amountOfCells = 0\<rparr>],
       cellBlock = replicate 8 empty_cell, amountOfLines = 0, visibleLines = 1, startRenderLine = 0, maxStoredLines = 2\<rparr>,
     framebuffer = replicate 512 0, \<dots> = m\<rparr>"

definition sample_terminal :: terminal where
  "sample_terminal = sample_screen \<lparr>lineInputLength = 0, lineInputBuffer = replicate 256 0, lineInputCursorPos = 0,
     lineInputStart_X = 0, commandHistory = replicate 100 (replicate 256 0), cmdHistCount = 0,
     goThroughHistoryCount = 0, shift = False, isExtendedScancode = False, currentPath = [0]\<rparr>"

lemma sample_screen_base: "screen_base (sample_screen m) (the (screenBufferPtr (sample_screen m)))"
  by (auto simp: screen_base_def geometry_def buffer_wf_def sample_screen_def empty_cell_def less_2_cases_iff)

lemma sample_rendered: "rendered_in (sample_screen m) (the (screenBufferPtr (sample_screen m)))"
  by (simp add: rendered_in_def sample_screen_def)

lemma sample_screen_ok: "screen_ok (sample_screen m)"
  using sample_screen_base[of m] sample_rendered[of m]
  by (auto simp: screen_ok_def at_end_def sample_screen_def)

lemma sample_editing: "editing [] [] [] [] sample_terminal"
  unfolding editing_def sample_terminal_def
  by (intro exI[of _ "the (screenBufferPtr (sample_screen undefined))"] conjI)
    (use sample_screen_base sample_rendered in \<open>simp_all add: sample_screen_def rows_upto_def row_def TERMINAL_BUFFER_SIZE_def cstr_def
      numeral_eq_Suc\<close>)

section \<open>The screen\<close>

text \<open>After the set up of the screen buffer the first newline, which ends the boot message that is being
  printed, brings the screen into the state in which printing is correct, with an empty scroll-back.\<close>

theorem screen_start_ok:
  assumes "geometry st" and "\<not> isRedrawing st" and "alloc (24 + 12 * (MAX_LINES st + 100) + 8 * (MAX_LINES st + 100) * MAX_CHARS st)"
    and "0 \<le> cursorAt_X st" "cursorAt_X st < MAX_CHARS st" and "0 \<le> cursorAt_Y st" "cursorAt_Y st < MAX_LINES st"
    and "MAX_LINES st < 2 ^ 30"
  shows "\<exists>st1 st2. init_screen_buffer alloc st = (True, st1) \<and> newline st1 = Some st2 \<and> screen_ok st2 \<and>
    stored_lines st2 = nat (MAX_LINES st) + 100 \<and> scrollback st2 = replicate (nat (cursorAt_Y st) + 2) []"
proof -
  let ?n = "nat (MAX_LINES st) + 100"
  obtain sb st1 where i: "init_screen_buffer alloc st = (True, st1)"
    and st1: "st1 = st\<lparr>screenBufferPtr := Some sb, useScreenBuffer := True, cursorRendered_X := cursorAt_X st, cursorRendered_Y := cursorAt_Y st\<rparr>"
    and base: "screen_base st1 sb" "rendered_in st1 sb" and n: "maxStoredLines sb = ?n"
    and ls: "\<And>i. i < maxStoredLines sb \<Longrightarrow> lines sb ! i = \<lparr>cells = i * nat (MAX_CHARS st), amountOfCells = 0\<rparr>"
    using init_screen_buffer_base[where alloc = alloc, OF assms] by metis
  from base have "before_newline st1 sb" by (simp add: before_newline_def)
  from newline_effect[OF this] obtain st2 where st2: "newline st1 = Some st2" "screen_ok st2" "stored_lines st2 = ?n"
    "scrollback st2 = tty_newline ?n (scrollback st1)" by (auto simp: n)
  have "row sb i = []" if "i < ?n" for i using ls[of i] that by (simp add: row_def n)
  moreover have "nat (cursorAt_Y st) < ?n" using assms(6,7) by simp
  ultimately have "scrollback st1 = replicate (Suc (nat (cursorAt_Y st))) []"
    by (simp add: scrollback_def st1 rows_upto_def map_replicate_trivial list_eq_iff_nth_eq nth_append less_Suc_eq del: upt_Suc replicate_Suc)
  then have "scrollback st2 = replicate (nat (cursorAt_Y st) + 2) []"
    using assms(6,7) by (simp add: st2(4) tty_newline_def replicate_append_same)
  with i st2 show ?thesis by blast
qed

theorem screen_start_ok_witness:
  "\<exists>st1 st2. init_screen_buffer (\<lambda>_. True) (sample_screen ()) = (True, st1) \<and> newline st1 = Some st2 \<and> screen_ok st2 \<and>
    stored_lines st2 = 101 \<and> scrollback st2 = [[], []]"
  using screen_start_ok[of "sample_screen ()" "\<lambda>_. True"]
  by (simp add: sample_screen_def geometry_def numeral_2_eq_2)

text \<open>C11. \<open>print\<close> implements the abstract scroll-back: on every text of ASCII characters it returns, without an
  access outside the screen buffer or the framebuffer, the rows it leaves are the old ones with the text
  appended, wrapped at the width of the screen and cut to the stored lines, and it changes no other state.\<close>

theorem print_text_refines:
  assumes "screen_ok st" and "cstr s txt" and "printable s"
  shows "\<exists>st'. print_text txt col st = Some st' \<and> moved st st' \<and> screen_ok st' \<and>
    scrollback st' = tty_newline (stored_lines st)
      (tty_text (nat (MAX_CHARS st)) (stored_lines st) col False s (scrollback st))"
proof -
  from print_chars_effect[OF assms, of col False] obtain st1 where
    st1: "print_chars txt col False st = Some st1" "moved st st1" "screen_ok st1" "stored_lines st1 = stored_lines st"
      "scrollback st1 = tty_text (nat (MAX_CHARS st)) (stored_lines st) col False s (scrollback st)" by blast
  from newline_step[OF st1(3)] st1(1,4,5) moved_trans[OF st1(2)] show ?thesis by (auto simp: print_text_def)
qed

theorem print_text_refines_witness:
  "\<exists>st'. print_text [0x48, 0x69, 0] Green (sample_screen ()) = Some st' \<and> screen_ok st' \<and>
    scrollback st' = [[\<lparr>color = Green, cell_text = 0x48, interactable = False\<rparr>,
      \<lparr>color = Green, cell_text = 0x69, interactable = False\<rparr>], []]"
proof -
  have "cstr [0x48, 0x69] [0x48, 0x69, 0]" using cstrI[of "[0x48, 0x69]" "[]"] by simp
  moreover have "printable [0x48, 0x69]" by (simp add: printable_def)
  moreover have "scrollback (sample_screen ()) = [[]]" "stored_lines (sample_screen ()) = 2" "MAX_CHARS (sample_screen ()) = 4"
    by (simp_all add: scrollback_def rows_upto_def row_def sample_screen_def stored_lines_def)
  ultimately show ?thesis
    using print_text_refines[OF sample_screen_ok [of "()"], of "[0x48, 0x69]" "[0x48, 0x69, 0]" Green]
    by (auto simp: tty_text_def tty_char_def tty_put_def tty_newline_def)
qed

section \<open>The line editor\<close>

text \<open>C14. The line editor implements a text with a cursor: for every sequence of insertions, backspaces and cursor
  moves that fits the line, the operations run without a fault, and the input buffer, its length and cursor
  position, the cells behind the prompt on the screen and the screen cursor all represent the edited text.\<close>

theorem editor_refines:
  assumes "editing older prompt l r st" and "edits_fit (nat (MAX_CHARS st) - length prompt) es (l, r)"
  shows "\<exists>st'. exec_edits es st = Some st' \<and>
    editing older prompt (fst (edits_text es (l, r))) (snd (edits_text es (l, r))) st'"
  by (rule exec_edits_editing[OF assms])

theorem editor_refines_witness:
  "\<exists>st'. exec_edits [Insert 0x61, Insert 0x62, CursorLeft, Backspace, Insert 0x63] sample_terminal = Some st' \<and>
    editing [] [] [0x63] [0x62] st'"
proof -
  have "MAX_CHARS sample_terminal = 4" by (simp add: sample_terminal_def sample_screen_def)
  then show ?thesis
    using editor_refines[OF sample_editing, of "[Insert 0x61, Insert 0x62, CursorLeft, Backspace, Insert 0x63]"]
    by (simp add: edit_fits_def edits_text_def TERMINAL_BUFFER_SIZE_def)
qed

text \<open>C37. Typing is not limited to the buffer: with 255 characters in the line the next insertion writes its
  terminating zero behind the end of \<open>lineInputBuffer\<close>, wherever the cursor is.\<close>

theorem editor_overflow:
  assumes "length (lineInputBuffer st) = TERMINAL_BUFFER_SIZE" and "lineInputLength st = 255" and "lineInputCursorPos st \<le> 255"
  shows "insert_char_at_cursor c st = None"
proof -
  have hn: "(255 :: nat) < length (lineInputBuffer st)" "255 - lineInputCursorPos st \<le> 255"
    using assms by (simp_all add: TERMINAL_BUFFER_SIZE_def)
  from buf.shift_up[OF hn] obtain b where
    "for_loop (\<lambda>k b. do { v \<leftarrow> rd b (255 - k - 1); wr b (255 - k) v }) 0 (255 - lineInputCursorPos st) (lineInputBuffer st) = Some b"
    "length b = length (lineInputBuffer st)" by blast
  then have "insert_in_buffer c st = None"
    using assms by (simp add: insert_in_buffer_def Let_def TERMINAL_BUFFER_SIZE_def)
  then show ?thesis by (simp add: insert_char_at_cursor_def)
qed

theorem editor_overflow_witness:
  "insert_char_at_cursor 0x61 (sample_terminal\<lparr>lineInputLength := 255, lineInputBuffer := replicate 255 0x61 @ [0]\<rparr>) = None"
  by (rule editor_overflow) (simp_all add: sample_terminal_def sample_screen_def TERMINAL_BUFFER_SIZE_def)

section \<open>The history\<close>

primrec add_commands :: "u8 list list \<Rightarrow> 'a terminal_scheme \<Rightarrow> 'a terminal_scheme option" where
  "add_commands [] st = Some st"
| "add_commands (c # cs) st = do { st \<leftarrow> add_command_to_history (c @ [0]) st; add_commands cs st }"

lemma remember_drop:
  assumes "length h \<le> MAX_COMMAND_HISTORY"
  shows "drop (length (remember c h @ cs) - MAX_COMMAND_HISTORY) (remember c h @ cs) =
    drop (length (h @ c # cs) - MAX_COMMAND_HISTORY) (h @ c # cs)"
proof (cases "length h < MAX_COMMAND_HISTORY")
  case False
  then obtain x h' where h: "h = x # h'" "Suc (length h') = MAX_COMMAND_HISTORY"
    using assms by (cases h) (simp_all add: MAX_COMMAND_HISTORY_def)
  then have "length (h @ c # cs) - MAX_COMMAND_HISTORY = Suc (length cs)"
    "length (remember c h @ cs) - MAX_COMMAND_HISTORY = length cs" by (simp_all add: remember_def)
  then show ?thesis using h by (simp add: remember_def)
qed (simp add: remember_def)

lemma add_commands_effect:
  assumes "history_ok h st" and "\<forall>c \<in> set (h @ cs). length c < TERMINAL_BUFFER_SIZE \<and> 0 \<notin> set c"
  shows "\<exists>st'. add_commands cs st = Some st' \<and>
    history_ok (drop (length (h @ cs) - MAX_COMMAND_HISTORY) (h @ cs)) st'"
  using assms
proof (induction cs arbitrary: h st)
  case Nil
  then show ?case by (simp add: history_ok_def)
next
  case (Cons c cs)
  have c: "cstr c (c @ [0])" "length c < TERMINAL_BUFFER_SIZE" using Cons.prems(2) cstrI[of c "[]"] by simp_all
  have "\<forall>c \<in> set h. length c < TERMINAL_BUFFER_SIZE" using Cons.prems(2) by simp
  from add_command_effect[OF Cons.prems(1) this c] obtain st1 where
    st1: "add_command_to_history (c @ [0]) st = Some st1" "history_ok (remember c h) st1" by blast
  have "set (remember c h) \<subseteq> insert c (set h)" by (cases h) (auto simp: remember_def)
  then have "\<forall>c \<in> set (remember c h @ cs). length c < TERMINAL_BUFFER_SIZE \<and> 0 \<notin> set c"
    using Cons.prems(2) by (auto dest!: subsetD)
  note ih = Cons.IH[OF st1(2) this]
  have "length h \<le> MAX_COMMAND_HISTORY" using Cons.prems(1) by (simp add: history_ok_def)
  from ih[unfolded remember_drop[OF this]] st1(1) show ?case by (simp del: length_append length_Cons)
qed

text \<open>C28. After any sequence of commands the history holds exactly the last hundred of them, oldest first,
  each a terminated string in its row.\<close>

theorem history_keeps_last:
  assumes "history_ok [] st" and "\<forall>c \<in> set cs. length c < TERMINAL_BUFFER_SIZE \<and> 0 \<notin> set c"
  shows "\<exists>st'. add_commands cs st = Some st' \<and> history_ok (drop (length cs - 100) cs) st'"
  using add_commands_effect[OF assms(1), of cs] assms(2) by (simp add: MAX_COMMAND_HISTORY_def)

lemma sample_history: "history_ok [] sample_terminal"
  by (simp add: history_ok_def sample_terminal_def sample_screen_def MAX_COMMAND_HISTORY_def TERMINAL_BUFFER_SIZE_def)

theorem history_keeps_last_witness:
  "\<exists>st'. add_commands (replicate 120 [0x61] @ [[0x62]]) sample_terminal = Some st' \<and>
    history_ok (replicate 99 [0x61] @ [[0x62]]) st'"
  using history_keeps_last[OF sample_history, of "replicate 120 [0x61] @ [[0x62]]"]
  by (simp add: TERMINAL_BUFFER_SIZE_def)

text \<open>Going \<open>k\<close> steps up the history replaces the input line by the \<open>k\<close>-th last command: on the screen behind
  the prompt and in the buffer, with the cursor behind it, and the history stays.\<close>

theorem history_shown:
  assumes "editing older prompt l r st" and "history_ok cs st" and "0 < k" "k \<le> length cs" "goThroughHistoryCount st = k"
    and "plain (cs ! (length cs - k))" and "int (length prompt + length (cs ! (length cs - k))) < MAX_CHARS st"
  shows "\<exists>st'. handle_show_history st = Some st' \<and> editing older prompt (cs ! (length cs - k)) [] st' \<and> history_ok cs st'"
  using show_history_effect[OF assms] by blast

theorem history_shown_witness:
  "\<exists>st'. handle_show_history (sample_terminal\<lparr>commandHistory := replicate 100 (0x61 # 0 # replicate 254 0), cmdHistCount := 1,
      goThroughHistoryCount := 1\<rparr>) = Some st' \<and> editing [] [] [0x61] [] st'"
proof -
  let ?st = "sample_terminal\<lparr>commandHistory := replicate 100 (0x61 # 0 # replicate 254 0), cmdHistCount := 1, goThroughHistoryCount := 1\<rparr>"
  have w: "MAX_CHARS ?st = 4" by (simp add: sample_terminal_def sample_screen_def)
  have e: "editing [] [] [] [] ?st"
    using sample_editing unfolding editing_def screen_base_def geometry_def rendered_in_def by simp blast
  have h: "history_ok [[0x61]] ?st"
    using cstrI[of "[0x61]" "replicate 254 0"]
    by (simp add: history_ok_def MAX_COMMAND_HISTORY_def TERMINAL_BUFFER_SIZE_def)
  show ?thesis
    using history_shown[OF e h, of 1] w by (auto simp: plain_def TERMINAL_BUFFER_SIZE_def)
qed

end
