(* ===== verification/ShellProps.thy ===== *)
theory ShellProps
  imports ShellSpec TerminalProps
begin

text \<open>
  The properties of the shell: completion of the token under the cursor and the
  dispatch of a line.
\<close>

section \<open>A small table of commands\<close>

definition sample_commands :: "unit Command list" where
  "sample_commands = [\<lparr>name = lit ''ls'', execute = (\<lambda>_ st. Some st)\<rparr>, \<lparr>name = lit ''cd'', execute = (\<lambda>args st. Some (st\<lparr>currentPath := args\<rparr>))\<rparr>]"

lemma sample_commands_ok: "commands_ok sample_commands [ascii ''ls'', ascii ''cd'']"
  using cstrI[of "ascii ''ls''" "[]"] cstrI[of "ascii ''cd''" "[]"]
  by (simp add: commands_ok_def sample_commands_def)

section \<open>Completion\<close>

text \<open>The tabulator completes the token under the cursor: when exactly one command begins with it, the token is
  replaced by the name of that command, wherever in the token the cursor is and whatever is around it; the text before and
  behind it stays, in the input buffer and on the screen, and the cursor is behind the name.\<close>

theorem tab_completes:
  assumes "editing older prompt (pre @ t1) (t2 @ post) st" and "token_at pre (t1 @ t2) post" and "t1 @ t2 \<noteq> []"
    and "commands_ok commands names" and "filter (prefix (t1 @ t2)) names = [new]"
    and "length (pre @ new @ post) < TERMINAL_BUFFER_SIZE" and "int (length prompt + length (pre @ new @ post)) < MAX_CHARS st"
  shows "\<exists>st'. handleTabAutoCompletion commands st = Some st' \<and> editing older prompt (pre @ new) post st'"
  using completion_effect[OF assms] by blast

lemma tab_completes_witness:
  "\<exists>st st'. exec_edits [Insert 0x6C] sample_terminal = Some st \<and> handleTabAutoCompletion sample_commands st = Some st' \<and>
    editing [] [] (ascii ''ls'') [] st'"
proof -
  have w: "MAX_CHARS sample_terminal = 4" by (simp add: sample_terminal_def sample_screen_def)
  have f: "edit_fits (nat (MAX_CHARS sample_terminal) - length []) (Insert 0x6C) ([], [])"
    by (simp add: edit_fits_def TERMINAL_BUFFER_SIZE_def w)
  from editing_edit[OF sample_editing f] obtain st where
    st: "exec_edit (Insert 0x6C) sample_terminal = Some st" "editing [] [] [0x6C] [] st" "MAX_CHARS st = 4" by (auto simp: w dest!: kept_MAX_CHARS)
  have e: "editing [] [] ([] @ [0x6C]) ([] @ []) st" using st(2) by simp
  have t: "token_at [] ([0x6C] @ []) []" by (simp add: token_at_def)
  have one: "filter (prefix ([0x6C] @ [])) [ascii ''ls'', ascii ''cd''] = [ascii ''ls'']" by (simp add: prefix_def)
  from tab_completes[OF e t _ sample_commands_ok one] st(3) obtain st' where
    "handleTabAutoCompletion sample_commands st = Some st'" "editing [] [] (ascii ''ls'') [] st'"
    by (auto simp: TERMINAL_BUFFER_SIZE_def)
  with st(1) show ?thesis by auto
qed

section \<open>Dispatch\<close>

text \<open>C15. A line is recorded in the history and split at its first blank; the first command of the table with the name
  before the blank runs after a newline, with the text behind the blank as its argument, and then the input is empty; a
  name that is in no entry ends with the error message and runs nothing.\<close>

theorem line_dispatched:
  assumes "cstr s (lineInputBuffer st)" "lineInputLength st = length s" "s \<noteq> []" "length s < TERMINAL_BUFFER_SIZE"
    and "history_ok cs st" "\<forall>c \<in> set cs. length c < TERMINAL_BUFFER_SIZE" and "commands_ok commands names"
  shows "\<exists>st1 args. history_ok (remember s cs) st1 \<and> screen.truncate st1 = screen.truncate st \<and>
    cstr (command_word s) (lineInputBuffer st1) \<and> cstr (command_args s) args \<and>
    (\<forall>i < length names. names ! i = command_word s \<longrightarrow> command_word s \<notin> set (take i names) \<longrightarrow>
      processLineInputBuffer commands st = do {
        st \<leftarrow> newline st1; st \<leftarrow> execute (commands ! i) args st; reset_line_input st }) \<and>
    (command_word s \<notin> set names \<longrightarrow> processLineInputBuffer commands st =
      displayTerminalError [Chars (ascii ''Unknown Command: '' @ [0x27, 0]), Chars (lineInputBuffer st1), Chars [0x27, 0]] st1)"
  by (rule dispatch_effect[OF assms])

lemma line_dispatched_witness:
  "\<exists>st1 args. cstr (ascii ''cd'') (lineInputBuffer st1) \<and> cstr (ascii ''x'') args \<and>
    processLineInputBuffer sample_commands (sample_terminal\<lparr>lineInputBuffer := ascii ''cd x'' @ 0 # replicate 251 0, lineInputLength := 4\<rparr>) =
      do { st \<leftarrow> newline st1; reset_line_input (st\<lparr>currentPath := args\<rparr>) }"
proof -
  let ?st = "sample_terminal\<lparr>lineInputBuffer := ascii ''cd x'' @ 0 # replicate 251 0, lineInputLength := 4\<rparr>"
  have s: "cstr (ascii ''cd x'') (lineInputBuffer ?st)" using cstrI[of "ascii ''cd x''" "replicate 251 0"] by simp
  have h: "history_ok [] ?st" using sample_history by (simp add: history_ok_def)
  have w: "command_word (ascii ''cd x'') = ascii ''cd''" "command_args (ascii ''cd x'') = ascii ''x''"
    by (simp_all add: command_word_def command_args_def)
  from line_dispatched[OF s _ _ _ h _ sample_commands_ok] obtain st1 args where
    "cstr (ascii ''cd'') (lineInputBuffer st1)" "cstr (ascii ''x'') args"
    "\<forall>i < length [ascii ''ls'', ascii ''cd'']. [ascii ''ls'', ascii ''cd''] ! i = ascii ''cd'' \<longrightarrow> ascii ''cd'' \<notin> set (take i [ascii ''ls'', ascii ''cd'']) \<longrightarrow>
      processLineInputBuffer sample_commands ?st = do {
        st \<leftarrow> newline st1; st \<leftarrow> execute (sample_commands ! i) args st; reset_line_input st }"
    unfolding w by (auto simp: TERMINAL_BUFFER_SIZE_def)
  then show ?thesis by (intro exI[of _ st1] exI[of _ args]) (auto simp: sample_commands_def dest: spec[of _ 1])
qed

end
