(* ===== verification/Timer.thy ===== *)
theory Timer
  imports Screen
begin

text \<open>
  The timer, its interrupt and the two chips behind it: \<^verbatim>\<open>io/timer/timer.cpp\<close>,
  \<^verbatim>\<open>io/timer/pit.cpp\<close> and \<^verbatim>\<open>io/pic/pic.cpp\<close>. Writing a port is an entry of a
  trace, in the order of the writes.
\<close>

type_synonym port_write = "u16 \<times> u8"

definition PIT_TICK_HZ :: u64 where "PIT_TICK_HZ = 100"
definition CURSOR_BLINK_INTERVAL :: u64 where "CURSOR_BLINK_INTERVAL = 400"

section \<open>The interval timer and the interrupt controllers\<close>

definition pit_init :: "port_write list" where
  "pit_init = [(0x43, 0x36), (0x40, ucast ((1193182 div PIT_TICK_HZ) AND 0xFF)), (0x40, ucast (drop_bit 8 (1193182 div PIT_TICK_HZ)))]"

definition EIO_Finished_Interrupt :: "port_write list" where
  "EIO_Finished_Interrupt = [(0x20, 0x20)]"

definition pic_init :: "port_write list" where
  "pic_init =
     (let MASTER_CMD = 0x20; MASTER_DATA = 0x21; SLAVE_CMD = 0xA0; SLAVE_DATA = 0xA1;
          PIC_8086_MODE = 0x01; MASTER_IRQ_OFFSET = 0x20; SLAVE_IRQ_OFFSET = 0x28
      in [(MASTER_CMD, 0x11), (SLAVE_CMD, 0x11),
          (MASTER_DATA, MASTER_IRQ_OFFSET), (SLAVE_DATA, SLAVE_IRQ_OFFSET),
          (MASTER_DATA, 0x04), (SLAVE_DATA, 0x02),
          (MASTER_DATA, PIC_8086_MODE), (SLAVE_DATA, PIC_8086_MODE),
          (MASTER_DATA, 0xFC), (SLAVE_DATA, 0xFF)])"

text \<open>The divisor the channel counts down from: the two bytes after a command that announces them.\<close>

fun pit_divisor :: "port_write list \<Rightarrow> nat option" where
  "pit_divisor [(c, m), (l, lo), (h, hi)] =
     (if c = 0x43 \<and> m = 0x36 \<and> l = 0x40 \<and> h = 0x40 then Some (unat lo + 256 * unat hi) else None)"
| "pit_divisor _ = None"

section \<open>Ticks\<close>

definition get_ticks_in_ms :: "u64 \<Rightarrow> u64" where
  "get_ticks_in_ms ticks = ticks * 1000 div PIT_TICK_HZ"

text \<open>The interrupt handler on the tick counter and the screen, with its end-of-interrupt write.\<close>

definition timer_handler :: "u64 \<Rightarrow> 'a screen_scheme \<Rightarrow> (u64 \<times> 'a screen_scheme \<times> port_write list) option" where
  "timer_handler ticks st = do {
     let ticks = ticks + 1;
     st \<leftarrow> (if ticks * 1000 div PIT_TICK_HZ mod CURSOR_BLINK_INTERVAL = 0
       then update_cursor_render (st\<lparr>cursor_visible := \<not> cursor_visible st\<rparr>) else Some st);
     Some (ticks, st, EIO_Finished_Interrupt) }"

text \<open>Waiting: every timer interrupt advances the counter by one; other interrupts only repeat the test.
  The loop ends because the counter is below its target.\<close>

function halt_till_tick :: "u64 \<Rightarrow> u64 \<Rightarrow> u64" where
  "halt_till_tick targetTick ticks = (if ticks < targetTick then halt_till_tick targetTick (ticks + 1) else ticks)"
  by auto
termination
proof (relation "measure (\<lambda>(t, k). unat t - unat k)", simp)
  fix targetTick ticks :: u64 assume lt: "ticks < targetTick"
  then have "unat ticks + 1 < 2 ^ 64" using unsigned_less[of targetTick, where ?'a = nat] by (simp add: word_less_nat_alt)
  then have "unat (ticks + 1) = unat ticks + 1" using unat_add_lem[of ticks 1] by simp
  with lt show "((targetTick, ticks + 1), targetTick, ticks) \<in> measure (\<lambda>(t, k). unat t - unat k)"
    by (simp add: word_less_nat_alt)
qed

declare halt_till_tick.simps [simp del]

definition sleep_sec :: "u64 \<Rightarrow> u64 \<Rightarrow> u64" where
  "sleep_sec sec ticks = halt_till_tick (ticks + PIT_TICK_HZ * sec) ticks"

definition sleep_ms :: "u64 \<Rightarrow> u64 \<Rightarrow> u64" where
  "sleep_ms ms ticks = halt_till_tick (ticks + ms * PIT_TICK_HZ div 1000) ticks"

end
