(* ===== verification/Idt.thy ===== *)
theory Idt
  imports InfoText
begin

text \<open>
  The interrupt descriptor table and the fault messages: \<^verbatim>\<open>io/idt/idt.cpp\<close> and
  \<^verbatim>\<open>io/idt/idt_faults/idt_faults.cpp\<close>. The addresses of the assembly stubs are
  parameters, and so is the register \<open>cr2\<close>; \<open>halt\<close> ends the fault handler, so its
  result is the screen at that point.
\<close>

unbundle bit_operations_syntax

section \<open>The table\<close>

record IDTEntry =
  base_low :: u16
  idt_selector :: u16
  ist :: u8
  idt_flags :: u8
  base_mid :: u16
  base_high :: u32
  idt_reserved :: u32

definition idt_set_entry :: "nat \<Rightarrow> u64 \<Rightarrow> IDTEntry list \<Rightarrow> IDTEntry list option" where
  "idt_set_entry n handler idt = wr idt n
     \<lparr>base_low = ucast (handler AND 0xFFFF), idt_selector = 0x28, ist = 0, idt_flags = 0x8E,
      base_mid = ucast (drop_bit 16 handler AND 0xFFFF),
      base_high = ucast (drop_bit 32 handler AND 0xFFFFFFFF), idt_reserved = 0\<rparr>"

definition idt_init :: "IDTEntry list \<Rightarrow> IDTEntry list option" where
  "idt_init idt = for_range (\<lambda>i idt. do { e \<leftarrow> rd idt i; wr idt i (e\<lparr>idt_flags := 0\<rparr>) }) 0 256 idt"

text \<open>The 32 stubs of the exceptions are set in order, then the timer and the keyboard.\<close>

definition populate_idt_entries :: "(nat \<Rightarrow> u64) \<Rightarrow> u64 \<Rightarrow> u64 \<Rightarrow> IDTEntry list \<Rightarrow> IDTEntry list option" where
  "populate_idt_entries isr_stub timer_isr keyboard_isr idt = do {
     idt \<leftarrow> for_range (\<lambda>n. idt_set_entry n (isr_stub n)) 0 32 idt;
     idt \<leftarrow> idt_set_entry 32 timer_isr idt;
     idt_set_entry 33 keyboard_isr idt }"

text \<open>The processor's reading of an entry: the address its fields compose.\<close>

definition entry_address :: "IDTEntry \<Rightarrow> u64" where
  "entry_address e = ucast (base_low e) OR push_bit 16 (ucast (base_mid e)) OR push_bit 32 (ucast (base_high e))"

section \<open>Faults\<close>

record Registers =
  r15 :: u64  r14 :: u64  r13 :: u64  r12 :: u64  r11 :: u64  r10 :: u64  r9 :: u64  r8 :: u64
  rdi_ :: u64  rsi :: u64  rbp :: u64  rdx :: u64  rcx :: u64  rbx :: u64  rax :: u64
  interrupt_number :: u64  error_code :: u64
  rip :: u64  cs :: u64  rflags :: u64  rsp :: u64  ss :: u64

definition fault_names :: "string list" where
  "fault_names = [
     ''DIVIDE BY ZERO FAULT'', ''DEBUG FAULT / TRAP'', ''NON-MASKABLE INTERRUPT'', ''BREAKPOINT TRAP'',
     ''OVERFLOW TRAP'', ''BOUND RANGE EXCEEDED FAULT'', ''INVALID OPCODE FAULT'', ''DEVICE NOT AVAILABLE FAULT'',
     ''DOUBLE FAULT ABORT'', ''COPROCESSOR SEGMENT OVERRUN'', ''INVALID TSS FAULT'', ''SEGMENT NOT PRESENT FAULT'',
     ''STACK-SEGMENT FAULT'', ''GENERAL PROTECTION FAULT'', ''PAGE FAULT'', ''RESERVED'',
     ''X87 FLOATING-POINT EXCEPTION'', ''ALIGNMENT CHECK FAULT'', ''MACHINE CHECK ABORT'',
     ''SIMD FLOATING-POINT EXCEPTION'', ''VIRTUALIZATION EXCEPTION'', ''CONTROL PROTECTION EXCEPTION'']
     @ replicate 10 ''RESERVED''"

definition fault_name :: "u64 \<Rightarrow> string" where
  "fault_name n = (if unat n < length fault_names then fault_names ! unat n else ''UNKNOWN FAULT'')"

text \<open>The reason of a page fault, from the bits of its error code.\<close>

definition page_fault_reason :: "u64 \<Rightarrow> string list" where
  "page_fault_reason code =
     [if code AND 1 = 0 then ''not-present '' else ''protection-violation '',
      if code AND 2 \<noteq> 0 then ''/ write '' else ''/ read '',
      if code AND 4 \<noteq> 0 then ''/ user '' else ''/ kernel ''] @
     (if code AND 8 \<noteq> 0 then [''/ reserved-bit-violation ''] else []) @
     (if code AND 16 \<noteq> 0 then [''/ instruction-fetch ''] else [])"

primrec print_words :: "string list \<Rightarrow> 'a screen_scheme \<Rightarrow> 'a screen_scheme option" where
  "print_words [] st = Some st"
| "print_words (w # ws) st = do { st \<leftarrow> print_inline (lit w) White st; print_words ws st }"

definition print_hex_line :: "buffer \<Rightarrow> u64 \<Rightarrow> 'a screen_scheme \<Rightarrow> 'a screen_scheme option" where
  "print_hex_line label v st = do {
     hexString \<leftarrow> to_string v 16;
     print_info_string PanicInfo [Chars label, Chars hexString] st }"

definition print_page_fault :: "u64 \<Rightarrow> u64 \<Rightarrow> 'a screen_scheme \<Rightarrow> 'a screen_scheme option" where
  "print_page_fault cr2 code st = do {
     st \<leftarrow> print_inline (lit ''[REASON]: '') LightRed st;
     st \<leftarrow> print_words (page_fault_reason code) st;
     st \<leftarrow> newline st;
     print_hex_line (lit ''FAULT ADDR: '') cr2 st }"

definition fault_handler :: "u64 \<Rightarrow> Registers \<Rightarrow> 'a screen_scheme \<Rightarrow> 'a screen_scheme option" where
  "fault_handler cr2 regs st = do {
     st \<leftarrow> newline st;
     st \<leftarrow> print_separator st;
     st \<leftarrow> printInfoLine KernelPanic (lit (fault_name (interrupt_number regs))) st;
     st \<leftarrow> (if interrupt_number regs = 14 then print_page_fault cr2 (error_code regs) st else Some st);
     st \<leftarrow> print_hex_line (lit ''RIP: '') (rip regs) st;
     st \<leftarrow> print_hex_line (lit ''RSP: '') (rsp regs) st;
     st \<leftarrow> print_hex_line (lit ''CS: '') (cs regs) st;
     st \<leftarrow> print_hex_line (lit ''ERROR: '') (error_code regs) st;
     print_separator st }"

end
