(* ===== verification/PciNames.thy ===== *)
theory PciNames
  imports Prelude
begin

text \<open>
  The names of the PCI device classes: \<^verbatim>\<open>helper/pci_class_names/pci_class_names.cpp\<close>.
  Each inner switch is a function from the subclass to its name; a subclass the switch
  does not list, and a class without an inner switch, leave the name empty.
\<close>

record PCIClassInfo =
  className :: string
  subClassName :: string

text \<open>A switch over a code: the first case that matches, or the value before the switch.\<close>

definition switch :: "u8 \<Rightarrow> (u8 \<times> string) list \<Rightarrow> string" where
  "switch code cases = (case map_of cases code of Some n \<Rightarrow> n | None \<Rightarrow> '''')"

definition subclass_names_00 :: "(u8 \<times> string) list" where
  "subclass_names_00 = [
    (0x0, ''Non-VGA-Compatible Unclassified Device''),
    (0x1, ''VGA-Compatible Unclassified Device'')]"

definition subclass_names_01 :: "(u8 \<times> string) list" where
  "subclass_names_01 = [
    (0x0, ''SCSI Bus Controller''),
    (0x1, ''IDE Controller''),
    (0x2, ''Floppy Disk Controller''),
    (0x3, ''IPI Bus Controller''),
    (0x4, ''RAID Controller''),
    (0x5, ''ATA Controller''),
    (0x6, ''Serial ATA Controller''),
    (0x7, ''Serial Attached SCSI Controller''),
    (0x8, ''Non-Volatile Memory Controller''),
    (0x80, ''Other'')]"

definition subclass_names_02 :: "(u8 \<times> string) list" where
  "subclass_names_02 = [
    (0x0, ''Ethernet Controller''),
    (0x1, ''Token Ring Controller''),
    (0x2, ''FDDI Controller''),
    (0x3, ''ATM Controller''),
    (0x4, ''ISDN Controller''),
    (0x5, ''WorldFip Controller''),
    (0x6, ''PICMG 2.14 Multi Computing Controller''),
    (0x7, ''Infiniband Controller''),
    (0x8, ''Fabric Controller''),
    (0x80, ''Other'')]"

definition subclass_names_03 :: "(u8 \<times> string) list" where
  "subclass_names_03 = [
    (0x0, ''VGA Compatible Controller''),
    (0x1, ''XGA Controller''),
    (0x2, ''3D Controller (Not VGA-Compatible)''),
    (0x80, ''Other'')]"

definition subclass_names_04 :: "(u8 \<times> string) list" where
  "subclass_names_04 = [
    (0x0, ''Multimedia Video Controller''),
    (0x1, ''Multimedia Audio Controller''),
    (0x2, ''Computer Telephony Device''),
    (0x3, ''Audio Device''),
    (0x80, ''Other'')]"

definition subclass_names_05 :: "(u8 \<times> string) list" where
  "subclass_names_05 = [
    (0x0, ''RAM Controller''),
    (0x1, ''Flash Controller''),
    (0x80, ''Other'')]"

definition subclass_names_06 :: "(u8 \<times> string) list" where
  "subclass_names_06 = [
    (0x0, ''Host Bridge''),
    (0x1, ''ISA Bridge''),
    (0x2, ''EISA Bridge''),
    (0x3, ''MCA Bridge''),
    (0x4, ''PCI-to-PCI Bridge''),
    (0x5, ''PCMCIA Bridge''),
    (0x6, ''NuBus Bridge''),
    (0x7, ''CardBus Bridge''),
    (0x8, ''RACEway Bridge''),
    (0x9, ''PCI-to-PCI Bridge''),
    (0xA, ''InfiniBand-to-PCI Host Bridge''),
    (0x80, ''Other'')]"

definition subclass_names_07 :: "(u8 \<times> string) list" where
  "subclass_names_07 = [
    (0x0, ''Serial Controller''),
    (0x1, ''Parallel Controller''),
    (0x2, ''Multiport Serial Controller''),
    (0x3, ''Modem''),
    (0x4, ''IEEE 488.1/2 (GPIB) Controller''),
    (0x5, ''Smart Card Controller''),
    (0x80, ''Other'')]"

definition subclass_names_08 :: "(u8 \<times> string) list" where
  "subclass_names_08 = [
    (0x0, ''PIC''),
    (0x1, ''DMA Controller''),
    (0x2, ''Timer''),
    (0x3, ''RTC Controller''),
    (0x4, ''PCI Hot-Plug Controller''),
    (0x5, ''SD Host controller''),
    (0x6, ''IOMMU''),
    (0x80, ''Other'')]"

definition subclass_names_09 :: "(u8 \<times> string) list" where
  "subclass_names_09 = [
    (0x0, ''Keyboard Controller''),
    (0x1, ''Digitizer Pen''),
    (0x2, ''Mouse Controller''),
    (0x3, ''Scanner Controller''),
    (0x4, ''Gameport Controller''),
    (0x80, ''Other'')]"

definition subclass_names_0A :: "(u8 \<times> string) list" where
  "subclass_names_0A = [
    (0x0, ''Generic''),
    (0x80, ''Other'')]"

definition subclass_names_0B :: "(u8 \<times> string) list" where
  "subclass_names_0B = [
    (0x0, ''386''),
    (0x1, ''486''),
    (0x2, ''Pentium''),
    (0x3, ''Pentium Pro''),
    (0x10, ''Alpha''),
    (0x20, ''PowerPC''),
    (0x30, ''MIPS''),
    (0x40, ''Co-Processor''),
    (0x80, ''Other'')]"

definition subclass_names_0C :: "(u8 \<times> string) list" where
  "subclass_names_0C = [
    (0x0, ''FireWire (IEEE 1394) Controller''),
    (0x1, ''ACCESS Bus Controller''),
    (0x2, ''SSA''),
    (0x3, ''USB Controller''),
    (0x4, ''Fibre Channel''),
    (0x5, ''SMBus Controller''),
    (0x6, ''InfiniBand Controller''),
    (0x7, ''IPMI Interface''),
    (0x8, ''SERCOS Interface (IEC 61491)''),
    (0x9, ''CANbus Controller''),
    (0x80, ''Other'')]"

definition subclass_names_0D :: "(u8 \<times> string) list" where
  "subclass_names_0D = [
    (0x0, ''iRDA Compatible Controller''),
    (0x1, ''Consumer IR Controller''),
    (0x10, ''RF Controller''),
    (0x11, ''Bluetooth Controller''),
    (0x12, ''Broadband Controller''),
    (0x20, ''Ethernet Controller (802.1a)''),
    (0x21, ''Ethernet Controller (802.1b)''),
    (0x80, ''Other'')]"

definition subclass_names_0E :: "(u8 \<times> string) list" where
  "subclass_names_0E = [
    (0x0, ''I2O'')]"

definition subclass_names_0F :: "(u8 \<times> string) list" where
  "subclass_names_0F = [
    (0x1, ''Satellite TV Controller''),
    (0x2, ''Satellite Audio Controller''),
    (0x3, ''Satellite Voice Controller''),
    (0x4, ''Satellite Data Controller'')]"

definition subclass_names_10 :: "(u8 \<times> string) list" where
  "subclass_names_10 = [
    (0x0, ''Network and Computing Encryption/Decryption''),
    (0x10, ''Entertainment Encryption/Decryption''),
    (0x80, ''Other'')]"

definition subclass_names_11 :: "(u8 \<times> string) list" where
  "subclass_names_11 = [
    (0x0, ''DPIO Modules''),
    (0x1, ''Performance Counters''),
    (0x10, ''Communication Synchronizer''),
    (0x20, ''Signal Processing Management''),
    (0x80, ''Other'')]"

definition class_names :: "(u8 \<times> string) list" where
  "class_names = [
    (0x0, ''Unclassified''),
    (0x1, ''Mass Storage Controller''),
    (0x2, ''Network Controller''),
    (0x3, ''Display Controller''),
    (0x4, ''Multimedia Controller''),
    (0x5, ''Memory Controller''),
    (0x6, ''Bridge Device''),
    (0x7, ''Simple Communication Controller''),
    (0x8, ''Base System Peripheral''),
    (0x9, ''Input Device Controller''),
    (0xA, ''Docking Station''),
    (0xB, ''Processor''),
    (0xC, ''Serial Bus Controller''),
    (0xD, ''Wireless Controller''),
    (0xE, ''Intelligent Controller''),
    (0xF, ''Satellite Communication Controller''),
    (0x10, ''Encryption Controller''),
    (0x11, ''Signal Processing Controller''),
    (0x12, ''Processing Accelerator''),
    (0x13, ''Non-Essential Instrumentation''),
    (0x40, ''Co-Processor''),
    (0xFF, ''Unassigned Class (Vendor specific)'')]"

definition subclass_names :: "u8 \<Rightarrow> (u8 \<times> string) list" where
  "subclass_names code = (case map_of [
    (0x0, subclass_names_00),
    (0x1, subclass_names_01),
    (0x2, subclass_names_02),
    (0x3, subclass_names_03),
    (0x4, subclass_names_04),
    (0x5, subclass_names_05),
    (0x6, subclass_names_06),
    (0x7, subclass_names_07),
    (0x8, subclass_names_08),
    (0x9, subclass_names_09),
    (0xA, subclass_names_0A),
    (0xB, subclass_names_0B),
    (0xC, subclass_names_0C),
    (0xD, subclass_names_0D),
    (0xE, subclass_names_0E),
    (0xF, subclass_names_0F),
    (0x10, subclass_names_10),
    (0x11, subclass_names_11)] code of Some ns \<Rightarrow> ns | None \<Rightarrow> [])"

definition resolve_class_name :: "u8 \<Rightarrow> u8 \<Rightarrow> PCIClassInfo" where
  "resolve_class_name ClassCode SubClass =
     \<lparr>className = switch ClassCode class_names, subClassName = switch SubClass (subclass_names ClassCode)\<rparr>"

end
