(* ===== verification/Pci.thy ===== *)
theory Pci
  imports PciNames
begin

text \<open>
  Enumeration of the PCI bus: \<^verbatim>\<open>io/pci/pci.cpp\<close> and \<^verbatim>\<open>io/pci/pci.h\<close>. The
  configuration space is a parameter: \<open>config a\<close> is what the port 0xCFC delivers after
  the address \<open>a\<close> was written to the port 0xCF8; it does not change while the bus is
  enumerated. \<open>alloc n\<close> says whether \<open>malloc\<close> of \<open>n\<close> bytes succeeds.
\<close>

unbundle bit_operations_syntax

section \<open>Configuration space addresses\<close>

definition calc_address :: "u16 \<Rightarrow> u8 \<Rightarrow> u8 \<Rightarrow> u32" where
  "calc_address bus device funct =
     0x80000000 OR push_bit 16 (ucast bus) OR push_bit 11 (ucast device) OR push_bit 8 (ucast funct)"

definition pci_read :: "(u32 \<Rightarrow> u32) \<Rightarrow> u16 \<Rightarrow> u8 \<Rightarrow> u8 \<Rightarrow> u8 \<Rightarrow> u32" where
  "pci_read config bus dev func offset = config (calc_address bus dev func OR ucast (offset AND 0xFC))"

definition is_device_present :: "u32 \<Rightarrow> bool" where
  "is_device_present v = (v AND 0xFFFF \<noteq> 0xFFFF)"

section \<open>Devices\<close>

text \<open>A base address register is the raw word; the fields of the two views are bit ranges of it.\<close>

type_synonym PCI_BAR = u32

definition mem_RegionType :: "PCI_BAR \<Rightarrow> u32" where "mem_RegionType bar = bar AND 1"
definition mem_MemoryType :: "PCI_BAR \<Rightarrow> u32" where "mem_MemoryType bar = drop_bit 1 bar AND 3"
definition mem_Prefetchable :: "PCI_BAR \<Rightarrow> u32" where "mem_Prefetchable bar = drop_bit 3 bar AND 1"
definition mem_BaseAddress :: "PCI_BAR \<Rightarrow> u32" where "mem_BaseAddress bar = drop_bit 4 bar"
definition io_BaseAddress :: "PCI_BAR \<Rightarrow> u32" where "io_BaseAddress bar = drop_bit 2 bar"

record BIST_Register =
  CompetionCode :: u8
  BIST_Reserved :: u8
  Start_BIST :: u8
  BIST_Capable :: u8

record PCI_Device =
  VendorID :: u16
  DeviceID :: u16
  pci_Command :: u16
  pci_Status :: u16
  RevisionID :: u8
  ProgIF :: u8
  Subclass :: u8
  ClassCode :: u8
  CacheLineSize :: u8
  LatencyTimer :: u8
  HeaderType :: u8
  BIST :: BIST_Register
  BAR :: "PCI_BAR list"
  CardbusCISPointer :: u32
  SubsystemVendorID :: u16
  SubsystemID :: u16
  ExpansionROMBaseAddress :: u32
  CapabilitiesPointer :: u8
  InterruptLine :: u8
  InterruptPin :: u8
  MinGnt :: u8
  MaxLat :: u8

text \<open>The part of \<open>get_pci_devices\<close> that reads one device: every field is assigned.\<close>

definition read_device :: "(u32 \<Rightarrow> u32) \<Rightarrow> u16 \<Rightarrow> u8 \<Rightarrow> u8 \<Rightarrow> PCI_Device" where
  "read_device config bus device funct =
     (let reg = (\<lambda>i. pci_read config bus device funct (0x04 * i));
          reg0 = reg 0; reg1 = reg 1; reg2 = reg 2; reg3 = reg 3;
          reg11 = reg 11; reg13 = reg 13; reg15 = reg 15
      in \<lparr>VendorID = ucast (reg0 AND 0xFFFF), DeviceID = ucast (drop_bit 16 reg0),
          pci_Command = ucast (reg1 AND 0xFFFF), pci_Status = ucast (drop_bit 16 reg1),
          RevisionID = ucast (reg2 AND 0xFF), ProgIF = ucast (drop_bit 8 reg2),
          Subclass = ucast (drop_bit 16 reg2), ClassCode = ucast (drop_bit 24 reg2),
          CacheLineSize = ucast (reg3 AND 0xFFFF), LatencyTimer = ucast (drop_bit 8 reg3),
          HeaderType = ucast (drop_bit 16 reg3),
          BIST = \<lparr>CompetionCode = ucast (drop_bit 24 reg3 AND 0x0F),
            BIST_Reserved = drop_bit 4 (ucast (drop_bit 24 reg3 AND 0x30)),
            Start_BIST = drop_bit 6 (ucast (drop_bit 24 reg3 AND 0x40)),
            BIST_Capable = drop_bit 7 (ucast (drop_bit 24 reg3 AND 0x80))\<rparr>,
          BAR = map (\<lambda>i. pci_read config bus device funct (0x10 + of_nat i * 4)) [0..<6],
          CardbusCISPointer = reg 10,
          SubsystemVendorID = ucast (reg11 AND 0xFFFF), SubsystemID = ucast (drop_bit 16 reg11),
          ExpansionROMBaseAddress = reg 12,
          CapabilitiesPointer = ucast (reg13 AND 0xFFFF),
          InterruptLine = ucast (reg15 AND 0xFFFF), InterruptPin = ucast (drop_bit 8 reg15),
          MinGnt = ucast (drop_bit 16 reg15), MaxLat = ucast (drop_bit 24 reg15)\<rparr>)"

section \<open>Enumeration\<close>

text \<open>The three nested loops over buses, devices and functions.\<close>

definition for_functions :: "(u16 \<Rightarrow> u8 \<Rightarrow> u8 \<Rightarrow> 's \<Rightarrow> 's option) \<Rightarrow> 's \<Rightarrow> 's option" where
  "for_functions body s =
     for_range (\<lambda>bus. for_range (\<lambda>device. for_range (\<lambda>funct.
       body (of_nat bus) (of_nat device) (of_nat funct)) 0 8) 0 32) 0 256 s"

definition count_pci_devices :: "(u32 \<Rightarrow> u32) \<Rightarrow> nat option" where
  "count_pci_devices config =
     for_functions (\<lambda>bus device funct deviceCounter.
       Some (if is_device_present (config (calc_address bus device funct)) then deviceCounter + 1 else deviceCounter)) 0"

definition get_pci_devices :: "(u32 \<Rightarrow> u32) \<Rightarrow> PCI_Device list \<Rightarrow> (nat \<times> PCI_Device list) option" where
  "get_pci_devices config found =
     for_functions (\<lambda>bus device funct (deviceCounter, found).
       if \<not> is_device_present (pci_read config bus device funct 0) then Some (deviceCounter, found)
       else do {
         found \<leftarrow> wr found deviceCounter (read_device config bus device funct);
         Some (deviceCounter + 1, found) }) (0, found)"

text \<open>\<open>fresh\<close> is the contents of the allocated memory; without memory the first write faults.\<close>

definition init_pci :: "(u32 \<Rightarrow> u32) \<Rightarrow> (nat \<Rightarrow> bool) \<Rightarrow> PCI_Device \<Rightarrow> (bool \<times> PCI_Device list \<times> nat) option" where
  "init_pci config alloc fresh = do {
     PCIDeviceAmount \<leftarrow> count_pci_devices config;
     let found = (if alloc (64 * PCIDeviceAmount) then replicate PCIDeviceAmount fresh else []);
     (_, found) \<leftarrow> get_pci_devices config found;
     Some (0 < PCIDeviceAmount, found, PCIDeviceAmount) }"

text \<open>The driver's search for its controller, of \<^verbatim>\<open>io/ahci/ahci.cpp\<close>.\<close>

definition find_ahci_controller :: "PCI_Device list \<Rightarrow> nat \<Rightarrow> PCI_Device option option" where
  "find_ahci_controller found PCIDeviceAmount = do {
     r \<leftarrow> for_until (\<lambda>i (_ :: unit). do {
           d \<leftarrow> rd found i;
           Some (if ClassCode d = 0x1 \<and> Subclass d = 0x6 then Inl (Some d) else Inr ()) }) 0 PCIDeviceAmount ();
     Some (case r of Inl d \<Rightarrow> d | Inr _ \<Rightarrow> None) }"

section \<open>The order of the enumeration\<close>

definition bus_functions :: "(u16 \<times> u8 \<times> u8) list" where
  "bus_functions = concat (map (\<lambda>b. concat (map (\<lambda>d. map (\<lambda>f. (of_nat b, of_nat d, of_nat f)) [0..<8]) [0..<32])) [0..<256])"

primrec run_list :: "('a \<Rightarrow> 's \<Rightarrow> 's option) \<Rightarrow> 'a list \<Rightarrow> 's \<Rightarrow> 's option" where
  "run_list body [] s = Some s"
| "run_list body (x # xs) s = do { s \<leftarrow> body x s; run_list body xs s }"

lemma run_list_append: "run_list body (xs @ ys) s = do { s \<leftarrow> run_list body xs s; run_list body ys s }"
  by (induction xs arbitrary: s) (simp_all add: Option.bind_assoc)

lemma for_loop_run_list:
  assumes "\<And>i s. body i s = run_list g (f i) s"
  shows "for_loop body lo n s = run_list g (concat (map f [lo..<lo + n])) s"
  by (induction n arbitrary: lo s) (simp_all add: upt_conv_Cons run_list_append assms del: upt_Suc split: Option.bind_splits)

lemma for_functions_run: "for_functions body s = run_list (\<lambda>(b, d, f). body b d f) bus_functions s"
proof -
  have inner: "for_loop (\<lambda>funct. body b d (of_nat funct)) 0 8 s =
      run_list (\<lambda>(b, d, f). body b d f) (map (\<lambda>f. (b, d, of_nat f)) [0..<8]) s" for b d s
    using for_loop_run_list[of "\<lambda>funct. body b d (of_nat funct)" "\<lambda>(b, d, f). body b d f" "\<lambda>f. [(b, d, of_nat f)]" 0 8 s]
    by (simp add: concat_map_singleton)
  have middle: "for_loop (\<lambda>device. for_loop (\<lambda>funct. body b (of_nat device) (of_nat funct)) 0 8) 0 32 s =
      run_list (\<lambda>(b, d, f). body b d f) (concat (map (\<lambda>d. map (\<lambda>f. (b, of_nat d, of_nat f)) [0..<8]) [0..<32])) s" for b s
    using for_loop_run_list[of "\<lambda>device. for_loop (\<lambda>funct. body b (of_nat device) (of_nat funct)) 0 8" "\<lambda>(b, d, f). body b d f"
        "\<lambda>d. map (\<lambda>f. (b, of_nat d, of_nat f)) [0..<8]" 0 32 s, OF inner] by simp
  show ?thesis
    using for_loop_run_list[OF middle, of of_nat 0 256 s] by (simp add: for_functions_def bus_functions_def)
qed

definition present_functions :: "(u32 \<Rightarrow> u32) \<Rightarrow> (u16 \<times> u8 \<times> u8) list" where
  "present_functions config = filter (\<lambda>(b, d, f). is_device_present (config (calc_address b d f))) bus_functions"

lemma count_run:
  "run_list (\<lambda>(b, d, f) n. Some (if is_device_present (config (calc_address b d f)) then n + 1 else n)) xs n =
     Some (n + length (filter (\<lambda>(b, d, f). is_device_present (config (calc_address b d f))) xs))"
  by (induction xs arbitrary: n) auto

lemma count_pci_devices_eq: "count_pci_devices config = Some (length (present_functions config))"
  using count_run[of config bus_functions 0] by (simp add: count_pci_devices_def for_functions_run present_functions_def)

lemma pci_read_zero: "pci_read config b d f 0 = config (calc_address b d f)"
  by (simp add: pci_read_def)

lemma collect_run:
  assumes "length (filter (\<lambda>(b, d, f). is_device_present (config (calc_address b d f))) xs) = length rest"
  shows "run_list (\<lambda>(b, d, f) (n, found).
       if \<not> is_device_present (pci_read config b d f 0) then Some (n, found)
       else do { found \<leftarrow> wr found n (read_device config b d f); Some (n + 1, found) }) xs (length ys, ys @ rest) =
     Some (length ys + length rest, ys @ map (\<lambda>(b, d, f). read_device config b d f)
       (filter (\<lambda>(b, d, f). is_device_present (config (calc_address b d f))) xs))"
  using assms
proof (induction xs arbitrary: ys rest)
  case (Cons x xs)
  obtain b d f where x: "x = (b, d, f)" by (cases x)
  show ?case
  proof (cases "is_device_present (config (calc_address b d f))")
    case False
    with Cons.IH[of rest ys] Cons.prems show ?thesis by (simp add: x pci_read_zero)
  next
    case True
    with Cons.prems obtain r rs where r: "rest = r # rs" by (cases rest) (auto simp: x)
    have "wr (ys @ r # rs) (length ys) (read_device config b d f) = Some ((ys @ [read_device config b d f]) @ rs)" by simp
    with Cons.IH[of rs "ys @ [read_device config b d f]"] Cons.prems True show ?thesis by (simp add: x pci_read_zero r)
  qed
qed simp

lemma init_pci_eq:
  assumes "alloc (64 * length (present_functions config))"
  shows "init_pci config alloc fresh = Some (present_functions config \<noteq> [],
    map (\<lambda>(b, d, f). read_device config b d f) (present_functions config), length (present_functions config))"
proof -
  let ?n = "length (present_functions config)"
  have "get_pci_devices config (replicate ?n fresh) =
      Some (?n, map (\<lambda>(b, d, f). read_device config b d f) (present_functions config))"
    using collect_run[of config bus_functions "replicate ?n fresh" "[]"]
    by (simp add: get_pci_devices_def for_functions_run present_functions_def)
  then show ?thesis using assms by (simp add: init_pci_def count_pci_devices_eq)
qed

lemma find_ahci_run:
  assumes "n + k = length found"
  shows "for_until (\<lambda>i (_ :: unit). do {
           d \<leftarrow> rd found i;
           Some (if ClassCode d = 0x1 \<and> Subclass d = 0x6 then Inl (Some d) else Inr ()) }) k n () =
    Some (case find (\<lambda>d. ClassCode d = 0x1 \<and> Subclass d = 0x6) (drop k found) of Some d \<Rightarrow> Inl (Some d) | None \<Rightarrow> Inr ())"
  using assms
proof (induction n arbitrary: k)
  case (Suc n)
  then have k: "k < length found" by simp
  then have "drop k found = found ! k # drop (Suc k) found" by (simp add: Cons_nth_drop_Suc)
  with Suc k show ?case by simp
qed simp

lemma find_ahci_controller_eq:
  "find_ahci_controller found (length found) = Some (find (\<lambda>d. ClassCode d = 0x1 \<and> Subclass d = 0x6) found)"
  using find_ahci_run[of "length found" 0 found] by (simp add: find_ahci_controller_def split: option.splits)

end
