(* ===== verification/DeviceProps.thy ===== *)
theory DeviceProps
  imports Timer Idt Pci Keymap TerminalProps
begin

text \<open>
  The properties of the device layer: the keyboard tables, the interrupt descriptor table,
  the enumeration of the PCI bus, the timer and its waits.
\<close>

section \<open>The keyboard tables\<close>

text \<open>A key of the US layout is a seven-bit character or one of the special keys.\<close>

definition key_ok :: "u16 \<Rightarrow> bool" where
  "key_ok k \<longleftrightarrow> k < 128 \<or> k \<in> {256, 257, 258, 259, 260, 261, 263, 266}"

lemma us_keys_checked: "list_all key_ok (us_keymap ! 0)" "list_all key_ok (us_keymap ! 1)"
  by (simp_all add: us_keymap_def keys_def key_ok_def)

lemma us_keymap_shape: "length us_keymap = 2" "length (us_keymap ! 0) = 58" "length (us_keymap ! 1) = 58"
  by (simp_all add: us_keymap_def keys_def)

lemma us_key_ok: "\<exists>k. scancode_to_keycode LAYOUT_US sh s = Some k \<and> key_ok k"
proof (cases "s < 0x3A")
  case True
  let ?row = "us_keymap ! (if sh then 1 else 0)"
  have i: "unat s < length ?row" using True us_keymap_shape by (simp add: word_less_nat_alt)
  then have "?row ! unat s \<in> set ?row" by (rule nth_mem)
  then have "key_ok (?row ! unat s)" using us_keys_checked by (cases sh) (auto simp: list_all_iff)
  moreover have "rd us_keymap (if sh then 1 else 0) = Some ?row" using us_keymap_shape by simp
  moreover have "\<not> s \<ge> 0x3A" using True by simp
  ultimately show ?thesis using i by (simp add: scancode_to_keycode_def layout_map_def)
qed (simp add: scancode_to_keycode_def key_ok_def not_less)

lemma key_ok_narrow:
  assumes "key_ok k"
  shows "unat (ucast k :: u8) < 128"
proof (cases "k < 128")
  case True
  then have "unat k < 128" by (simp add: word_less_nat_alt)
  moreover have "unat (ucast k :: u8) \<le> unat k" by (simp add: unsigned_ucast_eq take_bit_nat_less_eq_self)
  ultimately show ?thesis by linarith
qed (use assms in \<open>auto simp: key_ok_def\<close>)

text \<open>C29. Every scan code yields a key on the US layout, without an access outside the tables: nothing, a seven-bit
  character or one of the special keys. Narrowed to a character, as the terminal inserts it, the key always
  has a glyph in the font.\<close>

theorem us_keys_typed:
  "\<exists>k. scancode_to_keycode LAYOUT_US sh s = Some k \<and>
    (k < 128 \<or> k \<in> key_code ` {KEY_ENTER, KEY_BACKSPACE, KEY_TAB, KEY_LSHIFT, KEY_RSHIFT, KEY_LCTRL, KEY_LALT, KEY_ESCAPE}) \<and>
    unat (ucast k :: u8) < length font8x16"
proof -
  from us_key_ok[of sh s] obtain k where k: "scancode_to_keycode LAYOUT_US sh s = Some k" "key_ok k" by blast
  have "unat (ucast k :: u8) < 128" by (rule key_ok_narrow[OF k(2)])
  moreover have "length font8x16 = 128" by code_simp
  ultimately show ?thesis using k by (auto simp: key_ok_def)
qed

text \<open>On the German layout the umlauts have no glyph: their codes keep a value above the font.\<close>

lemma de_umlaut_without_glyph:
  "scancode_to_keycode LAYOUT_DE False 0x1A = Some 502" "rd font8x16 (unat (ucast (502 :: u16) :: u8)) = None"
  by (simp_all add: scancode_to_keycode_def layout_map_def de_keymap_def keys_def)

section \<open>The interrupt descriptor table\<close>

lemma word_parts:
  fixes h :: u64
  shows "(ucast (ucast (h AND mask 16) :: u16) :: u64) OR push_bit 16 (ucast (ucast (drop_bit 16 h AND mask 16) :: u16)) OR
    push_bit 32 (ucast (ucast (drop_bit 32 h AND mask 32) :: u32)) = h" (is "?w = h")
proof (rule bit_word_eqI)
  fix n assume "n < LENGTH(64)"
  then consider "n < 16" | "16 \<le> n" "n < 32" | "32 \<le> n" "n < 64" by fastforce
  then show "bit ?w n = bit h n" by cases (auto simp: bit_simps)
qed

lemma entry_address_set:
  "entry_address \<lparr>base_low = ucast (h AND 0xFFFF), idt_selector = a, ist = b, idt_flags = c,
     base_mid = ucast (drop_bit 16 h AND 0xFFFF), base_high = ucast (drop_bit 32 h AND 0xFFFFFFFF), idt_reserved = d\<rparr> = h"
proof -
  have m: "0xFFFF = (mask 16 :: u64)" "0xFFFFFFFF = (mask 32 :: u64)" by (simp_all add: mask_eq_exp_minus_1)
  show ?thesis unfolding entry_address_def m by (simp only: IDTEntry.simps word_parts)
qed

lemma set_entries:
  assumes "length idt = 256" and "lo + n \<le> 256"
  shows "\<exists>idt'. for_loop (\<lambda>n. idt_set_entry n (h n)) lo n idt = Some idt' \<and> length idt' = 256 \<and>
    (\<forall>i < 256. if lo \<le> i \<and> i < lo + n then entry_address (idt' ! i) = h i \<and> idt_flags (idt' ! i) = 0x8E \<and> idt_selector (idt' ! i) = 0x28
      else idt' ! i = idt ! i)"
  using assms
proof (induction n arbitrary: lo idt)
  case (Suc n)
  define e where "e = \<lparr>base_low = ucast (h lo AND 0xFFFF), idt_selector = 0x28, ist = 0, idt_flags = 0x8E,
      base_mid = ucast (drop_bit 16 (h lo) AND 0xFFFF),
      base_high = ucast (drop_bit 32 (h lo) AND 0xFFFFFFFF), idt_reserved = 0\<rparr>"
  have s: "idt_set_entry lo (h lo) idt = Some (idt[lo := e])" using Suc.prems by (simp add: idt_set_entry_def e_def)
  have a: "entry_address e = h lo" unfolding e_def by (rule entry_address_set)
  from Suc.IH[of "idt[lo := e]" "Suc lo"] Suc.prems obtain idt' where
    i: "for_loop (\<lambda>n. idt_set_entry n (h n)) (Suc lo) n (idt[lo := e]) = Some idt'" "length idt' = 256"
    "\<forall>i < 256. if Suc lo \<le> i \<and> i < Suc lo + n then entry_address (idt' ! i) = h i \<and> idt_flags (idt' ! i) = 0x8E \<and> idt_selector (idt' ! i) = 0x28
      else idt' ! i = idt[lo := e] ! i" by auto
  have "if lo \<le> j \<and> j < lo + Suc n then entry_address (idt' ! j) = h j \<and> idt_flags (idt' ! j) = 0x8E \<and> idt_selector (idt' ! j) = 0x28
      else idt' ! j = idt ! j" if "j < 256" for j
    using spec[OF i(3), of j] that a Suc.prems by (cases "j = lo") (auto simp: e_def split: if_splits)
  with s i(1,2) show ?case by auto
qed auto

lemma idt_init_effect:
  assumes "length idt = 256"
  shows "\<exists>idt'. idt_init idt = Some idt' \<and> length idt' = 256 \<and> (\<forall>i < 256. idt_flags (idt' ! i) = 0)"
proof -
  let ?body = "\<lambda>i (idt :: IDTEntry list). do { e \<leftarrow> rd idt i; wr idt i (e\<lparr>idt_flags := 0\<rparr>) }"
  let ?I = "\<lambda>k (idt' :: IDTEntry list). length idt' = 256 \<and> (\<forall>i < k. idt_flags (idt' ! i) = 0)"
  have "\<exists>idt'. for_loop ?body 0 256 idt = Some idt' \<and> ?I (0 + 256) idt'"
  proof (rule for_loop_rule[where I = ?I])
    fix k idt' assume "k < 0 + 256" and "?I k idt'"
    then show "\<exists>s'. ?body k idt' = Some s' \<and> ?I (Suc k) s'" by (auto simp: nth_list_update less_Suc_eq)
  qed (use assms in simp)
  then show ?thesis by (simp add: idt_init_def)
qed

lemma idt_set_up:
  assumes "length idt = 256"
  shows "\<exists>idt'. do { idt \<leftarrow> idt_init idt; populate_idt_entries isr_stub timer_isr keyboard_isr idt } = Some idt' \<and> length idt' = 256 \<and>
    (\<forall>n < 34. entry_address (idt' ! n) = (if n < 32 then isr_stub n else if n = 32 then timer_isr else keyboard_isr) \<and>
      idt_flags (idt' ! n) = 0x8E \<and> idt_selector (idt' ! n) = 0x28) \<and>
    (\<forall>n. 34 \<le> n \<and> n < 256 \<longrightarrow> idt_flags (idt' ! n) = 0)"
proof -
  let ?h = "\<lambda>n. if n < 32 then isr_stub n else if n = 32 then timer_isr else keyboard_isr"
  from idt_init_effect[OF assms] obtain i1 where i1: "idt_init idt = Some i1" "length i1 = 256" "\<forall>i < 256. idt_flags (i1 ! i) = 0" by blast
  from set_entries[OF i1(2), of 0 34 ?h] obtain i2 where
    i2: "for_loop (\<lambda>n. idt_set_entry n (?h n)) 0 34 i1 = Some i2" "length i2 = 256"
    "\<forall>i < 256. if 0 \<le> i \<and> i < 0 + 34 then entry_address (i2 ! i) = ?h i \<and> idt_flags (i2 ! i) = 0x8E \<and> idt_selector (i2 ! i) = 0x28
      else i2 ! i = i1 ! i" by auto
  have cong: "for_loop (\<lambda>n. idt_set_entry n (isr_stub n)) 0 32 i = for_loop (\<lambda>n. idt_set_entry n (?h n)) 0 32 i" for i
    by (rule for_loop_cong) simp
  have "populate_idt_entries isr_stub timer_isr keyboard_isr i1 = for_loop (\<lambda>n. idt_set_entry n (?h n)) 0 (32 + 2) i1"
    unfolding for_loop_add by (simp add: populate_idt_entries_def cong numeral_2_eq_2 split: Option.bind_splits)
  with i2(1) have "populate_idt_entries isr_stub timer_isr keyboard_isr i1 = Some i2" by simp
  with i1 i2(2,3) show ?thesis by (intro exI[of _ i2]) (auto split: if_splits)
qed

text \<open>C26. After the set up of the descriptor table every exception, the timer and the keyboard reach their handler:
  the address the processor composes from the three parts of the entry is the handler's, in a present interrupt
  gate with the loader's code segment, and all other entries are not present.\<close>

theorem idt_populated:
  assumes "length idt = 256"
  shows "\<exists>idt'. do { idt \<leftarrow> idt_init idt; populate_idt_entries isr_stub timer_isr keyboard_isr idt } = Some idt' \<and>
    (\<forall>n < 34. entry_address (idt' ! n) = (if n < 32 then isr_stub n else if n = 32 then timer_isr else keyboard_isr) \<and>
      idt_flags (idt' ! n) = 0x8E \<and> idt_selector (idt' ! n) = 0x28) \<and>
    (\<forall>n. 34 \<le> n \<and> n < 256 \<longrightarrow> idt_flags (idt' ! n) = 0)"
  using idt_set_up[OF assms] by blast

lemma idt_populated_witness:
  "\<exists>idt'. do { idt \<leftarrow> idt_init (replicate 256 \<lparr>base_low = 0, idt_selector = 0, ist = 0, idt_flags = 7, base_mid = 0,
      base_high = 0, idt_reserved = 0\<rparr>); populate_idt_entries (\<lambda>n. 0xFFFFFFFF80001000 + of_nat n) 1 2 idt } = Some idt' \<and>
    entry_address (idt' ! 14) = 0xFFFFFFFF8000100E \<and> idt_flags (idt' ! 40) = 0"
proof -
  let ?idt = "replicate 256 \<lparr>base_low = 0, idt_selector = 0, ist = 0, idt_flags = 7, base_mid = 0, base_high = 0, idt_reserved = 0\<rparr>"
  have "length ?idt = 256" by simp
  from idt_populated[OF this, of "\<lambda>n. 0xFFFFFFFF80001000 + of_nat n" 1 2] obtain idt' where
    i: "do { idt \<leftarrow> idt_init ?idt; populate_idt_entries (\<lambda>n. 0xFFFFFFFF80001000 + of_nat n) 1 2 idt } = Some idt'"
    "\<forall>n < 34. entry_address (idt' ! n) = (if n < 32 then 0xFFFFFFFF80001000 + of_nat n else if n = 32 then 1 else 2) \<and>
      idt_flags (idt' ! n) = 0x8E \<and> idt_selector (idt' ! n) = 0x28"
    "\<forall>n. 34 \<le> n \<and> n < 256 \<longrightarrow> idt_flags (idt' ! n) = 0" by blast
  from i(2) have "entry_address (idt' ! 14) = 0xFFFFFFFF8000100E" by (auto dest: spec[of _ 14])
  moreover from i(3) have "idt_flags (idt' ! 40) = 0" by simp
  ultimately show ?thesis using i(1) by blast
qed

section \<open>The PCI bus\<close>

lemma of_nat_range:
  assumes "m \<le> 2 ^ LENGTH('w)"
  shows "of_nat ` {0..<m} = {b :: 'w :: len word. unat b < m}"
proof (intro equalityI subsetI)
  fix b :: "'w word" assume "b \<in> {b. unat b < m}"
  then have "unat b \<in> {0..<m}" by simp
  then have "of_nat (unat b) \<in> (of_nat ` {0..<m} :: 'w word set)" by (rule imageI)
  then show "b \<in> of_nat ` {0..<m}" by simp
qed (use assms in \<open>auto simp: unat_of_nat take_bit_nat_eq_self_iff\<close>)

lemma of_nat_image:
  "of_nat ` {0..<256} = {b :: u16. b < 256}" "of_nat ` {0..<32} = {d :: u8. d < 32}" "of_nat ` {0..<8} = {f :: u8. f < 8}"
  using of_nat_range[of 256, where 'w = 16] of_nat_range[of 32, where 'w = 8] of_nat_range[of 8, where 'w = 8]
  by (simp_all add: word_less_nat_alt)

lemma set_bus_functions: "set bus_functions = {(b, d, f). b < 256 \<and> d < 32 \<and> f < 8}"
proof -
  have "set bus_functions = of_nat ` {0..<256} \<times> of_nat ` {0..<32} \<times> of_nat ` {0..<8}"
    unfolding bus_functions_def by auto
  then show ?thesis unfolding of_nat_image by auto
qed

lemma distinct_bus_functions: "distinct bus_functions"
proof -
  have e: "bus_functions = map (\<lambda>(b, d, f). (of_nat b, of_nat d, of_nat f)) (List.product [0..<256] (List.product [0..<32] [0..<8]))"
    by (simp add: bus_functions_def product_concat_map map_concat comp_def del: upt_rec_numeral)
  show ?thesis unfolding e
    by (auto simp: distinct_map distinct_product inj_on_def word_unat_eq_iff unat_of_nat take_bit_nat_eq_self_iff)
qed

text \<open>C25. The enumeration finds exactly the functions whose configuration space answers, in bus order and each once,
  with all fields read from their registers, and the driver then picks the first SATA controller of them.\<close>

theorem init_pci_complete:
  assumes "alloc (64 * length (present_functions config))"
  shows "\<exists>found. init_pci config alloc fresh = Some (found \<noteq> [], found, length found) \<and>
    found = map (\<lambda>(b, d, f). read_device config b d f) (present_functions config) \<and>
    distinct (present_functions config) \<and>
    set (present_functions config) = {(b, d, f). b < 256 \<and> d < 32 \<and> f < 8 \<and> is_device_present (config (calc_address b d f))} \<and>
    find_ahci_controller found (length found) = Some (find (\<lambda>d. ClassCode d = 0x1 \<and> Subclass d = 0x6) found)"
proof -
  let ?found = "map (\<lambda>(b, d, f). read_device config b d f) (present_functions config)"
  have "init_pci config alloc fresh = Some (?found \<noteq> [], ?found, length ?found)" using init_pci_eq[of alloc config fresh, OF assms] by simp
  moreover have "distinct (present_functions config)" by (simp add: present_functions_def distinct_bus_functions)
  moreover have "set (present_functions config) = {(b, d, f). b < 256 \<and> d < 32 \<and> f < 8 \<and> is_device_present (config (calc_address b d f))}"
    by (auto simp: present_functions_def set_bus_functions)
  ultimately show ?thesis using find_ahci_controller_eq[of ?found] by blast
qed

text \<open>A bus with one SATA controller, in function 2 of device 31.\<close>

definition sample_config :: "u32 \<Rightarrow> u32" where
  "sample_config a = (if a AND 0xFFFFFF00 = calc_address 0 31 2 then (if a AND 0xFC = 8 then 0x01060100 else 0x29228086) else 0xFFFFFFFF)"

lemma init_pci_complete_witness:
  "\<exists>found. init_pci sample_config (\<lambda>_. True) (read_device sample_config 0 0 0) = Some (True, found, length found) \<and>
    read_device sample_config 0 31 2 \<in> set found \<and> ClassCode (read_device sample_config 0 31 2) = 1"
proof -
  obtain found where found: "init_pci sample_config (\<lambda>_. True) (read_device sample_config 0 0 0) = Some (found \<noteq> [], found, length found)"
    "found = map (\<lambda>(b, d, f). read_device sample_config b d f) (present_functions sample_config)"
    "set (present_functions sample_config) =
      {(b, d, f). b < 256 \<and> d < 32 \<and> f < 8 \<and> is_device_present (sample_config (calc_address b d f))}"
    using init_pci_complete[of "\<lambda>_. True" sample_config "read_device sample_config 0 0 0"] by blast
  have "is_device_present (sample_config (calc_address 0 31 2))" by code_simp
  then have "(0, 31, 2) \<in> set (present_functions sample_config)" unfolding found(3) by simp
  then have "read_device sample_config 0 31 2 \<in> set found" unfolding found(2) by force
  moreover have "ClassCode (read_device sample_config 0 31 2) = 1" by code_simp
  ultimately show ?thesis using found(1) by (intro exI[of _ found]) auto
qed

section \<open>The timer\<close>

lemma halt_till_tick_max: "halt_till_tick t k = max t k"
proof (induction t k rule: halt_till_tick.induct)
  case (1 t k)
  show ?case
  proof (cases "k < t")
    case True
    then have "k + 1 \<le> t" by (simp add: inc_le)
    with 1 True show ?thesis by (subst halt_till_tick.simps) (auto simp: max_def dest: leD)
  next
    case False
    then show ?thesis by (subst halt_till_tick.simps) (auto simp: max_def not_less)
  qed
qed

text \<open>A wait in milliseconds lasts a tenth of its milliseconds in ticks of ten milliseconds each, rounded down: with
  less than ten milliseconds it returns at once, so the driver's polls of one millisecond do not wait at all.\<close>

theorem sleep_ms_elapsed:
  assumes "unat ms * 100 < 2 ^ 64" and "unat ticks + unat ms div 10 < 2 ^ 64"
  shows "unat (sleep_ms ms ticks) = unat ticks + unat ms div 10 \<and> (ms < 10 \<longrightarrow> sleep_ms ms ticks = ticks)"
proof -
  have "unat (ms * PIT_TICK_HZ div 1000) = unat ms div 10"
    using assms(1) unat_mult_lem[of ms PIT_TICK_HZ] by (simp add: unat_div PIT_TICK_HZ_def div_mult2_eq[symmetric])
  then have t: "unat (ticks + ms * PIT_TICK_HZ div 1000) = unat ticks + unat ms div 10"
    using assms(2) unat_add_lem[of ticks "ms * PIT_TICK_HZ div 1000"] by simp
  then have "ticks \<le> ticks + ms * PIT_TICK_HZ div 1000" by (simp add: word_le_nat_alt)
  then have "sleep_ms ms ticks = ticks + ms * PIT_TICK_HZ div 1000"
    unfolding sleep_ms_def halt_till_tick_max by (rule max_absorb1)
  with t have u: "unat (sleep_ms ms ticks) = unat ticks + unat ms div 10" by simp
  then have "ms < 10 \<longrightarrow> sleep_ms ms ticks = ticks" by (simp add: word_less_nat_alt word_unat_eq_iff)
  with u show ?thesis by blast
qed

lemma sleep_ms_elapsed_witness: "sleep_ms 1 5 = 5 \<and> unat (sleep_ms 25 5) = 7"
  using sleep_ms_elapsed[of 1 5] sleep_ms_elapsed[of 25 5] by simp

text \<open>A run of timer interrupts.\<close>

primrec run_timer :: "nat \<Rightarrow> u64 \<Rightarrow> 'a screen_scheme \<Rightarrow> (u64 \<times> 'a screen_scheme) option" where
  "run_timer 0 ticks st = Some (ticks, st)"
| "run_timer (Suc n) ticks st = do {
     (ticks, st) \<leftarrow> run_timer n ticks st;
     (ticks, st, _) \<leftarrow> timer_handler ticks st;
     Some (ticks, st) }"

lemma toggle_cursor:
  assumes ok: "screen_ok st"
  shows "\<exists>st'. update_cursor_render (st\<lparr>cursor_visible := v\<rparr>) = Some st' \<and> screen_ok st' \<and> cursor_visible st' = v \<and>
    scrollback st' = scrollback st \<and> screen.more st' = screen.more st"
proof -
  from ok obtain sb where b: "screen_base st sb" "rendered_in st sb" "at_end st sb" by (auto simp: screen_ok_def)
  let ?st = "st\<lparr>cursor_visible := v\<rparr>"
  have "screen_base ?st sb = screen_base st sb" by (simp add: screen_base_def geometry_def)
  then have b1: "screen_base ?st sb" "rendered_in ?st sb" "at_end ?st sb" using b by (simp_all add: rendered_in_def at_end_def)
  have x: "0 \<le> cursorAt_X ?st" "cursorAt_X ?st < MAX_CHARS ?st" using b1(3) by (simp_all add: at_end_def)
  from update_cursor_base[OF b1(1,2) x(1)] obtain fb where
    u: "update_cursor_render ?st = Some (?st\<lparr>framebuffer := fb, cursorRendered_X := cursorAt_X ?st, cursorRendered_Y := cursorAt_Y ?st\<rparr>)"
    "length fb = length (framebuffer ?st)" by blast
  let ?s = "?st\<lparr>framebuffer := fb, cursorRendered_X := cursorAt_X ?st, cursorRendered_Y := cursorAt_Y ?st\<rparr>"
  have b2: "screen_base ?s sb" by (rule base_rendered[OF b1(1) u(2)])
  have "rendered_in ?s sb" by (rule rendered_here[OF b2]) (use x in simp_all)
  moreover have "at_end ?s sb" using b1(3) by (simp add: at_end_def)
  ultimately have "screen_ok ?s" using b2 by (auto simp: screen_ok_def)
  moreover have "scrollback ?s = scrollback st" by (cases "screenBufferPtr st") (simp_all add: scrollback_def)
  ultimately show ?thesis using u(1) by simp
qed

lemma ticks_ms:
  assumes "n < 2 ^ 54"
  shows "unat ((of_nat n :: u64) * 1000 div PIT_TICK_HZ) = 10 * n"
proof -
  have "n * 1000 < 2 ^ 64" using assms by simp
  then have "unat (of_nat (n * 1000) :: u64) = n * 1000" using unat_of_nat_small[of "n * 1000", where 'a = 64] by simp
  then have "unat ((of_nat n :: u64) * 1000) = n * 1000" by simp
  then show ?thesis by (simp add: unat_div PIT_TICK_HZ_def)
qed

lemma blink_ticks:
  assumes "n < 2 ^ 54"
  shows "(of_nat n :: u64) * 1000 div PIT_TICK_HZ mod CURSOR_BLINK_INTERVAL = 0 \<longleftrightarrow> 40 dvd n"
proof -
  have "unat ((of_nat n :: u64) * 1000 div PIT_TICK_HZ mod CURSOR_BLINK_INTERVAL) = 10 * n mod (10 * 40)"
    by (simp add: unat_mod ticks_ms[OF assms] CURSOR_BLINK_INTERVAL_def)
  also have "\<dots> = 10 * (n mod 40)" by (rule mult_mod_right[symmetric])
  finally show ?thesis by (simp add: unat_eq_zero[symmetric] dvd_eq_mod_eq_0)
qed

lemma odd_Suc_div: "odd (Suc n div 40) \<longleftrightarrow> odd (n div 40) \<noteq> (40 dvd Suc n)"
  by (simp add: div_Suc mod_eq_0_iff_dvd)

text \<open>C27. Timer interrupts between prints are harmless and keep time: from any state in which text can be printed, \<open>n\<close>
  interrupts run without a fault, count \<open>n\<close> ticks, leave the scroll-back and the rest of the state as they were and the
  screen ready for printing, and the cursor blinks: it changes its visibility every forty ticks, that is 400 ms.\<close>

theorem timer_blinks:
  assumes "screen_ok st" and "n < 2 ^ 54"
  shows "\<exists>st'. run_timer n 0 st = Some (of_nat n, st') \<and> screen_ok st' \<and> scrollback st' = scrollback st \<and>
    screen.more st' = screen.more st \<and> cursor_visible st' = (cursor_visible st \<noteq> odd (n div 40)) \<and>
    get_ticks_in_ms (of_nat n) = of_nat (10 * n)"
  using assms
proof (induction n)
  case 0
  then show ?case by (simp add: get_ticks_in_ms_def)
next
  case (Suc n)
  from Suc.IH[OF Suc.prems(1) Suc_lessD[OF Suc.prems(2)]] obtain st1 where s1: "run_timer n 0 st = Some (of_nat n, st1)" "screen_ok st1" "scrollback st1 = scrollback st"
    "screen.more st1 = screen.more st" "cursor_visible st1 = (cursor_visible st \<noteq> odd (n div 40))" by blast
  have n: "Suc n < 2 ^ 54" by (rule Suc.prems(2))
  have "(10 * Suc n) < 2 ^ 64" using n by simp
  then have "unat (of_nat (10 * Suc n) :: u64) = 10 * Suc n" using unat_of_nat_small[of "10 * Suc n", where 'a = 64] by simp
  with ticks_ms[OF n] have ms: "get_ticks_in_ms (of_nat (Suc n)) = of_nat (10 * Suc n)"
    by (simp only: get_ticks_in_ms_def word_unat_eq_iff)
  have suc: "of_nat n + 1 = (of_nat (Suc n) :: u64)" by simp
  have t: "timer_handler (of_nat n) st1 = do {
      st \<leftarrow> (if 40 dvd Suc n then update_cursor_render (st1\<lparr>cursor_visible := \<not> cursor_visible st1\<rparr>) else Some st1);
      Some (of_nat (Suc n), st, EIO_Finished_Interrupt) }"
    unfolding timer_handler_def Let_def suc blink_ticks[OF n] by simp
  have run: "run_timer (Suc n) 0 st = do { (ticks, st, _) \<leftarrow> timer_handler (of_nat n) st1; Some (ticks, st) }"
    using s1(1) by simp
  note par = odd_Suc_div[of n]
  show ?case
  proof (cases "40 dvd Suc n")
    case True
    from toggle_cursor[OF s1(2), of "\<not> cursor_visible st1"] obtain st2 where st2:
      "update_cursor_render (st1\<lparr>cursor_visible := \<not> cursor_visible st1\<rparr>) = Some st2" "screen_ok st2"
      "cursor_visible st2 = (\<not> cursor_visible st1)" "scrollback st2 = scrollback st1" "screen.more st2 = screen.more st1" by blast
    then have "run_timer (Suc n) 0 st = Some (of_nat (Suc n), st2)" unfolding run t using True by simp
    moreover have "cursor_visible st2 = (cursor_visible st \<noteq> odd (Suc n div 40))" unfolding st2(3) s1(5) par using True by blast
    ultimately show ?thesis using st2(2,4,5) s1(3,4) ms by (intro exI[of _ st2] conjI) (simp_all only:)
  next
    case False
    then have "run_timer (Suc n) 0 st = Some (of_nat (Suc n), st1)" unfolding run t using False by simp
    moreover have "cursor_visible st1 = (cursor_visible st \<noteq> odd (Suc n div 40))" unfolding s1(5) par using False by blast
    ultimately show ?thesis using s1(2-4) ms by (intro exI[of _ st1] conjI) (simp_all only:)
  qed
qed

lemma timer_blinks_witness:
  "\<exists>st'. run_timer 40 0 (sample_screen ()) = Some (40, st') \<and> screen_ok st' \<and> \<not> cursor_visible st' \<and> get_ticks_in_ms 40 = 400"
  using timer_blinks[OF sample_screen_ok[of "()"], of 40] by (auto simp: sample_screen_def)

end
