(* ===== verification/Ahci.thy ===== *)
theory Ahci
  imports Paging Pci StringLib Bytes
begin

text \<open>
  The disk driver: \<^verbatim>\<open>io/ahci/ahci.cpp\<close> and \<^verbatim>\<open>io/ahci/ahci.h\<close>. The state holds the
  registers of the ports, the command headers and command tables by the physical address of
  the frame they lie in, and the bytes of the data buffers by their physical address; the
  direct map of the kernel is an offset and is left out. Packed structures are records of
  the fields the driver uses. The controller is a parameter \<open>dev\<close>: what it does to the
  state while the driver waits for a millisecond.
\<close>

unbundle bit_operations_syntax

section \<open>Structures\<close>

definition IDENTIFY_DEVICE :: u8 where "IDENTIFY_DEVICE = 0xEC"
definition READ_DMA_EXT :: u8 where "READ_DMA_EXT = 0x25"
definition WRITE_DMA_EXT :: u8 where "WRITE_DMA_EXT = 0x35"
definition FLUSH_EXT :: u8 where "FLUSH_EXT = 0xEA"
definition SECTOR_SIZE_BYTES32 :: u32 where "SECTOR_SIZE_BYTES32 = 512"
definition VIRTUAL_OFFSET_MMIO :: u64 where "VIRTUAL_OFFSET_MMIO = 0xFFFFA00000000000"

record H2D_Register_FIS =
  FISType :: u8
  fis_C :: u8
  fis_Command :: u8
  LBA0 :: u8
  LBA1 :: u8
  LBA2 :: u8
  fis_Device :: u8
  LBA3 :: u8
  LBA4 :: u8
  LBA5 :: u8
  CountLow :: u8
  CountHigh :: u8

record PRDT_Bits =
  DBA :: u32
  DBAU :: u32
  DBC :: u32

record AHCI_Command_Table =
  CFIS :: H2D_Register_FIS
  PRDT :: PRDT_Bits

record AHCI_Command_Header =
  CFL :: u32
  hdr_W :: bool
  PRDTL :: u32
  CTBA :: u32
  CTBAU :: u32

record PCMD_Bits =
  ST :: bool
  FRE :: bool
  FR :: bool
  CR :: bool

record TFD_STS_Bits =
  BSY :: bool
  DRDY :: bool

record AHCI_Ports =
  CLB :: u32
  CLBU :: u32
  FB :: u32
  FBU :: u32
  CMD :: PCMD_Bits
  TFD_STS :: TFD_STS_Bits
  SIG :: u32
  SSTS_SPD :: u32
  CI :: u32

record ahci_state =
  paging :: paging_state
  PI :: u32
  ports :: "nat \<Rightarrow> AHCI_Ports"
  cmd_headers :: "u64 \<Rightarrow> AHCI_Command_Header"
  cmd_tables :: "u64 \<Rightarrow> AHCI_Command_Table"
  phys :: mem

text \<open>Writing the registers of a port.\<close>

definition upd_port :: "nat \<Rightarrow> (AHCI_Ports \<Rightarrow> AHCI_Ports) \<Rightarrow> ahci_state \<Rightarrow> ahci_state" where
  "upd_port p f st = st\<lparr>ports := (ports st)(p := f (ports st p))\<rparr>"

definition cleared_header :: AHCI_Command_Header where
  "cleared_header = \<lparr>CFL = 0, hdr_W = False, PRDTL = 0, CTBA = 0, CTBAU = 0\<rparr>"

definition cleared_table :: AHCI_Command_Table where
  "cleared_table = \<lparr>CFIS = \<lparr>FISType = 0, fis_C = 0, fis_Command = 0, LBA0 = 0, LBA1 = 0, LBA2 = 0, fis_Device = 0,
     LBA3 = 0, LBA4 = 0, LBA5 = 0, CountLow = 0, CountHigh = 0\<rparr>, PRDT = \<lparr>DBA = 0, DBAU = 0, DBC = 0\<rparr>\<rparr>"

section \<open>Waiting\<close>

text \<open>The loop all waits share: as long as the condition holds, wait a millisecond, and give up after \<open>n\<close> rounds.\<close>

fun await :: "(ahci_state \<Rightarrow> bool) \<Rightarrow> (ahci_state \<Rightarrow> ahci_state) \<Rightarrow> nat \<Rightarrow> ahci_state \<Rightarrow> bool \<times> ahci_state" where
  "await busy dev 0 st = (False, st)"
| "await busy dev (Suc n) st =
     (if \<not> busy st then (True, st)
      else let st = dev st in if n = 0 then (False, st) else await busy dev n st)"

definition Start_AHCI_Command :: "nat \<Rightarrow> ahci_state \<Rightarrow> ahci_state" where
  "Start_AHCI_Command p st = upd_port p (\<lambda>r. r\<lparr>CI := CI r OR 1\<rparr>) st"

definition Await_AHCI_Task_Finish :: "(ahci_state \<Rightarrow> ahci_state) \<Rightarrow> nat \<Rightarrow> ahci_state \<Rightarrow> bool \<times> ahci_state" where
  "Await_AHCI_Task_Finish dev p = await (\<lambda>st. CI (ports st p) AND 1 \<noteq> 0) dev 3000"

definition await_fis_receive_engine :: "(ahci_state \<Rightarrow> ahci_state) \<Rightarrow> nat \<Rightarrow> bool \<Rightarrow> ahci_state \<Rightarrow> bool \<times> ahci_state" where
  "await_fis_receive_engine dev p awaitStatus = await (\<lambda>st. FR (CMD (ports st p)) \<noteq> awaitStatus) dev 3000"

definition await_command_list_engine :: "(ahci_state \<Rightarrow> ahci_state) \<Rightarrow> nat \<Rightarrow> bool \<Rightarrow> ahci_state \<Rightarrow> bool \<times> ahci_state" where
  "await_command_list_engine dev p awaitStatus = await (\<lambda>st. CR (CMD (ports st p)) \<noteq> awaitStatus) dev 3000"

definition await_drive_ready :: "(ahci_state \<Rightarrow> ahci_state) \<Rightarrow> nat \<Rightarrow> ahci_state \<Rightarrow> bool \<times> ahci_state" where
  "await_drive_ready dev p = await (\<lambda>st. BSY (TFD_STS (ports st p)) \<or> \<not> DRDY (TFD_STS (ports st p))) dev 3000"

definition set_FRE :: "nat \<Rightarrow> bool \<Rightarrow> ahci_state \<Rightarrow> ahci_state" where
  "set_FRE p v = upd_port p (\<lambda>r. r\<lparr>CMD := (CMD r)\<lparr>FRE := v\<rparr>\<rparr>)"

definition set_ST :: "nat \<Rightarrow> bool \<Rightarrow> ahci_state \<Rightarrow> ahci_state" where
  "set_ST p v = upd_port p (\<lambda>r. r\<lparr>CMD := (CMD r)\<lparr>ST := v\<rparr>\<rparr>)"

definition set_sata_port_status :: "(ahci_state \<Rightarrow> ahci_state) \<Rightarrow> nat \<Rightarrow> bool \<Rightarrow> ahci_state \<Rightarrow> bool \<times> ahci_state" where
  "set_sata_port_status dev p activate st =
     (if activate then
        let (ok, st) = await_fis_receive_engine dev p True (set_FRE p True st)
        in if \<not> ok then (False, st)
           else let (ok, st) = await_drive_ready dev p st
                in if \<not> ok then (False, st)
                   else await_command_list_engine dev p True (set_ST p True st)
      else
        let (ok, st) = await_command_list_engine dev p False (set_ST p False st)
        in if \<not> ok then (False, st)
           else await_fis_receive_engine dev p False (set_FRE p False st))"

section \<open>Memory of a command\<close>

definition with_frames :: "(pmm_state \<Rightarrow> (u64 \<times> pmm_state) option) \<Rightarrow> ahci_state \<Rightarrow> (u64 \<times> ahci_state) option" where
  "with_frames alloc st = do {
     (a, pmm) \<leftarrow> alloc (frames (paging st));
     Some (a, st\<lparr>paging := (paging st)\<lparr>frames := pmm\<rparr>\<rparr>) }"

definition AllocateCommandTable :: "ahci_state \<Rightarrow> (u64 \<times> ahci_state) option" where
  "AllocateCommandTable st = do {
     (commandTablePhysAddr, st) \<leftarrow> with_frames pmm_malloc_page st;
     if commandTablePhysAddr = PMM_MALLOC_FAILED then Some (PMM_MALLOC_FAILED, st)
     else Some (commandTablePhysAddr, st\<lparr>cmd_tables := (cmd_tables st)(commandTablePhysAddr := cleared_table)\<rparr>) }"

definition AllocateDataBuffer :: "u32 \<Rightarrow> ahci_state \<Rightarrow> (u64 \<times> ahci_state) option" where
  "AllocateDataBuffer dataSize st = do {
     let requiredPages = divide_round_up (ucast dataSize) PAGE_SIZE;
     (dataBufferPhysAddr, st) \<leftarrow> with_frames (pmm_malloc_pages requiredPages) st;
     if dataBufferPhysAddr = PMM_MALLOC_FAILED then Some (PMM_MALLOC_FAILED, st)
     else do {
       m \<leftarrow> memory_clear (unat dataBufferPhysAddr) (unat (PAGE_SIZE * requiredPages)) (phys st);
       Some (dataBufferPhysAddr, st\<lparr>phys := m\<rparr>) } }"

text \<open>The header lies at the start of the command list of the port.\<close>

definition SetCommandHeader :: "nat \<Rightarrow> u64 \<Rightarrow> bool \<Rightarrow> ahci_state \<Rightarrow> ahci_state" where
  "SetCommandHeader p commandTablePhysAddr is_write st =
     st\<lparr>cmd_headers := (cmd_headers st)(ucast (CLB (ports st p)) :=
       \<lparr>CFL = 5, hdr_W = is_write, PRDTL = 1, CTBA = ucast commandTablePhysAddr, CTBAU = 0\<rparr>)\<rparr>"

definition upd_table :: "u64 \<Rightarrow> (AHCI_Command_Table \<Rightarrow> AHCI_Command_Table) \<Rightarrow> ahci_state \<Rightarrow> ahci_state" where
  "upd_table a f st = st\<lparr>cmd_tables := (cmd_tables st)(a := f (cmd_tables st a))\<rparr>"

definition BuildCommand :: "u64 \<Rightarrow> u8 \<Rightarrow> ahci_state \<Rightarrow> ahci_state" where
  "BuildCommand commandTablePhysAddr CommandCode =
     upd_table commandTablePhysAddr (\<lambda>t. t\<lparr>CFIS := (CFIS t)\<lparr>FISType := 0x27, fis_C := 1, fis_Command := CommandCode\<rparr>\<rparr>)"

definition Fill_LBA_Address :: "u64 \<Rightarrow> u64 \<Rightarrow> ahci_state \<Rightarrow> ahci_state" where
  "Fill_LBA_Address commandTable LBA_Address =
     upd_table commandTable (\<lambda>t. t\<lparr>CFIS := (CFIS t)\<lparr>fis_Device := 0x40,
       LBA0 := ucast LBA_Address, LBA1 := ucast (drop_bit 8 LBA_Address), LBA2 := ucast (drop_bit 16 LBA_Address),
       LBA3 := ucast (drop_bit 24 LBA_Address), LBA4 := ucast (drop_bit 32 LBA_Address), LBA5 := ucast (drop_bit 40 LBA_Address)\<rparr>\<rparr>)"

definition Fill_Sector_Quantity :: "u64 \<Rightarrow> u16 \<Rightarrow> ahci_state \<Rightarrow> ahci_state" where
  "Fill_Sector_Quantity commandTable sectorQuantity =
     upd_table commandTable (\<lambda>t. t\<lparr>CFIS := (CFIS t)\<lparr>CountLow := ucast sectorQuantity, CountHigh := ucast (drop_bit 8 sectorQuantity)\<rparr>\<rparr>)"

text \<open>\<open>DBC\<close> is a field of 22 bits.\<close>

definition set_ahci_prdt :: "u64 \<Rightarrow> u64 \<Rightarrow> u32 \<Rightarrow> ahci_state \<Rightarrow> ahci_state" where
  "set_ahci_prdt commandTable dataBufferPhysAddr dataSize =
     upd_table commandTable (\<lambda>t. t\<lparr>PRDT := \<lparr>DBA = ucast dataBufferPhysAddr, DBAU = 0, DBC = take_bit 22 (dataSize - 1)\<rparr>\<rparr>)"

definition RunCommand :: "(ahci_state \<Rightarrow> ahci_state) \<Rightarrow> nat \<Rightarrow> ahci_state \<Rightarrow> bool \<times> ahci_state" where
  "RunCommand dev p st = Await_AHCI_Task_Finish dev p (Start_AHCI_Command p st)"

section \<open>Commands\<close>

text \<open>The characters of a word of an ATA string come in reverse.\<close>

definition ata_string_byteswap :: "nat \<Rightarrow> buffer \<Rightarrow> buffer option" where
  "ata_string_byteswap n b =
     for_range (\<lambda>k b. do {
         let i = 2 * k;
         temp \<leftarrow> rd b i;
         c \<leftarrow> rd b (i + 1);
         b \<leftarrow> wr b i c;
         wr b (i + 1) temp }) 0 ((n + 1) div 2) b"

text \<open>The strings of the response: the serial number at byte 20, the model at byte 54, each ended by the
  reserved byte behind it. \<open>clean_string\<close> swaps and trims the string at an offset.\<close>

definition clean_string :: "nat \<Rightarrow> nat \<Rightarrow> buffer \<Rightarrow> buffer option" where
  "clean_string off n b = do {
     s \<leftarrow> ata_string_byteswap n (drop off b);
     v \<leftarrow> str_trim_end s;
     s \<leftarrow> str_copy s v;
     Some (take off b @ s) }"

definition Get_AHCI_IdentifyResponse :: "buffer \<Rightarrow> buffer option" where
  "Get_AHCI_IdentifyResponse b = do {
     b \<leftarrow> wr b 40 0;
     b \<leftarrow> wr b 94 0;
     b \<leftarrow> clean_string 20 20 b;
     clean_string 54 40 b }"

text \<open>The response is the 512 bytes at the data buffer; no pointer is \<open>None\<close> inside.\<close>

definition AHCI_IDENTIFY_DEVICE :: "(ahci_state \<Rightarrow> ahci_state) \<Rightarrow> nat \<Rightarrow> ahci_state \<Rightarrow> (buffer option \<times> ahci_state) option" where
  "AHCI_IDENTIFY_DEVICE dev p st = do {
     (commandTablePhysAddr, st) \<leftarrow> AllocateCommandTable st;
     (dataBufferPhysAddr, st) \<leftarrow> AllocateDataBuffer (ucast PAGE_SIZE) st;
     if commandTablePhysAddr = PMM_MALLOC_FAILED \<or> dataBufferPhysAddr = PMM_MALLOC_FAILED then Some (None, st)
     else do {
       let st = SetCommandHeader p commandTablePhysAddr False st;
       let st = BuildCommand commandTablePhysAddr IDENTIFY_DEVICE st;
       let st = set_ahci_prdt commandTablePhysAddr dataBufferPhysAddr SECTOR_SIZE_BYTES32 st;
       let (ok, st) = RunCommand dev p st;
       if \<not> ok then Some (None, st)
       else do {
         r \<leftarrow> Get_AHCI_IdentifyResponse (map (phys st) [unat dataBufferPhysAddr ..< unat dataBufferPhysAddr + 512]);
         Some (Some r, st\<lparr>phys := write_bytes (unat dataBufferPhysAddr) r (phys st)\<rparr>) } } }"

text \<open>\<open>RAM_InputPtr\<close> and \<open>RAM_OutputPtr\<close> are buffers of the caller outside the data buffer.\<close>

definition AHCI_WRTIE_DMA_EXT :: "(ahci_state \<Rightarrow> ahci_state) \<Rightarrow> nat \<Rightarrow> u64 \<Rightarrow> u16 \<Rightarrow> u8 list \<Rightarrow> ahci_state \<Rightarrow> ahci_state option" where
  "AHCI_WRTIE_DMA_EXT dev p writeStartLBA sectorQuantity RAM_Input st = do {
     (commandTablePhysAddr, st) \<leftarrow> AllocateCommandTable st;
     let dataSize = ucast sectorQuantity * SECTOR_SIZE_BYTES32;
     (dataBufferPhysAddr, st) \<leftarrow> AllocateDataBuffer dataSize st;
     if commandTablePhysAddr = PMM_MALLOC_FAILED \<or> dataBufferPhysAddr = PMM_MALLOC_FAILED then Some st
     else if length RAM_Input < unat dataSize then None
     else do {
       let st = SetCommandHeader p commandTablePhysAddr True st;
       let st = BuildCommand commandTablePhysAddr WRITE_DMA_EXT st;
       let st = Fill_LBA_Address commandTablePhysAddr writeStartLBA st;
       let st = Fill_Sector_Quantity commandTablePhysAddr sectorQuantity st;
       let st = st\<lparr>phys := write_bytes (unat dataBufferPhysAddr) (take (unat dataSize) RAM_Input) (phys st)\<rparr>;
       let st = set_ahci_prdt commandTablePhysAddr dataBufferPhysAddr dataSize st;
       Some (snd (RunCommand dev p st)) } }"

definition AHCI_READ_DMA_EXT :: "(ahci_state \<Rightarrow> ahci_state) \<Rightarrow> nat \<Rightarrow> u64 \<Rightarrow> u16 \<Rightarrow> u8 list \<Rightarrow> ahci_state \<Rightarrow> (u8 list \<times> ahci_state) option" where
  "AHCI_READ_DMA_EXT dev p readStartLBA sectorQuantity RAM_Output st = do {
     (commandTablePhysAddr, st) \<leftarrow> AllocateCommandTable st;
     let dataSize = ucast sectorQuantity * SECTOR_SIZE_BYTES32;
     (dataBufferPhysAddr, st) \<leftarrow> AllocateDataBuffer dataSize st;
     if commandTablePhysAddr = PMM_MALLOC_FAILED \<or> dataBufferPhysAddr = PMM_MALLOC_FAILED then Some (RAM_Output, st)
     else do {
       let st = SetCommandHeader p commandTablePhysAddr False st;
       let st = BuildCommand commandTablePhysAddr READ_DMA_EXT st;
       let st = Fill_LBA_Address commandTablePhysAddr readStartLBA st;
       let st = Fill_Sector_Quantity commandTablePhysAddr sectorQuantity st;
       let st = set_ahci_prdt commandTablePhysAddr dataBufferPhysAddr dataSize st;
       let (_, st) = RunCommand dev p st;
       if length RAM_Output < unat dataSize then None
       else Some (map (phys st) [unat dataBufferPhysAddr ..< unat dataBufferPhysAddr + unat dataSize] @
         drop (unat dataSize) RAM_Output, st) } }"

definition AHCI_FLUSH_CACHE_EXT :: "(ahci_state \<Rightarrow> ahci_state) \<Rightarrow> nat \<Rightarrow> ahci_state \<Rightarrow> ahci_state option" where
  "AHCI_FLUSH_CACHE_EXT dev p st = do {
     (commandTablePhysAddr, st) \<leftarrow> AllocateCommandTable st;
     if commandTablePhysAddr = PMM_MALLOC_FAILED then Some st
     else do {
       let st = SetCommandHeader p commandTablePhysAddr False st;
       let a = ucast (CLB (ports st p));
       let st = st\<lparr>cmd_headers := (cmd_headers st)(a := (cmd_headers st a)\<lparr>PRDTL := 0\<rparr>)\<rparr>;
       let st = BuildCommand commandTablePhysAddr FLUSH_EXT st;
       Some (snd (RunCommand dev p st)) } }"

section \<open>Setting up the ports\<close>

definition preparePort :: "(ahci_state \<Rightarrow> ahci_state) \<Rightarrow> nat \<Rightarrow> ahci_state \<Rightarrow> (bool \<times> ahci_state) option" where
  "preparePort dev p st =
     (let (ok, st) = set_sata_port_status dev p False st
      in if \<not> ok then Some (False, st)
         else do {
           (commandListPhysAddr, st) \<leftarrow> with_frames pmm_malloc_page st;
           (FBval, st) \<leftarrow> with_frames pmm_malloc_page st;
           if commandListPhysAddr = PMM_MALLOC_FAILED \<or> FBval = PMM_MALLOC_FAILED then Some (False, st)
           else do {
             let st = upd_port p (\<lambda>r. r\<lparr>CLB := ucast commandListPhysAddr\<rparr>) st;
             let st = st\<lparr>cmd_headers := (cmd_headers st)(ucast (CLB (ports st p)) := cleared_header)\<rparr>;
             let st = upd_port p (\<lambda>r. r\<lparr>CLBU := 0, FB := ucast FBval\<rparr>) st;
             m \<leftarrow> memory_clear (unat (FB (ports st p))) 4096 (phys st);
             let st = upd_port p (\<lambda>r. r\<lparr>FBU := 0\<rparr>) (st\<lparr>phys := m\<rparr>);
             Some (set_sata_port_status dev p True st) } })"

definition get_virtual_membar_address :: "PCI_BAR \<Rightarrow> u64" where
  "get_virtual_membar_address bar = ucast (push_bit 4 (mem_BaseAddress bar)) + VIRTUAL_OFFSET_MMIO"

definition get_physical_membar_address :: "PCI_BAR \<Rightarrow> u64" where
  "get_physical_membar_address bar = ucast (push_bit 4 (mem_BaseAddress bar))"

text \<open>The registers take 0x100 bytes and 32 ports of 0x80 bytes. The ready ports are kept by their index; their
  number is the length of the list.\<close>

definition find_ready_ports :: "(ahci_state \<Rightarrow> ahci_state) \<Rightarrow> PCI_BAR \<Rightarrow> nat list \<Rightarrow> ahci_state \<Rightarrow>
    (bool \<times> nat list \<times> ahci_state) option" where
  "find_ready_ports dev BAR_IDX_5 outReadyPorts st = do {
     (success, pg) \<leftarrow> map_pages (get_virtual_membar_address BAR_IDX_5) (get_physical_membar_address BAR_IDX_5)
       PAGE_FLAG_WRITE_NO_CACHE 4352 (paging st);
     let st = st\<lparr>paging := pg\<rparr>;
     if \<not> success then Some (False, outReadyPorts, st)
     else do {
       (out, st) \<leftarrow> for_range (\<lambda>i (out, st).
         if PI st AND push_bit i 1 = 0 then Some (out, st)
         else do {
           (ok, st) \<leftarrow> preparePort dev i st;
           if \<not> ok then Some (out, st)
           else if SIG (ports st i) \<noteq> 0x00000101 then Some (out, st)
           else Some (out @ [i], st) }) 0 32 (outReadyPorts, st);
       Some (length out > 0, out, st) } }"

text \<open>\<open>init_ahci\<close> finds the controller and keeps its fifth base address register.\<close>

definition init_ahci :: "PCI_Device list \<Rightarrow> nat \<Rightarrow> (bool \<times> PCI_BAR option) option" where
  "init_ahci found PCIDeviceAmount = do {
     c \<leftarrow> find_ahci_controller found PCIDeviceAmount;
     (case c of None \<Rightarrow> Some (False, None)
      | Some d \<Rightarrow> do { bar \<leftarrow> rd (BAR d) 5; Some (True, Some bar) }) }"

end
