(* ===== verification/AhciSpec.thy ===== *)
theory AhciSpec
  imports Ahci Fat32Spec PMM
begin

text \<open>
  Reading from the disk through the driver: what the controller is assumed to do with a
  read command, and that the driver builds the command so that the caller's buffer holds
  the sectors. The frames of a command are never given back.
\<close>

unbundle bit_operations_syntax

section \<open>Waiting\<close>

lemma await_done:
  assumes "\<forall>j < k. busy ((dev ^^ j) st)" and "\<not> busy ((dev ^^ k) st)" and "k < n"
  shows "await busy dev n st = (True, (dev ^^ k) st)"
  using assms
proof (induction n arbitrary: st k)
  case (Suc n)
  show ?case
  proof (cases k)
    case 0
    with Suc.prems(2) show ?thesis by simp
  next
    case (Suc j)
    have b: "busy st" using Suc.prems(1) Suc by (auto dest: spec[of _ 0])
    have "\<forall>i < j. busy ((dev ^^ i) (dev st))"
    proof (intro allI impI)
      fix i assume "i < j"
      then have "busy ((dev ^^ Suc i) st)" using Suc.prems(1) Suc by blast
      then show "busy ((dev ^^ i) (dev st))" by (simp add: funpow_swap1)
    qed
    moreover have "\<not> busy ((dev ^^ j) (dev st))" using Suc.prems(2) Suc by (simp add: funpow_swap1)
    moreover have "j < n" using Suc.prems(3) Suc by simp
    ultimately have "await busy dev n (dev st) = (True, (dev ^^ j) (dev st))" by (rule Suc.IH)
    with b \<open>j < n\<close> Suc show ?thesis by (simp add: Let_def funpow_swap1)
  qed
qed simp

text \<open>The waits end: with a controller that never gets ready they give up after their last round.\<close>

lemma await_timeout:
  assumes "\<forall>j < n. busy ((dev ^^ j) st)"
  shows "await busy dev n st = (False, (dev ^^ n) st)"
  using assms
proof (induction n arbitrary: st)
  case (Suc n)
  have b: "busy st" using Suc.prems by (auto dest: spec[of _ 0])
  have "\<forall>i < n. busy ((dev ^^ i) (dev st))"
  proof (intro allI impI)
    fix i assume "i < n"
    then have "busy ((dev ^^ Suc i) st)" using Suc.prems by blast
    then show "busy ((dev ^^ i) (dev st))" by (simp add: funpow_swap1)
  qed
  from Suc.IH[OF this] b show ?case by (cases n) (simp_all add: Let_def funpow_swap1)
qed simp

section \<open>What the controller does\<close>

definition fis_lba :: "H2D_Register_FIS \<Rightarrow> u64" where
  "fis_lba f = ucast (LBA0 f) OR push_bit 8 (ucast (LBA1 f)) OR push_bit 16 (ucast (LBA2 f)) OR
     push_bit 24 (ucast (LBA3 f)) OR push_bit 32 (ucast (LBA4 f)) OR push_bit 40 (ucast (LBA5 f))"

definition fis_count :: "H2D_Register_FIS \<Rightarrow> nat" where
  "fis_count f = unat (CountLow f) + 256 * unat (CountHigh f)"

text \<open>The command in slot 0 of a port, and whether it is a well-formed read.\<close>

definition slot_header :: "nat \<Rightarrow> ahci_state \<Rightarrow> AHCI_Command_Header" where
  "slot_header p st = cmd_headers st (ucast (CLB (ports st p)))"

definition slot_table :: "nat \<Rightarrow> ahci_state \<Rightarrow> AHCI_Command_Table" where
  "slot_table p st = cmd_tables st (ucast (CTBA (slot_header p st)))"

definition read_command :: "nat \<Rightarrow> ahci_state \<Rightarrow> bool" where
  "read_command p st \<longleftrightarrow> CI (ports st p) AND 1 \<noteq> 0 \<and>
     (let h = slot_header p st; f = CFIS (slot_table p st); d = PRDT (slot_table p st)
      in \<not> hdr_W h \<and> PRDTL h = 1 \<and> CTBAU h = 0 \<and> CFL h = 5 \<and>
         FISType f = 0x27 \<and> fis_C f = 1 \<and> fis_Command f = READ_DMA_EXT \<and> fis_Device f = 0x40 \<and>
         DBAU d = 0 \<and> unat (DBC d) + 1 = 512 * fis_count f)"

text \<open>After such a read the sectors are in the buffer of the region descriptor and the slot is free.\<close>

definition read_done :: "disk \<Rightarrow> nat \<Rightarrow> ahci_state \<Rightarrow> ahci_state" where
  "read_done disk p st =
     (let f = CFIS (slot_table p st); d = PRDT (slot_table p st)
      in upd_port p (\<lambda>r. r\<lparr>CI := 0\<rparr>)
           (st\<lparr>phys := write_bytes (unat (DBA d)) (sectors disk (fis_lba f) (fis_count f)) (phys st)\<rparr>))"

text \<open>The assumption on the controller: it completes a well-formed read within the driver's patience.\<close>

definition serves_reads :: "disk \<Rightarrow> nat \<Rightarrow> (ahci_state \<Rightarrow> ahci_state) \<Rightarrow> bool" where
  "serves_reads disk p dev \<longleftrightarrow> (\<forall>st. read_command p st \<longrightarrow>
     (\<exists>k < 3000. (\<forall>j < k. CI (ports ((dev ^^ j) st) p) AND 1 \<noteq> 0) \<and> (dev ^^ k) st = read_done disk p st))"

text \<open>A controller that is done after the first wait.\<close>

definition sample_device :: "disk \<Rightarrow> nat \<Rightarrow> ahci_state \<Rightarrow> ahci_state" where
  "sample_device disk p st = (if read_command p st then read_done disk p st else st)"

lemma sample_device_serves: "serves_reads disk p (sample_device disk p)"
  unfolding serves_reads_def
proof (intro allI impI)
  fix st assume r: "read_command p st"
  then have "(\<forall>j < (1::nat). CI (ports ((sample_device disk p ^^ j) st) p) AND 1 \<noteq> 0) \<and> (sample_device disk p ^^ 1) st = read_done disk p st"
    by (simp add: sample_device_def read_command_def)
  then show "\<exists>k < 3000. (\<forall>j < k. CI (ports ((sample_device disk p ^^ j) st) p) AND 1 \<noteq> 0) \<and> (sample_device disk p ^^ k) st = read_done disk p st"
    by (intro exI[of _ 1]) simp
qed

lemma run_read:
  assumes "serves_reads disk p dev" and "read_command p (Start_AHCI_Command p st)"
  shows "RunCommand dev p st = (True, read_done disk p (Start_AHCI_Command p st))"
proof -
  from assms obtain k where k: "k < 3000" "\<forall>j < k. CI (ports ((dev ^^ j) (Start_AHCI_Command p st)) p) AND 1 \<noteq> 0"
    "(dev ^^ k) (Start_AHCI_Command p st) = read_done disk p (Start_AHCI_Command p st)"
    by (auto simp: serves_reads_def)
  have "CI (ports ((dev ^^ k) (Start_AHCI_Command p st)) p) AND 1 = 0" unfolding k(3) by (simp add: read_done_def Let_def upd_port_def)
  with k show ?thesis
    using await_done[of k "\<lambda>st. CI (ports st p) AND 1 \<noteq> 0" dev "Start_AHCI_Command p st" 3000]
    by (simp add: RunCommand_def Await_AHCI_Task_Finish_def)
qed

section \<open>The bytes of a command\<close>

lemma lba_bytes:
  fixes lba :: u64
  assumes "lba < 2 ^ 48"
  shows "(ucast (ucast lba :: u8) :: u64) OR push_bit 8 (ucast (ucast (drop_bit 8 lba) :: u8)) OR
    push_bit 16 (ucast (ucast (drop_bit 16 lba) :: u8)) OR push_bit 24 (ucast (ucast (drop_bit 24 lba) :: u8)) OR
    push_bit 32 (ucast (ucast (drop_bit 32 lba) :: u8)) OR push_bit 40 (ucast (ucast (drop_bit 40 lba) :: u8)) = lba" (is "?w = lba")
proof (rule bit_word_eqI)
  fix n assume n: "n < LENGTH(64)"
  have "unat lba < 2 ^ 48" using assms by (simp add: word_less_nat_alt)
  then have "lba = take_bit 48 lba" by (simp add: word_unat_eq_iff unsigned_take_bit_eq take_bit_nat_eq_self)
  then have top: "48 \<le> n \<Longrightarrow> \<not> bit lba n" by (metis bit_take_bit_iff not_le)
  from n consider "n < 8" | "8 \<le> n" "n < 16" | "16 \<le> n" "n < 24" | "24 \<le> n" "n < 32" | "32 \<le> n" "n < 40" | "40 \<le> n" "n < 48" | "48 \<le> n" "n < 64"
    by fastforce
  then show "bit ?w n = bit lba n" by cases (use top in \<open>auto simp: bit_simps\<close>)
qed

lemma count_bytes: "unat (ucast (q :: u16) :: u8) + 256 * unat (ucast (drop_bit 8 q) :: u8) = unat q"
proof -
  have "unat (ucast q :: u8) = unat q mod 256" by (simp add: unsigned_ucast_eq take_bit_eq_mod)
  moreover have "unat (drop_bit 8 q) = unat q div 256" by (simp add: unat_drop_bit_eq drop_bit_eq_div unat_div)
  moreover have "unat (ucast (drop_bit 8 q) :: u8) = unat (drop_bit 8 q) mod 256" by (simp add: unsigned_ucast_eq take_bit_eq_mod)
  moreover have "unat q div 256 < 256" using unsigned_less[of q, where ?'a = nat] by (simp add: less_mult_imp_div_less)
  ultimately show ?thesis by simp
qed

lemma data_size: "unat (ucast (q :: u16) * SECTOR_SIZE_BYTES32 :: u32) = 512 * unat q"
proof -
  have "unat q < 2 ^ 16" using unsigned_less[of q, where ?'a = nat] by simp
  then have "unat (ucast q :: u32) * unat SECTOR_SIZE_BYTES32 < 2 ^ 32"
    by (simp add: SECTOR_SIZE_BYTES32_def unsigned_ucast_eq take_bit_nat_eq_self_iff take_bit_nat_eq_self)
  then have "unat (ucast q * SECTOR_SIZE_BYTES32 :: u32) = unat (ucast q :: u32) * unat SECTOR_SIZE_BYTES32"
    using unat_mult_lem[of "ucast q :: u32" SECTOR_SIZE_BYTES32] by simp
  then show ?thesis using \<open>unat q < 2 ^ 16\<close> by (simp add: SECTOR_SIZE_BYTES32_def unsigned_ucast_eq take_bit_nat_eq_self)
qed

lemma transfer_count:
  assumes "0 < q" "q \<le> (8192 :: u16)"
  shows "unat (take_bit 22 (ucast q * SECTOR_SIZE_BYTES32 - 1 :: u32)) + 1 = 512 * unat q"
proof -
  have q: "0 < unat q" "unat q \<le> 8192" using assms by (simp_all add: word_less_nat_alt word_le_nat_alt)
  have "(1 :: u32) \<le> ucast q * SECTOR_SIZE_BYTES32" using q data_size[of q] by (simp add: word_le_nat_alt)
  then have "unat (ucast q * SECTOR_SIZE_BYTES32 - 1 :: u32) = 512 * unat q - 1" by (simp add: unat_sub data_size)
  moreover have "512 * unat q - 1 < 2 ^ 22" using q by simp
  ultimately show ?thesis using q by (simp add: unsigned_take_bit_eq take_bit_nat_eq_self)
qed

section \<open>The memory of a command\<close>

abbreviation command_frames :: "ahci_state \<Rightarrow> nat set" where
  "command_frames st \<equiv> free_pages (frames (paging st))"

text \<open>The bitmap of the frames is sound, and no frame lies above 4 GiB: the driver keeps 32 bits of an address.\<close>

definition low_frames :: "ahci_state \<Rightarrow> bool" where
  "low_frames st \<longleftrightarrow> pmm_ok (frames (paging st)) \<and> count (pmm_bitmap (frames (paging st))) \<le> 2 ^ 20"

lemma unat_widen: "unat (ucast (w :: u32) :: u64) = unat w"
proof -
  have "unat w < 2 ^ 64" using unsigned_less[of w, where ?'a = nat] by simp
  then show ?thesis by (simp add: unsigned_ucast_eq take_bit_nat_eq_self)
qed

lemma low_address:
  assumes "s < 2 ^ 20"
  shows "unat (of_nat s * PAGE_SIZE) = s * 4096" and "ucast (ucast (of_nat s * PAGE_SIZE) :: u32) = of_nat s * PAGE_SIZE"
    and "of_nat s * PAGE_SIZE \<noteq> PMM_MALLOC_FAILED"
    and "unat (ucast (of_nat s * PAGE_SIZE) :: u32) = s * 4096"
proof -
  have s: "s < 2 ^ 52" using assms by simp
  show u: "unat (of_nat s * PAGE_SIZE) = s * 4096" by (rule page_addr_unat[OF s])
  show "of_nat s * PAGE_SIZE \<noteq> PMM_MALLOC_FAILED" by (rule page_addr_not_failed[OF s])
  have lt: "s * 4096 < 2 ^ 32" using assms by simp
  then have v: "unat (ucast (of_nat s * PAGE_SIZE) :: u32) = s * 4096"
    by (simp only: unsigned_ucast_eq u) (simp add: take_bit_nat_eq_self)
  then show "unat (ucast (of_nat s * PAGE_SIZE) :: u32) = s * 4096" .
  have "unat (ucast (ucast (of_nat s * PAGE_SIZE) :: u32) :: u64) = s * 4096"
    by (simp only: unat_widen v)
  then show "ucast (ucast (of_nat s * PAGE_SIZE) :: u32) = of_nat s * PAGE_SIZE"
    by (simp only: word_unat_eq_iff u)
qed

text \<open>A first-fit allocation of \<open>pages_for bytes\<close> frames by the driver.\<close>

lemma with_frames_malloc:
  assumes "low_frames st"
  obtains (success) s f where "with_frames (pmm_malloc bytes) st = Some (of_nat s * PAGE_SIZE, st\<lparr>paging := (paging st)\<lparr>frames := f\<rparr>\<rparr>)"
      "s < 2 ^ 20" "0 < pages_for bytes" "{s ..< s + pages_for bytes} \<subseteq> command_frames st"
      "\<forall>s' < s. \<not> {s' ..< s' + pages_for bytes} \<subseteq> command_frames st"
      "pmm_ok f" "count (pmm_bitmap f) \<le> 2 ^ 20" "free_pages f = command_frames st - {s ..< s + pages_for bytes}"
    | (failure) "with_frames (pmm_malloc bytes) st = Some (PMM_MALLOC_FAILED, st)"
      "0 < pages_for bytes \<longrightarrow> (\<forall>s. \<not> {s ..< s + pages_for bytes} \<subseteq> command_frames st)"
proof -
  let ?f = "frames (paging st)"
  have ok: "pmm_ok ?f" and low: "count (pmm_bitmap ?f) \<le> 2 ^ 20" using assms by (simp_all add: low_frames_def)
  show thesis
  proof (cases rule: pmm_malloc_cases[OF ok, of bytes])
    case (1 s f)
    have "pmm_ok f \<and> free_pages f = free_pages ?f - {s ..< s + pages_for bytes} \<and> count (pmm_bitmap f) = count (pmm_bitmap ?f)"
      by (rule pmm_malloc_range_free_pages[OF ok 1(4,6)])
    with 1 low show thesis by (intro success[of s f]) (simp_all add: with_frames_def)
  next
    case 2
    then show thesis by (intro failure) (simp_all add: with_frames_def)
  qed
qed

lemma pages_of_data:
  assumes "0 < q" "q \<le> (8192 :: u16)"
  defines "n \<equiv> pages_for (ucast (ucast q * SECTOR_SIZE_BYTES32 :: u32))"
  shows "0 < n" and "512 * unat q \<le> 4096 * n" and "n \<le> 1024"
    and "pages_for (PAGE_SIZE * of_nat n) = n" and "n = (unat q + 7) div 8"
proof -
  have q: "0 < unat q" "unat q \<le> 8192" using assms(1,2) by (simp_all add: word_less_nat_alt word_le_nat_alt)
  have "unat (ucast (ucast q * SECTOR_SIZE_BYTES32 :: u32) :: u64) = 512 * unat q"
    by (simp only: unat_widen data_size)
  then have n: "n = (512 * unat q + 4096 - 1) div 4096"
    using q unfolding n_def by (subst unat_divide_round_up) simp_all
  have "(512 * unat q + 4095) div 4096 = (512 * unat q + 4095) div 512 div 8" by (simp add: div_mult2_eq[symmetric])
  then show "n = (unat q + 7) div 8" unfolding n by simp
  show "0 < n" "512 * unat q \<le> 4096 * n" "n \<le> 1024" using q unfolding n by simp_all
  then have "unat (PAGE_SIZE * of_nat n) = 4096 * n"
    by (subst unat_mult_small) (simp_all add: unat_of_nat_small)
  then show "pages_for (PAGE_SIZE * of_nat n) = n"
    using \<open>n \<le> 1024\<close> by (subst unat_divide_round_up) simp_all
qed

lemma allocate_data_buffer:
  fixes q :: u16
  assumes "low_frames st" and q: "0 < q" "q \<le> 8192"
  defines "ds \<equiv> ucast q * SECTOR_SIZE_BYTES32 :: u32" and "n \<equiv> (unat q + 7) div 8"
  obtains (success) s f m where "AllocateDataBuffer ds st = Some (of_nat s * PAGE_SIZE, st\<lparr>paging := (paging st)\<lparr>frames := f\<rparr>, phys := m\<rparr>)"
      "s < 2 ^ 20" "{s ..< s + n} \<subseteq> command_frames st" "\<forall>s' < s. \<not> {s' ..< s' + n} \<subseteq> command_frames st"
      "pmm_ok f" "count (pmm_bitmap f) \<le> 2 ^ 20" "free_pages f = command_frames st - {s ..< s + n}"
    | (failure) "AllocateDataBuffer ds st = Some (PMM_MALLOC_FAILED, st)" "\<forall>s. \<not> {s ..< s + n} \<subseteq> command_frames st"
proof -
  let ?r = "divide_round_up (ucast ds) PAGE_SIZE"
  note p = pages_of_data[OF q, folded ds_def]
  have r: "of_nat (unat ?r) = ?r" by simp
  have n: "pages_for (PAGE_SIZE * ?r) = n" using p(4,5) unfolding r n_def by simp
  have pos: "0 < n" using p(1,5) unfolding n_def by simp
  show thesis
  proof (cases rule: with_frames_malloc[OF assms(1), of "PAGE_SIZE * ?r"])
    case (1 s f)
    note f = 1[unfolded n]
    let ?a = "of_nat s * PAGE_SIZE"
    have "AllocateDataBuffer ds st =
        Some (?a, st\<lparr>paging := (paging st)\<lparr>frames := f\<rparr>, phys := filled (unat ?a) 0 (unat (PAGE_SIZE * ?r)) (phys st)\<rparr>)"
      unfolding AllocateDataBuffer_def pmm_malloc_pages_def Let_def f(1)
      by (simp add: low_address(3)[OF f(2)] memory_clear_def memory_fill_effect)
    from success[OF this f(2) f(4-)] show thesis .
  next
    case 2
    note f = 2[unfolded n]
    have "AllocateDataBuffer ds st = Some (PMM_MALLOC_FAILED, st)"
      unfolding AllocateDataBuffer_def pmm_malloc_pages_def Let_def f(1) by simp
    then show thesis using f(2) pos by (intro failure) simp_all
  qed
qed

lemma malloc_page_eq: "pmm_malloc_page = pmm_malloc PAGE_SIZE"
  by (simp add: fun_eq_iff pmm_malloc_page_def)

lemma allocate_command_table:
  assumes "low_frames st"
  obtains (success) s f where "AllocateCommandTable st = Some (of_nat s * PAGE_SIZE,
        st\<lparr>paging := (paging st)\<lparr>frames := f\<rparr>, cmd_tables := (cmd_tables st)(of_nat s * PAGE_SIZE := cleared_table)\<rparr>)"
      "s < 2 ^ 20" "s \<in> command_frames st" "\<forall>s' < s. s' \<notin> command_frames st"
      "pmm_ok f" "count (pmm_bitmap f) \<le> 2 ^ 20" "free_pages f = command_frames st - {s}"
    | (failure) "AllocateCommandTable st = Some (PMM_MALLOC_FAILED, st)" "command_frames st = {}"
proof (cases rule: with_frames_malloc[OF assms, of PAGE_SIZE])
  case (1 s f)
  have "AllocateCommandTable st = Some (of_nat s * PAGE_SIZE,
        st\<lparr>paging := (paging st)\<lparr>frames := f\<rparr>, cmd_tables := (cmd_tables st)(of_nat s * PAGE_SIZE := cleared_table)\<rparr>)"
    unfolding AllocateCommandTable_def malloc_page_eq 1(1) by (simp add: low_address(3)[OF 1(2)])
  with 1(2-) show thesis by (intro success) (simp_all add: pages_for_page)
next
  case 2
  have "AllocateCommandTable st = Some (PMM_MALLOC_FAILED, st)"
    unfolding AllocateCommandTable_def malloc_page_eq 2(1) by simp
  moreover have "command_frames st = {}" using 2(2) by (auto simp: pages_for_page)
  ultimately show thesis by (rule failure)
qed

section \<open>The read command\<close>

definition built_read :: "nat \<Rightarrow> u64 \<Rightarrow> u64 \<Rightarrow> u64 \<Rightarrow> u16 \<Rightarrow> ahci_state \<Rightarrow> ahci_state" where
  "built_read p t d lba q st = Start_AHCI_Command p (set_ahci_prdt t d (ucast q * SECTOR_SIZE_BYTES32)
     (Fill_Sector_Quantity t q (Fill_LBA_Address t lba (BuildCommand t READ_DMA_EXT (SetCommandHeader p t False st)))))"

lemma or_one_and_one: "(c OR 1) AND 1 \<noteq> (0 :: u32)"
proof -
  have "bit ((c OR 1) AND 1) 0" by (simp add: bit_simps)
  then show ?thesis by auto
qed

lemma built_read_slot:
  assumes "ucast (ucast t :: u32) = t"
  shows "slot_header p (built_read p t d lba q st) = \<lparr>CFL = 5, hdr_W = False, PRDTL = 1, CTBA = ucast t, CTBAU = 0\<rparr>"
    and "CFIS (slot_table p (built_read p t d lba q st)) = \<lparr>FISType = 0x27, fis_C = 1, fis_Command = READ_DMA_EXT,
      LBA0 = ucast lba, LBA1 = ucast (drop_bit 8 lba), LBA2 = ucast (drop_bit 16 lba), fis_Device = 0x40,
      LBA3 = ucast (drop_bit 24 lba), LBA4 = ucast (drop_bit 32 lba), LBA5 = ucast (drop_bit 40 lba),
      CountLow = ucast q, CountHigh = ucast (drop_bit 8 q)\<rparr>"
    and "PRDT (slot_table p (built_read p t d lba q st)) =
      \<lparr>DBA = ucast d, DBAU = 0, DBC = take_bit 22 (ucast q * SECTOR_SIZE_BYTES32 - 1)\<rparr>"
    and "CI (ports (built_read p t d lba q st) p) AND 1 \<noteq> 0"
    and "phys (built_read p t d lba q st) = phys st" and "paging (built_read p t d lba q st) = paging st"
  using assms or_one_and_one
  by (simp_all add: built_read_def slot_header_def slot_table_def Start_AHCI_Command_def set_ahci_prdt_def Fill_Sector_Quantity_def
    Fill_LBA_Address_def BuildCommand_def SetCommandHeader_def upd_table_def upd_port_def)

lemma built_read_runs:
  assumes dev: "serves_reads disk p dev" and t: "ucast (ucast t :: u32) = t"
    and q: "0 < q" "q \<le> 8192" and lba: "lba < 2 ^ 48"
  shows "RunCommand dev p (set_ahci_prdt t d (ucast q * SECTOR_SIZE_BYTES32)
     (Fill_Sector_Quantity t q (Fill_LBA_Address t lba (BuildCommand t READ_DMA_EXT (SetCommandHeader p t False st))))) =
    (True, upd_port p (\<lambda>r. r\<lparr>CI := 0\<rparr>) ((built_read p t d lba q st)
      \<lparr>phys := write_bytes (unat (ucast d :: u32)) (sectors disk lba (unat q)) (phys st)\<rparr>))"
proof -
  note b = built_read_slot[OF t, of p d lba q st]
  have c: "fis_count (CFIS (slot_table p (built_read p t d lba q st))) = unat q"
    unfolding b(2) fis_count_def by (simp add: count_bytes)
  have l: "fis_lba (CFIS (slot_table p (built_read p t d lba q st))) = lba"
    unfolding b(2) fis_lba_def using lba_bytes[OF lba] by simp
  have "read_command p (built_read p t d lba q st)"
    unfolding read_command_def Let_def c unfolding b(1,2,3) using b(4) transfer_count[OF q] by simp
  with run_read[OF dev] show ?thesis unfolding built_read_def[symmetric] read_done_def Let_def c l unfolding b(3)
    by (simp add: built_read_def[symmetric] b(5) read_done_def c l b(3))
qed

lemma map_written:
  "length bs = n \<Longrightarrow> map (write_bytes a bs m) [a ..< a + n] = bs"
  by (rule nth_equalityI) (simp_all add: write_bytes_apply)

lemma length_read: "disk_ok disk \<Longrightarrow> length (sectors disk lba (unat q)) = unat (ucast (q :: u16) * SECTOR_SIZE_BYTES32 :: u32)"
  by (simp only: length_sectors data_size)

text \<open>The two allocations of a read: a run of one frame more than the data needs is enough.\<close>

lemma read_allocations:
  fixes q :: u16
  assumes ok: "low_frames st" and q: "0 < q" "q \<le> 8192"
    and run: "{r ..< r + ((unat q + 7) div 8 + 1)} \<subseteq> command_frames st"
  obtains t d st' where "AllocateCommandTable st = Some (of_nat t * PAGE_SIZE, st')" "t < 2 ^ 20"
    and "\<exists>f m. AllocateDataBuffer (ucast q * SECTOR_SIZE_BYTES32) st' =
        Some (of_nat d * PAGE_SIZE, st'\<lparr>paging := (paging st')\<lparr>frames := f\<rparr>, phys := m\<rparr>) \<and>
      pmm_ok f \<and> free_pages f = command_frames st - ({t} \<union> {d ..< d + (unat q + 7) div 8})"
    and "d < 2 ^ 20" and "t \<in> command_frames st" "{d ..< d + (unat q + 7) div 8} \<subseteq> command_frames st - {t}"
proof (cases rule: allocate_command_table[OF ok])
  case (1 t f)
  let ?n = "(unat q + 7) div 8"
  let ?st = "st\<lparr>paging := (paging st)\<lparr>frames := f\<rparr>, cmd_tables := (cmd_tables st)(of_nat t * PAGE_SIZE := cleared_table)\<rparr>"
  have ok': "low_frames ?st" using 1(5,6) by (simp add: low_frames_def)
  have le: "t \<le> r" using run 1(4) by (meson add_pos_nonneg atLeastLessThan_iff less_add_same_cancel1 not_le order_refl subsetD zero_less_one add.commute not_less trans_less_add2)
  have room: "{r + 1 ..< r + 1 + ?n} \<subseteq> command_frames ?st"
    using run 1(7) le by auto
  show thesis
  proof (cases rule: allocate_data_buffer[OF ok' q])
    case a: (1 d f' m)
    show thesis using a 1 by (intro that[of t ?st d]) auto
  next
    case 2
    then show thesis using room by blast
  qed
next
  case 2
  then show thesis using run by auto
qed

lemma ahci_read_effect:
  assumes ok: "low_frames st" and dev: "serves_reads disk p dev" "disk_ok disk"
    and q: "0 < q" "q \<le> 8192" and lba: "lba < 2 ^ 48" and size: "512 * unat q \<le> length out"
    and run: "{r ..< r + ((unat q + 7) div 8 + 1)} \<subseteq> free_pages (frames (paging st))"
  shows "\<exists>st' lost. AHCI_READ_DMA_EXT dev p lba q out st = Some (sectors disk lba (unat q) @ drop (512 * unat q) out, st') \<and>
    pmm_ok (frames (paging st')) \<and> free_pages (frames (paging st')) = free_pages (frames (paging st)) - lost \<and>
    lost \<subseteq> free_pages (frames (paging st)) \<and> card lost = (unat q + 7) div 8 + 1"
proof -
  let ?n = "(unat q + 7) div 8" and ?ds = "ucast q * SECTOR_SIZE_BYTES32 :: u32"
  from read_allocations[OF ok q run] obtain t d st' f m where
    t: "AllocateCommandTable st = Some (of_nat t * PAGE_SIZE, st')" "t < 2 ^ 20" "t \<in> command_frames st"
    and d: "AllocateDataBuffer ?ds st' = Some (of_nat d * PAGE_SIZE, st'\<lparr>paging := (paging st')\<lparr>frames := f\<rparr>, phys := m\<rparr>)"
      "d < 2 ^ 20" "{d ..< d + ?n} \<subseteq> command_frames st - {t}"
    and f: "pmm_ok f" "free_pages f = command_frames st - ({t} \<union> {d ..< d + ?n})"
    by metis
  let ?st = "st'\<lparr>paging := (paging st')\<lparr>frames := f\<rparr>, phys := m\<rparr>" and ?bs = "sectors disk lba (unat q)"
  let ?b = "built_read p (of_nat t * PAGE_SIZE) (of_nat d * PAGE_SIZE) lba q ?st"
  let ?fin = "upd_port p (\<lambda>r. r\<lparr>CI := 0\<rparr>) (?b\<lparr>phys := write_bytes (d * 4096) ?bs m\<rparr>)"
  note runs = built_read_runs[OF dev(1) low_address(2)[OF t(2)] q lba, of "of_nat d * PAGE_SIZE" ?st, unfolded low_address(4)[OF d(2)]]
  have "AHCI_READ_DMA_EXT dev p lba q out st = Some (map (phys ?fin) [d * 4096 ..< d * 4096 + unat ?ds] @ drop (unat ?ds) out, ?fin)"
    unfolding AHCI_READ_DMA_EXT_def t(1) using runs d(1) size low_address(3)[OF t(2)] low_address(3)[OF d(2)] low_address(1)[OF d(2)]
    by (simp add: data_size)
  moreover have "map (phys ?fin) [d * 4096 ..< d * 4096 + unat ?ds] = ?bs"
    using map_written[OF length_read[OF dev(2)]] by (simp add: upd_port_def)
  moreover have "paging ?fin = (paging st')\<lparr>frames := f\<rparr>" by (simp add: upd_port_def built_read_slot(6)[OF low_address(2)[OF t(2)]])
  moreover have "card ({t} \<union> {d ..< d + ?n}) = ?n + 1" using d(3) by (subst card_Un_disjoint) auto
  ultimately show ?thesis using f t(3) d(3)
    by (intro exI[of _ ?fin] exI[of _ "{t} \<union> {d ..< d + ?n}"]) (auto simp: data_size)
qed

end
