(* ===== verification/PMMProps.thy ===== *)
theory PMMProps
  imports PMM Bytes
begin

text \<open>
  The properties of the lowest layer: the physical memory manager from its set up
  out of the boot loader's memory map to allocation, release and its counters,
  the alignment helpers, and the byte copying routines of the runtime.
\<close>

section \<open>A small machine\<close>

text \<open>Eight frames, the first two in use, and a memory map with a reserved and a usable region.\<close>

definition sample_pmm :: pmm_state where
  "sample_pmm = \<lparr>pmm_bitmap = \<lparr>bitmap = [0b00000011], count = 8\<rparr>, bitmap_addr = 0,
     memoryRegionCount = 0, totalUsableBytes = 0, highestAddress = 0\<rparr>"

definition sample_memmap :: "memmap_entry list" where
  "sample_memmap = [\<lparr>entry_base = 0, entry_length = 0x1000, entry_usable = False\<rparr>,
     \<lparr>entry_base = 0x1000, entry_length = 0x7000, entry_usable = True\<rparr>]"

lemma sample_pmm_ok: "pmm_ok sample_pmm"
  by (simp add: pmm_ok_def sample_pmm_def bitmap_wf_def)

lemma sample_pmm_free: "free_pages sample_pmm = {2 ..< 8}"
proof -
  have "map (bit_read [0b00000011]) [0..<8] = map (\<lambda>p. Some (p < 2)) [0..<8]" by code_simp
  then have b: "p < 8 \<Longrightarrow> bit_read [0b00000011] p = Some (p < 2)" for p by (simp only: map_eq_conv set_upt) simp
  show ?thesis by (auto simp: free_pages_def page_free_def sample_pmm_def b)
qed

lemma sample_pmm_malloc: "map_option fst (pmm_malloc 8192 sample_pmm) = Some 8192"
  by code_simp

section \<open>Allocation and release\<close>

text \<open>C30. \<open>pmm_malloc\<close> is first fit on page frames: it never faults, it returns the address of the lowest
  run of free frames that holds the bytes and takes exactly that run, and it fails, without a change,
  only when there is no such run.\<close>

theorem pmm_malloc_first_fit:
  assumes "pmm_ok st"
  shows "\<exists>addr st'. pmm_malloc bytes st = Some (addr, st') \<and> pmm_ok st' \<and>
    (if addr = PMM_MALLOC_FAILED
     then st' = st \<and> (0 < pages_for bytes \<longrightarrow> (\<forall>s. \<not> {s ..< s + pages_for bytes} \<subseteq> free_pages st))
     else \<exists>s. addr = of_nat s * PAGE_SIZE \<and> unat addr = s * 4096 \<and>
       {s ..< s + pages_for bytes} \<subseteq> free_pages st \<and>
       (\<forall>s' < s. \<not> {s' ..< s' + pages_for bytes} \<subseteq> free_pages st) \<and>
       free_pages st' = free_pages st - {s ..< s + pages_for bytes})"
  using assms
proof (cases rule: pmm_malloc_cases[where bytes = bytes])
  case (success s st')
  have s: "s < 2 ^ 52" using success(4) assms by (simp add: pmm_ok_def)
  from pmm_malloc_range_free_pages[OF assms success(4,6)] show ?thesis
    using success page_addr_not_failed[OF s] page_addr_unat[OF s]
    by (intro exI[of _ "of_nat s * PAGE_SIZE"] exI[of _ st']) auto
next
  case failure
  with assms show ?thesis by (intro exI[of _ PMM_MALLOC_FAILED] exI[of _ st]) simp
qed

lemma pmm_malloc_first_fit_witness:
  "\<exists>addr st'. pmm_malloc 8192 sample_pmm = Some (addr, st') \<and> pmm_ok st' \<and> addr = 8192"
  using pmm_malloc_first_fit[OF sample_pmm_ok, of 8192] sample_pmm_malloc by auto

text \<open>C31. \<open>pmm_free\<close> of what \<open>pmm_malloc\<close> returned gives back the state before, byte for byte.\<close>

theorem pmm_malloc_free_inverse:
  assumes ok: "pmm_ok st" and m: "pmm_malloc bytes st = Some (addr, st')" and a: "addr \<noteq> PMM_MALLOC_FAILED"
  shows "pmm_free addr bytes st' = Some (True, st)"
  using ok
proof (cases rule: pmm_malloc_cases[where bytes = bytes])
  case failure
  with m a show ?thesis by simp
next
  case (success s st1)
  let ?n = "pages_for bytes"
  have st1: "st1 = st'" and addr: "addr = of_nat s * PAGE_SIZE" using success(1) m by auto
  have s52: "s < 2 ^ 52" using success(4) ok by (simp add: pmm_ok_def)
  have pg: "unat (addr div PAGE_SIZE) = s" unfolding addr by (rule page_addr_page[OF s52])
  obtain st2 where st2: "pmm_malloc_page_range s ?n st = Some (True, st2)" "pmm_ok st2"
    "st2 = st\<lparr>pmm_bitmap := pmm_bitmap st2\<rparr>" "count (pmm_bitmap st2) = count (pmm_bitmap st)"
    "length (bitmap (pmm_bitmap st2)) = length (bitmap (pmm_bitmap st))"
    "\<forall>p. bit_read (bitmap (pmm_bitmap st2)) p =
      (if s \<le> p \<and> p < s + ?n then Some True else bit_read (bitmap (pmm_bitmap st)) p)"
    using pmm_malloc_page_range_effect[OF ok success(4)] by blast
  have e: "st2 = st'" using st2(1) success(6) st1 by simp
  have "unat (addr div PAGE_SIZE) + pages_for bytes \<le> count (pmm_bitmap st')"
    using success(4) pg st2(4) e by simp
  from pmm_free_effect[OF _ this] st2(2) e obtain st3 where
    st3: "pmm_free addr bytes st' = Some (True, st3)" "st3 = st'\<lparr>pmm_bitmap := pmm_bitmap st3\<rparr>"
    "count (pmm_bitmap st3) = count (pmm_bitmap st')"
    "length (bitmap (pmm_bitmap st3)) = length (bitmap (pmm_bitmap st'))"
    "\<forall>p. bit_read (bitmap (pmm_bitmap st3)) p =
      (if s \<le> p \<and> p < s + ?n then Some False else bit_read (bitmap (pmm_bitmap st')) p)"
    unfolding pg by blast
  have fr: "bit_read (bitmap (pmm_bitmap st)) p = Some False" if "s \<le> p" "p < s + ?n" for p
    using success(3) that by (auto simp: free_pages_def page_free_def)
  have "bitmap (pmm_bitmap st3) = bitmap (pmm_bitmap st)"
    by (rule bits_of_inject) (use st3(4,5) st2(5,6) e fr in auto)
  then have "pmm_bitmap st3 = pmm_bitmap st" using st3(3) st2(4) e by (simp add: Bitmap.equality)
  with st3(1,2) st2(3) e have "st3 = st"
    by (metis pmm_state.surjective pmm_state.update_convs(1) old.unit.exhaust)
  with st3(1) show ?thesis by simp
qed

lemma pmm_malloc_free_inverse_witness:
  "\<exists>st'. pmm_malloc 8192 sample_pmm = Some (8192, st') \<and> pmm_free 8192 8192 st' = Some (True, sample_pmm)"
proof -
  obtain st' where e: "pmm_malloc 8192 sample_pmm = Some (8192, st')"
    using sample_pmm_malloc by (cases "pmm_malloc 8192 sample_pmm") auto
  have "(8192 :: u64) \<noteq> PMM_MALLOC_FAILED" by (simp add: PMM_MALLOC_FAILED_def)
  from pmm_malloc_free_inverse[OF sample_pmm_ok e this] e show ?thesis by blast
qed

section \<open>The page counters\<close>

text \<open>\<open>get_pmm_page_counts\<close> counts the free frames, and the two counters add up to all frames.\<close>

theorem page_counts:
  assumes "pmm_ok st"
  shows "\<exists>u. get_pmm_page_counts st = Some (card (free_pages st), u) \<and>
    card (free_pages st) + u = count (pmm_bitmap st)"
proof -
  let ?body = "\<lambda>i (f, u). do { used \<leftarrow> bit_read (bitmap (pmm_bitmap st)) i;
       Some (if \<not> used then (Suc f, u) else (f, Suc u)) }"
  let ?I = "\<lambda>i (f, u). f = card (free_pages st \<inter> {..< i}) \<and> f + u = i"
  have "\<exists>s'. for_loop ?body 0 (count (pmm_bitmap st)) (0, 0) = Some s' \<and> ?I (0 + count (pmm_bitmap st)) s'"
  proof (rule for_loop_rule[where I = ?I])
    fix i s assume i: "i < 0 + count (pmm_bitmap st)" and I: "?I i s"
    obtain f u where s: "s = (f, u)" by (cases s)
    obtain v where v: "bit_read (bitmap (pmm_bitmap st)) i = Some v"
      using bit_read_wf[of "pmm_bitmap st" i] assms i by (auto simp: pmm_ok_def)
    have "free_pages st \<inter> {..< Suc i} =
        (if v then free_pages st \<inter> {..< i} else insert i (free_pages st \<inter> {..< i}))"
      using v i by (auto simp: free_pages_def page_free_def less_Suc_eq)
    with s v I show "\<exists>s'. ?body i s = Some s' \<and> ?I (Suc i) s'" by auto
  qed simp
  moreover have "free_pages st \<inter> {..< count (pmm_bitmap st)} = free_pages st"
    by (auto simp: free_pages_def page_free_def)
  ultimately show ?thesis by (auto simp: get_pmm_page_counts_def)
qed

lemma page_counts_witness: "\<exists>u. get_pmm_page_counts sample_pmm = Some (6, u) \<and> 6 + u = 8"
  using page_counts[OF sample_pmm_ok] by (simp add: sample_pmm_free) (simp add: sample_pmm_def)

section \<open>Initialisation\<close>

lemma memory_init_pmm_effect:
  assumes mm: "memmap_ok memmap" and e: "e \<in> set memmap" "entry_usable e"
    and room: "bitmap_bytes memmap \<le> unat (entry_length e)"
  shows "\<exists>st b. memory_init_pmm hhdm memmap = Some st \<and> pmm_ok st \<and>
    count (pmm_bitmap st) = top_address memmap div 4096 \<and>
    b \<in> set memmap \<and> entry_usable b \<and> bitmap_addr st = entry_base b + hhdm \<and>
    bitmap_frames memmap b \<subseteq> entry_pages b \<and>
    free_pages st = usable_pages memmap - bitmap_frames memmap b"
proof -
  let ?cnt = "top_address memmap div 4096"
  obtain s1 where s1: "get_memory_regions memmap (get_memory_region_count memmap pmm_initial) = Some s1"
    "memoryRegionCount s1 = length memmap" "unat (highestAddress s1) = top_address memmap"
    using get_memory_regions_highest[OF mm, of "get_memory_region_count memmap pmm_initial"]
    by (auto simp: get_memory_region_count_def pmm_initial_def)
  have cnt: "unat (highestAddress s1 div PAGE_SIZE) = ?cnt" by (simp add: unat_div_distrib s1(3))
  have top: "top_address memmap < 2 ^ 64" using s1(3) unsigned_less[where w = "highestAddress s1", where ?'a = nat] by simp
  then have c52: "?cnt < 2 ^ 52" by simp
  define req where "req = divide_round_up (of_nat ?cnt) 8"
  have ucnt: "unat (of_nat ?cnt :: u64) = ?cnt" using c52 by (simp add: unat_of_nat_small)
  have ureq: "unat req = bitmap_bytes memmap"
    unfolding req_def bitmap_bytes_def using c52 ucnt by (subst unat_divide_round_up) simp_all
  have "req \<le> entry_length e" using room by (simp add: word_le_nat_alt ureq)
  from find_bitmap_region[OF e this] obtain b where b: "b \<in> set memmap" "entry_usable b" "req \<le> entry_length b"
    and found: "for_until (\<lambda>i (_ :: unit). do {
         entry \<leftarrow> rd memmap i;
         Some (if entry_usable entry \<and> req \<le> entry_length entry then Inl (entry_base entry) else Inr ()) })
       0 (length memmap) () = Some (Inl (entry_base b))" by blast
  define s2 where "s2 = s1\<lparr>pmm_bitmap := \<lparr>bitmap = replicate (unat req) 0xFF, count = ?cnt\<rparr>,
    bitmap_addr := entry_base b + hhdm\<rparr>"
  have wf: "?cnt \<le> 8 * bitmap_bytes memmap" unfolding bitmap_bytes_def by linarith
  have ok2: "pmm_ok s2" using wf c52 by (simp add: pmm_ok_def bitmap_wf_def s2_def ureq)
  have "memoryRegionCount s2 = length memmap" "count (pmm_bitmap s2) = ?cnt" using s1(2) by (simp_all add: s2_def)
  from init_bitmap_data_free[OF mm this(1) ok2 this(2)] this(2) obtain s3 where
    s3: "init_bitmap_data memmap s2 = Some s3" "pmm_ok s3" "free_pages s3 = usable_pages memmap"
    "count (pmm_bitmap s3) = ?cnt" "bitmap_addr s3 = entry_base b + hhdm"
    by (auto simp: s2_def no_free_page_filled)
  let ?page = "unat (entry_base b) div 4096" and ?n = "(bitmap_bytes memmap + 4095) div 4096"
  have pg: "unat (entry_base b div PAGE_SIZE) = ?page" by (simp add: unat_div_distrib)
  have "unat req + unat PAGE_SIZE \<le> 2 ^ 64" using c52 by (simp add: ureq bitmap_bytes_def)
  then have n: "pages_for req = ?n" by (subst unat_divide_round_up) (simp_all add: ureq)
  have bb: "bitmap_bytes memmap \<le> unat (entry_length b)" using b(3) by (simp add: word_le_nat_alt ureq)
  have al: "unat (entry_base b) mod 4096 = 0" "unat (entry_length b) mod 4096 = 0"
    using mm b(1,2) by (auto simp: memmap_ok_def)
  have fit: "?page + ?n \<le> entry_end b div 4096"
  proof -
    from al obtain B L where B: "unat (entry_base b) = 4096 * B" and L: "unat (entry_length b) = 4096 * L"
      by (auto elim!: dvdE dest!: mod_0_imp_dvd)
    have "?n \<le> L" using ceil_div_bound[of 4096 "bitmap_bytes memmap" L] bb L by simp
    then show ?thesis by (simp add: B L entry_end_def)
  qed
  have "entry_end b div 4096 \<le> ?cnt" using top_address_ge[OF b(1,2)] by (rule div_le_mono)
  with fit have "?page + ?n \<le> count (pmm_bitmap s3)" using s3(4) by simp
  from pmm_malloc_page_range_effect[OF s3(2) this] pmm_malloc_range_free_pages[OF s3(2) this]
  obtain s4 where s4: "pmm_malloc_page_range ?page ?n s3 = Some (True, s4)" "pmm_ok s4"
    "s4 = s3\<lparr>pmm_bitmap := pmm_bitmap s4\<rparr>" "count (pmm_bitmap s4) = ?cnt"
    "free_pages s4 = usable_pages memmap - {?page ..< ?page + ?n}"
    using s3(3,4) by auto
  have rq: "divide_round_up (highestAddress s1 div PAGE_SIZE) 8 = req"
    unfolding req_def cnt[symmetric] by simp
  have "memory_init_pmm hhdm memmap = Some s4"
    using found s3(1) s4(1) s1(2)
    by (simp add: memory_init_pmm_def s1(1) get_free_location_for_bitmap_def cnt pg n Let_def
        rq s2_def[symmetric])
  moreover have "bitmap_addr s4 = entry_base b + hhdm" by (subst s4(3)) (simp add: s3(5))
  moreover have "bitmap_frames memmap b \<subseteq> entry_pages b"
    using fit b(2) by (auto simp: bitmap_frames_def entry_pages_def)
  moreover have "free_pages s4 = usable_pages memmap - bitmap_frames memmap b"
    using s4(5) by (simp only: bitmap_frames_def)
  ultimately show ?thesis using s4(2,4) b(1,2) by (intro exI[of _ s4] exI[of _ b] conjI)
qed

text \<open>C32. When a usable region of the memory map has room for the bitmap, initialisation ends in a
  consistent state whose free frames are exactly the frames of the usable regions, without the
  frames the bitmap itself occupies in one of them.\<close>

theorem pmm_init_state:
  assumes mm: "memmap_ok memmap" and e: "e \<in> set memmap" "entry_usable e"
    and room: "bitmap_bytes memmap \<le> unat (entry_length e)"
  shows "\<exists>st b. memory_init_pmm hhdm memmap = Some st \<and> pmm_ok st \<and>
    count (pmm_bitmap st) = top_address memmap div 4096 \<and>
    b \<in> set memmap \<and> entry_usable b \<and> bitmap_addr st = entry_base b + hhdm \<and>
    bitmap_frames memmap b \<subseteq> entry_pages b \<and>
    free_pages st = usable_pages memmap - bitmap_frames memmap b"
  by (rule memory_init_pmm_effect[OF assms])

lemma pmm_init_state_witness:
  "\<exists>st. memory_init_pmm 0xFFFF800000000000 sample_memmap = Some st \<and> pmm_ok st"
proof -
  have mm: "memmap_ok sample_memmap" by (auto simp: memmap_ok_def sample_memmap_def)
  have e: "sample_memmap ! 1 \<in> set sample_memmap" "entry_usable (sample_memmap ! 1)"
    by (simp_all add: sample_memmap_def)
  have "bitmap_bytes sample_memmap \<le> unat (entry_length (sample_memmap ! 1))"
    by (simp add: bitmap_bytes_def top_address_def sample_memmap_def entry_end_def)
  from pmm_init_state[OF mm e this] show ?thesis by blast
qed

section \<open>Alignment\<close>

text \<open>Within the address space, \<open>align_up\<close> and \<open>align_down\<close> give the nearest multiples of the alignment
  on the two sides of an address.\<close>

theorem align_nearest:
  assumes "align \<noteq> 0" and "unat addr + unat align \<le> 2 ^ 64"
  shows "unat align dvd unat (align_down addr align) \<and> unat align dvd unat (align_up addr align) \<and>
    unat (align_down addr align) \<le> unat addr \<and> unat addr \<le> unat (align_up addr align) \<and>
    (\<forall>k. unat align dvd k \<longrightarrow> (k \<le> unat addr \<longrightarrow> k \<le> unat (align_down addr align)) \<and>
      (unat addr \<le> k \<longrightarrow> unat (align_up addr align) \<le> k))"
proof (intro conjI allI impI)
  have k: "0 < unat align" using assms(1) by (simp add: unat_gt_0)
  have d: "unat (align_down addr align) = unat addr div unat align * unat align"
    by (simp add: unat_align_down[OF assms(1)] minus_mod_eq_div_mult)
  note u = unat_align_up[OF assms]
  show "unat align dvd unat (align_down addr align)" "unat align dvd unat (align_up addr align)"
    by (simp_all only: d u dvd_triv_right)
  show "unat (align_down addr align) \<le> unat addr" by (simp only: d div_times_less_eq_dividend)
  show "unat addr \<le> unat (align_up addr align)" unfolding u by (rule ceil_div_least[OF k])
  show "k \<le> unat (align_down addr align)" if "unat align dvd k" "k \<le> unat addr" for k
    using that k unfolding d by (auto elim!: dvdE simp: mult.commute less_eq_div_iff_mult_less_eq)
  show "unat (align_up addr align) \<le> k" if "unat align dvd k" "unat addr \<le> k" for k
    using that ceil_div_bound[OF k] unfolding u by (auto elim!: dvdE simp: mult.commute)
qed

lemma align_nearest_witness: "unat (4096 :: u64) dvd unat (align_up 5000 4096) \<and> 5000 \<le> unat (align_up 5000 4096)"
  using align_nearest[of 4096 5000] by simp

section \<open>Copying bytes\<close>

text \<open>\<open>memcpy\<close> copies exactly \<open>n\<close> bytes, when the target does not start inside the source.\<close>

theorem libc_memcpy_correct:
  assumes "dest \<le> src \<or> src + n \<le> dest"
  shows "\<exists>m'. libc_memcpy dest src n m = Some (dest, m') \<and>
    (\<forall>i < n. m' (dest + i) = m (src + i)) \<and> (\<forall>x. x < dest \<or> dest + n \<le> x \<longrightarrow> m' x = m x)"
  using memory_copy_effect[OF assms] by (auto simp: libc_memcpy_def copied_def)

lemma libc_memcpy_correct_witness:
  "\<exists>m'. libc_memcpy 100 0 13 (\<lambda>a. of_nat a) = Some (100, m') \<and> m' 112 = 12"
proof -
  from libc_memcpy_correct[of 100 0 13 "\<lambda>a. of_nat a"] obtain m' where
    "libc_memcpy 100 0 13 (\<lambda>a. of_nat a) = Some (100, m')" "\<forall>i < 13. m' (100 + i) = of_nat (0 + i)" by auto
  from this(1) spec[OF this(2), of 12] show ?thesis by auto
qed

text \<open>\<open>memmove\<close> is the forward copy, so a target that starts inside the source is not moved: shifting
  two bytes up by one address stores the first of them twice.\<close>

theorem libc_memmove_overlap:
  "\<exists>m'. libc_memmove (a + 1) a 2 m = Some (a + 1, m') \<and> m' (a + 1) = m a \<and> m' (a + 2) = m a"
  by (simp add: libc_memmove_def memory_copy_def numeral_2_eq_2)

end
