(* ===== verification/AhciProps.thy ===== *)
theory AhciProps
  imports AhciSpec PMMProps
begin

text \<open>
  The properties of the disk driver: a read delivers the sectors, and what happens
  when the memory for a command is missing.
\<close>

section \<open>Reading\<close>


definition sample_disk :: disk where
  "sample_disk lba = replicate 512 (ucast lba)"

definition sample_ahci :: ahci_state where
  "sample_ahci = \<lparr>paging = \<lparr>pt_mem = (\<lambda>_. empty_entry), cr3 = 0, invalidated = [], frames = sample_pmm\<rparr>, PI = 1,
     ports = (\<lambda>_. \<lparr>CLB = 0x9000, CLBU = 0, FB = 0xA000, FBU = 0, CMD = \<lparr>ST = True, FRE = True, FR = True, CR = True\<rparr>,
       TFD_STS = \<lparr>BSY = False, DRDY = True\<rparr>, SIG = 0x101, SSTS_SPD = 3, CI = 0\<rparr>),
     cmd_headers = (\<lambda>_. cleared_header), cmd_tables = (\<lambda>_. cleared_table), phys = (\<lambda>_. 0)\<rparr>"

lemma sample_ahci_ok: "low_frames sample_ahci" "free_pages (frames (paging sample_ahci)) = {2 ..< 8}"
  using sample_pmm_ok by (simp_all add: low_frames_def sample_ahci_def sample_pmm_free) (simp add: sample_pmm_def)


section \<open>Missing memory\<close>

text \<open>C40. When no run of free frames holds the data, a read returns normally without touching the caller's buffer and
  without a command to the controller: a caller cannot tell it from a read that worked. The frame of the command
  table, where it was found, stays allocated.\<close>

theorem ahci_read_no_memory:
  assumes ok: "low_frames st" and q: "0 < q" "q \<le> 8192"
    and none: "\<forall>r. \<not> {r ..< r + (unat q + 7) div 8} \<subseteq> free_pages (frames (paging st))"
  shows "\<exists>st' lost. AHCI_READ_DMA_EXT dev p lba q out st = Some (out, st') \<and> phys st' = phys st \<and> ports st' = ports st \<and>
    cmd_headers st' = cmd_headers st \<and> free_pages (frames (paging st')) = free_pages (frames (paging st)) - lost \<and>
    card lost = (if free_pages (frames (paging st)) = {} then 0 else 1)"
proof (cases rule: allocate_command_table[OF ok])
  case (1 t f)
  let ?st = "st\<lparr>paging := (paging st)\<lparr>frames := f\<rparr>, cmd_tables := (cmd_tables st)(of_nat t * PAGE_SIZE := cleared_table)\<rparr>"
  have ok': "low_frames ?st" using 1(5,6) by (simp add: low_frames_def)
  show ?thesis
  proof (cases rule: allocate_data_buffer[OF ok' q])
    case 2
    have "AHCI_READ_DMA_EXT dev p lba q out st = Some (out, ?st)"
      unfolding AHCI_READ_DMA_EXT_def 1(1) by (simp add: 2(1))
    then show ?thesis using 1(3,7) by (intro exI[of _ ?st] exI[of _ "{t}"]) auto
  next
    case a: (1 d f' m)
    have "{d ..< d + (unat q + 7) div 8} \<subseteq> command_frames st" using a(3) 1(7) by auto
    with none show ?thesis by blast
  qed
next
  case 2
  have "\<exists>x. AllocateDataBuffer (ucast q * SECTOR_SIZE_BYTES32) st = Some (x, st)"
  proof (cases rule: allocate_data_buffer[OF ok q])
    case (1 d f m)
    then show ?thesis using none by blast
  qed blast
  with 2 show ?thesis by (intro exI[of _ st] exI[of _ "{}"]) (auto simp: AHCI_READ_DMA_EXT_def)
qed

lemma ahci_read_no_memory_witness:
  "\<exists>st'. AHCI_READ_DMA_EXT (\<lambda>st. st) 0 7 64 [1, 2] sample_ahci = Some ([1, 2], st') \<and> phys st' = phys sample_ahci"
proof -
  have "\<forall>r. \<not> {r ..< r + (unat (64 :: u16) + 7) div 8} \<subseteq> free_pages (frames (paging sample_ahci))"
  proof
    fix r :: nat
    have "card {r ..< r + 8} = 8" "card {2 ..< 8 :: nat} = 6" by simp_all
    then have "\<not> {r ..< r + 8} \<subseteq> {2 ..< 8}" using card_mono[of "{2 ..< 8 :: nat}" "{r ..< r + 8}"] by fastforce
    then show "\<not> {r ..< r + (unat (64 :: u16) + 7) div 8} \<subseteq> free_pages (frames (paging sample_ahci))"
      unfolding sample_ahci_ok(2) by simp
  qed
  from ahci_read_no_memory[OF sample_ahci_ok(1) _ _ this, of "\<lambda>st. st" 0 7 "[1, 2]"] show ?thesis by auto
qed

end
