(* ===== verification/StringOps.thy ===== *)
theory StringOps
  imports StringLib
begin

text \<open>
  The overloads of \<^verbatim>\<open>types/string/string.cpp\<close> for narrower integers and single characters, and
  the operators of the class \<open>String\<close> in \<^verbatim>\<open>types/string/string.h\<close>, on its field \<open>data\<close>.
\<close>

definition str_equal_char_text :: "u8 \<Rightarrow> buffer \<Rightarrow> bool option" where
  "str_equal_char_text a b = do {
     len \<leftarrow> str_length b;
     if len \<noteq> 1 then Some False else do { c \<leftarrow> rd b 0; Some (a = c) } }"

definition str_equal_chars :: "u8 \<Rightarrow> u8 \<Rightarrow> bool" where
  "str_equal_chars a b = (a = b)"

definition to_string_u32_base :: "u32 \<Rightarrow> u8 \<Rightarrow> buffer option" where
  "to_string_u32_base inputValue base = to_string (ucast inputValue) base"

definition to_string_u16_base :: "u16 \<Rightarrow> u8 \<Rightarrow> buffer option" where
  "to_string_u16_base inputValue base = to_string (ucast inputValue) base"

definition to_string_u64 :: "u64 \<Rightarrow> buffer option" where
  "to_string_u64 inputValue = to_string inputValue 10"

definition to_string_i64 :: "u64 \<Rightarrow> buffer option" where
  "to_string_i64 inputValue = to_string_signed inputValue 10"

definition to_string_i32 :: "u32 \<Rightarrow> buffer option" where
  "to_string_i32 inputValue = to_string_signed (scast inputValue) 10"

definition to_string_u32 :: "u32 \<Rightarrow> buffer option" where
  "to_string_u32 inputValue = to_string (ucast inputValue) 10"

section \<open>Operators of String\<close>

text \<open>The copy is made before the old text is freed, so assigning a string to itself is safe.\<close>

definition String_assign :: "buffer \<Rightarrow> buffer \<Rightarrow> buffer option" where
  "String_assign data b = do {
     len \<leftarrow> str_length b;
     copy \<leftarrow> malloc_str (of_nat (len + 1));
     str_copy copy b }"

definition String_append :: "buffer \<Rightarrow> buffer \<Rightarrow> buffer option" where
  "String_append data b = str_combine data b"

definition String_append_char :: "buffer \<Rightarrow> u8 \<Rightarrow> buffer option" where
  "String_append_char data b = str_combine_char data b"

definition String_equal :: "buffer \<Rightarrow> buffer \<Rightarrow> bool option" where
  "String_equal data b = str_equal data b"

definition String_equal_char :: "buffer \<Rightarrow> u8 \<Rightarrow> bool option" where
  "String_equal_char data b = str_equal_char data b"

definition String_not_equal :: "buffer \<Rightarrow> buffer \<Rightarrow> bool option" where
  "String_not_equal data b = do { e \<leftarrow> str_equal data b; Some (\<not> e) }"

definition String_not_equal_char :: "buffer \<Rightarrow> u8 \<Rightarrow> bool option" where
  "String_not_equal_char data b = do { e \<leftarrow> str_equal_char data b; Some (\<not> e) }"

end
