(* ===== verification/Filesystem.thy ===== *)
theory Filesystem
  imports Terminal InfoText Fat32
begin

text \<open>
  The current directory and the operations on it: \<^verbatim>\<open>storage/filesystem/filesystem.cpp\<close>.
  The active driver is the FAT32 driver on the disk and the context of the selected partition.
\<close>

definition MAX_PATH_LENGTH :: nat where "MAX_PATH_LENGTH = 4096"
definition MAX_PATH_DEPTH :: nat where "MAX_PATH_DEPTH = 64"

definition is_absolute_path :: "buffer \<Rightarrow> bool option" where
  "is_absolute_path path = do { c \<leftarrow> rd path 0; Some (c = ch (CHR ''/'')) }"

definition filesystem_print_working_directory :: "'a terminal_scheme \<Rightarrow> 'a terminal_scheme option" where
  "filesystem_print_working_directory st = print_text (currentPath st) White st"

definition list_entry :: "Entry \<Rightarrow> 'a screen_scheme \<Rightarrow> 'a screen_scheme option" where
  "list_entry currEntry st = do {
     st \<leftarrow> (if IsDirectory currEntry then do {
           st \<leftarrow> print_inline (Name currEntry) Yellow st;
           print_inline (lit ''/'') Yellow st }
         else print_inline (Name currEntry) White st);
     print_inline (lit ''  '') White st }"

definition filesystem_list :: "disk \<Rightarrow> FAT32_Context \<Rightarrow> 'a terminal_scheme \<Rightarrow> 'a terminal_scheme option" where
  "filesystem_list disk context st = do {
     trimmedPath \<leftarrow> str_cut_end_malloc (currentPath st) 1;
     (count, entries) \<leftarrow> get_entries disk context trimmedPath;
     if count = 0 then Some st
     else do {
       st \<leftarrow> for_range (\<lambda>i st. do { currEntry \<leftarrow> rd entries i; list_entry currEntry st }) 0 count st;
       newline st } }"

definition set_root :: "'a terminal_scheme \<Rightarrow> 'a terminal_scheme option" where
  "set_root st = do {
     p \<leftarrow> wr (currentPath st) 0 (ch (CHR ''/''));
     p \<leftarrow> wr p 1 0;
     Some (st\<lparr>currentPath := p\<rparr>) }"

definition filesystem_change_directory :: "buffer \<Rightarrow> 'a terminal_scheme \<Rightarrow> 'a terminal_scheme option" where
  "filesystem_change_directory path st = do {
     c \<leftarrow> rd path 0;
     if c = 0 then set_root st
     else do {
       absolute \<leftarrow> is_absolute_path path;
       if absolute then do { p \<leftarrow> str_copy (currentPath st) path; Some (st\<lparr>currentPath := p\<rparr>) }
       else do {
         (pathSections, splitCount) \<leftarrow> str_split path (ch (CHR ''/'')) (replicate MAX_PATH_DEPTH []);
         if splitCount = 1 then do {
           s \<leftarrow> rd pathSections 0;
           s \<leftarrow> String_construct [Chars s, Chars (lit ''/'')];
           p \<leftarrow> str_add (currentPath st) s;
           Some (st\<lparr>currentPath := p\<rparr>) }
         else Some st } } }"

text \<open>\<open>storage_ok\<close> is the result of \<open>init_storage\<close>.\<close>

definition init_filesystem :: "bool \<Rightarrow> 'a terminal_scheme \<Rightarrow> (bool \<times> 'a terminal_scheme) option" where
  "init_filesystem storage_ok st =
     (if \<not> storage_ok then Some (False, st) else do { st \<leftarrow> set_root st; Some (True, st) })"

end
