(* ===== verification/Storage.thy ===== *)
theory Storage
  imports Ahci Mbr Fat32
begin

text \<open>
  The set up of the storage: \<^verbatim>\<open>storage/storage.cpp\<close> from the ready ports of the
  controller to the file system driver of the selected partition. A port is named by its
  index. Local arrays start with what the stack holds: \<open>stack\<close> for the sector buffers and
  \<open>junk\<close> for the parsed partitions.
\<close>

record storage_device = StorageDevice +
  Port :: nat
  PortIndex :: nat
  Signature :: u32
  SpeedGen :: u8
  IdentificationInformation :: buffer

record storage_state = ahci_state +
  StorageDevices :: "storage_device list"
  StorageDeviceAmount :: nat
  selectedPartition :: "(nat \<times> nat) option"
  activeContext :: "FAT32_Context option"

definition IDENTIFY_RESPONSE_SIZE :: nat where "IDENTIFY_RESPONSE_SIZE = 208"

section \<open>The devices\<close>

text \<open>An operation of the disk driver on the state of the storage.\<close>

definition with_ahci :: "(ahci_state \<Rightarrow> ('b \<times> ahci_state) option) \<Rightarrow> storage_state \<Rightarrow> ('b \<times> storage_state) option" where
  "with_ahci run st = do {
     (r, a) \<leftarrow> run (ahci_state.truncate st);
     Some (r, ahci_state.extend a (storage_state.fields (StorageDevices st) (StorageDeviceAmount st) (selectedPartition st) (activeContext st))) }"

definition set_device :: "nat \<Rightarrow> (storage_device \<Rightarrow> storage_device) \<Rightarrow> storage_state \<Rightarrow> storage_state option" where
  "set_device i f st = do {
     d \<leftarrow> rd (StorageDevices st) i;
     ds \<leftarrow> wr (StorageDevices st) i (f d);
     Some (st\<lparr>StorageDevices := ds\<rparr>) }"

text \<open>Sector 0 of the device, read into the local buffer, and the partitions in it.\<close>

definition device_partitions :: "(ahci_state \<Rightarrow> ahci_state) \<Rightarrow> u8 list \<Rightarrow> PartitionInfo list \<Rightarrow> storage_device \<Rightarrow> ahci_state \<Rightarrow>
    ((bool \<times> storage_device) \<times> ahci_state) option" where
  "device_partitions dev stack junk d st = do {
     (buf, st) \<leftarrow> AHCI_READ_DMA_EXT dev (Port d) 0 1 stack st;
     r \<leftarrow> fill_partition_infos buf junk d;
     Some (r, st) }"

definition setup_device :: "(ahci_state \<Rightarrow> ahci_state) \<Rightarrow> u8 list \<Rightarrow> PartitionInfo list \<Rightarrow> nat list \<Rightarrow> nat \<Rightarrow> storage_state \<Rightarrow> storage_state option" where
  "setup_device dev stack junk readyPorts i st = do {
     p \<leftarrow> rd readyPorts i;
     st \<leftarrow> set_device i (\<lambda>d. d\<lparr>Port := p, PortIndex := p, Signature := SIG (ports st p),
       SpeedGen := ucast (SSTS_SPD (ports st p)), Ready := False, Identified := False\<rparr>) st;
     d \<leftarrow> rd (StorageDevices st) i;
     ((_, d), st) \<leftarrow> with_ahci (device_partitions dev stack junk d) st;
     st \<leftarrow> set_device i (\<lambda>_. d) st;
     (informations, st) \<leftarrow> with_ahci (AHCI_IDENTIFY_DEVICE dev p) st;
     st \<leftarrow> (case informations of None \<Rightarrow> Some st
       | Some b \<Rightarrow> set_device i (\<lambda>d. d\<lparr>IdentificationInformation := take IDENTIFY_RESPONSE_SIZE b, Identified := True\<rparr>) st);
     set_device i (\<lambda>d. d\<lparr>Ready := True\<rparr>) st }"

text \<open>The counter of the devices is zero before its only set up.\<close>

definition setup_storage_devices :: "(ahci_state \<Rightarrow> ahci_state) \<Rightarrow> PCI_BAR \<Rightarrow> u8 list \<Rightarrow> PartitionInfo list \<Rightarrow> storage_state \<Rightarrow> storage_state option" where
  "setup_storage_devices dev BAR_IDX_5 stack junk st = do {
     ((_, readyPorts), st) \<leftarrow> with_ahci (\<lambda>a. do { (ok, out, a) \<leftarrow> find_ready_ports dev BAR_IDX_5 [] a; Some ((ok, out), a) }) st;
     let st = st\<lparr>StorageDeviceAmount := length readyPorts\<rparr>;
     for_range (setup_device dev stack junk readyPorts) 0 (StorageDeviceAmount st) st }"

section \<open>The active file system\<close>

text \<open>The driver reads the disk of the selected device: \<open>disks\<close> gives it by the port.\<close>

definition init_storage :: "(ahci_state \<Rightarrow> ahci_state) \<Rightarrow> PCI_BAR \<Rightarrow> u8 list \<Rightarrow> PartitionInfo list \<Rightarrow> (nat \<Rightarrow> disk) \<Rightarrow> storage_state \<Rightarrow>
    (bool \<times> storage_state) option" where
  "init_storage dev BAR_IDX_5 stack junk disks st = do {
     st \<leftarrow> setup_storage_devices dev BAR_IDX_5 stack junk st;
     if StorageDeviceAmount st = 0 then Some (False, st)
     else do {
       r \<leftarrow> search_suitable_storage_partition (take (StorageDeviceAmount st) (StorageDevices st));
       (case r of
         None \<Rightarrow> Some (False, st)
       | Some (i, j) \<Rightarrow> do {
           let st = st\<lparr>selectedPartition := Some (i, j)\<rparr>;
           d \<leftarrow> rd (StorageDevices st) i;
           p \<leftarrow> rd (Partitions d) j;
           if Type p = FsFAT32 then do {
             let (context, ok) = init_fat32 (disks (Port d)) (Start_LBA p);
             Some (ok, st\<lparr>activeContext := Some context\<rparr>) }
           else Some (False, st) }) } }"

end
