(* ===== verification/MemoryInfo.thy ===== *)
theory MemoryInfo
  imports InfoText Heap PMM
begin

text \<open>
  The view of the memory: \<^verbatim>\<open>memory/infos/memory_info.cpp\<close>, which prints the counters of the
  physical memory manager and walks over the blocks of the heap.
\<close>

definition MAX_FRAGMENTATION_VIEW_BLOCKS :: nat where "MAX_FRAGMENTATION_VIEW_BLOCKS = 100"
definition RAM_UTILISATION_BAR_LENGTH :: u64 where "RAM_UTILISATION_BAR_LENGTH = 16"

definition print_block :: "heap_state \<Rightarrow> nat \<Rightarrow> 'a screen_scheme \<Rightarrow> 'a screen_scheme option" where
  "print_block heap currBlockPtr st =
     (let len = of_nat (hdr_length (hmem heap) currBlockPtr)
      in if hdr_used (hmem heap) currBlockPtr
         then do { s \<leftarrow> String_construct [Chars (lit ''U-''), Unsigned len]; print_inline s DeepOrange st }
         else do { s \<leftarrow> String_construct [Chars (lit ''F-''), Unsigned len]; print_inline s Green st })"

text \<open>The loop over the blocks; the number is how many blocks may still be shown, and it starts positive.\<close>

fun print_blocks :: "heap_state \<Rightarrow> nat \<Rightarrow> nat \<Rightarrow> 'a screen_scheme \<Rightarrow> 'a screen_scheme option" where
  "print_blocks heap 0 currBlockPtr st = Some st"
| "print_blocks heap (Suc left) currBlockPtr st =
     (if \<not> currBlockPtr < heapEndPtr heap then Some st
      else do {
        st \<leftarrow> print_block heap currBlockPtr st;
        if left = 0 then print_inline (lit ''...'') White st
        else do {
          let currBlockPtr = get_next_heap_block heap currBlockPtr;
          st \<leftarrow> (if currBlockPtr < heapEndPtr heap then print_inline (lit '', '') White st else Some st);
          print_blocks heap left currBlockPtr st } })"

definition print_memory_fragmentation_graph :: "heap_state \<Rightarrow> nat \<Rightarrow> 'a screen_scheme \<Rightarrow> 'a screen_scheme option" where
  "print_memory_fragmentation_graph heap maxBlocks st =
     (if maxBlocks = 0 then Some st
      else do {
        st \<leftarrow> print_inline (lit ''['') White st;
        st \<leftarrow> print_blocks heap maxBlocks (heapStartPtr heap) st;
        st \<leftarrow> print_inline (lit '']'') White st;
        st \<leftarrow> newline st;
        st \<leftarrow> print_inline (lit ''['') White st;
        st \<leftarrow> print_inline (lit ''U'') DeepOrange st;
        st \<leftarrow> print_inline (lit ''] = Used | ['') White st;
        st \<leftarrow> print_inline (lit ''F'') Green st;
        st \<leftarrow> print_inline (lit ''] = Free'') White st;
        newline st })"

definition print_memory_info :: "heap_state \<Rightarrow> pmm_state \<Rightarrow> 'a screen_scheme \<Rightarrow> 'a screen_scheme option" where
  "print_memory_info heap pmm st = do {
     st \<leftarrow> print_separator st;
     let KiB = totalUsableBytes pmm div 1024;
     let MiB = KiB div 1024;
     let GiB = MiB div 1024;
     (freePages, usedPages) \<leftarrow> get_pmm_page_counts pmm;
     st \<leftarrow> print_text (lit ''----- PHYSICAL MEMORY MANAGER -----'') White st;
     let ramFreeBytes = of_nat freePages * PAGE_SIZE;
     let ramUsedBytes = totalUsableBytes pmm - ramFreeBytes;
     let ramUsedMiB = ramUsedBytes div 1024 div 1024;
     let ramFreeMiB = ramFreeBytes div 1024 div 1024;
     st \<leftarrow> print_info_string Info [Chars (lit ''Total Available RAM: ''), Unsigned GiB, Chars (lit '' GiB''),
       Chars (lit '' | ''), Unsigned MiB, Chars (lit '' MiB'')] st;
     st \<leftarrow> print_info_string Info [Chars (lit ''Used: ''), Unsigned ramUsedMiB, Chars (lit '' MiB''), Chars (lit '' | ''),
       Chars (lit ''Free: ''), Unsigned ramFreeMiB, Chars (lit '' MiB'')] st;
     percentBar \<leftarrow> getPercentBar ramUsedBytes (totalUsableBytes pmm) RAM_UTILISATION_BAR_LENGTH True;
     st \<leftarrow> print_info_string Info [Chars (lit ''RAM Utilisation: ''), Chars percentBar] st;
     st \<leftarrow> newline st;
     st \<leftarrow> print_text (lit ''----- VIRTUAL HEAP ALLOCATOR -----'') White st;
     heapStartAddr \<leftarrow> to_string (of_nat (heapStartPtr heap)) 16;
     st \<leftarrow> print_info_string Info [Chars (lit ''Heap Start Address: ''), Chars heapStartAddr] st;
     heapEndAddr \<leftarrow> to_string (of_nat (heapEndPtr heap)) 16;
     st \<leftarrow> print_info_string Info [Chars (lit ''Heap End Address: ''), Chars heapEndAddr] st;
     st \<leftarrow> newline st;
     st \<leftarrow> print_text (lit ''--- HEAP FRAGMENTATION VIEW ---'') White st;
     st \<leftarrow> print_memory_fragmentation_graph heap MAX_FRAGMENTATION_VIEW_BLOCKS st;
     print_separator st }"

end
