(* ===== verification/Commands.thy ===== *)
theory Commands
  imports Shell Filesystem Storage MemoryInfo Timer Pci
begin

text \<open>
  The commands of the shell: \<^verbatim>\<open>shell/commands/commands.cpp\<close>. Their state is that of all
  components: the terminal with the screen, the storage with the disk driver and the
  frames, the heap, the timer and the devices found on the bus. What lies outside the
  kernel is in the record \<open>platform\<close>: the controller and the disks behind its ports, the bytes
  an uninitialised local array holds, whether an allocation of a size succeeds, and the
  height of the framebuffer. Dereferencing the null pointer of a missing drive is a fault.
\<close>

record platform =
  controller :: "ahci_state \<Rightarrow> ahci_state"
  disks :: "nat \<Rightarrow> disk"
  stack_bytes :: "u8 list"
  can_alloc :: "int \<Rightarrow> bool"
  fb_height :: nat

record kernel = terminal +
  storage :: storage_state
  heap :: heap_state
  ticks :: u64
  found_pci_devices :: "PCI_Device list"
  PCIDeviceAmount :: nat
  port_writes :: "port_write list"

section \<open>The selected drive\<close>

definition selectedStorageDevice :: "'a kernel_scheme \<Rightarrow> storage_device option" where
  "selectedStorageDevice st = do {
     (i, _) \<leftarrow> selectedPartition (storage st);
     rd (StorageDevices (storage st)) i }"

definition selected_partition_info :: "'a kernel_scheme \<Rightarrow> PartitionInfo option" where
  "selected_partition_info st = do {
     (i, j) \<leftarrow> selectedPartition (storage st);
     d \<leftarrow> rd (StorageDevices (storage st)) i;
     rd (Partitions d) j }"

text \<open>The disk and the context the active driver works on.\<close>

definition active_driver :: "platform \<Rightarrow> 'a kernel_scheme \<Rightarrow> (disk \<times> FAT32_Context) option" where
  "active_driver plat st = do {
     context \<leftarrow> activeContext (storage st);
     d \<leftarrow> selectedStorageDevice st;
     Some (disks plat (Port d), context) }"

section \<open>File system commands\<close>

definition cmd_cd :: "buffer \<Rightarrow> 'a kernel_scheme \<Rightarrow> 'a kernel_scheme option" where
  "cmd_cd args st = filesystem_change_directory args st"

definition cmd_ls :: "platform \<Rightarrow> buffer \<Rightarrow> 'a kernel_scheme \<Rightarrow> 'a kernel_scheme option" where
  "cmd_ls plat args st = do {
     (disk, context) \<leftarrow> active_driver plat st;
     filesystem_list disk context st }"

definition cmd_pwd :: "buffer \<Rightarrow> 'a kernel_scheme \<Rightarrow> 'a kernel_scheme option" where
  "cmd_pwd args st = filesystem_print_working_directory st"

definition filesystem_name :: "FilesystemType \<Rightarrow> buffer" where
  "filesystem_name t = (case t of FsFAT32 \<Rightarrow> lit ''FAT32'' | FsFAT16 \<Rightarrow> lit ''FAT16'' | FsFAT12 \<Rightarrow> lit ''FAT12''
     | FsNTFS \<Rightarrow> lit ''NTFS'' | FsExt \<Rightarrow> lit ''Ext'' | _ \<Rightarrow> lit ''Unknown'')"

text \<open>The fields of the response of the drive: the serial number at byte 20, the model at byte 54, the number of
  sectors at byte 200.\<close>

definition cmd_driveinfo :: "buffer \<Rightarrow> 'a kernel_scheme \<Rightarrow> 'a kernel_scheme option" where
  "cmd_driveinfo args st = do {
     d \<leftarrow> selectedStorageDevice st;
     if \<not> Identified d then printInfoLine Error (lit ''No drive identify data available'') st
     else do {
       s64 \<leftarrow> slice (IdentificationInformation d) 200 8;
       let sectors64 = (le_word s64 :: u64);
       let totalGiB = sectors64 * 512 div 1024 div 1024 div 1024;
       st \<leftarrow> print_separator st;
       st \<leftarrow> print_text (lit ''----- DRIVE -----'') White st;
       st \<leftarrow> print_info_string Info [Chars (lit ''Model:   ''), Chars (drop 54 (IdentificationInformation d))] st;
       st \<leftarrow> print_info_string Info [Chars (lit ''Serial:  ''), Chars (drop 20 (IdentificationInformation d))] st;
       st \<leftarrow> print_info_string Info [Chars (lit ''Sectors: ''), Unsigned sectors64] st;
       st \<leftarrow> print_info_string Info [Chars (lit ''Size:    ''), Unsigned totalGiB, Chars (lit '' GiB'')] st;
       st \<leftarrow> newline st;
       p \<leftarrow> selected_partition_info st;
       st \<leftarrow> print_text (lit ''----- ACTIVE PARTITION -----'') White st;
       st \<leftarrow> print_info_string Info [Chars (lit ''Start LBA:    ''), Unsigned (ucast (Start_LBA p))] st;
       st \<leftarrow> print_info_string Info [Chars (lit ''Sector Count: ''), Unsigned (ucast (Sector_Count p))] st;
       let partGiB = ucast (Sector_Count p) * 512 div 1024 div 1024 div 1024;
       st \<leftarrow> print_info_string Info [Chars (lit ''Size:         ''), Unsigned partGiB, Chars (lit '' GiB'')] st;
       st \<leftarrow> print_info_string Info [Chars (lit ''Filesystem:   ''), Chars (filesystem_name (Type p))] st;
       st \<leftarrow> print_info_string Info [Chars (lit ''Bootable:     ''), Chars (if Bootable p then lit ''YES'' else lit ''NO'')] st;
       print_separator st } }"

definition cmd_dumpsector :: "platform \<Rightarrow> buffer \<Rightarrow> 'a kernel_scheme \<Rightarrow> 'a kernel_scheme option" where
  "cmd_dumpsector plat args st = do {
     c \<leftarrow> rd args 0;
     if c = 0 then printInfoLine Error (lit ''Missing Argument: Sector Number'') st
     else do {
       d \<leftarrow> selectedStorageDevice st;
       lba \<leftarrow> to_int args 10;
       (buf, storage') \<leftarrow> with_ahci (AHCI_READ_DMA_EXT (controller plat) (Port d) lba 1 (stack_bytes plat)) (storage st);
       let st = st\<lparr>storage := storage'\<rparr>;
       st \<leftarrow> print_info_string Info [Chars (lit '' --- SECTOR ''), Chars args, Chars (lit '' DATA --- '')] st;
       st \<leftarrow> for_range (\<lambda>i st. do {
           v \<leftarrow> rd buf i;
           valueHex \<leftarrow> to_string (ucast v) 16;
           st \<leftarrow> print_inline valueHex White st;
           print_inline (lit '' '') White st }) 0 512 st;
       newline st } }"

definition cmd_read :: "platform \<Rightarrow> buffer \<Rightarrow> 'a kernel_scheme \<Rightarrow> 'a kernel_scheme option" where
  "cmd_read plat args st = do {
     filePath \<leftarrow> str_combine (currentPath st) args;
     (disk, context) \<leftarrow> active_driver plat st;
     e \<leftarrow> find_entry disk context filePath;
     if \<not> Found e \<or> IsDirectory e
     then print_info_string Error [Chars (ascii ''File: '' @ [0x27, 0]), Chars filePath, Chars (0x27 # lit '' was not found'')] st
     else do {
       data \<leftarrow> fat32_read disk context e;
       print_text data White st } }"

section \<open>Information commands\<close>

definition uptime_parts :: "u64 \<Rightarrow> string_arg list" where
  "uptime_parts ms =
     (let sec = ms div 1000; minutes = sec div 60; hour = minutes div 60; days = hour div 24
      in [Unsigned days, Chars (lit ''d, ''), Unsigned (hour mod 24), Chars (lit ''h, ''), Unsigned (minutes mod 60), Chars (lit ''m, ''),
          Unsigned (sec mod 60), Chars (lit ''s, ''), Unsigned (ms mod 1000), Chars (lit ''ms'')])"

definition cmd_get_uptime :: "buffer \<Rightarrow> 'a kernel_scheme \<Rightarrow> 'a kernel_scheme option" where
  "cmd_get_uptime args st = do {
     s \<leftarrow> String_construct (uptime_parts (get_ticks_in_ms (ticks st)));
     print_text s White st }"

definition command_names :: "buffer list" where
  "command_names = [lit ''help'', lit ''history'', lit ''echo'', lit ''clear'', lit ''sysinfo'', lit ''reboot'', lit ''meminfo'',
     lit ''uptime'', lit ''pciinfo'', lit ''read'', lit ''driveinfo'', lit ''dumpsector'', lit ''cd'', lit ''ls'', lit ''pwd'']"

definition cmd_help :: "buffer \<Rightarrow> 'a kernel_scheme \<Rightarrow> 'a kernel_scheme option" where
  "cmd_help args st = do {
     st \<leftarrow> for_range (\<lambda>i st. do {
         st \<leftarrow> print_inline (command_names ! i) White st;
         print_inline (lit ''; '') White st }) 0 (length command_names) st;
     newline st }"

definition cmd_clear :: "platform \<Rightarrow> buffer \<Rightarrow> 'a kernel_scheme \<Rightarrow> 'a kernel_scheme option" where
  "cmd_clear plat args st = do {
     st \<leftarrow> clearScreen (can_alloc plat) (fb_height plat) st;
     Some (st\<lparr>cursorAt_X := 0, cursorAt_Y := 0, cursorRendered_X := 0, cursorRendered_Y := 0\<rparr>) }"

definition cmd_echo :: "buffer \<Rightarrow> 'a kernel_scheme \<Rightarrow> 'a kernel_scheme option" where
  "cmd_echo args st = print_text args White st"

definition cmd_sysinfo :: "buffer \<Rightarrow> 'a kernel_scheme \<Rightarrow> 'a kernel_scheme option" where
  "cmd_sysinfo args st = printSysinfo st"

definition cmd_reboot :: "buffer \<Rightarrow> 'a kernel_scheme \<Rightarrow> 'a kernel_scheme option" where
  "cmd_reboot args st = Some (st\<lparr>port_writes := port_writes st @ [(0x64, 0xFE)]\<rparr>)"

definition cmd_memory_info :: "buffer \<Rightarrow> 'a kernel_scheme \<Rightarrow> 'a kernel_scheme option" where
  "cmd_memory_info args st = print_memory_info (heap st) (frames (paging (storage st))) st"

definition cmd_history :: "buffer \<Rightarrow> 'a kernel_scheme \<Rightarrow> 'a kernel_scheme option" where
  "cmd_history args st =
     for_range (\<lambda>i st. do { c \<leftarrow> rd (commandHistory st) i; print_text c White st }) 0 (cmdHistCount st) st"

definition print_pci_device :: "bool \<Rightarrow> nat \<Rightarrow> PCI_Device \<Rightarrow> 'a screen_scheme \<Rightarrow> 'a screen_scheme option" where
  "print_pci_device compact i d st = do {
     vendorHex \<leftarrow> to_string (ucast (VendorID d)) 16;
     deviceHex \<leftarrow> to_string (ucast (DeviceID d)) 16;
     let classInfo = resolve_class_name (ClassCode d) (Subclass d);
     st \<leftarrow> print_inline (lit '' - '') White st;
     s \<leftarrow> String_construct [Chars (lit ''[PCI-''), Unsigned (of_nat i), Chars (lit '']:'')];
     st \<leftarrow> print_inline s Yellow st;
     st \<leftarrow> (if className classInfo \<noteq> '''' then do {
           s \<leftarrow> String_construct [Chars (lit '' (''), Chars (lit (className classInfo)), Chars (lit '')'')];
           print_inline s White st } else Some st);
     st \<leftarrow> (if subClassName classInfo \<noteq> '''' then do {
           s \<leftarrow> String_construct [Chars (lit '' (''), Chars (lit (subClassName classInfo)), Chars (lit '')'')];
           print_inline s White st } else Some st);
     st \<leftarrow> (if compact then do {
           s \<leftarrow> String_construct [Chars (lit '' vID: ''), Chars vendorHex, Chars (lit '' - dID: ''), Chars deviceHex];
           print_inline s White st } else Some st);
     st \<leftarrow> newline st;
     if \<not> compact then do {
       s \<leftarrow> String_construct [Chars (lit ''   => Vendor ID: ''), Chars vendorHex];
       st \<leftarrow> print_text s White st;
       s \<leftarrow> String_construct [Chars (lit ''   => Device ID: ''), Chars deviceHex];
       print_text s White st }
     else Some st }"

definition cmd_pciinfo :: "buffer \<Rightarrow> 'a kernel_scheme \<Rightarrow> 'a kernel_scheme option" where
  "cmd_pciinfo args st =
     (if PCIDeviceAmount st = 0 then printInfoLine Error (lit ''No PCI devices were detected on boot'') st
      else do {
        compact \<leftarrow> str_equal args (lit ''-c'');
        st \<leftarrow> print_info_string Info [Unsigned (of_nat (PCIDeviceAmount st)), Chars (lit '' PCI Devices were detected on boot.'')] st;
        for_range (\<lambda>i st. do { d \<leftarrow> rd (found_pci_devices st) i; print_pci_device compact i d st })
          0 (PCIDeviceAmount st) st })"

section \<open>The table\<close>

definition commands :: "platform \<Rightarrow> 'a kernel_ext Command list" where
  "commands plat = map2 (\<lambda>n f. \<lparr>name = n, execute = f\<rparr>) command_names
     [cmd_help, cmd_history, cmd_echo, cmd_clear plat, cmd_sysinfo, cmd_reboot, cmd_memory_info, cmd_get_uptime,
      cmd_pciinfo, cmd_read plat, cmd_driveinfo, cmd_dumpsector plat, cmd_cd, cmd_ls plat, cmd_pwd]"

lemma name_commands: "map name (commands plat) = command_names"
  by (simp add: commands_def command_names_def)

end
