(* ===== verification/Boot.thy ===== *)
theory Boot
  imports Commands VMM Idt
begin

text \<open>
  The start of the kernel: \<^verbatim>\<open>kernel.cpp\<close> and the entry \<open>kmain\<close> of \<^verbatim>\<open>boot/limine_boot.cpp\<close>. The stages run in order, each layer prints its
  result and the next one starts whatever it was. The machine is the platform of the
  commands with what the boot loader passes (the offset of the direct map, the memory map,
  the page tables, the framebuffer), the configuration space of the bus and the addresses
  of the interrupt stubs. Draining the keyboard controller, enabling the interrupts and halting change
  no state of the model.
\<close>

record machine = platform +
  hhdm_offset :: u64
  memmap :: "memmap_entry list"
  fresh_bytes :: "u64 \<Rightarrow> nat \<Rightarrow> u8 list"
  heap_bytes :: mem
  boot_tables :: table_mem
  boot_cr3 :: u64
  fb_pitch :: nat
  pci_config :: "u32 \<Rightarrow> u32"
  fresh_device :: PCI_Device
  fresh_partitions :: "PartitionInfo list"
  isr_stubs :: "nat \<Rightarrow> u64"
  timer_isr :: u64
  keyboard_isr :: u64

text \<open>\<open>boot_info\<close>, and what the boot loader answers to the requests of \<^verbatim>\<open>limine_boot.cpp\<close>: whether it supports the base
  revision, the framebuffers (\<open>None\<close> for a missing response, otherwise the first \<open>framebuffer_count\<close> entries of the list) and
  the pixels at a framebuffer's address.\<close>

record BootInfo =
  bi_framebuffer :: u64
  bi_width :: u64
  bi_height :: u64
  bi_pitch :: u64
  bi_bpp :: u16

record limine_framebuffer =
  fb_address :: u64
  width :: u64
  height :: u64
  pitch :: u64
  bpp :: u16

record loader =
  base_revision_supported :: bool
  framebuffers :: "limine_framebuffer list option"
  pixels_at :: "u64 \<Rightarrow> u32 list"

record boot = kernel +
  idt :: "IDTEntry list"
  virtual_bitmap :: Bitmap
  BAR_IDX_5 :: PCI_BAR

section \<open>Stages\<close>

definition init_rendering_early :: "'m machine_scheme \<Rightarrow> 'a boot_scheme \<Rightarrow> 'a boot_scheme option" where
  "init_rendering_early m st = do {
     st \<leftarrow> clearScreen (can_alloc m) (fb_height m) st;
     Some (init_print (fb_pitch m) (fb_height m) st) }"

definition init_interrupts :: "'m machine_scheme \<Rightarrow> 'a boot_scheme \<Rightarrow> 'a boot_scheme option" where
  "init_interrupts m st = do {
     t \<leftarrow> idt_init (idt st);
     t \<leftarrow> populate_idt_entries (isr_stubs m) (timer_isr m) (keyboard_isr m) t;
     Some (st\<lparr>idt := t, port_writes := port_writes st @ pit_init @ pic_init\<rparr>) }"

definition init_memory :: "'m machine_scheme \<Rightarrow> 'a boot_scheme \<Rightarrow> 'a boot_scheme option" where
  "init_memory m st = do {
     st \<leftarrow> printLoadingStart (lit ''Memory'') st;
     (h, v) \<leftarrow> memory_init (hhdm_offset m) (memmap m) (fresh_bytes m) (heap_bytes m) (boot_tables m) (boot_cr3 m);
     let st = st\<lparr>storage := (storage st)\<lparr>ahci_state.paging := vmm_state.paging v\<rparr>, virtual_bitmap := vmm_bitmap v\<rparr>;
     let st = (case h of None \<Rightarrow> st | Some hs \<Rightarrow> st\<lparr>heap := hs\<rparr>);
     printLoadingStatus (h \<noteq> None) st }"

definition init_rendering_full :: "'m machine_scheme \<Rightarrow> 'a boot_scheme \<Rightarrow> 'a boot_scheme option" where
  "init_rendering_full m st = do {
     st \<leftarrow> printLoadingStart (lit ''Screen Buffer'') st;
     let (ok, st) = init_screen_buffer (can_alloc m) st;
     printLoadingStatus ok st }"

definition init_pci_layer :: "'m machine_scheme \<Rightarrow> 'a boot_scheme \<Rightarrow> 'a boot_scheme option" where
  "init_pci_layer m st = do {
     st \<leftarrow> printLoadingStart (lit ''PCI Bus Enumeration'') st;
     (ok, found, n) \<leftarrow> init_pci (pci_config m) (\<lambda>bytes. can_alloc m (int bytes)) (fresh_device m);
     printLoadingStatus ok (st\<lparr>found_pci_devices := found, PCIDeviceAmount := n\<rparr>) }"

definition init_drive_layer :: "'m machine_scheme \<Rightarrow> 'a boot_scheme \<Rightarrow> 'a boot_scheme option" where
  "init_drive_layer m st = do {
     st \<leftarrow> printLoadingStart (lit ''AHCI Controller'') st;
     (ok, bar) \<leftarrow> init_ahci (found_pci_devices st) (PCIDeviceAmount st);
     let st = (case bar of None \<Rightarrow> st | Some b \<Rightarrow> st\<lparr>BAR_IDX_5 := b\<rparr>);
     printLoadingStatus ok st }"

definition init_filesystem_layer :: "'m machine_scheme \<Rightarrow> 'a boot_scheme \<Rightarrow> 'a boot_scheme option" where
  "init_filesystem_layer m st = do {
     st \<leftarrow> printLoadingStart (lit ''Filesystem'') st;
     (ok, s) \<leftarrow> init_storage (controller m) (BAR_IDX_5 st) (stack_bytes m) (fresh_partitions m) (disks m) (storage st);
     (ok, st) \<leftarrow> init_filesystem ok (st\<lparr>storage := s\<rparr>);
     printLoadingStatus ok st }"

definition init_shell :: "'a boot_scheme \<Rightarrow> 'a boot_scheme option" where
  "init_shell st = terminal_init st"

definition kernel_main :: "'m machine_scheme \<Rightarrow> 'a boot_scheme \<Rightarrow> 'a boot_scheme option" where
  "kernel_main m st = do {
     st \<leftarrow> init_interrupts m st;
     st \<leftarrow> init_rendering_early m st;
     st \<leftarrow> init_memory m st;
     st \<leftarrow> init_rendering_full m st;
     st \<leftarrow> init_pci_layer m st;
     st \<leftarrow> init_drive_layer m st;
     st \<leftarrow> init_filesystem_layer m st;
     init_shell st }"

section \<open>Entry\<close>

text \<open>\<open>boot_info\<close> is empty until \<open>kmain\<close> fills it; the result is its value and the state in which the processor is halted.\<close>

definition boot_info_initial :: BootInfo where
  "boot_info_initial = \<lparr>bi_framebuffer = 0, bi_width = 0, bi_height = 0, bi_pitch = 0, bi_bpp = 0\<rparr>"

definition kmain :: "loader \<Rightarrow> 'm machine_scheme \<Rightarrow> 'a boot_scheme \<Rightarrow> (BootInfo \<times> 'a boot_scheme) option" where
  "kmain l m st =
     (if \<not> base_revision_supported l then Some (boot_info_initial, st)
      else case framebuffers l of
        None \<Rightarrow> Some (boot_info_initial, st)
      | Some fbs \<Rightarrow>
          if length fbs < 1 then Some (boot_info_initial, st)
          else do {
            fb \<leftarrow> rd fbs 0;
            let boot_info = \<lparr>bi_framebuffer = fb_address fb, bi_width = width fb, bi_height = height fb, bi_pitch = pitch fb, bi_bpp = bpp fb\<rparr>;
            let m = m\<lparr>fb_height := unat (bi_height boot_info), fb_pitch := unat (bi_pitch boot_info)\<rparr>;
            st \<leftarrow> kernel_main m (st\<lparr>framebuffer := pixels_at l (bi_framebuffer boot_info)\<rparr>);
            Some (boot_info, st) })"

end
