(* ===== verification/CommandSpec.thy ===== *)
theory CommandSpec
  imports Boot PrintSpec ShellSpec HeapSpec
begin

text \<open>
  What the commands of the shell show: the view of the heap from its block list, the
  listing of a directory from its entries, the names of the commands, the uptime.
\<close>

section \<open>The heap\<close>

fun block_piece :: "nat \<times> bool \<Rightarrow> piece" where
  "block_piece (l, u) = (if u then Txt DeepOrange (ascii ''U-'' @ number_text 10 (of_nat l))
     else Txt Green (ascii ''F-'' @ number_text 10 (of_nat l)))"

text \<open>The first blocks, separated by commas; the list stops with dots when it has shown as many as asked.\<close>

fun blocks_view :: "nat \<Rightarrow> blocks \<Rightarrow> piece list" where
  "blocks_view 0 bs = []"
| "blocks_view (Suc n) [] = []"
| "blocks_view (Suc n) (b # bs) = block_piece b #
     (if n = 0 then [Txt White (ascii ''...'')]
      else (if bs = [] then [] else [Txt White (ascii '', '')]) @ blocks_view n bs)"

lemma length_number_text: "length (number_text 10 n) \<le> 20"
proof -
  have "unat n < 2 ^ 64" using unsigned_less[of n, where ?'a = nat] by simp
  then have "unat n < 10 ^ Suc 19" by simp
  from length_number_text_ten[OF this] show ?thesis by simp
qed

lemma arg_text_lit: "\<forall>c \<in> set s. 0 < (of_char c :: u8) \<and> (of_char c :: u8) < 128 \<Longrightarrow> arg_text (Chars (lit s)) (ascii s)"
  by (auto intro!: cstr_lit)

lemma prints_labelled:
  assumes "\<forall>c \<in> set s. 0 < (of_char c :: u8) \<and> (of_char c :: u8) < 128" and "length s < 100"
  shows "prints [Txt col (ascii s @ number_text 10 n)]
    (\<lambda>st. String_construct [Chars (lit s), Unsigned n] \<bind> (\<lambda>s. print_inline s col st))"
proof -
  have "prints [Txt col (concat [ascii s, number_text 10 n])]
      (\<lambda>st. String_construct [Chars (lit s), Unsigned n] \<bind> (\<lambda>s. print_inline s col st))"
    using assms length_number_text[of n] arg_text_lit[OF assms(1)] printable_number
    by (intro prints_string_inline) (auto simp: printable_def)
  then show ?thesis by simp
qed

lemma prints_block: "prints [block_piece (hdr_length (hmem H) a, hdr_used (hmem H) a)] (print_block H a)"
proof (cases "hdr_used (hmem H) a")
  case True
  show ?thesis unfolding print_block_def[abs_def] Let_def block_piece.simps using True by (simp only: if_True) (rule prints_labelled; simp)
next
  case False
  show ?thesis unfolding print_block_def[abs_def] Let_def block_piece.simps using False by (simp only: if_False) (rule prints_labelled; simp)
qed

lemma chain_more: "chain m a bs e \<Longrightarrow> a < e \<longleftrightarrow> bs \<noteq> []"
  by (cases bs rule: span.cases) (auto dest: chain_end)

lemma prints_blocks:
  assumes "chain (hmem H) a bs (heapEndPtr H)"
  shows "prints (blocks_view n bs) (print_blocks H n a :: 'a screen_scheme \<Rightarrow> _)"
  using assms
proof (induction n bs arbitrary: a rule: blocks_view.induct)
  case (1 bs)
  then show ?case using prints_done by simp
next
  case (2 n)
  then show ?case using prints_done chain_more[OF 2] by (simp add: prints_def printed_def)
next
  case (3 n b bs)
  obtain l u where b: "b = (l, u)" by fastforce
  let ?next = "get_next_heap_block H a"
  have a: "a < heapEndPtr H" using chain_more[OF "3.prems"] by simp
  have h: "hdr_length (hmem H) a = l" "hdr_used (hmem H) a = u" and c: "chain (hmem H) ?next bs (heapEndPtr H)"
    using "3.prems" by (auto simp: b get_next_heap_block_def)
  have blk: "prints [block_piece b] (print_block H a :: 'a screen_scheme \<Rightarrow> _)" using prints_block[of H a, where 'a = 'a] by (simp only: h b)
  show ?case
  proof (cases n)
    case 0
    have "prints ([block_piece b] @ [Txt White (ascii ''...'')]) (\<lambda>st :: 'a screen_scheme. print_block H a st \<bind> print_inline (lit ''...'') White)"
      by (intro prints_bind blk prints_lit) simp
    then show ?thesis using a by (simp add: 0)
  next
    case (Suc k)
    have sep: "prints (if bs = [] then [] else [Txt White (ascii '', '')])
        (\<lambda>st :: 'a screen_scheme. if ?next < heapEndPtr H then print_inline (lit '', '') White st else Some st)"
      using chain_more[OF c] prints_done prints_lit[of "'', ''" White] by (cases "bs = []") simp_all
    have "n \<noteq> 0" using Suc by simp
    from "3.IH"[OF this c] have rest: "prints (blocks_view n bs) (print_blocks H n ?next :: 'a screen_scheme \<Rightarrow> _)" .
    have "prints ([block_piece b] @ (if bs = [] then [] else [Txt White (ascii '', '')]) @ blocks_view n bs)
      (\<lambda>st :: 'a screen_scheme. print_block H a st \<bind> (\<lambda>st. (if ?next < heapEndPtr H then print_inline (lit '', '') White st else Some st) \<bind>
        print_blocks H n ?next))"
      by (intro prints_bind blk sep rest)
    then show ?thesis using a Suc by (simp add: Let_def)
  qed
qed

definition heap_view :: "nat \<Rightarrow> blocks \<Rightarrow> piece list" where
  "heap_view n bs = Txt White (ascii ''['') # blocks_view n bs @ [Txt White (ascii '']''), NL,
     Txt White (ascii ''[''), Txt DeepOrange (ascii ''U''), Txt White (ascii ''] = Used | [''), Txt Green (ascii ''F''),
     Txt White (ascii ''] = Free''), NL]"

lemma prints_graph:
  assumes "heap_rep H bs" and "0 < n"
  shows "prints (heap_view n bs) (print_memory_fragmentation_graph H n)"
proof -
  note blocks = prints_blocks[of H "heapStartPtr H" bs n]
  have "prints ([Txt White (ascii ''['')] @ blocks_view n bs @ [Txt White (ascii '']'')] @ [NL] @
     [Txt White (ascii ''['')] @ [Txt DeepOrange (ascii ''U'')] @ [Txt White (ascii ''] = Used | ['')] @ [Txt Green (ascii ''F'')] @
     [Txt White (ascii ''] = Free'')] @ [NL])
    (print_memory_fragmentation_graph H n)"
    unfolding print_memory_fragmentation_graph_def[abs_def] if_not_P[OF assms(2)[unfolded neq0_conv[symmetric]]]
    by (intro prints_bind prints_newline prints_lit blocks) (use assms(1) in \<open>simp_all add: heap_rep_def\<close>)
  then show ?thesis by (simp add: heap_view_def)
qed

section \<open>Commands at the prompt\<close>

lemma truncate_fields:
  "cursorAt_X (screen.truncate r) = cursorAt_X r" "cursorAt_Y (screen.truncate r) = cursorAt_Y r" "cursorRendered_X (screen.truncate r) = cursorRendered_X r" "cursorRendered_Y (screen.truncate r) = cursorRendered_Y r" "FONT_W (screen.truncate r) = FONT_W r" "FONT_H (screen.truncate r) = FONT_H r" "ADJUSTED_WIDTH (screen.truncate r) = ADJUSTED_WIDTH r" "MAX_CHARS (screen.truncate r) = MAX_CHARS r" "MAX_LINES (screen.truncate r) = MAX_LINES r" "useScreenBuffer (screen.truncate r) = useScreenBuffer r" "isRedrawing (screen.truncate r) = isRedrawing r" "screenBufferPtr (screen.truncate r) = screenBufferPtr r" "framebuffer (screen.truncate r) = framebuffer r"
  by (simp_all add: screen.truncate_def)

lemma same_screen:
  fixes st st1 :: "'a screen_scheme"
  assumes "screen.truncate st1 = screen.truncate st"
  shows "screen_base st1 sb = screen_base st sb" "rendered_in st1 sb = rendered_in st sb" "scrollback st1 = scrollback st"
    "stored_lines st1 = stored_lines st" "MAX_CHARS st1 = MAX_CHARS st"
proof -
  have f: "cursorAt_X st1 = cursorAt_X st" "cursorAt_Y st1 = cursorAt_Y st" "cursorRendered_X st1 = cursorRendered_X st" "cursorRendered_Y st1 = cursorRendered_Y st" "FONT_W st1 = FONT_W st" "FONT_H st1 = FONT_H st" "ADJUSTED_WIDTH st1 = ADJUSTED_WIDTH st" "MAX_CHARS st1 = MAX_CHARS st" "MAX_LINES st1 = MAX_LINES st" "useScreenBuffer st1 = useScreenBuffer st" "isRedrawing st1 = isRedrawing st" "screenBufferPtr st1 = screenBufferPtr st" "framebuffer st1 = framebuffer st"
    using truncate_fields[of st] truncate_fields[of st1] unfolding assms by simp_all
  show "screen_base st1 sb = screen_base st sb" "rendered_in st1 sb = rendered_in st sb" "scrollback st1 = scrollback st"
    "stored_lines st1 = stored_lines st" "MAX_CHARS st1 = MAX_CHARS st"
    unfolding screen_base_def geometry_def rendered_in_def scrollback_def stored_lines_def f by (rule refl)+
qed

lemma reset_line_effect:
  assumes "cstr w (lineInputBuffer st)"
  shows "\<exists>b. reset_line_input st = Some (st\<lparr>lineInputLength := 0, lineInputCursorPos := 0, lineInputBuffer := b\<rparr>) \<and> cstr [] b \<and>
    length b = length (lineInputBuffer st)"
proof -
  have "0 < length (lineInputBuffer st)" using cstr_length[OF assms] by (rule le_less_trans[OF le0])
  then obtain x xs where "lineInputBuffer st = x # xs" by (cases "lineInputBuffer st") auto
  then show ?thesis by (intro exI[of _ "0 # xs"]) (simp add: reset_line_input_def cstr_def)
qed

text \<open>Where a line names the \<open>i\<close>-th command, and that one prints: the line is in the history, the screen shows the
  output below it, and the input is empty.\<close>

lemma command_output:
  fixes st :: "'a terminal_scheme"
  assumes ed: "editing older prompt l r st" and s: "s = l @ r" "s \<noteq> []"
    and h: "history_ok hist st" "\<forall>c \<in> set hist. length c < TERMINAL_BUFFER_SIZE"
    and ok: "commands_ok table names" "i < length names" "names ! i = command_word s" "command_word s \<notin> set (take i names)"
    and out: "\<forall>args st. cstr (command_args s) args \<longrightarrow> screen_ok st \<longrightarrow> printed ps st (execute (table ! i) args st)"
  shows "\<exists>st'. processLineInputBuffer table st = Some st' \<and> screen_ok st' \<and> history_ok (remember s hist) st' \<and>
    lineInputLength st' = 0 \<and> lineInputCursorPos st' = 0 \<and> cstr [] (lineInputBuffer st') \<and>
    scrollback st' = tty_pieces (nat (MAX_CHARS st)) (stored_lines st) (NL # ps) (older @ [prompt @ map typed s])"
proof -
  from ed obtain sb where sb: "screen_base st sb" "rendered_in st sb"
    "rows_upto sb (nat (cursorAt_Y st)) = older @ [prompt @ map typed s]"
    and b: "lineInputLength st = length s" "length (lineInputBuffer st) = TERMINAL_BUFFER_SIZE" "cstr s (lineInputBuffer st)"
    by (auto simp: editing_def s(1))
  have len: "length s < TERMINAL_BUFFER_SIZE" using cstr_length[OF b(3)] b(2) by simp
  from dispatch_effect[OF b(3,1) s(2) len h ok(1)] obtain st1 args where
    st1: "history_ok (remember s hist) st1" "screen.truncate st1 = screen.truncate st" "cstr (command_args s) args"
    and run: "processLineInputBuffer table st = do { st \<leftarrow> newline st1; st \<leftarrow> execute (table ! i) args st; reset_line_input st }"
    and cw: "cstr (command_word s) (lineInputBuffer st1)"
    using ok(2-4) by blast
  note sc = same_screen[OF st1(2)]
  have old: "scrollback st = older @ [prompt @ map typed s]" "stored_lines st = maxStoredLines sb"
    using sb by (simp_all add: scrollback_def stored_lines_def screen_base_def)
  have "before_newline st1 sb" using sb(1,2) by (simp add: before_newline_def sc)
  from newline_effect[OF this] obtain st2 where st2: "newline st1 = Some st2" "moved st1 st2" "screen_ok st2"
    "stored_lines st2 = stored_lines st" "scrollback st2 = tty_newline (stored_lines st) (older @ [prompt @ map typed s])"
    by (auto simp: sc old)
  from out[rule_format, OF st1(3) st2(3)] obtain st3 where st3: "execute (table ! i) args st2 = Some st3" "moved st2 st3" "screen_ok st3"
    "scrollback st3 = tty_pieces (nat (MAX_CHARS st2)) (stored_lines st2) ps (scrollback st2)"
    by (auto simp: printed_def)
  have m: "moved st1 st3" by (rule moved_trans[OF st2(2) st3(2)])
  note tf = moved_terminal[OF m]
  have "cstr (command_word s) (lineInputBuffer st3)" using cw tf(2) by simp
  from reset_line_effect[OF this] obtain b where
    r: "reset_line_input st3 = Some (st3\<lparr>lineInputLength := 0, lineInputCursorPos := 0, lineInputBuffer := b\<rparr>)" "cstr [] b" by blast
  let ?st = "st3\<lparr>lineInputLength := 0, lineInputCursorPos := 0, lineInputBuffer := b\<rparr>"
  have "screen_ok ?st" using st3(3) by (simp add: screen_ok_def screen_base_def geometry_def rendered_in_def at_end_def)
  moreover have "history_ok (remember s hist) ?st" using st1(1) tf(5,6) by (simp add: history_ok_def)
  moreover have "scrollback ?st = tty_pieces (nat (MAX_CHARS st)) (stored_lines st) (NL # ps) (older @ [prompt @ map typed s])"
    using st3(4) st2(4,5) moved_fields(1)[OF st2(2)] unfolding scrollback_def by (cases "screenBufferPtr st3") (simp_all add: sc)
  moreover have "processLineInputBuffer table st = Some ?st" using run st2(1) st3(1) r(1) by simp
  ultimately show ?thesis using r(2) by (intro exI[of _ ?st]) simp
qed

section \<open>The listing of a directory\<close>

definition entry_pieces :: "Entry \<Rightarrow> u8 list \<Rightarrow> piece list" where
  "entry_pieces e s = (if IsDirectory e then [Txt Yellow s, Txt Yellow (ascii ''/'')] else [Txt White s]) @ [Txt White (ascii ''  '')]"

definition listing :: "Entry list \<Rightarrow> u8 list list \<Rightarrow> piece list" where
  "listing es names = (if es = [] then [] else concat (map2 entry_pieces es names) @ [NL])"

text \<open>Entries with their names as texts.\<close>

definition named :: "Entry list \<Rightarrow> u8 list list \<Rightarrow> bool" where
  "named es names \<longleftrightarrow> list_all2 (\<lambda>e s. cstr s (Name e) \<and> printable s) es names"

lemma prints_entry:
  assumes "cstr s (Name e)" and "printable s"
  shows "prints (entry_pieces e s) (list_entry e)"
proof (cases "IsDirectory e")
  case True
  have "prints ([Txt Yellow s] @ [Txt Yellow (ascii ''/'')]) (\<lambda>st :: 'a screen_scheme. print_inline (Name e) Yellow st \<bind> print_inline (lit ''/'') Yellow)"
    by (intro prints_bind prints_inline prints_lit assms) simp
  then have "prints (([Txt Yellow s] @ [Txt Yellow (ascii ''/'')]) @ [Txt White (ascii ''  '')]) (list_entry e :: 'a screen_scheme \<Rightarrow> _)"
    unfolding list_entry_def[abs_def] using True by (intro prints_bind prints_lit) simp_all
  then show ?thesis using True by (simp add: entry_pieces_def)
next
  case False
  have "prints ([Txt White s] @ [Txt White (ascii ''  '')]) (list_entry e :: 'a screen_scheme \<Rightarrow> _)"
    unfolding list_entry_def[abs_def] using False assms by (intro prints_bind prints_lit) (simp_all add: prints_inline)
  then show ?thesis using False by (simp add: entry_pieces_def)
qed

text \<open>The list of the array's first entries, which is what \<open>get_entries\<close> fills.\<close>

lemma prints_list:
  fixes st :: "'a terminal_scheme"
  assumes st: "screen_ok st" and path: "str_cut_end_malloc (currentPath st) 1 = Some path"
    and dir: "get_entries disk context path = Some (n, entries)" "n \<le> length entries" and names: "named (take n entries) names"
  shows "printed (listing (take n entries) names) st (filesystem_list disk context st)"
proof (cases "n = 0")
  case True
  then show ?thesis using st path dir by (simp add: filesystem_list_def listing_def printed_def)
next
  case False
  have len: "length names = n" using names dir(2) by (auto simp: named_def dest: list_all2_lengthD)
  have "prints (entry_pieces (entries ! i) (names ! i)) (\<lambda>st :: 'a terminal_scheme. do { e \<leftarrow> rd entries i; list_entry e st })" if "i < n" for i
    using prints_entry[of "names ! i" "entries ! i"] list_all2_nthD[OF names[unfolded named_def], of i] that dir(2) by simp
  then have "prints (concat (map (\<lambda>i. entry_pieces (entries ! i) (names ! i)) [0 ..< n]))
      (for_range (\<lambda>i (st :: 'a terminal_scheme). do { e \<leftarrow> rd entries i; list_entry e st }) 0 n)"
    by (intro prints_range) simp
  moreover have "map (\<lambda>i. entry_pieces (entries ! i) (names ! i)) [0 ..< n] = map2 entry_pieces (take n entries) names"
    using len dir(2) by (intro nth_equalityI) simp_all
  ultimately have "prints (concat (map2 entry_pieces (take n entries) names) @ [NL])
      (\<lambda>st :: 'a terminal_scheme. for_range (\<lambda>i st. do { e \<leftarrow> rd entries i; list_entry e st }) 0 n st \<bind> newline)"
    by (intro prints_bind prints_newline) simp
  moreover have "entries \<noteq> []" using False dir(2) by auto
  ultimately show ?thesis
    using printsD[OF _ st] False path dir by (simp add: filesystem_list_def listing_def)
qed

end
