(* ===== verification/SessionSpec.thy ===== *)
theory SessionSpec
  imports CommandSpec ShellProps DeviceProps
begin

text \<open>
  The terminal as its user sees it: a desk with the current path, a line with a cursor, the
  recorded lines and the place in them, and one step for every scan code. The lemmas follow
  the keyboard handler through the editor, the history, the completion and the dispatch of
  commands, and show that it implements the steps.
\<close>

section \<open>The desk\<close>

record desk =
  at_path :: "u8 list"
  before_cursor :: "u8 list"
  behind_cursor :: "u8 list"
  recorded :: "u8 list list"
  browsed :: nat
  shifted :: bool
  extended :: bool

definition prompt_text :: "u8 list \<Rightarrow> u8 list" where "prompt_text p = p @ ascii '' >> ''"

definition prompt_cells :: "u8 list \<Rightarrow> Cell list" where
  "prompt_cells p = map (\<lambda>c. \<lparr>color = White, cell_text = c, interactable = False\<rparr>) (prompt_text p)"

text \<open>A path whose prompt fits on a screen of width \<open>w\<close>, with a place for the cursor.\<close>

definition path_ok :: "nat \<Rightarrow> u8 list \<Rightarrow> bool" where
  "path_ok w p \<longleftrightarrow> (\<forall>c \<in> set p. c < 128 \<and> c \<noteq> 0x0A \<and> c \<noteq> 0x0D) \<and> length p + 4 < w \<and> length p + 4 < str_max"

definition line_of :: "desk \<Rightarrow> u8 list" where "line_of d = before_cursor d @ behind_cursor d"

text \<open>A line of \<open>n\<close> characters fits: in the buffer with its terminating zero, and behind the prompt.\<close>

definition room_for :: "nat \<Rightarrow> desk \<Rightarrow> nat \<Rightarrow> bool" where
  "room_for w d n \<longleftrightarrow> n < TERMINAL_BUFFER_SIZE \<and> length (at_path d) + 4 + n < w"

text \<open>The state of the terminal that shows a desk.\<close>

definition at_desk :: "desk \<Rightarrow> 'a terminal_scheme \<Rightarrow> bool" where
  "at_desk d st \<longleftrightarrow> printable (line_of d) \<and> (\<exists>older. editing older (prompt_cells (at_path d)) (before_cursor d) (behind_cursor d) st) \<and>
     history_ok (recorded d) st \<and> (\<forall>c \<in> set (recorded d). length c < TERMINAL_BUFFER_SIZE \<and> printable c) \<and>
     goThroughHistoryCount st = browsed d \<and> browsed d \<le> length (recorded d) \<and>
     shift st = shifted d \<and> isExtendedScancode st = extended d \<and>
     cstr (at_path d) (currentPath st) \<and> path_ok (nat (MAX_CHARS st)) (at_path d)"

lemma length_prompt [simp]: "length (prompt_cells p) = length p + 4" "length (prompt_text p) = length p + 4"
  by (simp_all add: prompt_cells_def prompt_text_def)

section \<open>The prompt\<close>

lemma prompt_shown:
  fixes st :: "'a terminal_scheme"
  assumes ok: "screen_ok st" and last_row: "scrollback st = older @ [[]]"
    and p: "cstr p (currentPath st)" "path_ok (nat (MAX_CHARS st)) p"
  shows "\<exists>st1. newTerminalInputLine st = Some (st1\<lparr>lineInputStart_X := length (prompt_cells p)\<rparr>) \<and> moved st st1 \<and> screen_ok st1 \<and>
    scrollback st1 = older @ [prompt_cells p]"
proof -
  have "list_all2 arg_text [Chars (currentPath st), Chars (ascii '' >> '' @ [0])] [p, ascii '' >> '']"
    using p(1) cstrI[of "ascii '' >> ''" "[]"] by simp
  from String_construct_spec[OF this] p(2) obtain s where
    s: "String_construct [Chars (currentPath st), Chars (ascii '' >> '' @ [0])] = Some s" "cstr (prompt_text p) s"
    by (auto simp: path_ok_def prompt_text_def)
  have pr: "printable (prompt_text p)" "\<forall>c \<in> set (prompt_text p). c \<noteq> 0x0A \<and> c \<noteq> 0x0D"
    using p(2) by (auto simp: path_ok_def prompt_text_def printable_def)
  from print_chars_effect[OF ok s(2) pr(1), of White False] obtain st1 where
    st1: "print_inline s White st = Some st1" "moved st st1" "screen_ok st1"
      "scrollback st1 = tty_text (nat (MAX_CHARS st)) (stored_lines st) White False (prompt_text p) (scrollback st)"
    by (auto simp: print_inline_def)
  have "scrollback st1 = older @ [[] @ prompt_cells p]"
    using tty_text_row[OF pr(2), of "[]" "nat (MAX_CHARS st)" "stored_lines st" White False older] p(2)
    unfolding st1(4) last_row by (simp add: path_ok_def prompt_cells_def)
  then have sc: "scrollback st1 = older @ [prompt_cells p]" by simp
  from st1(3) obtain sb where sb: "screen_base st1 sb" "at_end st1 sb" by (auto simp: screen_ok_def)
  have "nat (cursorAt_X st1) = length (prompt_cells p)" using at_end_row(1)[OF sb sc] by simp
  with s(1) st1 sc show ?thesis by (intro exI[of _ st1]) (simp add: newTerminalInputLine_def)
qed

lemma prompt_printed:
  fixes st :: "'a terminal_scheme"
  assumes ok: "screen_ok st" and last_row: "scrollback st = older @ [[]]"
    and p: "cstr p (currentPath st)" "path_ok (nat (MAX_CHARS st)) p"
    and line: "lineInputLength st = 0" "lineInputCursorPos st = 0" "length (lineInputBuffer st) = TERMINAL_BUFFER_SIZE" "cstr [] (lineInputBuffer st)"
  shows "\<exists>st'. newTerminalInputLine st = Some st' \<and> editing older (prompt_cells p) [] [] st' \<and> kept st st'"
proof -
  from prompt_shown[OF ok last_row p] obtain st1 where
    st1: "newTerminalInputLine st = Some (st1\<lparr>lineInputStart_X := length (prompt_cells p)\<rparr>)" "moved st st1" "screen_ok st1"
      "scrollback st1 = older @ [prompt_cells p]" by blast
  from st1(3) obtain sb where sb: "screen_base st1 sb" "rendered_in st1 sb" "at_end st1 sb" by (auto simp: screen_ok_def)
  note row = at_end_row[OF sb(1,3) st1(4)]
  note f = moved_terminal[OF st1(2)] moved_fields(1)[OF st1(2)]
  let ?st = "st1\<lparr>lineInputStart_X := length (prompt_cells p)\<rparr>"
  have "screen_base ?st sb = screen_base st1 sb" "rendered_in ?st sb = rendered_in st1 sb"
    by (simp_all add: screen_base_def geometry_def rendered_in_def)
  then have base: "screen_base ?st sb" "rendered_in ?st sb" using sb by simp_all
  have "editing older (prompt_cells p) [] [] ?st"
    unfolding editing_def
    by (intro exI[of _ sb] conjI base) (use row f line p(2) in \<open>simp_all add: path_ok_def zless_nat_eq_int_zless\<close>)
  moreover have "kept st ?st" using f by (simp add: kept_def)
  ultimately show ?thesis using st1(1) by blast
qed

text \<open>A newline from a line that is edited, and from a state with the same screen.\<close>

lemma last_tty_newline: "last (tty_newline n ls) = []" "tty_newline n ls \<noteq> []"
  by (simp_all add: tty_newline_def)

lemma newline_line:
  fixes st st1 :: "'a terminal_scheme"
  assumes "editing older prompt l r st" and "screen.truncate st1 = screen.truncate st"
  shows "\<exists>st'. newline st1 = Some st' \<and> moved st1 st' \<and> screen_ok st' \<and> last (scrollback st') = [] \<and> scrollback st' \<noteq> []"
proof -
  obtain sb where "screen_base st sb" "rendered_in st sb" using assms(1) unfolding editing_def by blast
  then have "before_newline st1 sb" by (simp add: before_newline_def same_screen[OF assms(2)])
  from newline_effect[OF this] show ?thesis by (auto simp: last_tty_newline)
qed

section \<open>Commands\<close>

text \<open>What the shell relies on when it runs a command from a fresh row: it ends in a fresh row again, with the path
  it leaves behind, and changes neither the line nor the history.\<close>

definition answered :: "(u8 list \<Rightarrow> 'a \<Rightarrow> bool) \<Rightarrow> u8 list \<Rightarrow> 'a terminal_scheme \<Rightarrow> 'a terminal_scheme option \<Rightarrow> bool" where
  "answered keep p st r \<longleftrightarrow> (\<exists>st'. r = Some st' \<and> screen_ok st' \<and> scrollback st' \<noteq> [] \<and> last (scrollback st') = [] \<and>
     MAX_CHARS st' = MAX_CHARS st \<and> lineInputBuffer st' = lineInputBuffer st \<and>
     commandHistory st' = commandHistory st \<and> cmdHistCount st' = cmdHistCount st \<and>
     goThroughHistoryCount st' = goThroughHistoryCount st \<and> shift st' = shift st \<and>
     isExtendedScancode st' = isExtendedScancode st \<and> cstr p (currentPath st') \<and>
     keep (currentPath st') (terminal.more st'))"

text \<open>The last row of what a command that ends with a newline prints.\<close>

lemma answered_printed:
  assumes "printed (ps @ [NL]) st r" and "cstr p (currentPath st)" and "keep (currentPath st) (terminal.more st)"
  shows "answered keep p st r"
proof -
  from assms(1) obtain st' where r: "r = Some st'" "moved st st'" "screen_ok st'"
    "scrollback st' = tty_newline (stored_lines st) (tty_pieces (nat (MAX_CHARS st)) (stored_lines st) ps (scrollback st))"
    by (auto simp: printed_def)
  note f = moved_terminal[OF r(2)] moved_fields(1)[OF r(2)]
  show ?thesis unfolding answered_def
    by (intro exI[of _ st'] conjI) (use r f assms(2,3) in \<open>simp_all add: last_tty_newline\<close>)
qed

text \<open>The desk after a line was dealt with.\<close>

definition fresh_desk :: "u8 list \<Rightarrow> u8 list list \<Rightarrow> bool \<Rightarrow> bool \<Rightarrow> desk" where
  "fresh_desk p hist sh e = \<lparr>at_path = p, before_cursor = [], behind_cursor = [], recorded = hist, browsed = 0, shifted = sh, extended = e\<rparr>"

definition between_lines :: "u8 list \<Rightarrow> u8 list list \<Rightarrow> 'a terminal_scheme \<Rightarrow> bool" where
  "between_lines p hist st \<longleftrightarrow> screen_ok st \<and> scrollback st \<noteq> [] \<and> last (scrollback st) = [] \<and>
     length (lineInputBuffer st) = TERMINAL_BUFFER_SIZE \<and> (\<exists>w. cstr w (lineInputBuffer st)) \<and>
     history_ok hist st \<and> (\<forall>c \<in> set hist. length c < TERMINAL_BUFFER_SIZE \<and> printable c) \<and> goThroughHistoryCount st = 0 \<and>
     cstr p (currentPath st) \<and> path_ok (nat (MAX_CHARS st)) p"

lemma line_finished:
  fixes st :: "'a terminal_scheme"
  assumes b: "between_lines p hist st"
  shows "\<exists>st1 st2. reset_line_input st = Some st1 \<and> newTerminalInputLine st1 = Some st2 \<and>
    at_desk (fresh_desk p hist (shift st) (isExtendedScancode st)) st2 \<and> kept st st2"
proof -
  from b obtain w where "cstr w (lineInputBuffer st)" by (auto simp: between_lines_def)
  from reset_line_effect[OF this] obtain buf where
    r: "reset_line_input st = Some (st\<lparr>lineInputLength := 0, lineInputCursorPos := 0, lineInputBuffer := buf\<rparr>)" "cstr [] buf"
      "length buf = length (lineInputBuffer st)" by blast
  let ?st1 = "st\<lparr>lineInputLength := 0, lineInputCursorPos := 0, lineInputBuffer := buf\<rparr>"
  have tr: "screen.truncate ?st1 = screen.truncate st" by (simp add: screen.truncate_def)
  have "screen_ok ?st1 = screen_ok st" by (simp add: screen_ok_def screen_base_def geometry_def rendered_in_def at_end_def)
  then have ok: "screen_ok ?st1" using b by (simp add: between_lines_def)
  have sc: "scrollback ?st1 = butlast (scrollback st) @ [[]]"
    unfolding same_screen[OF tr] using b append_butlast_last_id[of "scrollback st"] by (auto simp: between_lines_def)
  have p: "cstr p (currentPath ?st1)" "path_ok (nat (MAX_CHARS ?st1)) p" and len: "length (lineInputBuffer ?st1) = TERMINAL_BUFFER_SIZE"
    using b r(3) by (simp_all add: between_lines_def)
  from prompt_printed[OF ok sc p _ _ len] r(2) obtain st2 where
    st2: "newTerminalInputLine ?st1 = Some st2" "editing (butlast (scrollback st)) (prompt_cells p) [] [] st2" "kept ?st1 st2" by auto
  have k: "kept st st2" using st2(3) by (simp add: kept_def)
  have "at_desk (fresh_desk p hist (shift st) (isExtendedScancode st)) st2"
    using st2(2) k b unfolding at_desk_def fresh_desk_def between_lines_def kept_def
    by (auto simp: line_of_def printable_def history_ok_def)
  with r(1) st2(1) k show ?thesis by blast
qed

section \<open>The table of commands\<close>

text \<open>The contract of a table: \<open>effect\<close> gives the path a command leaves behind, for the commands, arguments and paths
  it covers, and such a command answers in every state in which the rest of the kernel is in order.\<close>

locale command_table =
  fixes table :: "'a Command list" and names :: "u8 list list" and keep :: "u8 list \<Rightarrow> 'a \<Rightarrow> bool"
    and effect :: "u8 list \<Rightarrow> u8 list \<Rightarrow> u8 list \<Rightarrow> u8 list option"
  assumes table_ok: "commands_ok table names" and distinct_names: "distinct names"
    and answer: "\<lbrakk>i < length names; effect (names ! i) a p = Some p'; cstr a args; printable a; cstr p (currentPath st);
      keep (currentPath st) (terminal.more st); screen_ok st; scrollback st \<noteq> []; last (scrollback st) = [];
      history_ok hist st; \<forall>c \<in> set hist. printable c\<rbrakk> \<Longrightarrow> answered keep p' st (execute (table ! i) args st)"
begin

lemma first_name: "i < length names \<Longrightarrow> names ! i \<notin> set (take i names)"
  using distinct_names by (auto simp: in_set_conv_nth nth_eq_iff_index_eq)

end

lemma set_remember: "set (remember c h) \<subseteq> insert c (set h)"
  by (cases h) (auto simp: remember_def)

lemma printable_args: "printable s \<Longrightarrow> printable (command_args s)" "printable s \<Longrightarrow> printable (command_word s)"
  by (auto simp: printable_def command_args_def command_word_def dest: in_set_dropD set_takeWhileD)

lemma at_deskD:
  assumes "at_desk d st"
  obtains older where "editing older (prompt_cells (at_path d)) (before_cursor d) (behind_cursor d) st"
    "lineInputLength st = length (line_of d)" "length (lineInputBuffer st) = TERMINAL_BUFFER_SIZE" "cstr (line_of d) (lineInputBuffer st)"
    "length (line_of d) < TERMINAL_BUFFER_SIZE" "history_ok (recorded d) st"
    "\<forall>c \<in> set (recorded d). length c < TERMINAL_BUFFER_SIZE \<and> printable c" "printable (line_of d)"
proof -
  from assms obtain older where e: "editing older (prompt_cells (at_path d)) (before_cursor d) (behind_cursor d) st"
    by (auto simp: at_desk_def)
  then have b: "lineInputLength st = length (line_of d)" "length (lineInputBuffer st) = TERMINAL_BUFFER_SIZE" "cstr (line_of d) (lineInputBuffer st)"
    by (auto simp: editing_def line_of_def)
  show thesis by (rule that[OF e b]) (use assms cstr_length[OF b(3)] b(2) in \<open>simp_all add: at_desk_def\<close>)
qed

text \<open>The empty line is only ended.\<close>

lemma empty_line:
  fixes st :: "'a terminal_scheme"
  assumes d: "at_desk d st" and e: "line_of d = []" and z: "browsed d = 0"
  shows "\<exists>st1. processLineInputBuffer table st = reset_line_input st1 \<and> between_lines (at_path d) (recorded d) st1 \<and> kept st st1"
proof -
  from d obtain older where ed: "editing older (prompt_cells (at_path d)) (before_cursor d) (behind_cursor d) st"
    and b: "lineInputLength st = length (line_of d)" "length (lineInputBuffer st) = TERMINAL_BUFFER_SIZE" "cstr (line_of d) (lineInputBuffer st)"
    by (rule at_deskD)
  from newline_line[OF ed refl] obtain st1 where
    st1: "newline st = Some st1" "moved st st1" "screen_ok st1" "last (scrollback st1) = []" "scrollback st1 \<noteq> []" by blast
  note f = moved_terminal[OF st1(2)] moved_fields(1)[OF st1(2)]
  have "between_lines (at_path d) (recorded d) st1"
    using st1 f b d z unfolding between_lines_def at_desk_def history_ok_def by auto
  moreover have "kept st st1" using f by (simp add: kept_def)
  ultimately show ?thesis using st1(1) b(1) e by (intro exI[of _ st1]) (simp add: processLineInputBuffer_def)
qed

text \<open>A line whose first word is in no entry ends with the error message.\<close>

lemma error_line:
  fixes st :: "'a terminal_scheme"
  assumes d: "at_desk d st" and s: "line_of d \<noteq> []" "command_word (line_of d) \<notin> set names" and ok: "commands_ok table names"
    and z: "browsed d = 0"
  shows "\<exists>st1. processLineInputBuffer table st = reset_line_input st1 \<and>
    between_lines (at_path d) (remember (line_of d) (recorded d)) st1 \<and>
    MAX_CHARS st1 = MAX_CHARS st \<and> shift st1 = shift st \<and> isExtendedScancode st1 = isExtendedScancode st \<and>
    currentPath st1 = currentPath st \<and> terminal.more st1 = terminal.more st"
proof -
  let ?s = "line_of d" and ?w = "command_word (line_of d)"
  from d obtain older where ed: "editing older (prompt_cells (at_path d)) (before_cursor d) (behind_cursor d) st"
    and b: "lineInputLength st = length ?s" "length (lineInputBuffer st) = TERMINAL_BUFFER_SIZE" "cstr ?s (lineInputBuffer st)"
      "length ?s < TERMINAL_BUFFER_SIZE"
    and h: "history_ok (recorded d) st" "\<forall>c \<in> set (recorded d). length c < TERMINAL_BUFFER_SIZE \<and> printable c" and p: "printable ?s"
    by (rule at_deskD)
  from h(2) have hl: "\<forall>c \<in> set (recorded d). length c < TERMINAL_BUFFER_SIZE" by blast
  obtain st1 cmds n buf where st1: "st1 = st\<lparr>commandHistory := cmds, cmdHistCount := n, lineInputBuffer := buf\<rparr>"
    "length buf = length (lineInputBuffer st)" "history_ok (remember ?s (recorded d)) st1" "cstr ?w (lineInputBuffer st1)"
    "processLineInputBuffer table st =
      displayTerminalError [Chars (ascii ''Unknown Command: '' @ [0x27, 0]), Chars (lineInputBuffer st1), Chars [0x27, 0]] st1"
    by (rule dispatch_line[OF b(3,1) s(1) b(4) h(1) hl ok]) (use s(2) in blast)
  let ?parts = "[Chars (ascii ''Unknown Command: '' @ [0x27, 0]), Chars (lineInputBuffer st1), Chars [0x27, 0]]"
  let ?texts = "[ascii ''Unknown Command: '' @ [0x27], ?w, [0x27]]"
  have at: "list_all2 arg_text ?parts ?texts"
    using st1(4) cstrI[of "ascii ''Unknown Command: '' @ [0x27]" "[]"] cstrI[of "[0x27]" "[]"] by simp
  have "length ?w \<le> length ?s" by (simp add: command_word_def length_takeWhile_le)
  then have "sum_list (map length ?texts) < str_max" using b(4) by (simp add: TERMINAL_BUFFER_SIZE_def)
  from String_construct_spec[OF at this] obtain t where t: "String_construct ?parts = Some t" "cstr (concat ?texts) t" by blast
  have pt: "printable (concat ?texts)" using printable_args(2)[OF p] by (simp add: printable_concat) (simp add: printable_def)
  have tr: "screen.truncate st1 = screen.truncate st" by (simp add: st1(1) screen.truncate_def)
  from newline_line[OF ed tr] obtain st2 where
    st2: "newline st1 = Some st2" "moved st1 st2" "screen_ok st2" by blast
  from printsD[OF prints_info[OF t(2) pt, of Error] st2(3)] obtain st3 where
    st3: "printInfoLine Error t st2 = Some st3" "moved st2 st3" "screen_ok st3" "last (scrollback st3) = []" "scrollback st3 \<noteq> []"
    by (auto simp: printed_def tag_pieces_def last_tty_newline)
  note f = moved_terminal[OF moved_trans[OF st2(2) st3(2)]] moved_fields(1)[OF moved_trans[OF st2(2) st3(2)]]
  have "between_lines (at_path d) (remember ?s (recorded d)) st3"
    using st3(3-5) f st1(2-4) b d z h(2) p set_remember[of ?s "recorded d"]
    unfolding between_lines_def at_desk_def history_ok_def by (auto simp: st1(1))
  moreover have "processLineInputBuffer table st = reset_line_input st3"
    using st1(5) t(1) st2(1) st3(1) by (simp add: displayTerminalError_def)
  ultimately show ?thesis using f by (intro exI[of _ st3]) (simp add: st1(1))
qed

context command_table
begin

lemma command_line:
  fixes st :: "'a terminal_scheme"
  assumes d: "at_desk d st" and s: "line_of d \<noteq> []" and z: "browsed d = 0"
    and i: "i < length names" "names ! i = command_word (line_of d)"
    and eff: "effect (names ! i) (command_args (line_of d)) (at_path d) = Some p'" "path_ok (nat (MAX_CHARS st)) p'"
    and k: "keep (currentPath st) (terminal.more st)"
  shows "\<exists>st1. processLineInputBuffer table st = reset_line_input st1 \<and>
    between_lines p' (remember (line_of d) (recorded d)) st1 \<and>
    MAX_CHARS st1 = MAX_CHARS st \<and> shift st1 = shift st \<and> isExtendedScancode st1 = isExtendedScancode st \<and>
    keep (currentPath st1) (terminal.more st1)"
proof -
  let ?s = "line_of d" and ?h = "remember (line_of d) (recorded d)"
  from d obtain older where ed: "editing older (prompt_cells (at_path d)) (before_cursor d) (behind_cursor d) st"
    and b: "lineInputLength st = length ?s" "length (lineInputBuffer st) = TERMINAL_BUFFER_SIZE" "cstr ?s (lineInputBuffer st)"
      "length ?s < TERMINAL_BUFFER_SIZE"
    and h: "history_ok (recorded d) st" "\<forall>c \<in> set (recorded d). length c < TERMINAL_BUFFER_SIZE \<and> printable c" and p: "printable ?s"
    by (rule at_deskD)
  from h(2) have hl: "\<forall>c \<in> set (recorded d). length c < TERMINAL_BUFFER_SIZE" by blast
  obtain st1 cmds n buf args where st1: "st1 = st\<lparr>commandHistory := cmds, cmdHistCount := n, lineInputBuffer := buf\<rparr>"
    "length buf = length (lineInputBuffer st)" "history_ok ?h st1" "cstr (command_word ?s) (lineInputBuffer st1)" "cstr (command_args ?s) args"
    "processLineInputBuffer table st = do { st \<leftarrow> newline st1; st \<leftarrow> execute (table ! i) args st; reset_line_input st }"
    by (rule dispatch_line[OF b(3,1) s b(4) h(1) hl table_ok]) (use i first_name[OF i(1)] in auto)
  have tr: "screen.truncate st1 = screen.truncate st" by (simp add: st1(1) screen.truncate_def)
  from newline_line[OF ed tr] obtain st2 where
    st2: "newline st1 = Some st2" "moved st1 st2" "screen_ok st2" "last (scrollback st2) = []" "scrollback st2 \<noteq> []" by blast
  note f = moved_terminal[OF st2(2)] moved_fields(1)[OF st2(2)]
  have hp: "\<forall>c \<in> set ?h. length c < TERMINAL_BUFFER_SIZE \<and> printable c" using set_remember[of ?s "recorded d"] h(2) b(4) p by auto
  have c: "cstr (at_path d) (currentPath st2)" "keep (currentPath st2) (terminal.more st2)" "history_ok ?h st2"
    using d k st1(3) f by (simp_all add: at_desk_def history_ok_def st1(1))
  have "\<forall>c \<in> set ?h. printable c" using hp by blast
  from answer[OF i(1) eff(1) st1(5) printable_args(1)[OF p] c(1,2) st2(3,5,4) c(3) this] obtain st3 where
    st3: "execute (table ! i) args st2 = Some st3" "screen_ok st3" "scrollback st3 \<noteq> []" "last (scrollback st3) = []"
      "MAX_CHARS st3 = MAX_CHARS st2" "lineInputBuffer st3 = lineInputBuffer st2" "commandHistory st3 = commandHistory st2"
      "cmdHistCount st3 = cmdHistCount st2" "goThroughHistoryCount st3 = goThroughHistoryCount st2" "shift st3 = shift st2"
      "isExtendedScancode st3 = isExtendedScancode st2" "cstr p' (currentPath st3)" "keep (currentPath st3) (terminal.more st3)"
    unfolding answered_def by blast
  have "between_lines p' ?h st3"
    using st3(2-12) c(3) f st1(2,4) b(2) d z hp eff(2) unfolding between_lines_def at_desk_def history_ok_def by (auto simp: st1(1))
  moreover have "processLineInputBuffer table st = reset_line_input st3" using st1(6) st2(1) st3(1) by simp
  ultimately show ?thesis using st3(5,10,11,13) f by (intro exI[of _ st3]) (simp add: st1(1))
qed

end

end
