(* ===== verification/Session.thy ===== *)
theory Session
  imports SessionSpec
begin

text \<open>
  The keys as steps of the desk, and the keyboard handler as their implementation. A step
  is possible where the terminal keeps to its buffers: a character or a completed name
  needs room, a recalled line must be one that was typed on one row, a command must be
  covered by the contract of its table.
\<close>

section \<open>Steps\<close>

definition edit_desk :: "edit \<Rightarrow> desk \<Rightarrow> desk" where
  "edit_desk e d = (case edit_text e (before_cursor d, behind_cursor d) of
     (l, r) \<Rightarrow> d\<lparr>before_cursor := l, behind_cursor := r\<rparr>)"

text \<open>The \<open>k\<close>-th line from the end of the history is shown; for 0 the empty line.\<close>

definition browse :: "nat \<Rightarrow> desk \<Rightarrow> desk" where
  "browse k d = d\<lparr>browsed := k, before_cursor := (if k = 0 then [] else recorded d ! (length (recorded d) - k)), behind_cursor := []\<rparr>"

definition one_row :: "u8 list \<Rightarrow> bool" where "one_row s \<longleftrightarrow> (\<forall>c \<in> set s. c \<noteq> 0x0A \<and> c \<noteq> 0x0D)"

definition can_browse :: "nat \<Rightarrow> nat \<Rightarrow> desk \<Rightarrow> bool" where
  "can_browse w k d \<longleftrightarrow> (let s = before_cursor (browse k d) in one_row s \<and> room_for w d (length s))"

text \<open>A scan code the terminal gets: a key is pressed and it is no shift key.\<close>

definition plain_code :: "u8 \<Rightarrow> bool" where
  "plain_code s \<longleftrightarrow> s \<noteq> 0 \<and> s AND 0x80 = 0 \<and> s \<noteq> 0x2A \<and> s \<noteq> 0x36"

definition typed_key :: "u8 \<Rightarrow> desk \<Rightarrow> u16 \<Rightarrow> bool" where
  "typed_key s d k \<longleftrightarrow> plain_code s \<and> \<not> extended d \<and> scancode_to_keycode current_layout (shifted d) s = Some k"

inductive press :: "nat \<Rightarrow> u8 list list \<Rightarrow> (u8 list \<Rightarrow> u8 list \<Rightarrow> u8 list \<Rightarrow> u8 list option) \<Rightarrow> u8 \<Rightarrow> desk \<Rightarrow> desk \<Rightarrow> bool"
  for w names effect where
  shift_down: "s = 0x2A \<or> s = 0x36 \<Longrightarrow> press w names effect s d (d\<lparr>shifted := True\<rparr>)"
| shift_up: "s = 0xAA \<or> s = 0xB6 \<Longrightarrow> press w names effect s d (d\<lparr>shifted := False\<rparr>)"
| prefix_code: "press w names effect 0xE0 d (d\<lparr>extended := True\<rparr>)"
| released: "s AND 0x80 \<noteq> 0 \<Longrightarrow> s \<notin> {0xAA, 0xB6, 0xE0} \<Longrightarrow> press w names effect s d (d\<lparr>extended := False\<rparr>)"
| silent: "press w names effect 0 d d"
| up: "extended d \<Longrightarrow> browsed d < length (recorded d) \<Longrightarrow> can_browse w (Suc (browsed d)) d \<Longrightarrow>
    press w names effect 0x48 d ((browse (Suc (browsed d)) d)\<lparr>extended := False\<rparr>)"
| up_end: "extended d \<Longrightarrow> browsed d = length (recorded d) \<Longrightarrow> press w names effect 0x48 d (d\<lparr>extended := False\<rparr>)"
| down: "extended d \<Longrightarrow> browsed d \<noteq> 0 \<Longrightarrow> can_browse w (browsed d - 1) d \<Longrightarrow>
    press w names effect 0x50 d ((browse (browsed d - 1) d)\<lparr>extended := False\<rparr>)"
| down_end: "extended d \<Longrightarrow> browsed d = 0 \<Longrightarrow> press w names effect 0x50 d (d\<lparr>extended := False\<rparr>)"
| arrow_left: "extended d \<Longrightarrow> press w names effect 0x4B d ((edit_desk CursorLeft d)\<lparr>extended := False\<rparr>)"
| arrow_right: "extended d \<Longrightarrow> press w names effect 0x4D d ((edit_desk CursorRight d)\<lparr>extended := False\<rparr>)"
| other_extended: "extended d \<Longrightarrow> plain_code s \<Longrightarrow> s \<notin> {0x48, 0x50, 0x4B, 0x4D} \<Longrightarrow>
    press w names effect s d (d\<lparr>extended := False\<rparr>)"
| character: "typed_key s d k \<Longrightarrow> k \<notin> {256, 257, 258} \<Longrightarrow> ucast k \<noteq> (0 :: u8) \<Longrightarrow> room_for w d (Suc (length (line_of d))) \<Longrightarrow>
    press w names effect s d (edit_desk (Insert (ucast k)) d)"
| no_character: "typed_key s d k \<Longrightarrow> k \<notin> {256, 257, 258} \<Longrightarrow> ucast k = (0 :: u8) \<Longrightarrow> press w names effect s d d"
| backspace_key: "typed_key s d 257 \<Longrightarrow> press w names effect s d (edit_desk Backspace d)"
| nothing_to_complete: "typed_key s d 258 \<Longrightarrow> line_of d = [] \<Longrightarrow> press w names effect s d d"
| completed: "typed_key s d 258 \<Longrightarrow> before_cursor d = pre @ t1 \<Longrightarrow> behind_cursor d = t2 @ post \<Longrightarrow> token_at pre (t1 @ t2) post \<Longrightarrow>
    t1 @ t2 \<noteq> [] \<Longrightarrow> filter (prefix (t1 @ t2)) names = [new] \<Longrightarrow> room_for w d (length (pre @ new @ post)) \<Longrightarrow>
    press w names effect s d (d\<lparr>before_cursor := pre @ new, behind_cursor := post\<rparr>)"
| enter_empty: "typed_key s d 256 \<Longrightarrow> line_of d = [] \<Longrightarrow>
    press w names effect s d (fresh_desk (at_path d) (recorded d) (shifted d) False)"
| enter_unknown: "typed_key s d 256 \<Longrightarrow> line_of d \<noteq> [] \<Longrightarrow> command_word (line_of d) \<notin> set names \<Longrightarrow>
    press w names effect s d (fresh_desk (at_path d) (remember (line_of d) (recorded d)) (shifted d) False)"
| enter_command: "typed_key s d 256 \<Longrightarrow> line_of d \<noteq> [] \<Longrightarrow> command_word (line_of d) \<in> set names \<Longrightarrow>
    effect (command_word (line_of d)) (command_args (line_of d)) (at_path d) = Some p \<Longrightarrow> path_ok w p \<Longrightarrow>
    press w names effect s d (fresh_desk p (remember (line_of d) (recorded d)) (shifted d) False)"

inductive presses :: "nat \<Rightarrow> u8 list list \<Rightarrow> (u8 list \<Rightarrow> u8 list \<Rightarrow> u8 list \<Rightarrow> u8 list option) \<Rightarrow> u8 list \<Rightarrow> desk \<Rightarrow> desk \<Rightarrow> bool"
  for w names effect where
  none: "presses w names effect [] d d"
| more: "press w names effect s d d1 \<Longrightarrow> presses w names effect codes d1 d2 \<Longrightarrow> presses w names effect (s # codes) d d2"

inductive_simps presses_simps: "presses w names effect [] d d'" "presses w names effect (s # codes) d d'"

lemma presses_append:
  "presses w names effect (xs @ ys) d d' \<longleftrightarrow> (\<exists>d1. presses w names effect xs d d1 \<and> presses w names effect ys d1 d')"
  by (induction xs arbitrary: d) (auto simp: presses_simps)

text \<open>A key has a step, unless it is the tabulator, as long as the line has room, the recorded lines can be shown and a line that
  is ended is covered.\<close>

lemma press_enabled:
  assumes room: "room_for w d (Suc (length (line_of d)))" and past: "\<forall>c \<in> set (recorded d). one_row c \<and> room_for w d (length c)"
    and b: "browsed d \<le> length (recorded d)" and tab: "\<not> typed_key s d 258"
    and line: "line_of d \<noteq> [] \<Longrightarrow> command_word (line_of d) \<in> set names \<Longrightarrow>
      \<exists>p. effect (command_word (line_of d)) (command_args (line_of d)) (at_path d) = Some p \<and> path_ok w p"
  shows "\<exists>d'. press w names effect s d d'"
proof (cases "plain_code s")
  case False
  then have "s = 0 \<or> s AND 0x80 \<noteq> 0 \<or> s = 0x2A \<or> s = 0x36" by (simp add: plain_code_def)
  then show ?thesis
    by (cases "s = 0xAA \<or> s = 0xB6"; cases "s = 0xE0"; cases "s = 0x2A \<or> s = 0x36"; cases "s = 0")
      (auto intro: press.shift_down press.shift_up press.prefix_code press.released press.silent)
next
  case plain: True
  show ?thesis
  proof (cases "extended d")
    case True
    have row: "can_browse w k d" if "k \<le> length (recorded d)" for k
    proof (cases "k = 0")
      case True
      then show ?thesis using room by (simp add: can_browse_def browse_def one_row_def room_for_def)
    next
      case False
      then have "recorded d ! (length (recorded d) - k) \<in> set (recorded d)" using that by simp
      with past have "one_row (recorded d ! (length (recorded d) - k))" "room_for w d (length (recorded d ! (length (recorded d) - k)))"
        by blast+
      then show ?thesis using False by (simp add: can_browse_def browse_def Let_def)
    qed
    consider "s = 0x48" | "s = 0x50" | "s = 0x4B" | "s = 0x4D" | "s \<notin> {0x48, 0x50, 0x4B, 0x4D}" by blast
    then show ?thesis
    proof cases
      case 1
      then show ?thesis using True row[of "Suc (browsed d)"] b
        by (cases "browsed d < length (recorded d)") (auto intro: press.up press.up_end)
    next
      case 2
      have "browsed d - 1 \<le> length (recorded d)" using b by simp
      from row[OF this] 2 True show ?thesis by (cases "browsed d = 0") (blast intro: press.down press.down_end)+
    qed (use True plain in \<open>auto intro: press.arrow_left press.arrow_right press.other_extended\<close>)
  next
    case False
    obtain k where k: "typed_key s d k"
      using us_key_ok[of "shifted d" s] plain False by (auto simp: typed_key_def current_layout_def)
    consider "k = 256" "line_of d = []" | "k = 256" "line_of d \<noteq> []" "command_word (line_of d) \<notin> set names"
      | "k = 256" "line_of d \<noteq> []" "command_word (line_of d) \<in> set names" | "k = 257"
      | "k \<notin> {256, 257, 258}" "ucast k = (0 :: u8)" | "k \<notin> {256, 257, 258}" "ucast k \<noteq> (0 :: u8)" using tab k by blast
    then show ?thesis
    proof cases
      case 3
      with line obtain p where "effect (command_word (line_of d)) (command_args (line_of d)) (at_path d) = Some p" "path_ok w p" by blast
      with 3 k show ?thesis by (auto intro: press.enter_command)
    qed (use k room in \<open>auto intro: press.enter_empty press.enter_unknown press.backspace_key press.no_character press.character\<close>)
  qed
qed

primrec handle_keys :: "'a Command list \<Rightarrow> u8 list \<Rightarrow> 'a terminal_scheme \<Rightarrow> 'a terminal_scheme option" where
  "handle_keys table [] st = Some st"
| "handle_keys table (s # codes) st = do { st \<leftarrow> keyboard_handler table s st; handle_keys table codes st }"

section \<open>The desk of a state\<close>

definition serves :: "nat \<Rightarrow> (u8 list \<Rightarrow> 'a \<Rightarrow> bool) \<Rightarrow> desk \<Rightarrow> 'a terminal_scheme \<Rightarrow> bool" where
  "serves w keep d st \<longleftrightarrow> at_desk d st \<and> nat (MAX_CHARS st) = w \<and> keep (currentPath st) (terminal.more st)"

lemma editing_flags:
  "editing older prompt l r (st\<lparr>shift := b\<rparr>) = editing older prompt l r st"
  "editing older prompt l r (st\<lparr>isExtendedScancode := b\<rparr>) = editing older prompt l r st"
  "editing older prompt l r (st\<lparr>goThroughHistoryCount := k\<rparr>) = editing older prompt l r st"
  by (simp_all add: editing_def screen_base_def geometry_def rendered_in_def)

lemma history_flags:
  "history_ok h (st\<lparr>shift := b\<rparr>) = history_ok h st" "history_ok h (st\<lparr>isExtendedScancode := b\<rparr>) = history_ok h st"
  "history_ok h (st\<lparr>goThroughHistoryCount := k\<rparr>) = history_ok h st"
  by (simp_all add: history_ok_def)

lemma serves_flags:
  assumes "serves w keep d st"
  shows "serves w keep (d\<lparr>shifted := b\<rparr>) (st\<lparr>shift := b\<rparr>)" "serves w keep (d\<lparr>extended := b\<rparr>) (st\<lparr>isExtendedScancode := b\<rparr>)"
    "serves w keep (d\<lparr>extended := extended d\<rparr>) st"
    "k \<le> length (recorded d) \<Longrightarrow> serves w keep (d\<lparr>browsed := k\<rparr>) (st\<lparr>goThroughHistoryCount := k\<rparr>)"
  using assms by (auto simp: serves_def at_desk_def editing_flags history_flags line_of_def)

text \<open>An operation on the line that leaves everything else.\<close>

lemma serves_kept:
  assumes "serves w keep d st" and "editing older (prompt_cells (at_path d)) l r st'" and "kept st st'" and "printable (l @ r)"
  shows "serves w keep (d\<lparr>before_cursor := l, behind_cursor := r\<rparr>) st'"
  using assms by (auto simp: serves_def at_desk_def kept_def history_ok_def line_of_def)

lemma serves_editing:
  assumes "serves w keep d st"
  obtains older where "editing older (prompt_cells (at_path d)) (before_cursor d) (behind_cursor d) st"
  using assms by (auto simp: serves_def at_desk_def)

lemma serves_edit:
  assumes d: "serves w keep d st" and fits: "edit_fits (nat (MAX_CHARS st) - length (prompt_cells (at_path d))) e (before_cursor d, behind_cursor d)"
  shows "\<exists>st'. exec_edit e st = Some st' \<and> serves w keep (edit_desk e d) st'"
proof -
  from d obtain older where ed: "editing older (prompt_cells (at_path d)) (before_cursor d) (behind_cursor d) st" by (rule serves_editing)
  obtain l r where lr: "edit_text e (before_cursor d, behind_cursor d) = (l, r)" by force
  from editing_edit[OF ed fits] obtain st' where
    st': "exec_edit e st = Some st'" "editing older (prompt_cells (at_path d)) l r st'" "kept st st'" by (auto simp: lr)
  have p: "printable (before_cursor d @ behind_cursor d)" using d by (simp add: serves_def at_desk_def line_of_def)
  have "printable (l @ r)"
  proof (cases e)
    case (Insert c)
    then show ?thesis using p lr fits by (auto simp: printable_def edit_fits_def)
  next
    case CursorLeft
    then have "l @ r = before_cursor d @ behind_cursor d" using lr by (auto split: if_splits)
    then show ?thesis using p by simp
  next
    case CursorRight
    then show ?thesis using p lr by (auto simp: printable_def split: list.splits)
  qed (use p lr in \<open>auto simp: printable_def dest: in_set_butlastD\<close>)
  from serves_kept[OF d st'(2,3) this] st'(1) lr show ?thesis by (auto simp: edit_desk_def)
qed

section \<open>Extended keys\<close>

lemma plain_handler: "plain_code s \<Longrightarrow> keyboard_handler table s st = terminal_on_key table s st"
  by (auto simp: keyboard_handler_def plain_code_def)

lemma extended_handler:
  assumes "serves w keep d st" and "extended d" and "plain_code s"
    and "extended_key s st = Some st1" and "serves w keep d1 st1"
  shows "\<exists>st'. keyboard_handler table s st = Some st' \<and> serves w keep (d1\<lparr>extended := False\<rparr>) st'"
proof -
  obtain k where "scancode_to_keycode current_layout (shift st) s = Some k" using us_key_ok[of "shift st" s] by (auto simp: current_layout_def)
  moreover have "isExtendedScancode st" using assms(1,2) by (simp add: serves_def at_desk_def)
  ultimately have "keyboard_handler table s st = Some (st1\<lparr>isExtendedScancode := False\<rparr>)"
    using assms(4) by (simp add: plain_handler[OF assms(3)] terminal_on_key_def)
  then show ?thesis using serves_flags(2)[OF assms(5)] by blast
qed

lemma clear_line:
  fixes st :: "'a terminal_scheme"
  assumes ed: "editing older prompt l r st"
  shows "\<exists>st'. clear_input_on_screen st \<bind> reset_line_input = Some st' \<and> editing older prompt [] [] st' \<and> kept st st'"
proof -
  from clear_input_effect[OF ed] obtain st1 where
    st1: "clear_input_on_screen st = Some st1" "moved (st\<lparr>lineInputCursorPos := 0\<rparr>) st1" "screen_ok st1" "scrollback st1 = older @ [prompt]"
    by blast
  note f = moved_terminal[OF st1(2)] moved_fields(1)[OF st1(2)]
  have b: "length (lineInputBuffer st) = TERMINAL_BUFFER_SIZE" "cstr (l @ r) (lineInputBuffer st)" "lineInputStart_X st = length prompt"
    "int (length prompt + length (l @ r)) < MAX_CHARS st" using ed by (auto simp: editing_def)
  from reset_line_effect[of "l @ r" st1] f b obtain buf where
    r: "reset_line_input st1 = Some (st1\<lparr>lineInputLength := 0, lineInputCursorPos := 0, lineInputBuffer := buf\<rparr>)" "cstr [] buf"
      "length buf = length (lineInputBuffer st1)" by auto
  let ?st = "st1\<lparr>lineInputLength := 0, lineInputCursorPos := 0, lineInputBuffer := buf\<rparr>"
  from st1(3) obtain sb where sb: "screen_base st1 sb" "rendered_in st1 sb" "at_end st1 sb" by (auto simp: screen_ok_def)
  note row = at_end_row[OF sb(1,3) st1(4)]
  have "screen_base ?st sb = screen_base st1 sb" "rendered_in ?st sb = rendered_in st1 sb"
    by (simp_all add: screen_base_def geometry_def rendered_in_def)
  then have base: "screen_base ?st sb" "rendered_in ?st sb" using sb by simp_all
  have "editing older prompt [] [] ?st"
    unfolding editing_def by (intro exI[of _ sb] conjI base) (use row f b r in simp_all)
  moreover have "kept st ?st" using f by (simp add: kept_def)
  ultimately show ?thesis using st1(1) r(1) by simp
qed

lemma serves_browse:
  assumes d: "serves w keep d st" and k: "k \<le> length (recorded d)" "can_browse w k d"
  shows "\<exists>st'. (if k = 0 then clear_input_on_screen (st\<lparr>goThroughHistoryCount := k\<rparr>) \<bind> reset_line_input
      else handle_show_history (st\<lparr>goThroughHistoryCount := k\<rparr>)) = Some st' \<and> serves w keep (browse k d) st'"
proof -
  let ?st = "st\<lparr>goThroughHistoryCount := k\<rparr>" and ?d = "d\<lparr>browsed := k\<rparr>"
  have d1: "serves w keep ?d ?st" by (rule serves_flags(4)[OF d k(1)])
  then obtain older where ed: "editing older (prompt_cells (at_path d)) (before_cursor d) (behind_cursor d) ?st"
    by (rule serves_editing) simp
  show ?thesis
  proof (cases "k = 0")
    case True
    from clear_line[OF ed] obtain st' where
      "clear_input_on_screen ?st \<bind> reset_line_input = Some st'" "editing older (prompt_cells (at_path d)) [] [] st'" "kept ?st st'" by blast
    with True serves_kept[OF d1, of older "[]" "[]" st'] show ?thesis by (auto simp: browse_def printable_def)
  next
    case False
    let ?c = "recorded d ! (length (recorded d) - k)"
    have "?c \<in> set (recorded d)" using False k(1) by (intro nth_mem) linarith
    then have c: "printable ?c" "length ?c < TERMINAL_BUFFER_SIZE" using d by (simp_all add: serves_def at_desk_def)
    have "cstr ?c (commandHistory st ! (length (recorded d) - k))" using d False k(1) by (simp add: serves_def at_desk_def history_ok_def)
    then have "0 \<notin> set ?c" by (simp add: cstr_def)
    moreover have "one_row ?c" using k(2) False by (simp add: can_browse_def browse_def Let_def)
    ultimately have pl: "plain ?c" using c by (auto simp: plain_def printable_def one_row_def)
    have fits: "int (length (prompt_cells (at_path d)) + length ?c) < MAX_CHARS ?st"
      using d k(2) False by (auto simp: serves_def can_browse_def browse_def room_for_def Let_def)
    have h: "history_ok (recorded d) ?st" "0 < k" "goThroughHistoryCount ?st = k" using d False by (simp_all add: serves_def at_desk_def history_flags)
    from show_history_effect[OF ed h(1,2) k(1) h(3) pl fits] obtain st' where
      "handle_show_history ?st = Some st'" "editing older (prompt_cells (at_path d)) ?c [] st'" "kept ?st st'" by blast
    with False serves_kept[OF d1, of older ?c "[]" st'] c(1) show ?thesis by (auto simp: browse_def)
  qed
qed

text \<open>The four arrows, and what the keys without a meaning do.\<close>

lemma up_pressed:
  assumes d: "serves w keep d st" "extended d" and k: "browsed d < length (recorded d)" "can_browse w (Suc (browsed d)) d"
  shows "\<exists>st'. keyboard_handler table 0x48 st = Some st' \<and> serves w keep ((browse (Suc (browsed d)) d)\<lparr>extended := False\<rparr>) st'"
proof -
  have h: "cmdHistCount st = length (recorded d)" "goThroughHistoryCount st = browsed d"
    using d(1) by (auto simp: serves_def at_desk_def history_ok_def)
  from serves_browse[OF d(1) Suc_leI[OF k(1)] k(2)] obtain st1 where
    st1: "handle_show_history (st\<lparr>goThroughHistoryCount := Suc (browsed d)\<rparr>) = Some st1" "serves w keep (browse (Suc (browsed d)) d) st1"
    by auto
  have "extended_key 0x48 st = Some st1" using st1(1) h k(1) by (auto simp: extended_key_def)
  from extended_handler[OF d _ this st1(2)] show ?thesis by (simp add: plain_code_def)
qed

lemma down_pressed:
  assumes d: "serves w keep d st" "extended d" and k: "browsed d \<noteq> 0" "can_browse w (browsed d - 1) d"
  shows "\<exists>st'. keyboard_handler table 0x50 st = Some st' \<and> serves w keep ((browse (browsed d - 1) d)\<lparr>extended := False\<rparr>) st'"
proof -
  have h: "goThroughHistoryCount st = browsed d" "browsed d - 1 \<le> length (recorded d)" using d(1) by (auto simp: serves_def at_desk_def)
  from serves_browse[OF d(1) h(2) k(2)] obtain st1 where
    st1: "(if browsed d - 1 = 0 then clear_input_on_screen (st\<lparr>goThroughHistoryCount := browsed d - 1\<rparr>) \<bind> reset_line_input
      else handle_show_history (st\<lparr>goThroughHistoryCount := browsed d - 1\<rparr>)) = Some st1" "serves w keep (browse (browsed d - 1) d) st1" by blast
  obtain m where "browsed d = Suc m" using k(1) by (cases "browsed d") auto
  then have "extended_key 0x50 st = Some st1" using st1(1) h(1) by (auto simp: extended_key_def split: if_splits)
  from extended_handler[OF d _ this st1(2)] show ?thesis by (simp add: plain_code_def)
qed

lemma arrow_pressed:
  assumes d: "serves w keep d st" "extended d"
  shows "\<exists>st'. keyboard_handler table 0x4B st = Some st' \<and> serves w keep ((edit_desk CursorLeft d)\<lparr>extended := False\<rparr>) st'"
    and "\<exists>st'. keyboard_handler table 0x4D st = Some st' \<and> serves w keep ((edit_desk CursorRight d)\<lparr>extended := False\<rparr>) st'"
proof -
  from serves_edit[OF d(1), of CursorLeft] serves_edit[OF d(1), of CursorRight] obtain l r where
    l: "cursor_move_inline False st = Some l" "serves w keep (edit_desk CursorLeft d) l" and
    r: "cursor_move_inline True st = Some r" "serves w keep (edit_desk CursorRight d) r" by (auto simp: edit_fits_def)
  have "extended_key 0x4B st = Some l" "extended_key 0x4D st = Some r" using l(1) r(1) by (simp_all add: extended_key_def)
  with extended_handler[OF d _ _ l(2)] extended_handler[OF d _ _ r(2)]
  show "\<exists>st'. keyboard_handler table 0x4B st = Some st' \<and> serves w keep ((edit_desk CursorLeft d)\<lparr>extended := False\<rparr>) st'"
    and "\<exists>st'. keyboard_handler table 0x4D st = Some st' \<and> serves w keep ((edit_desk CursorRight d)\<lparr>extended := False\<rparr>) st'"
    by (simp_all add: plain_code_def)
qed

lemma ignored_pressed:
  assumes d: "serves w keep d st" "extended d" "plain_code s"
    and no: "s = 0x48 \<longrightarrow> browsed d = length (recorded d)" "s = 0x50 \<longrightarrow> browsed d = 0" "s \<noteq> 0x4B" "s \<noteq> 0x4D"
  shows "\<exists>st'. keyboard_handler table s st = Some st' \<and> serves w keep (d\<lparr>extended := False\<rparr>) st'"
proof -
  have "cmdHistCount st = length (recorded d)" "goThroughHistoryCount st = browsed d"
    using d(1) by (auto simp: serves_def at_desk_def history_ok_def)
  then have "extended_key s st = Some st" using no by (simp add: extended_key_def)
  from extended_handler[OF d this d(1)] show ?thesis .
qed

section \<open>Other keys\<close>

lemma typed_handler:
  assumes "serves w keep d st" and "typed_key s d k"
  shows "keyboard_handler table s st =
    (if k = 256 then processLineInputBuffer table (st\<lparr>goThroughHistoryCount := 0\<rparr>) \<bind> newTerminalInputLine
     else if k = 257 then handle_input_buffer_deletion st
     else if k = 258 then handleTabAutoCompletion table st
     else handle_input_buffer_insertion k st)"
proof -
  have "plain_code s" "scancode_to_keycode current_layout (shift st) s = Some k" "\<not> isExtendedScancode st"
    using assms by (simp_all add: typed_key_def serves_def at_desk_def)
  then show ?thesis by (simp add: plain_handler terminal_on_key_def)
qed

lemma typed_small: "typed_key s d k \<Longrightarrow> (ucast k :: u8) < 128"
  using us_key_ok[of "shifted d" s] key_ok_narrow[of k] by (auto simp: typed_key_def current_layout_def word_less_nat_alt)

lemma character_pressed:
  assumes d: "serves w keep d st" "typed_key s d k" and k: "k \<notin> {256, 257, 258}" "ucast k \<noteq> (0 :: u8)"
    and room: "room_for w d (Suc (length (line_of d)))"
  shows "\<exists>st'. keyboard_handler table s st = Some st' \<and> serves w keep (edit_desk (Insert (ucast k)) d) st'"
proof -
  have "edit_fits (nat (MAX_CHARS st) - length (prompt_cells (at_path d))) (Insert (ucast k)) (before_cursor d, behind_cursor d)"
    using k(2) typed_small[OF d(2)] room d(1) by (auto simp: edit_fits_def room_for_def line_of_def serves_def)
  from serves_edit[OF d(1) this] show ?thesis
    using k by (auto simp: typed_handler[OF d] handle_input_buffer_insertion_def)
qed

lemma backspace_pressed:
  assumes d: "serves w keep d st" "typed_key s d 257"
  shows "\<exists>st'. keyboard_handler table s st = Some st' \<and> serves w keep (edit_desk Backspace d) st'"
  using serves_edit[OF d(1), of Backspace] by (simp add: typed_handler[OF d] edit_fits_def)

lemma completion_pressed:
  assumes d: "serves w keep d st" "typed_key s d 258" and ok: "commands_ok table names"
    and t: "before_cursor d = pre @ t1" "behind_cursor d = t2 @ post" "token_at pre (t1 @ t2) post" "t1 @ t2 \<noteq> []"
    and one: "filter (prefix (t1 @ t2)) names = [new]" and room: "room_for w d (length (pre @ new @ post))"
  shows "\<exists>st'. keyboard_handler table s st = Some st' \<and> serves w keep (d\<lparr>before_cursor := pre @ new, behind_cursor := post\<rparr>) st'"
proof -
  from d(1) obtain older where ed: "editing older (prompt_cells (at_path d)) (pre @ t1) (t2 @ post) st"
    by (rule serves_editing) (simp add: t)
  have fits: "length (pre @ new @ post) < TERMINAL_BUFFER_SIZE"
    "int (length (prompt_cells (at_path d)) + length (pre @ new @ post)) < MAX_CHARS st"
    using room d(1) by (auto simp: room_for_def serves_def)
  from completion_effect[OF ed t(3,4) ok one fits] obtain st' where
    st': "handleTabAutoCompletion table st = Some st'" "editing older (prompt_cells (at_path d)) (pre @ new) post st'" "kept st st'" by blast
  have "new \<in> set names" using arg_cong[OF one, of set] by auto
  then obtain i where "i < length names" "names ! i = new" by (auto simp: in_set_conv_nth)
  moreover have "length table = length names" using ok by (auto simp: commands_ok_def dest: list_all2_lengthD)
  ultimately have "printable new" using commands_okD(3)[OF ok, of i] by (simp add: printable_def)
  then have "printable ((pre @ new) @ post)"
    using d(1) by (auto simp: serves_def at_desk_def line_of_def t printable_append)
  from serves_kept[OF d(1) st'(2,3) this] st'(1) show ?thesis by (simp add: typed_handler[OF d])
qed

section \<open>The end of a line\<close>

lemma line_pressed:
  assumes d: "serves w keep d st" "typed_key s d 256"
    and line: "processLineInputBuffer table (st\<lparr>goThroughHistoryCount := 0\<rparr>) = reset_line_input st1" "between_lines p h st1"
    and rest: "MAX_CHARS st1 = MAX_CHARS st" "shift st1 = shift st" "isExtendedScancode st1 = isExtendedScancode st"
      "keep (currentPath st1) (terminal.more st1)"
  shows "\<exists>st'. keyboard_handler table s st = Some st' \<and> serves w keep (fresh_desk p h (shifted d) False) st'"
proof -
  from line_finished[OF line(2)] obtain st2 st3 where
    st: "reset_line_input st1 = Some st2" "newTerminalInputLine st2 = Some st3"
      "at_desk (fresh_desk p h (shift st1) (isExtendedScancode st1)) st3" "kept st1 st3" by blast
  have "shift st1 = shifted d" "\<not> isExtendedScancode st1" "nat (MAX_CHARS st1) = w"
    using d rest(1-3) by (auto simp: serves_def at_desk_def typed_key_def)
  then have "serves w keep (fresh_desk p h (shifted d) False) st3"
    using st(3,4) rest(4) by (simp add: serves_def kept_def)
  moreover have "keyboard_handler table s st = Some st3" using line(1) st(1,2) by (simp add: typed_handler[OF d])
  ultimately show ?thesis by blast
qed

text \<open>The desk the line is read from: nothing is browsed any more.\<close>

lemma line_read:
  assumes "serves w keep d st"
  shows "at_desk (d\<lparr>browsed := 0\<rparr>) (st\<lparr>goThroughHistoryCount := 0\<rparr>)" "line_of (d\<lparr>browsed := 0\<rparr>) = line_of d"
    "keep (currentPath st) (terminal.more st)" "nat (MAX_CHARS st) = w"
  using serves_flags(4)[OF assms, of 0] assms by (simp_all add: serves_def line_of_def)

lemma empty_pressed:
  assumes d: "serves w keep d st" "typed_key s d 256" and e: "line_of d = []"
  shows "\<exists>st'. keyboard_handler table s st = Some st' \<and> serves w keep (fresh_desk (at_path d) (recorded d) (shifted d) False) st'"
proof -
  note r = line_read[OF d(1)]
  from empty_line[OF r(1), of table] e r(2) obtain st1 where
    st1: "processLineInputBuffer table (st\<lparr>goThroughHistoryCount := 0\<rparr>) = reset_line_input st1"
      "between_lines (at_path d) (recorded d) st1" "kept (st\<lparr>goThroughHistoryCount := 0\<rparr>) st1" by auto
  show ?thesis by (rule line_pressed[OF d st1(1,2)]) (use st1(3) r(3) in \<open>simp_all add: kept_def\<close>)
qed

lemma unknown_pressed:
  assumes d: "serves w keep d st" "typed_key s d 256" and e: "line_of d \<noteq> []" "command_word (line_of d) \<notin> set names"
    and ok: "commands_ok table names"
  shows "\<exists>st'. keyboard_handler table s st = Some st' \<and>
    serves w keep (fresh_desk (at_path d) (remember (line_of d) (recorded d)) (shifted d) False) st'"
proof -
  note r = line_read[OF d(1)]
  from error_line[OF r(1) _ _ ok] e r(2) obtain st1 where
    st1: "processLineInputBuffer table (st\<lparr>goThroughHistoryCount := 0\<rparr>) = reset_line_input st1"
      "between_lines (at_path d) (remember (line_of d) (recorded d)) st1"
      "MAX_CHARS st1 = MAX_CHARS st" "shift st1 = shift st" "isExtendedScancode st1 = isExtendedScancode st"
      "currentPath st1 = currentPath st" "terminal.more st1 = terminal.more st" by auto
  show ?thesis by (rule line_pressed[OF d st1(1,2)]) (use st1(3-) r(3) in simp_all)
qed

context command_table
begin

lemma command_pressed:
  assumes d: "serves w keep d st" "typed_key s d 256" and e: "line_of d \<noteq> []" "command_word (line_of d) \<in> set names"
    and eff: "effect (command_word (line_of d)) (command_args (line_of d)) (at_path d) = Some p" "path_ok w p"
  shows "\<exists>st'. keyboard_handler table s st = Some st' \<and>
    serves w keep (fresh_desk p (remember (line_of d) (recorded d)) (shifted d) False) st'"
proof -
  note r = line_read[OF d(1)]
  from e(2) obtain i where i: "i < length names" "names ! i = command_word (line_of d)" by (auto simp: in_set_conv_nth)
  from command_line[OF r(1), of i p] r(2-4) e(1) i eff obtain st1 where
    st1: "processLineInputBuffer table (st\<lparr>goThroughHistoryCount := 0\<rparr>) = reset_line_input st1"
      "between_lines p (remember (line_of d) (recorded d)) st1"
      "MAX_CHARS st1 = MAX_CHARS st" "shift st1 = shift st" "isExtendedScancode st1 = isExtendedScancode st"
      "keep (currentPath st1) (terminal.more st1)" by auto
  show ?thesis by (rule line_pressed[OF d st1(1,2)]) (use st1(3-) in simp_all)
qed

lemma press_implemented:
  assumes "press w names effect s d d'" and d: "serves w keep d st"
  shows "\<exists>st'. keyboard_handler table s st = Some st' \<and> serves w keep d' st'"
  using assms(1)
proof cases
  case shift_down then show ?thesis using serves_flags(1)[OF d, of True] by (auto simp: keyboard_handler_def)
next
  case shift_up then show ?thesis using serves_flags(1)[OF d, of False] by (auto simp: keyboard_handler_def)
next
  case prefix_code then show ?thesis using serves_flags(2)[OF d, of True] by (auto simp: keyboard_handler_def)
next
  case released then show ?thesis using serves_flags(2)[OF d, of False] by (auto simp: keyboard_handler_def)
next
  case silent then show ?thesis using d by (simp add: keyboard_handler_def)
next
  case up then show ?thesis using up_pressed[OF d] by blast
next
  case up_end
  show ?thesis unfolding up_end by (rule ignored_pressed[OF d]) (use up_end in \<open>simp_all add: plain_code_def\<close>)
next
  case down then show ?thesis using down_pressed[OF d] by blast
next
  case down_end
  show ?thesis unfolding down_end by (rule ignored_pressed[OF d]) (use down_end in \<open>simp_all add: plain_code_def\<close>)
next
  case arrow_left then show ?thesis using arrow_pressed(1)[OF d] by blast
next
  case arrow_right then show ?thesis using arrow_pressed(2)[OF d] by blast
next
  case other_extended
  show ?thesis unfolding other_extended by (rule ignored_pressed[OF d]) (use other_extended in simp_all)
next
  case (character k) then show ?thesis using character_pressed[OF d] by blast
next
  case (no_character k) then show ?thesis using d by (simp add: typed_handler[OF d] handle_input_buffer_insertion_def)
next
  case backspace_key then show ?thesis using backspace_pressed[OF d] by blast
next
  case nothing_to_complete
  moreover have "lineInputLength st = length (line_of d)" using d by (auto simp: serves_def elim: at_deskD)
  ultimately show ?thesis using d by (simp add: typed_handler[OF d] handleTabAutoCompletion_def)
next
  case (completed pre t1 t2 post new) then show ?thesis using completion_pressed[OF d _ table_ok] by blast
next
  case enter_empty then show ?thesis using empty_pressed[OF d] by blast
next
  case enter_unknown then show ?thesis using unknown_pressed[OF d _ _ _ table_ok] by blast
next
  case (enter_command p) then show ?thesis using command_pressed[OF d] by blast
qed

lemma session_implemented:
  assumes "presses w names effect codes d d'" and "serves w keep d st"
  shows "\<exists>st'. handle_keys table codes st = Some st' \<and> serves w keep d' st'"
  using assms
proof (induction arbitrary: st)
  case (more s d d1 codes d2)
  from press_implemented[OF more.hyps(1) more.prems] more.IH show ?case by fastforce
qed auto

end

end
