(* ===== verification/DirectorySpec.thy ===== *)
theory DirectorySpec
  imports Fat32Spec InfoSpec
begin

text \<open>
  Directories of the FAT32 driver: what a sector of 8.3 entries lists. The name of an entry
  is its two fields without the surrounding blanks, joined by a dot and in lower case.
\<close>

section \<open>8.3 names\<close>

definition field_text :: "u8 list \<Rightarrow> u8 list" where
  "field_text b = trim_end (trim_start (takeWhile (\<lambda>c. c \<noteq> 0) b))"

definition short_text :: "Directory_Entry \<Rightarrow> u8 list" where
  "short_text e =
     (let base = field_text (take 8 (DirName e)); ext = field_text (take 3 (drop 8 (DirName e)))
      in map to_lower (if ext = [] then base else base @ ch (CHR ''.'') # ext))"

lemma cstr_takeWhile: "cstr (takeWhile (\<lambda>c. c \<noteq> 0) b) (b @ [0])"
proof -
  have "\<exists>rest. b @ [0] = takeWhile (\<lambda>c. c \<noteq> 0) b @ 0 # rest" by (induction b) auto
  moreover have "0 \<notin> set (takeWhile (\<lambda>c. c \<noteq> 0) b)" by (auto dest: set_takeWhileD)
  ultimately show ?thesis unfolding cstr_def by blast
qed

lemma length_field_text: "length (field_text b) \<le> length b"
proof -
  have "length (trim_end s) \<le> length s" "length (trim_start s) \<le> length s" for s
    using length_dropWhile_le[of is_whitespace "rev s"] by (simp_all add: trim_end_def trim_start_def length_dropWhile_le)
  then show ?thesis unfolding field_text_def by (meson length_takeWhile_le order_trans)
qed

text \<open>The trimmed field is copied back over the field.\<close>

lemma trim_field:
  assumes "length b < 100"
  shows "\<exists>r b'. str_trim (b @ [0]) = Some r \<and> str_copy (b @ [0]) r = Some b' \<and> cstr (field_text b) b'"
proof -
  have l: "length (takeWhile (\<lambda>c. c \<noteq> 0) b) < str_max" using assms length_takeWhile_le[of "\<lambda>c. c \<noteq> 0" b] by simp
  from str_trim_spec(1)[OF cstr_takeWhile l] obtain r where r: "str_trim (b @ [0]) = Some r" "cstr (field_text b) r"
    by (auto simp: field_text_def)
  have "length (field_text b) < length (b @ [0])" using length_field_text[of b] by simp
  from str_copy_spec[OF r(2) this] r(2) have "str_copy (b @ [0]) r = Some (field_text b @ 0 # drop (Suc (length (field_text b))) (b @ [0]))"
    "cstr (field_text b) (field_text b @ 0 # drop (Suc (length (field_text b))) (b @ [0]))" by (simp_all add: cstr_def)
  with r(1) show ?thesis by blast
qed

lemma to_lower_nonzero: "c \<noteq> 0 \<Longrightarrow> to_lower c \<noteq> (0 :: u8)"
proof (cases "is_upper_alpha c")
  case True
  then have "unat c \<le> 90" by (simp add: is_upper_alpha_def word_le_nat_alt)
  then have "unat (c + 32) = unat c + 32" by (subst unat_add_lem[THEN iffD1]) simp_all
  then show ?thesis using True by (auto simp: to_lower_def)
qed (simp add: to_lower_def)

lemma short_name_effect:
  assumes "length (DirName e) = 11" and "length name = 256"
  shows "\<exists>n. short_name e name = Some n \<and> cstr (short_text e) n \<and> length n = 256"
proof -
  let ?b = "take 8 (DirName e)" and ?x = "take 3 (drop 8 (DirName e))"
  obtain r1 b where b: "str_trim (?b @ [0]) = Some r1" "str_copy (?b @ [0]) r1 = Some b" "cstr (field_text ?b) b"
    using trim_field[of ?b] assms(1) by auto
  obtain r2 x where x: "str_trim (?x @ [0]) = Some r2" "str_copy (?x @ [0]) r2 = Some x" "cstr (field_text ?x) x"
    using trim_field[of ?x] assms(1) by auto
  have len: "length (field_text ?b) \<le> 8" "length (field_text ?x) \<le> 3"
    using length_field_text[of ?b] length_field_text[of ?x] assms(1) by auto
  have x0: "rd x 0 = Some (if field_text ?x = [] then 0 else hd (field_text ?x))" "field_text ?x \<noteq> [] \<Longrightarrow> hd (field_text ?x) \<noteq> 0"
    using x(3) by (cases "field_text ?x"; auto simp: cstr_def)+
  have copy: "\<exists>n. str_copy name (map to_lower s @ [0]) = Some n \<and> cstr (map to_lower s) n \<and> length n = 256"
    if "0 \<notin> set s" "length s < 100" for s
  proof -
    have "0 \<notin> set (map to_lower s)"
    proof
      assume "0 \<in> set (map to_lower s)"
      then obtain x where "x \<in> set s" "to_lower x = 0" by auto
      then show False using that(1) to_lower_nonzero[of x] by metis
    qed
    then have c: "cstr (map to_lower s) (map to_lower s @ [0])" by (rule cstrI)
    with str_copy_spec[OF c, of name] that(2) assms(2) show ?thesis by (auto simp: cstr_def)
  qed
  show ?thesis
  proof (cases "field_text ?x = []")
    case True
    have low: "str_to_lower b = Some (map to_lower (field_text ?b) @ [0])" using str_to_lower_spec[OF b(3)] len by simp
    have "0 \<notin> set (field_text ?b)" using b(3) by (simp add: cstr_def)
    with copy[of "field_text ?b"] len(1) show ?thesis
      unfolding short_name_def Let_def by (simp add: b(1,2) x(1,2) x0 True low short_text_def Let_def)
  next
    case False
    let ?s = "field_text ?b @ ch (CHR ''.'') # field_text ?x"
    have "list_all2 arg_text [Chars b, Chars (ascii ''.'' @ [0]), Chars x] [field_text ?b, ascii ''.'', field_text ?x]"
      using b(3) x(3) cstrI[of "ascii ''.''" "[]"] by simp
    from String_construct_spec[OF this] len obtain s where
      s: "String_construct [Chars b, Chars (ascii ''.'' @ [0]), Chars x] = Some s" "cstr ?s s" by auto
    have low: "str_to_lower s = Some (map to_lower ?s @ [0])" using str_to_lower_spec[OF s(2)] len by simp
    have "0 \<notin> set ?s" using s(2) unfolding cstr_def by blast
    from copy[OF this] len obtain n where "str_copy name (map to_lower ?s @ [0]) = Some n" "cstr (map to_lower ?s) n" "length n = 256"
      by auto
    then show ?thesis
      unfolding short_name_def Let_def using x0(2)[OF False] False
      by (simp only: b(1,2) x(1,2) bind.simps x0(1) if_False s(1) low) (simp add: short_text_def Let_def)
  qed
qed

section \<open>Slots\<close>

text \<open>The slots of a directory: the list ends at the first whose name begins with a zero byte; the entries
  of the directory itself, of its parent and the volume label are not listed.\<close>

definition end_slot :: "u8 list \<Rightarrow> bool" where
  "end_slot s \<longleftrightarrow> DirName (directory_entry s) ! 0 = 0"

definition hidden_slot :: "u8 list \<Rightarrow> bool" where
  "hidden_slot s \<longleftrightarrow> (let n = DirName (directory_entry s)
     in n ! 0 = ch (CHR ''.'') \<and> (n ! 1 = ch (CHR '' '') \<or> n ! 1 = ch (CHR ''.'') \<and> n ! 2 = ch (CHR '' ''))) \<or>
     VolumeID (Attributes (directory_entry s))"

fun dir_items :: "u8 list list \<Rightarrow> Directory_Entry list" where
  "dir_items [] = []"
| "dir_items (s # ss) = (if end_slot s then [] else if hidden_slot s then dir_items ss else directory_entry s # dir_items ss)"

definition short_slots :: "u8 list list \<Rightarrow> bool" where
  "short_slots ss \<longleftrightarrow> (\<forall>s \<in> set ss. length s = 32) \<and>
     (\<forall>s \<in> set (takeWhile (\<lambda>s. \<not> end_slot s) ss). \<not> isLFN (Attributes (directory_entry s)))"

text \<open>An element of the array against the entry on the disk.\<close>

definition lists_item :: "Directory_Entry \<Rightarrow> Entry \<Rightarrow> bool" where
  "lists_item e o1 \<longleftrightarrow> cstr (short_text e) (Name o1) \<and> Size o1 = FileSize e \<and> IsDirectory o1 = Directory (Attributes e) \<and>
     FirstCluster o1 = push_bit 16 (ucast (FirstClusterHigh e)) OR ucast (FirstClusterLow e)"

lemma short_slots_Cons: "short_slots (s # ss) \<Longrightarrow> length s = 32 \<and> (\<not> end_slot s \<longrightarrow> \<not> isLFN (Attributes (directory_entry s)) \<and> short_slots ss)"
  by (auto simp: short_slots_def)

lemma dir_items_length: "length (dir_items ss) \<le> length ss"
  by (induction ss) auto

lemma dir_slot_end: "end_slot s \<Longrightarrow> dir_slot s (long, outs, k) = Some (Inl (long, outs, k))"
  by (simp add: dir_slot_def end_slot_def Let_def)

lemma dir_slot_hidden:
  "\<not> end_slot s \<Longrightarrow> hidden_slot s \<Longrightarrow> \<not> isLFN (Attributes (directory_entry s)) \<Longrightarrow> dir_slot s (long, outs, k) = Some (Inr (long, outs, k))"
  by (auto simp: dir_slot_def end_slot_def hidden_slot_def Let_def)

lemma dir_slot_item:
  assumes "\<not> end_slot s" "\<not> hidden_slot s" "\<not> isLFN (Attributes (directory_entry s))" and "length s = 32"
    and "k < length outs" "length (Name (outs ! k)) = 256"
  shows "\<exists>o1. dir_slot s (False, outs, k) = Some (Inr (False, outs[k := o1], k + 1)) \<and> lists_item (directory_entry s) o1"
proof -
  let ?e = "directory_entry s"
  have "length (DirName ?e) = 11" using assms(4) by (simp add: directory_entry_def)
  from short_name_effect[OF this assms(6)] obtain n where n: "short_name ?e (Name (outs ! k)) = Some n" "cstr (short_text ?e) n" by blast
  let ?o = "(outs ! k)\<lparr>Name := n, Size := FileSize ?e, IsDirectory := Directory (Attributes ?e),
     FirstCluster := push_bit 16 (ucast (FirstClusterHigh ?e)) OR ucast (FirstClusterLow ?e)\<rparr>"
  have "dir_slot s (False, outs, k) = Some (Inr (False, outs[k := ?o], k + 1))"
    using assms(1-3,5) n(1) by (auto simp: dir_slot_def end_slot_def hidden_slot_def Let_def)
  moreover have "lists_item ?e ?o" using n(2) by (simp add: lists_item_def)
  ultimately show ?thesis by blast
qed

text \<open>The loop over the slots from the \<open>lo\<close>-th on: the items are appended behind the \<open>k\<close> entries already there.\<close>

lemma slots_loop:
  assumes "short_slots ss" and "\<forall>j < length ss. \<forall>st. body (lo + j) st = dir_slot (ss ! j) st"
    and "k + length ss \<le> length outs" and "\<forall>i < length outs. k \<le> i \<longrightarrow> length (Name (outs ! i)) = 256"
  shows "\<exists>outs'. map_option (case_sum id id) (for_until body lo (length ss) (False, outs, k)) =
      Some (False, outs', k + length (dir_items ss)) \<and> length outs' = length outs \<and> take k outs' = take k outs \<and>
    (\<forall>i < length (dir_items ss). lists_item (dir_items ss ! i) (outs' ! (k + i)))"
  using assms
proof (induction ss arbitrary: lo k outs)
  case Nil
  then show ?case by simp
next
  case (Cons s ss)
  note short = short_slots_Cons[OF Cons.prems(1)]
  have b: "body lo st = dir_slot s st" for st using Cons.prems(2)[rule_format, of 0 st] by simp
  have tail: "\<forall>j < length ss. \<forall>st. body (Suc lo + j) st = dir_slot (ss ! j) st"
  proof (intro allI impI)
    fix j st assume "j < length ss"
    then have "body (lo + Suc j) st = dir_slot ((s # ss) ! Suc j) st" using Cons.prems(2) by (metis Suc_less_eq length_Cons)
    then show "body (Suc lo + j) st = dir_slot (ss ! j) st" by simp
  qed
  consider "end_slot s" | "\<not> end_slot s" "hidden_slot s" | "\<not> end_slot s" "\<not> hidden_slot s" by blast
  then show ?case
  proof cases
    case 1
    then show ?thesis by (simp add: b dir_slot_end)
  next
    case 2
    from Cons.IH[OF _ tail, of k outs] short 2 Cons.prems(3,4) show ?thesis by (simp add: b dir_slot_hidden)
  next
    case 3
    have k: "k < length outs" "length (Name (outs ! k)) = 256" using Cons.prems(3,4) by auto
    from dir_slot_item[OF 3 _ _ k] short 3 obtain o1 where
      o1: "dir_slot s (False, outs, k) = Some (Inr (False, outs[k := o1], k + 1))" "lists_item (directory_entry s) o1" by blast
    from Cons.IH[OF _ tail, of "k + 1" "outs[k := o1]"] short 3 Cons.prems(3,4) obtain outs' where
      o: "map_option (case_sum id id) (for_until body (Suc lo) (length ss) (False, outs[k := o1], k + 1)) =
        Some (False, outs', k + 1 + length (dir_items ss))" "length outs' = length outs" "take (k + 1) outs' = take (k + 1) (outs[k := o1])"
        "\<forall>i < length (dir_items ss). lists_item (dir_items ss ! i) (outs' ! (k + 1 + i))" by auto
    have "outs' ! k = o1" "take k outs' = take k outs" using o(2,3) k(1)
      by (metis less_add_one nth_take nth_list_update_eq, metis min.cobounded1 min_def le_add1 take_take take_update_cancel order_refl)
    have "lists_item (dir_items (s # ss) ! i) (outs' ! (k + i))" if "i < length (dir_items (s # ss))" for i
      using o(4)[rule_format, of "i - 1"] o1(2) 3 that \<open>outs' ! k = o1\<close> by (cases i) simp_all
    with o(1,2) \<open>take k outs' = take k outs\<close> 3 show ?thesis by (intro exI[of _ outs']) (simp add: b o1(1))
  qed
qed

section \<open>A directory on the disk\<close>

lemma concat_slice:
  assumes "\<forall>s \<in> set ss. length s = 32" and "i < length ss"
  shows "slice (concat ss) (32 * i) 32 = Some (ss ! i)"
proof -
  have "drop (32 * i) (concat ss) = concat (drop i ss) \<and> 32 * i + 32 \<le> length (concat ss)" using assms
  proof (induction ss arbitrary: i)
    case (Cons s ss)
    show ?case
    proof (cases i)
      case (Suc j)
      then show ?thesis using Cons.IH[of j] Cons.prems by simp
    qed (use Cons.prems in simp)
  qed simp
  moreover have "drop i ss = ss ! i # drop (Suc i) ss" using assms(2) by (simp add: Cons_nth_drop_Suc)
  ultimately show ?thesis using assms by (simp add: slice_def)
qed

lemma length_slots: "\<forall>s \<in> set ss. length s = 32 \<Longrightarrow> length (concat ss) = 32 * length ss"
  by (induction ss) auto

lemma load_dir_items:
  assumes disk: "disk_ok disk" "geometry_ok context" and c: "2 \<le> c" "c < EOC_START"
    and slots: "cluster_data disk context c = concat ss" "short_slots ss"
  shows "\<exists>outs. load_dir disk context c = Some (outs, length (dir_items ss)) \<and> length outs = length ss \<and>
    (\<forall>i < length (dir_items ss). lists_item (dir_items ss ! i) (outs ! i))"
proof -
  let ?max = "ucast (ClusterSizeInBytes context div 32) :: u32"
  have l32: "\<forall>s \<in> set ss. length s = 32" using slots(2) by (simp add: short_slots_def)
  have size: "cluster_bytes context = 32 * length ss"
    using read_cluster_data(2)[OF disk, of c] unfolding slots(1) length_slots[OF l32] by simp
  have bound: "length ss \<le> 16 * 255" using cluster_bytes_bound[OF disk(2)] size by simp
  have "unat (ClusterSizeInBytes context div 32) = length ss" using size by (simp add: unat_div)
  then have max: "unat ?max = length ss" using bound by (simp add: unsigned_ucast_eq take_bit_nat_eq_self)
  have "unat (ucast ?max :: u64) = unat (of_nat (length ss) :: u64)"
    using max bound by (simp only: unsigned_ucast_eq[of ?max]) (simp add: take_bit_nat_eq_self unat_of_nat_small)
  then have "ucast ?max = (of_nat (length ss) :: u64)" by (rule word_unat_eq_iff[THEN iffD2])
  then have "272 * ucast ?max = (of_nat (272 * length ss) :: u64)" by simp
  then have alloc: "malloc_str (272 * ucast ?max) \<noteq> None" using malloc_str_ok[of "272 * length ss"] bound by simp
  let ?body = "\<lambda>i st. do { slot \<leftarrow> slice (concat ss) (32 * i) 32; dir_slot slot st }"
  have "\<forall>j < length ss. \<forall>st. ?body (0 + j) st = dir_slot (ss ! j) st" using concat_slice[OF l32] by simp
  from slots_loop[OF slots(2) this, of 0 "replicate (length ss) no_entry"] obtain outs where
    o: "map_option (case_sum id id) (for_until ?body 0 (length ss) (False, replicate (length ss) no_entry, 0)) =
      Some (False, outs, length (dir_items ss))" "length outs = length ss"
      "\<forall>i < length (dir_items ss). lists_item (dir_items ss ! i) (outs ! i)"
    by (auto simp: no_entry_def)
  have "get_entries_in_dir context (concat ss) (replicate (length ss) no_entry) 0 = Some (outs, length (dir_items ss))"
  proof -
    from o(1) obtain r where r: "for_until ?body 0 (length ss) (False, replicate (length ss) no_entry, 0) = Some r"
      "case_sum id id r = (False, outs, length (dir_items ss))" by auto
    then show ?thesis unfolding get_entries_in_dir_def Let_def max r(1) by (cases r) simp_all
  qed
  then have "load_dir disk context c = Some (outs, length (dir_items ss))"
    unfolding load_dir_def Let_def max read_dir_entries_def using alloc c read_cluster_data(1)[OF disk, of c] slots(1)
    by auto
  with o(2,3) show ?thesis by blast
qed

text \<open>The root directory, as \<open>get_entries\<close> finds it by the empty path.\<close>

lemma get_root_items:
  assumes disk: "disk_ok disk" "geometry_ok context" and c: "2 \<le> RootCluster context" "RootCluster context < EOC_START"
    and slots: "cluster_data disk context (RootCluster context) = concat ss" "short_slots ss" and path: "cstr [] path"
  shows "\<exists>outs. get_entries disk context path = Some (length (dir_items ss), outs) \<and> length outs = length ss \<and>
    (\<forall>i < length (dir_items ss). lists_item (dir_items ss ! i) (outs ! i))"
proof -
  from path obtain rest where p: "path = 0 # rest" by (auto simp: cstr_def)
  have "find_entry disk context path = Some (no_entry\<lparr>IsDirectory := True, FirstCluster := RootCluster context, Found := True\<rparr>)"
    by (simp add: p find_entry_def Let_def)
  with load_dir_items[OF disk c slots] show ?thesis by (auto simp: get_entries_def)
qed

end
