(* ===== verification/CommandProps.thy ===== *)
theory CommandProps
  imports CommandSpec DirectorySpec ShellProps AhciProps StringProps HeapRun
begin

text \<open>
  The properties of the commands: what a typed command leaves on the screen, the view of
  the heap, the listing of a directory and the change of the current one.
\<close>

section \<open>The table of commands\<close>

definition kernel_command_names :: "u8 list list" where
  "kernel_command_names = map butlast command_names"

lemma kernel_commands_ok: "commands_ok (commands plat) kernel_command_names"
  by (simp add: commands_ok_def commands_def kernel_command_names_def command_names_def cstr_def)

definition sample_platform :: platform where
  "sample_platform = \<lparr>controller = (\<lambda>st. st), disks = (\<lambda>_. sample_disk), stack_bytes = replicate 512 0,
     can_alloc = (\<lambda>_. True), fb_height = 16\<rparr>"

text \<open>A kernel whose screen has one visible row of sixteen characters.\<close>

definition sample_kernel :: kernel where
  "sample_kernel = \<lparr>cursorAt_X = 0, cursorAt_Y = 0, cursorRendered_X = 0, cursorRendered_Y = 0, cursor_visible = True,
     FONT_W = 8, FONT_H = 16, ADJUSTED_WIDTH = 128, MAX_CHARS = 16, MAX_LINES = 1, useScreenBuffer = True, isRedrawing = False,
     screenBufferPtr = Some \<lparr>lines = [\<lparr>cells = 0, amountOfCells = 0\<rparr>, \<lparr>cells = 16, amountOfCells = 0\<rparr>],
       cellBlock = replicate 32 empty_cell, amountOfLines = 0, visibleLines = 1, startRenderLine = 0, maxStoredLines = 2\<rparr>,
     framebuffer = replicate 2048 0, lineInputLength = 0, lineInputBuffer = replicate 256 0, lineInputCursorPos = 0,
     lineInputStart_X = 0, commandHistory = replicate 100 (replicate 256 0), cmdHistCount = 0,
     goThroughHistoryCount = 0, shift = False, isExtendedScancode = False, currentPath = 0x2F # 0 # replicate 4095 0,
     storage = ahci_state.extend sample_ahci (storage_state.fields [] 0 None None),
     heap = heap_setup 16 100 (\<lambda>_. 0), ticks = 0, found_pci_devices = [], PCIDeviceAmount = 0, port_writes = []\<rparr>"

lemma sample_kernel_base: "screen_base sample_kernel (the (screenBufferPtr sample_kernel))"
  "rendered_in sample_kernel (the (screenBufferPtr sample_kernel))"
  by (auto simp: screen_base_def geometry_def buffer_wf_def sample_kernel_def empty_cell_def less_2_cases_iff rendered_in_def)

lemma sample_kernel_screen: "screen_ok sample_kernel" "scrollback sample_kernel = [[]]" "stored_lines sample_kernel = 2"
  "MAX_CHARS sample_kernel = 16"
  using sample_kernel_base by (auto simp: screen_ok_def at_end_def sample_kernel_def scrollback_def rows_upto_def row_def stored_lines_def)

lemma sample_kernel_editing: "editing [] [] [] [] sample_kernel"
  unfolding editing_def
  by (intro exI[of _ "the (screenBufferPtr sample_kernel)"] conjI sample_kernel_base)
    (simp_all add: sample_kernel_def rows_upto_def row_def TERMINAL_BUFFER_SIZE_def cstr_def, simp add: numeral_eq_Suc)

lemma sample_kernel_history: "history_ok [] sample_kernel"
  by (simp add: history_ok_def sample_kernel_def MAX_COMMAND_HISTORY_def TERMINAL_BUFFER_SIZE_def)

section \<open>Typed commands\<close>

text \<open>C17. The command \<open>echo\<close>, typed at the prompt: wherever the cursor is in the line, the kernel's table runs it, the screen
  shows the text behind the first blank on the next line, followed by a line break, the line is the newest entry of
  the history, and the input is empty again.\<close>

theorem echo_typed:
  fixes st :: "'a kernel_scheme"
  assumes "editing older prompt l r st" and "l @ r = ascii ''echo '' @ t" and "printable t"
    and "history_ok hist st" and "\<forall>c \<in> set hist. length c < TERMINAL_BUFFER_SIZE"
  shows "\<exists>st'. processLineInputBuffer (commands plat) st = Some st' \<and> screen_ok st' \<and>
    history_ok (remember (l @ r) hist) st' \<and> lineInputLength st' = 0 \<and> lineInputCursorPos st' = 0 \<and> cstr [] (lineInputBuffer st') \<and>
    scrollback st' = tty_newline (stored_lines st) (tty_text (nat (MAX_CHARS st)) (stored_lines st) White False t
      (tty_newline (stored_lines st) (older @ [prompt @ map typed (l @ r)])))"
proof -
  have w: "command_word (l @ r) = ascii ''echo''" "command_args (l @ r) = t"
    by (simp_all add: assms(2) command_word_def command_args_def)
  have i: "2 < length kernel_command_names" "kernel_command_names ! 2 = command_word (l @ r)"
    "command_word (l @ r) \<notin> set (take 2 kernel_command_names)" "execute (commands plat ! 2) = cmd_echo"
    by (simp_all add: w kernel_command_names_def command_names_def commands_def)
  have out: "\<forall>args st. cstr (command_args (l @ r)) args \<longrightarrow> screen_ok st \<longrightarrow>
      printed [Txt White t, NL] (st :: 'a kernel_scheme) (execute (commands plat ! 2) args st)"
    unfolding w(2) i(4) cmd_echo_def by (intro allI impI printsD[OF prints_text] assms(3))
  have "l @ r \<noteq> []" using assms(2) by auto
  from command_output[OF assms(1) refl this assms(4,5) kernel_commands_ok[of plat] i(1-3) out]
  show ?thesis by simp
qed

text \<open>The sample kernel after a text was typed.\<close>

definition typed_kernel :: "u8 list \<Rightarrow> kernel" where
  "typed_kernel s = sample_kernel\<lparr>
     screenBufferPtr := Some \<lparr>lines = [\<lparr>cells = 0, amountOfCells = length s\<rparr>, \<lparr>cells = 16, amountOfCells = 0\<rparr>],
       cellBlock = map typed s @ replicate (32 - length s) empty_cell, amountOfLines = 0, visibleLines = 1,
       startRenderLine = 0, maxStoredLines = 2\<rparr>,
     cursorAt_X := int (length s), lineInputBuffer := s @ replicate (256 - length s) 0, lineInputLength := length s,
     lineInputCursorPos := length s\<rparr>"

lemma typed_kernel_editing: "editing [] [] (ascii ''echo hi'') [] (typed_kernel (ascii ''echo hi''))"
  unfolding editing_def
proof (intro exI[of _ "the (screenBufferPtr (typed_kernel (ascii ''echo hi'')))"] conjI)
  let ?st = "typed_kernel (ascii ''echo hi'')"
  show "screen_base ?st (the (screenBufferPtr ?st))"
    by (auto simp: screen_base_def geometry_def buffer_wf_def typed_kernel_def sample_kernel_def empty_cell_def typed_def less_2_cases_iff)
  show "rendered_in ?st (the (screenBufferPtr ?st))" by (simp add: rendered_in_def typed_kernel_def sample_kernel_def)
  show "cstr (ascii ''echo hi'' @ []) (lineInputBuffer ?st)"
    using cstrI[of "ascii ''echo hi''" "replicate 248 0"] by (simp add: typed_kernel_def replicate_app_Cons_same flip: replicate_Suc)
  show "rows_upto (the (screenBufferPtr ?st)) (nat (cursorAt_Y ?st)) = [] @ [[] @ map typed (ascii ''echo hi'' @ [])]"
    by (simp add: typed_kernel_def sample_kernel_def rows_upto_def row_def)
qed (simp_all add: typed_kernel_def sample_kernel_def TERMINAL_BUFFER_SIZE_def)

lemma echo_typed_witness:
  "\<exists>st'. processLineInputBuffer (commands sample_platform) (typed_kernel (ascii ''echo hi'')) = Some st' \<and>
    history_ok [ascii ''echo hi''] st' \<and>
    scrollback st' = [map (\<lambda>c. \<lparr>color = White, cell_text = c, interactable = False\<rparr>) (ascii ''hi''), []]"
proof -
  let ?st = "typed_kernel (ascii ''echo hi'')"
  have f: "stored_lines ?st = 2" "MAX_CHARS ?st = 16"
    by (simp_all add: stored_lines_def typed_kernel_def sample_kernel_def)
  have h: "history_ok [] ?st" using sample_kernel_history by (simp add: history_ok_def typed_kernel_def)
  have "remember (ascii ''echo hi'' @ []) [] = [ascii ''echo hi'']" by (simp add: remember_def MAX_COMMAND_HISTORY_def)
  moreover have "tty_newline 2 (tty_text 16 2 White False (ascii ''hi'') (tty_newline 2 ([] @ [[] @ map typed (ascii ''echo hi'' @ [])]))) =
      [map (\<lambda>c. \<lparr>color = White, cell_text = c, interactable = False\<rparr>) (ascii ''hi''), []]"
    by (simp add: tty_text_def tty_newline_def tty_char_def tty_put_def)
  ultimately show ?thesis
    using echo_typed[OF typed_kernel_editing _ _ h, of "ascii ''hi''" sample_platform, unfolded f] by (auto simp: printable_def)
qed

section \<open>The view of the heap\<close>



section \<open>Directories\<close>

text \<open>A root directory with the volume label, a file and a directory.\<close>

definition sample_slot :: "string \<Rightarrow> u8 \<Rightarrow> u8 list \<Rightarrow> u8 list" where
  "sample_slot nm attributes len = ascii nm @ [attributes] @ replicate 14 0 @ [5, 0] @ len"

definition sample_slots :: "u8 list list" where
  "sample_slots = [sample_slot ''ESZ-OS     '' 8 [0, 0, 0, 0], sample_slot ''README  TXT'' 32 [3, 1, 0, 0],
     sample_slot ''SRC        '' 16 [0, 0, 0, 0]] @ replicate 13 (replicate 32 0)"

definition sample_dir_disk :: disk where
  "sample_dir_disk lba = (if lba = 10 then concat sample_slots else replicate 512 0)"

lemma sample_slots_short: "short_slots sample_slots"
proof -
  have "list_all (\<lambda>s. length s = 32) sample_slots"
    "list_all (\<lambda>s. \<not> isLFN (Attributes (directory_entry s))) (takeWhile (\<lambda>s. \<not> end_slot s) sample_slots)"
    by code_simp+
  then show ?thesis by (simp add: short_slots_def list_all_iff)
qed

lemma sample_items: "map short_text (dir_items sample_slots) = [ascii ''readme.txt'', ascii ''src'']"
  "map FileSize (dir_items sample_slots) = [259, 0]" "map (\<lambda>e. Directory (Attributes e)) (dir_items sample_slots) = [False, True]"
  by code_simp+

lemma sample_dir_disk_ok: "disk_ok sample_dir_disk"
  "cluster_data sample_dir_disk sample_context 2 = concat sample_slots"
proof -
  have "length (concat sample_slots) = 512"
    using length_slots[of sample_slots] sample_slots_short by (simp add: short_slots_def) (simp add: sample_slots_def)
  then show "disk_ok sample_dir_disk" by (simp add: disk_ok_def sample_dir_disk_def)
  show "cluster_data sample_dir_disk sample_context 2 = concat sample_slots"
    by (simp add: cluster_data_def sectors_def cluster_to_lba_def sample_context_def sample_dir_disk_def)
qed



text \<open>The pieces \<open>ls\<close> shows of an entry.\<close>

definition item_pieces :: "Directory_Entry \<Rightarrow> piece list" where
  "item_pieces e = (if Directory (Attributes e) then [Txt Yellow (short_text e), Txt Yellow (ascii ''/'')]
     else [Txt White (short_text e)]) @ [Txt White (ascii ''  '')]"



section \<open>The current directory\<close>

definition changed_path :: "u8 list \<Rightarrow> u8 list \<Rightarrow> u8 list" where
  "changed_path p a = (if a = [] then ascii ''/'' else if hd a = ch (CHR ''/'') then a
     else if ch (CHR ''/'') \<notin> set a then p @ a @ ascii ''/'' else p)"

lemma rd_hd: "cstr a buf \<Longrightarrow> rd buf 0 = Some (if a = [] then 0 else hd a)"
  by (cases a) (auto simp: cstr_def)

lemma hd_nonzero: "cstr a buf \<Longrightarrow> a \<noteq> [] \<Longrightarrow> hd a \<noteq> 0"
  by (cases a) (auto simp: cstr_def)

lemma relative_path:
  fixes st :: "'a terminal_scheme"
  assumes a: "cstr a args" "a \<noteq> []" "hd a \<noteq> ch (CHR ''/'')" "length (split_on (ch (CHR ''/'')) a) \<le> MAX_PATH_DEPTH" "length a + 1 < str_max"
  shows "\<exists>s. cstr (a @ ascii ''/'') s \<and> filesystem_change_directory args st =
    (if ch (CHR ''/'') \<in> set a then Some st
     else do { p \<leftarrow> str_add (currentPath st) s; Some (st\<lparr>currentPath := p\<rparr>) })"
proof -
  let ?sp = "split_on (ch (CHR ''/'')) a"
  have "list_all2 arg_text [Chars (a @ [0]), Chars (lit ''/'')] [a, ascii ''/'']"
    using a(1) cstrI[of "ascii ''/''" "[]"] by (auto simp: cstr_def)
  from String_construct_spec[OF this] a(5) obtain s where
    s: "String_construct [Chars (a @ [0]), Chars (lit ''/'')] = Some s" "cstr (a @ ascii ''/'') s" by auto
  have sp: "str_split args (ch (CHR ''/'')) (replicate MAX_PATH_DEPTH []) =
      Some (map (\<lambda>p. p @ [0]) ?sp @ drop (length ?sp) (replicate MAX_PATH_DEPTH []), length ?sp)"
    using str_split_spec[OF a(1), of "ch (CHR ''/'')" "replicate MAX_PATH_DEPTH []"] a(4,5) by simp
  have one: "length ?sp = 1 \<longleftrightarrow> ch (CHR ''/'') \<notin> set a" by (simp add: length_split_on count_list_0_iff)
  have c: "rd args 0 = Some (hd a)" "hd a \<noteq> 0" using rd_hd[OF a(1)] hd_nonzero[OF a(1,2)] a(2) by simp_all
  have "filesystem_change_directory args st =
      (if ch (CHR ''/'') \<in> set a then Some st else do { p \<leftarrow> str_add (currentPath st) s; Some (st\<lparr>currentPath := p\<rparr>) })"
    unfolding filesystem_change_directory_def is_absolute_path_def sp using c a(3) one split_on_none[of "ch (CHR ''/'')" a] s(1)
    by (simp split: if_splits)
  with s(2) show ?thesis by blast
qed

lemma change_directory_effect:
  fixes st :: "'a terminal_scheme"
  assumes p: "cstr p (currentPath st)" and a: "cstr a args" "length (split_on (ch (CHR ''/'')) a) \<le> MAX_PATH_DEPTH" "length a + 1 < str_max"
    and room: "length p + length a + 1 < length (currentPath st)"
  shows "\<exists>path. filesystem_change_directory args st = Some (st\<lparr>currentPath := path\<rparr>) \<and>
    cstr (changed_path p a) path \<and> length path = length (currentPath st)"
proof -
  consider "a = []" | "a \<noteq> []" "hd a = ch (CHR ''/'')" | "a \<noteq> []" "hd a \<noteq> ch (CHR ''/'')" by blast
  then show ?thesis
  proof cases
    case 1
    obtain x xs where x: "currentPath st = x # xs" using room by (cases "currentPath st") simp_all
    obtain y ys where "xs = y # ys" using room x by (cases xs) simp_all
    with x have b: "currentPath st = x # y # ys" by simp
    have "filesystem_change_directory args st = Some (st\<lparr>currentPath := ch (CHR ''/'') # 0 # ys\<rparr>)"
      using rd_hd[OF a(1)] 1 by (simp add: filesystem_change_directory_def set_root_def b)
    then show ?thesis using cstrI[of "ascii ''/''" ys] 1 b by (auto simp: changed_path_def)
  next
    case 2
    have "length a < length (currentPath st)" using room by simp
    from str_copy_cstr[OF a(1) this] obtain d where "str_copy (currentPath st) args = Some d" "cstr a d" "length d = length (currentPath st)" by blast
    moreover have "rd args 0 = Some (ch (CHR ''/''))" using rd_hd[OF a(1)] 2 by simp
    moreover have "changed_path p a = a" using 2 by (simp add: changed_path_def)
    ultimately show ?thesis by (intro exI[of _ d]) (simp add: filesystem_change_directory_def is_absolute_path_def)
  next
    case 3
    from relative_path[OF a(1) 3 a(2,3), of st] obtain s where s: "cstr (a @ ascii ''/'') s"
      "filesystem_change_directory args st = (if ch (CHR ''/'') \<in> set a then Some st
        else do { p \<leftarrow> str_add (currentPath st) s; Some (st\<lparr>currentPath := p\<rparr>) })" by blast
    have "length p + length (a @ ascii ''/'') < length (currentPath st)" using room by simp
    from str_add_spec[OF p s(1) this] have add: "str_add (currentPath st) s =
      Some (p @ (a @ ascii ''/'') @ 0 # drop (Suc (length p + length (a @ ascii ''/''))) (currentPath st))" .
    have "0 \<notin> set (p @ a @ ascii ''/'')" using p s(1) by (auto simp: cstr_def)
    note c = cstrI[OF this, unfolded append_assoc]
    show ?thesis
    proof (cases "ch (CHR ''/'') \<in> set a")
      case True
      then have "filesystem_change_directory args st = Some (st\<lparr>currentPath := currentPath st\<rparr>)" using s(2) by simp
      moreover have "changed_path p a = p" using 3 True by (simp add: changed_path_def)
      ultimately show ?thesis using p by (intro exI[of _ "currentPath st"]) (simp only: simp_thms)
    next
      case False
      then have "changed_path p a = p @ a @ ascii ''/''" using 3 by (simp only: changed_path_def if_False if_True not_False_eq_True)
      moreover have "filesystem_change_directory args st = Some (st\<lparr>currentPath :=
          p @ (a @ ascii ''/'') @ 0 # drop (Suc (length p + length (a @ ascii ''/''))) (currentPath st)\<rparr>)"
        using s(2) False add by (simp only: if_False bind.simps)
      moreover have "length (p @ (a @ ascii ''/'') @ 0 # drop (Suc (length p + length (a @ ascii ''/''))) (currentPath st)) = length (currentPath st)"
        using room by simp
      ultimately show ?thesis using c by (simp only: append_assoc) blast
    qed
  qed
qed

text \<open>C18. \<open>cd\<close> changes the path and nothing else: without an argument to the root, with an absolute path to it as typed, with
  one section to the path with the section and a slash appended; a relative path of several sections is ignored.\<close>

theorem change_directory_path:
  fixes st :: "'a terminal_scheme"
  assumes p: "cstr p (currentPath st)" and a: "cstr a args" "length (split_on (ch (CHR ''/'')) a) \<le> MAX_PATH_DEPTH" "length a + 1 < str_max"
    and room: "length p + length a + 1 < length (currentPath st)"
  shows "\<exists>path. filesystem_change_directory args st = Some (st\<lparr>currentPath := path\<rparr>) \<and>
    cstr (changed_path p a) path \<and> length path = length (currentPath st)"
  by (rule change_directory_effect[OF assms])

lemma change_directory_path_witness:
  "\<exists>path. filesystem_change_directory (lit ''usr'') sample_kernel = Some (sample_kernel\<lparr>currentPath := path\<rparr>) \<and> cstr (ascii ''/usr/'') path"
proof -
  have p: "cstr (ascii ''/'') (currentPath sample_kernel)"
    using cstrI[of "ascii ''/''" "replicate 4095 0"] by (simp add: sample_kernel_def)
  have a: "cstr (ascii ''usr'') (lit ''usr'')" using cstrI[of "ascii ''usr''" "[]"] by simp
  have l: "length (currentPath sample_kernel) = 4097" by (simp add: sample_kernel_def)
  have "changed_path (ascii ''/'') (ascii ''usr'') = ascii ''/usr/''" by (simp add: changed_path_def)
  with change_directory_path[OF p a] l show ?thesis by (auto simp: MAX_PATH_DEPTH_def length_split_on)
qed

text \<open>C39. The path is not bounded: a section that no longer fits behind it is written past the end of \<open>currentPath\<close>.\<close>

theorem change_directory_overflow:
  fixes st :: "'a terminal_scheme"
  assumes p: "cstr p (currentPath st)" and a: "cstr a args" "a \<noteq> []" "ch (CHR ''/'') \<notin> set a" "length a + 1 < str_max"
    and full: "length (currentPath st) \<le> length p + length a + 1"
  shows "filesystem_change_directory args st = None"
proof -
  have h: "hd a \<noteq> ch (CHR ''/'')" using a(2,3) by (cases a) auto
  have "length (split_on (ch (CHR ''/'')) a) \<le> MAX_PATH_DEPTH" using split_on_none[OF a(3)] by (simp add: MAX_PATH_DEPTH_def)
  from relative_path[OF a(1,2) h this a(4), of st] obtain s where s: "cstr (a @ ascii ''/'') s"
    "filesystem_change_directory args st = do { p \<leftarrow> str_add (currentPath st) s; Some (st\<lparr>currentPath := p\<rparr>) }" using a(3) by auto
  have "str_add (currentPath st) s = None" using str_add_correct[OF p s(1)] full by simp
  with s(2) show ?thesis by simp
qed

lemma change_directory_overflow_witness:
  "filesystem_change_directory (lit ''usr'') (sample_kernel\<lparr>currentPath := lit ''/home''\<rparr>) = None"
proof -
  have p: "cstr (ascii ''/home'') (currentPath (sample_kernel\<lparr>currentPath := lit ''/home''\<rparr>))"
    using cstrI[of "ascii ''/home''" "[]"] by simp
  have a: "cstr (ascii ''usr'') (lit ''usr'')" using cstrI[of "ascii ''usr''" "[]"] by simp
  from change_directory_overflow[OF p a] show ?thesis by simp
qed

end
