(* ===== verification/SessionProps.thy ===== *)
theory SessionProps
  imports Session CommandProps
begin

text \<open>
  Sessions at the keyboard of the kernel: the commands that answer whatever the devices
  are, as an instance of the contract of a command table, and the session that rests on it.
\<close>

section \<open>Commands that answer\<close>

definition kernel_keep :: "u8 list \<Rightarrow> 'a kernel_ext \<Rightarrow> bool" where
  "kernel_keep path rest \<longleftrightarrow> MAX_PATH_LENGTH < length path"

text \<open>The path each of them leaves behind; the commands that need a drive are not covered.\<close>

definition kernel_effect :: "u8 list \<Rightarrow> u8 list \<Rightarrow> u8 list \<Rightarrow> u8 list option" where
  "kernel_effect word args p =
     (if word \<in> {ascii ''help'', ascii ''history'', ascii ''echo'', ascii ''sysinfo'', ascii ''reboot'', ascii ''uptime''} then Some p
      else if word = ascii ''pwd'' then if printable p then Some p else None
      else if word = ascii ''cd'' then
        if length (split_on (ch (CHR ''/'')) args) \<le> MAX_PATH_DEPTH \<and> length p + length args < MAX_PATH_LENGTH \<and> length args + 1 < str_max
        then Some (changed_path p args) else None
      else None)"

lemma answered_prints:
  assumes "prints (ps @ [NL]) f" and "screen_ok st" and "cstr p (currentPath st)" and "keep (currentPath st) (terminal.more st)"
  shows "answered keep p st (f st)"
  using answered_printed[of ps st "f st" p keep] printsD[OF assms(1,2)] assms(3,4) by blast

lemma echo_prints: "cstr a args \<Longrightarrow> printable a \<Longrightarrow> prints ([Txt White a] @ [NL]) (cmd_echo args)"
  unfolding cmd_echo_def[abs_def] by simp (rule prints_text)

lemma help_prints: "\<exists>ps. prints (ps @ [NL]) (cmd_help args)"
proof -
  let ?ps = "\<lambda>i. [Txt White (kernel_command_names ! i)] @ [Txt White (ascii ''; '')]"
  have names: "cstr (kernel_command_names ! i) (command_names ! i)" "printable (kernel_command_names ! i)" if "i < length command_names" for i
  proof -
    have "list_all2 (\<lambda>n b. cstr n b \<and> printable n) kernel_command_names command_names"
      by (simp add: kernel_command_names_def command_names_def cstr_def printable_def)
    from list_all2_nthD2[OF this that] show "cstr (kernel_command_names ! i) (command_names ! i)" "printable (kernel_command_names ! i)" by simp_all
  qed
  have "\<forall>i < length command_names. prints (?ps i) (\<lambda>st. print_inline (command_names ! i) White st \<bind> print_inline (lit ''; '') White)"
    by (intro allI impI prints_bind prints_inline names prints_lit) simp_all
  from prints_range[OF this] have "prints (concat (map ?ps [0 ..< length command_names]) @ [NL])
      (\<lambda>st. for_range (\<lambda>i st. print_inline (command_names ! i) White st \<bind> print_inline (lit ''; '') White) 0 (length command_names) st \<bind> newline)"
    by (rule prints_bind[OF _ prints_newline])
  then show ?thesis unfolding cmd_help_def[abs_def] by blast
qed

lemma prints_info_string:
  assumes "list_all2 arg_text args texts" and "sum_list (map length texts) < str_max" and "\<forall>s \<in> set texts. printable s"
  shows "prints (tag_pieces t (concat texts)) (print_info_string t args)"
  unfolding print_info_string_def[abs_def]
  by (rule prints_string[OF assms(1,2)]) (rule prints_info, assumption, simp add: printable_concat assms(3))

lemma sysinfo_prints: "\<exists>ps. prints (ps @ [NL]) (cmd_sysinfo args)"
proof -
  let ?texts = "[ascii ''ESZ-OS'', ascii '' - '', ascii ''x86_64'', ascii '' - ('', ascii ''v0.4.5'', ascii '') by '', ascii ''Jonas Paprotka'']"
  have "prints (tag_pieces Info (concat ?texts)) (cmd_sysinfo args)"
    unfolding cmd_sysinfo_def[abs_def] printSysinfo_def[abs_def]
    by (rule prints_info_string)
      (simp_all add: OS_NAME_def OS_AUTHOR_def ARCH_NAME_def OS_VERSION_STRING_def printable_def cstr_def)
  then show ?thesis
    by (intro exI[of _ "[Txt (fst (text_tag Info)) (butlast (snd (text_tag Info))), Txt White (concat ?texts)]"]) (simp add: tag_pieces_def)
qed

lemma uptime_prints:
  assumes "screen_ok st"
  shows "\<exists>ps. printed (ps @ [NL]) st (cmd_get_uptime args st)"
proof -
  let ?ms = "get_ticks_in_ms (ticks st)"
  let ?sec = "?ms div 1000" let ?minutes = "?ms div 1000 div 60" let ?hour = "?ms div 1000 div 60 div 60"
  let ?texts = "[number_text 10 (?hour div 24), ascii ''d, '', number_text 10 (?hour mod 24), ascii ''h, '', number_text 10 (?minutes mod 60),
    ascii ''m, '', number_text 10 (?sec mod 60), ascii ''s, '', number_text 10 (?ms mod 1000), ascii ''ms'']"
  have at: "list_all2 arg_text (uptime_parts ?ms) ?texts" by (simp add: uptime_parts_def Let_def cstr_def)
  have "sum_list (map length ?texts) \<le> 5 * 20 + 14"
    using length_number_text[of "?hour div 24"] length_number_text[of "?hour mod 24"] length_number_text[of "?minutes mod 60"]
      length_number_text[of "?sec mod 60"] length_number_text[of "?ms mod 1000"] by simp
  then have len: "sum_list (map length ?texts) < str_max" by simp
  have pr: "printable (concat ?texts)" unfolding printable_concat by (simp add: printable_number) (simp add: printable_def)
  have "prints ([Txt White (concat ?texts)] @ [NL]) (\<lambda>st. String_construct (uptime_parts ?ms) \<bind> (\<lambda>s. print_text s White st))"
    by (rule prints_string[OF at len]) (simp only: append_Cons append_Nil, rule prints_text, assumption, rule pr)
  from printsD[OF this assms] show ?thesis unfolding cmd_get_uptime_def by blast
qed

text \<open>The history is printed row by row, each with a line break.\<close>

lemma history_prints:
  fixes st :: "'a kernel_scheme"
  assumes h: "history_ok hist st" "\<forall>c \<in> set hist. printable c" and ok: "screen_ok st"
  shows "printed (concat (map (\<lambda>c. [Txt White c, NL]) hist)) st (cmd_history args st)"
proof -
  have keeps: "prints [Txt White (hist ! i), NL] (print_text (commandHistory st ! i) White :: 'a kernel_scheme \<Rightarrow> _)"
    if "i < length hist" for i
    using h that by (intro prints_text) (auto simp: history_ok_def)
  let ?body = "\<lambda>i (st :: 'a kernel_scheme). do { c \<leftarrow> rd (commandHistory st) i; print_text c White st }"
  let ?I = "\<lambda>i st'. printed (concat (map (\<lambda>c. [Txt White c, NL]) (take i hist))) st (Some st')"
  have "\<exists>s'. for_loop ?body 0 (length hist) st = Some s' \<and> ?I (0 + length hist) s'"
  proof (rule for_loop_rule[where I = ?I])
    show "?I 0 st" using ok by (simp add: printed_def)
  next
    fix i st1 assume i: "i < 0 + length hist" and I: "?I i st1"
    then have st1: "moved st st1" "screen_ok st1" by (simp_all add: printed_def)
    have r: "rd (commandHistory st1) i = Some (commandHistory st ! i)"
      using moved_terminal(5)[OF st1(1)] h(1) i by (simp add: history_ok_def)
    have "i < length hist" using i by simp
    from printsD[OF keeps[OF this] st1(2)] i I show "\<exists>s'. ?body i st1 = Some s' \<and> ?I (Suc i) s'"
      by (auto simp: r printed_def take_Suc_conv_app_nth moved_fields intro: moved_trans)
  qed
  moreover have "cmdHistCount st = length hist" using h(1) by (simp add: history_ok_def)
  ultimately show ?thesis by (auto simp: cmd_history_def printed_def)
qed

lemma history_answers:
  fixes st :: "'a kernel_scheme"
  assumes h: "history_ok hist st" "\<forall>c \<in> set hist. printable c" and ok: "screen_ok st" "scrollback st \<noteq> []" "last (scrollback st) = []"
    and p: "cstr p (currentPath st)" "keep (currentPath st) (terminal.more st)"
  shows "answered keep p st (cmd_history args st)"
proof (cases hist rule: rev_cases)
  case Nil
  then have "cmd_history args st = Some st" using h(1) by (simp add: cmd_history_def history_ok_def)
  then show ?thesis using ok p by (simp add: answered_def)
next
  case (snoc hs c)
  let ?ps = "concat (map (\<lambda>c. [Txt White c, NL]) hs) @ [Txt White c]"
  have "printed (?ps @ [NL]) st (cmd_history args st)" using history_prints[OF h ok(1)] snoc by simp
  from answered_printed[of ?ps st _ p keep, OF this p] show ?thesis .
qed

lemma silent_answers:
  fixes st st' :: "'a terminal_scheme"
  assumes "screen.truncate st' = screen.truncate st" and "screen_ok st" "scrollback st \<noteq> []" "last (scrollback st) = []"
    and "lineInputBuffer st' = lineInputBuffer st" "commandHistory st' = commandHistory st" "cmdHistCount st' = cmdHistCount st"
      "goThroughHistoryCount st' = goThroughHistoryCount st" "shift st' = shift st" "isExtendedScancode st' = isExtendedScancode st"
    and "cstr p (currentPath st')" "keep (currentPath st') (terminal.more st')"
  shows "answered keep p st (Some st')"
proof -
  have "cursorAt_X st' = cursorAt_X st" "cursorAt_Y st' = cursorAt_Y st"
    using arg_cong[OF assms(1), of cursorAt_X] arg_cong[OF assms(1), of cursorAt_Y] by (simp_all add: truncate_fields)
  then have "screen_ok st'"
    using assms(2) by (auto simp: screen_ok_def same_screen[OF assms(1)] at_end_def)
  then show ?thesis using assms by (simp add: answered_def same_screen[OF assms(1)])
qed

section \<open>The contract of the kernel's table\<close>

lemma cd_answers:
  fixes st :: "'a kernel_scheme"
  assumes a: "cstr a args" "length (split_on (ch (CHR ''/'')) a) \<le> MAX_PATH_DEPTH" "length a + 1 < str_max" "length p + length a < MAX_PATH_LENGTH"
    and ok: "screen_ok st" "scrollback st \<noteq> []" "last (scrollback st) = []"
    and p: "cstr p (currentPath st)" "kernel_keep (currentPath st) (terminal.more st)"
  shows "answered kernel_keep (changed_path p a) st (cmd_cd args st)"
proof -
  have "length p + length a + 1 < length (currentPath st)" using a(4) p(2) by (simp add: kernel_keep_def)
  from change_directory_effect[OF p(1) a(1-3) this] obtain path where
    path: "cmd_cd args st = Some (st\<lparr>currentPath := path\<rparr>)" "cstr (changed_path p a) path" "length path = length (currentPath st)"
    by (auto simp: cmd_cd_def)
  show ?thesis unfolding path(1)
    by (rule silent_answers[OF _ ok]) (use path p(2) in \<open>simp_all add: screen.truncate_def kernel_keep_def\<close>)
qed

lemma reboot_answers:
  fixes st :: "'a kernel_scheme"
  assumes ok: "screen_ok st" "scrollback st \<noteq> []" "last (scrollback st) = []"
    and p: "cstr p (currentPath st)" "kernel_keep (currentPath st) (terminal.more st)"
  shows "answered kernel_keep p st (cmd_reboot args st)"
  unfolding cmd_reboot_def by (rule silent_answers[OF _ ok]) (use p in \<open>simp_all add: screen.truncate_def kernel_keep_def\<close>)

lemma pwd_answers:
  fixes st :: "'a kernel_scheme"
  assumes "printable p" and "screen_ok st" and "cstr p (currentPath st)" and "keep (currentPath st) (terminal.more st)"
  shows "answered keep p st (cmd_pwd args st)"
proof -
  have "printed ([Txt White p] @ [NL]) st (cmd_pwd args st)"
    using printsD[OF prints_text[OF assms(3,1), of White] assms(2)] by (simp add: cmd_pwd_def filesystem_print_working_directory_def)
  from answered_printed[of "[Txt White p]" st _ p keep, OF this assms(3,4)] show ?thesis .
qed

lemma kernel_names: "length kernel_command_names = 15" "distinct kernel_command_names"
  by (simp_all add: kernel_command_names_def command_names_def)

lemma kernel_execute:
  "execute (commands plat ! 0) = cmd_help" "execute (commands plat ! Suc 0) = cmd_history" "execute (commands plat ! 2) = cmd_echo"
  "execute (commands plat ! 4) = cmd_sysinfo" "execute (commands plat ! 5) = cmd_reboot" "execute (commands plat ! 7) = cmd_get_uptime"
  "execute (commands plat ! 12) = cmd_cd" "execute (commands plat ! 14) = cmd_pwd"
  by (simp_all add: commands_def command_names_def)

lemma kernel_effect_cases:
  assumes "i < 15" and "kernel_effect (kernel_command_names ! i) a p = Some p'"
  shows "i = 0 \<and> p' = p \<or> i = 1 \<and> p' = p \<or> i = 2 \<and> p' = p \<or> i = 4 \<and> p' = p \<or> i = 5 \<and> p' = p \<or> i = 7 \<and> p' = p \<or>
    i = 14 \<and> p' = p \<and> printable p \<or> i = 12 \<and> p' = changed_path p a \<and> length (split_on (ch (CHR ''/'')) a) \<le> MAX_PATH_DEPTH \<and>
      length p + length a < MAX_PATH_LENGTH \<and> length a + 1 < str_max"
proof -
  from assms(1) have "i \<in> {0, 1, 2, 3, 4, 5, 6, 7, 8, 9, 10, 11, 12, 13, 14}" unfolding insert_iff empty_iff by presburger
  then show ?thesis
    using assms(2) by (elim insertE) (simp_all add: kernel_effect_def kernel_command_names_def command_names_def split: if_splits)
qed

interpretation kernel_shell: command_table "commands plat" kernel_command_names kernel_keep kernel_effect
  for plat :: platform
proof unfold_locales
  show "commands_ok (commands plat) kernel_command_names" by (rule kernel_commands_ok)
  show "distinct kernel_command_names" by (rule kernel_names)
  fix i a p p' args and st :: "'a kernel_scheme" and hist
  assume i: "i < length kernel_command_names" and eff: "kernel_effect (kernel_command_names ! i) a p = Some p'"
    and a: "cstr a args" "printable a" and p: "cstr p (currentPath st)" "kernel_keep (currentPath st) (terminal.more st)"
    and ok: "screen_ok st" "scrollback st \<noteq> []" "last (scrollback st) = []"
    and h: "history_ok hist st" "\<forall>c \<in> set hist. printable c"
  from kernel_effect_cases[OF i[unfolded kernel_names(1)] eff]
  show "answered kernel_keep p' st (execute (commands plat ! i) args st)"
  proof (elim disjE conjE)
    assume c: "i = 0" "p' = p"
    obtain ps where "prints (ps @ [NL]) (cmd_help args :: 'a kernel_scheme \<Rightarrow> _)" using help_prints by blast
    from answered_prints[of ps _ st p kernel_keep, OF this ok(1) p] show ?thesis by (simp add: c kernel_execute)
  next
    assume c: "i = 1" "p' = p"
    from history_answers[of hist st p kernel_keep, OF h ok p] show ?thesis by (simp add: c kernel_execute)
  next
    assume c: "i = 2" "p' = p"
    from answered_prints[of "[Txt White a]" _ st p kernel_keep, OF echo_prints[OF a] ok(1) p] show ?thesis by (simp add: c kernel_execute)
  next
    assume c: "i = 4" "p' = p"
    obtain ps where "prints (ps @ [NL]) (cmd_sysinfo args :: 'a kernel_scheme \<Rightarrow> _)" using sysinfo_prints by blast
    from answered_prints[of ps _ st p kernel_keep, OF this ok(1) p] show ?thesis by (simp add: c kernel_execute)
  next
    assume c: "i = 5" "p' = p"
    from reboot_answers[OF ok p] show ?thesis by (simp add: c kernel_execute)
  next
    assume c: "i = 7" "p' = p"
    obtain ps where "printed (ps @ [NL]) st (cmd_get_uptime args st)" using uptime_prints[OF ok(1)] by blast
    from answered_printed[of ps st _ p kernel_keep, OF this p] show ?thesis by (simp add: c kernel_execute)
  next
    assume c: "i = 14" "p' = p" "printable p"
    from pwd_answers[of p st kernel_keep, OF c(3) ok(1) p] show ?thesis by (simp add: c kernel_execute)
  next
    assume c: "i = 12" "p' = changed_path p a" "length (split_on (ch (CHR ''/'')) a) \<le> MAX_PATH_DEPTH"
      "length p + length a < MAX_PATH_LENGTH" "length a + 1 < str_max"
    from cd_answers[OF a(1) c(3,5,4) ok p] show ?thesis by (simp add: c(1,2) kernel_execute)
  qed
qed

section \<open>Sessions\<close>

text \<open>C12. The keyboard is served as the desk says: for every sequence of scan codes that are possible steps of the desk, shift, arrows,
  editing, history, completion and commands that need no drive, the handlers of the kernel run one after the other without a fault,
  and screen, input buffer, history, path and key states are at the end those of the desk the steps lead to.\<close>

theorem session_served:
  fixes st :: "'a kernel_scheme"
  assumes "at_desk d st" and "MAX_PATH_LENGTH < length (currentPath st)"
    and "presses (nat (MAX_CHARS st)) kernel_command_names kernel_effect codes d d'"
  shows "\<exists>st'. handle_keys (commands plat) codes st = Some st' \<and> at_desk d' st' \<and> nat (MAX_CHARS st') = nat (MAX_CHARS st)"
proof -
  have "serves (nat (MAX_CHARS st)) kernel_keep d st" using assms(1,2) by (simp add: serves_def kernel_keep_def)
  from kernel_shell.session_implemented[OF assms(3) this] show ?thesis by (auto simp: serves_def)
qed

text \<open>The kernel of the samples at its prompt, where \<open>cd x\<close> is typed and then recalled from the history.\<close>

lemma sample_prompt:
  "\<exists>st. newTerminalInputLine sample_kernel = Some st \<and> at_desk (fresh_desk (ascii ''/'') [] False False) st \<and> nat (MAX_CHARS st) = 16 \<and>
    length (currentPath st) = 4097"
proof -
  have p: "cstr (ascii ''/'') (currentPath sample_kernel)"
    using cstrI[of "ascii ''/''" "replicate 4095 0"] by (simp add: sample_kernel_def)
  have w: "path_ok 16 (ascii ''/'')" by (simp add: path_ok_def)
  have "cstr [] (replicate 256 0)" by (simp add: cstr_def) (simp add: numeral_eq_Suc)
  then have b: "lineInputLength sample_kernel = 0" "lineInputCursorPos sample_kernel = 0" "length (lineInputBuffer sample_kernel) = TERMINAL_BUFFER_SIZE"
    "cstr [] (lineInputBuffer sample_kernel)"
    by (simp_all add: sample_kernel_def TERMINAL_BUFFER_SIZE_def)
  have "scrollback sample_kernel = [] @ [[]]" by (simp add: sample_kernel_screen)
  from prompt_printed[OF sample_kernel_screen(1) this p _ b] w obtain st where
    st: "newTerminalInputLine sample_kernel = Some st" "editing [] (prompt_cells (ascii ''/'')) [] [] st" "kept sample_kernel st"
    by (auto simp: sample_kernel_screen)
  have "history_ok [] st" using sample_kernel_history st(3) by (simp add: history_ok_def kept_def)
  moreover have "MAX_CHARS st = 16" "currentPath st = currentPath sample_kernel" "\<not> shift st" "\<not> isExtendedScancode st" "goThroughHistoryCount st = 0"
    using st(3) by (simp_all add: kept_def sample_kernel_screen) (simp_all add: sample_kernel_def)
  moreover have "length (currentPath sample_kernel) = 4097" by (simp add: sample_kernel_def)
  ultimately show ?thesis
    using st(1,2) p w by (intro exI[of _ st]) (auto simp: at_desk_def fresh_desk_def line_of_def printable_def)
qed

lemma sample_keys:
  "plain_code 0x2E" "plain_code 0x20" "plain_code 0x39" "plain_code 0x2D" "plain_code 0x1C"
  "scancode_to_keycode current_layout False 0x2E = Some 0x63" "scancode_to_keycode current_layout False 0x20 = Some 0x64"
  "scancode_to_keycode current_layout False 0x39 = Some 0x20" "scancode_to_keycode current_layout False 0x2D = Some 0x78"
  "scancode_to_keycode current_layout False 0x1C = Some 256"
  by (simp_all add: plain_code_def scancode_to_keycode_def current_layout_def layout_map_def us_keymap_def keys_def)

definition sample_desk :: "u8 list \<Rightarrow> desk" where
  "sample_desk t = fresh_desk (ascii ''/'') [] False False\<lparr>before_cursor := t\<rparr>"

lemma sample_desk_more: "sample_desk [] = fresh_desk (ascii ''/'') [] False False" "line_of (sample_desk t) = t"
  "plain_code s \<Longrightarrow> scancode_to_keycode current_layout False s = Some k \<Longrightarrow> typed_key s (sample_desk t) k"
  by (simp_all add: sample_desk_def fresh_desk_def line_of_def typed_key_def)

lemma sample_character:
  assumes "plain_code s" "scancode_to_keycode current_layout False s = Some k" "k < 128" "ucast k \<noteq> (0 :: u8)" "length t < 10"
    and "presses 16 kernel_command_names kernel_effect codes (sample_desk (t @ [ucast k])) d"
  shows "presses 16 kernel_command_names kernel_effect (s # codes) (sample_desk t) d"
proof (rule presses.more)
  let ?d = "edit_desk (Insert (ucast k)) (sample_desk t)"
  have "k \<notin> {256, 257, 258}" using assms(3) by auto
  moreover have "room_for 16 (sample_desk t) (Suc (length (line_of (sample_desk t))))"
    using assms(5) by (simp add: room_for_def sample_desk_more) (simp add: sample_desk_def fresh_desk_def TERMINAL_BUFFER_SIZE_def)
  ultimately show "press 16 kernel_command_names kernel_effect s (sample_desk t) ?d"
    using press.character[OF sample_desk_more(3)[OF assms(1,2)] _ assms(4)] by blast
  show "presses 16 kernel_command_names kernel_effect codes ?d d"
    using assms(6) by (simp add: edit_desk_def sample_desk_def fresh_desk_def)
qed

lemma sample_presses:
  "presses 16 kernel_command_names kernel_effect [0x2E, 0x20, 0x39, 0x2D, 0x1C, 0xE0, 0x48] (sample_desk [])
    \<lparr>at_path = ascii ''/x/'', before_cursor = ascii ''cd x'', behind_cursor = [], recorded = [ascii ''cd x''], browsed = 1, shifted = False, extended = False\<rparr>"
proof -
  let ?fresh = "fresh_desk (ascii ''/x/'') [ascii ''cd x''] False False"
  have w: "command_word (ascii ''cd x'') = ascii ''cd''" "command_args (ascii ''cd x'') = ascii ''x''"
    by (simp_all add: command_word_def command_args_def)
  have eff: "kernel_effect (ascii ''cd'') (ascii ''x'') (ascii ''/'') = Some (ascii ''/x/'')"
    by (simp add: kernel_effect_def changed_path_def length_split_on MAX_PATH_DEPTH_def MAX_PATH_LENGTH_def)
  have "press 16 kernel_command_names kernel_effect 0x1C (sample_desk (ascii ''cd x''))
      (fresh_desk (ascii ''/x/'') (remember (line_of (sample_desk (ascii ''cd x''))) (recorded (sample_desk (ascii ''cd x''))))
        (shifted (sample_desk (ascii ''cd x''))) False)"
  proof (rule press.enter_command)
    show "typed_key 0x1C (sample_desk (ascii ''cd x'')) 256" by (rule sample_desk_more(3)[OF sample_keys(5,10)])
    show "line_of (sample_desk (ascii ''cd x'')) \<noteq> []" by (simp add: sample_desk_more)
    show "command_word (line_of (sample_desk (ascii ''cd x''))) \<in> set kernel_command_names"
      unfolding sample_desk_more w by (simp add: kernel_command_names_def command_names_def)
    show "kernel_effect (command_word (line_of (sample_desk (ascii ''cd x'')))) (command_args (line_of (sample_desk (ascii ''cd x''))))
        (at_path (sample_desk (ascii ''cd x''))) = Some (ascii ''/x/'')"
      unfolding sample_desk_more w using eff by (simp add: sample_desk_def fresh_desk_def)
    show "path_ok 16 (ascii ''/x/'')" by (simp add: path_ok_def)
  qed
  moreover have "remember (line_of (sample_desk (ascii ''cd x''))) (recorded (sample_desk (ascii ''cd x''))) = [ascii ''cd x'']"
    "shifted (sample_desk (ascii ''cd x'')) = False"
    unfolding sample_desk_more by (simp_all add: remember_def sample_desk_def fresh_desk_def MAX_COMMAND_HISTORY_def)
  ultimately have enter: "press 16 kernel_command_names kernel_effect 0x1C (sample_desk (ascii ''cd x'')) ?fresh" by simp
  have "press 16 kernel_command_names kernel_effect 0x48 (?fresh\<lparr>extended := True\<rparr>)
      ((browse (Suc (browsed (?fresh\<lparr>extended := True\<rparr>))) (?fresh\<lparr>extended := True\<rparr>))\<lparr>extended := False\<rparr>)"
    by (rule press.up) (simp_all add: fresh_desk_def can_browse_def browse_def one_row_def room_for_def TERMINAL_BUFFER_SIZE_def)
  then have up: "press 16 kernel_command_names kernel_effect 0x48 (?fresh\<lparr>extended := True\<rparr>)
      \<lparr>at_path = ascii ''/x/'', before_cursor = ascii ''cd x'', behind_cursor = [], recorded = [ascii ''cd x''], browsed = 1, shifted = False, extended = False\<rparr>"
    by (simp add: fresh_desk_def browse_def)
  note last = presses.more[OF enter presses.more[OF press.prefix_code presses.more[OF up presses.none]]]
  show ?thesis
    by (rule sample_character[OF sample_keys(1,6)], simp_all, rule sample_character[OF sample_keys(2,7)], simp_all,
      rule sample_character[OF sample_keys(3,8)], simp_all, rule sample_character[OF sample_keys(4,9)], simp_all, rule last[simplified])
qed

lemma session_served_witness:
  "\<exists>st st'. newTerminalInputLine sample_kernel = Some st \<and> handle_keys (commands sample_platform) [0x2E, 0x20, 0x39, 0x2D, 0x1C, 0xE0, 0x48] st = Some st' \<and>
    at_desk \<lparr>at_path = ascii ''/x/'', before_cursor = ascii ''cd x'', behind_cursor = [], recorded = [ascii ''cd x''], browsed = 1,
      shifted = False, extended = False\<rparr> st'"
proof -
  from sample_prompt obtain st where st: "newTerminalInputLine sample_kernel = Some st" "at_desk (sample_desk []) st"
    "nat (MAX_CHARS st) = 16" "length (currentPath st) = 4097" unfolding sample_desk_more(1) by blast
  have "MAX_PATH_LENGTH < length (currentPath st)" by (simp add: st(4) MAX_PATH_LENGTH_def)
  from session_served[OF st(2) this sample_presses[folded st(3)], of sample_platform] st(1) show ?thesis by auto
qed

text \<open>C38. The escape key types a line feed: its key code 266 is narrowed to the character 10, which goes into the line like any
  other, so that a recorded line can contain a break that showing it from the history would execute.\<close>

theorem escape_typed:
  fixes st :: "'a terminal_scheme"
  assumes "at_desk d st" and "\<not> extended d" and "room_for (nat (MAX_CHARS st)) d (Suc (length (line_of d)))"
  shows "\<exists>st'. keyboard_handler table 0x01 st = Some st' \<and> at_desk (d\<lparr>before_cursor := before_cursor d @ [0x0A]\<rparr>) st'"
proof -
  have d: "serves (nat (MAX_CHARS st)) (\<lambda>_ _. True) d st" using assms(1) by (simp add: serves_def)
  have "scancode_to_keycode current_layout (shifted d) 0x01 = Some 266"
    by (simp add: scancode_to_keycode_def current_layout_def layout_map_def us_keymap_def word_le_nat_alt)
  then have "typed_key 0x01 d 266" using assms(2) by (simp add: typed_key_def plain_code_def)
  note key = this
  have c: "ucast (266 :: u16) = (0x0A :: u8)" by simp
  have "(266 :: u16) \<notin> {256, 257, 258}" "ucast (266 :: u16) \<noteq> (0 :: u8)" unfolding c by simp_all
  from character_pressed[OF d key this assms(3), of table] obtain st' where
    "keyboard_handler table 0x01 st = Some st'" "serves (nat (MAX_CHARS st)) (\<lambda>_ _. True) (edit_desk (Insert 0x0A) d) st'"
    unfolding c by blast
  moreover have "edit_desk (Insert 0x0A) d = d\<lparr>before_cursor := before_cursor d @ [0x0A]\<rparr>"
    by (cases d) (simp add: edit_desk_def)
  ultimately show ?thesis by (auto simp: serves_def)
qed

lemma escape_typed_witness:
  "\<exists>st st'. newTerminalInputLine sample_kernel = Some st \<and> keyboard_handler (commands sample_platform) 0x01 st = Some st' \<and>
    at_desk (sample_desk [0x0A]) st'"
proof -
  from sample_prompt obtain st where st: "newTerminalInputLine sample_kernel = Some st" "at_desk (sample_desk []) st"
    "nat (MAX_CHARS st) = 16" unfolding sample_desk_more(1) by blast
  have "\<not> extended (sample_desk [])" "room_for (nat (MAX_CHARS st)) (sample_desk []) (Suc (length (line_of (sample_desk []))))"
    by (simp_all add: st(3) room_for_def sample_desk_def fresh_desk_def line_of_def TERMINAL_BUFFER_SIZE_def)
  from escape_typed[OF st(2) this, of "commands sample_platform"] st(1) show ?thesis
    by (auto simp: sample_desk_def fresh_desk_def)
qed

end
