(* ===== verification/ShellStart.thy ===== *)
theory ShellStart
  imports SessionProps
begin

text \<open>
  The start of the shell: the header on the screen and the first prompt, the desk from
  which every session begins.
\<close>

lemma printed_bind:
  assumes "printed ps st r" and "\<And>st1. screen_ok st1 \<Longrightarrow> MAX_CHARS st1 = MAX_CHARS st \<Longrightarrow> printed qs st1 (g st1)"
  shows "printed (ps @ qs) st (r \<bind> g)"
proof -
  from assms(1) obtain st1 where 1: "r = Some st1" "moved st st1" "screen_ok st1" "stored_lines st1 = stored_lines st"
    "scrollback st1 = tty_pieces (nat (MAX_CHARS st)) (stored_lines st) ps (scrollback st)" by (auto simp: printed_def)
  note w = moved_fields(1)[OF 1(2)]
  from assms(2)[OF 1(3) w] obtain st2 where 2: "g st1 = Some st2" "moved st1 st2" "screen_ok st2" "stored_lines st2 = stored_lines st1"
    "scrollback st2 = tty_pieces (nat (MAX_CHARS st1)) (stored_lines st1) qs (scrollback st1)" by (auto simp: printed_def)
  then show ?thesis using 1 w moved_trans[OF 1(2) 2(2)] by (simp add: printed_def)
qed

definition separator :: "nat \<Rightarrow> piece list" where
  "separator w = [Txt DarkGray (replicate (w div 2) 0x2D), NL]"

lemma separator_printed:
  assumes "screen_ok st" and "MAX_CHARS st < 2 ^ 24"
  shows "printed (separator (nat (MAX_CHARS st))) st (print_separator st)"
proof -
  let ?m = "nat (MAX_CHARS st) div 2"
  have pos: "0 \<le> MAX_CHARS st" using assms(1) by (auto simp: screen_ok_def screen_base_def geometry_def)
  then have "MAX_CHARS st div 2 = int ?m" by (simp add: zdiv_int)
  then have w: "word_of_int (MAX_CHARS st div 2) = (of_nat ?m :: u64)" by simp
  have m: "?m < str_max" using assms(2) pos by simp
  have "concat (replicate k [0x2D]) = replicate k (0x2D :: u8)" for k by (induction k) simp_all
  with str_repeat_spec[of "[0x2D]" "lit ''-''" ?m] m have
    r: "str_repeat (lit ''-'') (of_nat ?m) = Some (replicate ?m 0x2D @ [0])" by (simp add: cstr_def)
  have c: "cstr (replicate ?m 0x2D) (replicate ?m 0x2D @ [0])" using cstrI[of "replicate ?m 0x2D" "[]"] by simp
  have "printable (replicate ?m 0x2D)" by (simp add: printable_def)
  then have "prints ([Txt DarkGray (replicate ?m 0x2D)] @ [NL]) (\<lambda>st. print_inline (replicate ?m 0x2D @ [0]) DarkGray st \<bind> newline)"
    by (intro prints_bind prints_newline prints_inline c)
  from printsD[OF this assms(1)] show ?thesis unfolding print_separator_def w r by (simp add: separator_def)
qed

text \<open>What \<open>printTerminalHeader\<close> shows.\<close>

definition banner :: "string list" where
  "banner = [''   #####  #####  #####'', ''   ##     ##        ##'', ''   #####  #####   ##  '', ''   ##        ##  ##   '', ''   #####  #####  #####'']"

definition header_pieces :: "nat \<Rightarrow> piece list" where
  "header_pieces w = separator w @ concat (map (\<lambda>s. [Txt White (ascii s), NL]) banner) @ [NL] @
     tag_pieces Info (ascii ''ESZ-OS - x86_64 - (v0.4.5) by Jonas Paprotka'') @ separator w"

lemma sysinfo_line: "prints (tag_pieces Info (ascii ''ESZ-OS - x86_64 - (v0.4.5) by Jonas Paprotka'')) printSysinfo"
proof -
  let ?texts = "[ascii ''ESZ-OS'', ascii '' - '', ascii ''x86_64'', ascii '' - ('', ascii ''v0.4.5'', ascii '') by '', ascii ''Jonas Paprotka'']"
  have "prints (tag_pieces Info (concat ?texts)) printSysinfo"
    unfolding printSysinfo_def[abs_def]
    by (rule prints_info_string)
      (simp_all add: OS_NAME_def OS_AUTHOR_def ARCH_NAME_def OS_VERSION_STRING_def printable_def cstr_def)
  then show ?thesis by simp
qed

lemma banner_printed:
  "prints (concat (map (\<lambda>s. [Txt White (ascii s), NL]) banner) @ [NL]) (\<lambda>st. do {
     st \<leftarrow> print_text (lit ''   #####  #####  #####'') White st;
     st \<leftarrow> print_text (lit ''   ##     ##        ##'') White st;
     st \<leftarrow> print_text (lit ''   #####  #####   ##  '') White st;
     st \<leftarrow> print_text (lit ''   ##        ##  ##   '') White st;
     st \<leftarrow> print_text (lit ''   #####  #####  #####'') White st;
     newline st })"
proof -
  have lines: "prints [Txt White (ascii s), NL] (print_text (lit s) White :: 'a screen_scheme \<Rightarrow> _)" if "s \<in> set banner" for s
    using that by (intro prints_text cstr_lit) (auto simp: banner_def printable_def)
  let ?p = "\<lambda>s. [Txt White (ascii s), NL]" let ?b = "\<lambda>i. banner ! i"
  have "prints (?p (?b 0) @ ?p (?b 1) @ ?p (?b 2) @ ?p (?b 3) @ ?p (?b 4) @ [NL]) (\<lambda>st :: 'a screen_scheme. print_text (lit (?b 0)) White st \<bind> (\<lambda>st.
      print_text (lit (?b 1)) White st \<bind> (\<lambda>st. print_text (lit (?b 2)) White st \<bind> (\<lambda>st. print_text (lit (?b 3)) White st \<bind> (\<lambda>st.
      print_text (lit (?b 4)) White st \<bind> newline)))))"
    by (intro prints_bind prints_newline lines) (simp_all add: banner_def)
  then show ?thesis by (simp add: banner_def numeral_eq_Suc)
qed

lemma header_printed:
  fixes st :: "'a screen_scheme"
  assumes ok: "screen_ok st" and w: "MAX_CHARS st < 2 ^ 24"
  shows "printed (header_pieces (nat (MAX_CHARS st))) st (printTerminalHeader st)"
proof -
  have assoc: "printTerminalHeader st = print_separator st \<bind> (\<lambda>st. do {
     st \<leftarrow> print_text (lit ''   #####  #####  #####'') White st;
     st \<leftarrow> print_text (lit ''   ##     ##        ##'') White st;
     st \<leftarrow> print_text (lit ''   #####  #####   ##  '') White st;
     st \<leftarrow> print_text (lit ''   ##        ##  ##   '') White st;
     st \<leftarrow> print_text (lit ''   #####  #####  #####'') White st;
     newline st }) \<bind> printSysinfo \<bind> print_separator"
    by (simp add: printTerminalHeader_def Option.bind_assoc)
  let ?w = "nat (MAX_CHARS st)"
  note 1 = separator_printed[OF ok w]
  note 2 = printed_bind[OF 1 printsD[OF banner_printed]]
  note 3 = printed_bind[OF 2 printsD[OF sysinfo_line]]
  have "printed (separator ?w) st1 (print_separator st1)" if "screen_ok st1" "MAX_CHARS st1 = MAX_CHARS st" for st1 :: "'a screen_scheme"
    using separator_printed[OF that(1)] w that(2) by simp
  from printed_bind[OF 3 this] show ?thesis unfolding assoc by (simp only: header_pieces_def append_assoc)
qed

text \<open>The start of the shell, for the stages that lead to it.\<close>

lemma terminal_init_desk:
  fixes st :: "'a terminal_scheme"
  assumes ok: "screen_ok st" and w: "MAX_CHARS st < 2 ^ 24" "path_ok (nat (MAX_CHARS st)) p" "cstr p (currentPath st)"
    and line: "lineInputLength st = 0" "lineInputCursorPos st = 0" "length (lineInputBuffer st) = TERMINAL_BUFFER_SIZE" "cstr [] (lineInputBuffer st)"
    and hist: "history_ok [] st" "goThroughHistoryCount st = 0"
  shows "\<exists>st' older. terminal_init st = Some st' \<and> at_desk (fresh_desk p [] (shift st) (isExtendedScancode st)) st' \<and>
    older @ [[]] = tty_pieces (nat (MAX_CHARS st)) (stored_lines st) (header_pieces (nat (MAX_CHARS st))) (scrollback st) \<and>
    scrollback st' = older @ [prompt_cells p] \<and> MAX_CHARS st' = MAX_CHARS st \<and> currentPath st' = currentPath st \<and>
    terminal.more st' = terminal.more st"
proof -
  let ?rows = "tty_pieces (nat (MAX_CHARS st)) (stored_lines st) (header_pieces (nat (MAX_CHARS st))) (scrollback st)"
  from header_printed[OF ok w(1)] obtain st1 where
    st1: "printTerminalHeader st = Some st1" "moved st st1" "screen_ok st1" "scrollback st1 = ?rows" by (auto simp: printed_def)
  note f = moved_terminal[OF st1(2)] moved_fields(1)[OF st1(2)]
  have "last ?rows = []" "?rows \<noteq> []" by (simp_all add: header_pieces_def separator_def last_tty_newline)
  then have rows: "?rows = butlast ?rows @ [[]]" by (metis append_butlast_last_id)
  have "scrollback st1 = butlast ?rows @ [[]]" using st1(4) rows by (rule trans)
  from prompt_printed[OF st1(3) this] w line f obtain st2 where
    st2: "newTerminalInputLine st1 = Some st2" "editing (butlast ?rows) (prompt_cells p) [] [] st2" "kept st1 st2" by auto
  have "at_desk (fresh_desk p [] (shift st) (isExtendedScancode st)) st2"
    using st2(2,3) f hist w(2,3) by (auto simp: at_desk_def fresh_desk_def line_of_def printable_def kept_def history_ok_def)
  moreover from st2(2) have "scrollback st2 = butlast ?rows @ [prompt_cells p]"
    by (auto simp: editing_def scrollback_def screen_base_def)
  moreover have "terminal_init st = Some st2" using st1(1) st2(1) by (simp add: terminal_init_def)
  moreover have "MAX_CHARS st2 = MAX_CHARS st" "currentPath st2 = currentPath st" "terminal.more st2 = terminal.more st"
    using st2(3) f by (simp_all add: kept_def)
  ultimately show ?thesis using rows[symmetric] by blast
qed

text \<open>C13. The shell starts at its desk: on a terminal whose input line is empty and whose history is fresh, \<open>terminal_init\<close> prints
  the header below what is on the screen and the prompt with the current path, and the state is that of an empty desk, from which
  the session goes on.\<close>

theorem shell_started:
  fixes st :: "'a terminal_scheme"
  assumes ok: "screen_ok st" and w: "MAX_CHARS st < 2 ^ 24" "path_ok (nat (MAX_CHARS st)) p" "cstr p (currentPath st)"
    and line: "lineInputLength st = 0" "lineInputCursorPos st = 0" "length (lineInputBuffer st) = TERMINAL_BUFFER_SIZE" "cstr [] (lineInputBuffer st)"
    and hist: "history_ok [] st" "goThroughHistoryCount st = 0"
  shows "\<exists>st' older. terminal_init st = Some st' \<and> at_desk (fresh_desk p [] (shift st) (isExtendedScancode st)) st' \<and>
    older @ [[]] = tty_pieces (nat (MAX_CHARS st)) (stored_lines st) (header_pieces (nat (MAX_CHARS st))) (scrollback st) \<and>
    scrollback st' = older @ [prompt_cells p]"
  using terminal_init_desk[OF assms] by blast

lemma shell_started_witness:
  "\<exists>st'. terminal_init sample_kernel = Some st' \<and> at_desk (fresh_desk (ascii ''/'') [] False False) st' \<and>
    last (scrollback st') = prompt_cells (ascii ''/'')"
proof -
  have p: "cstr (ascii ''/'') (currentPath sample_kernel)"
    using cstrI[of "ascii ''/''" "replicate 4095 0"] by (simp add: sample_kernel_def)
  have w: "MAX_CHARS sample_kernel < 2 ^ 24" "path_ok (nat (MAX_CHARS sample_kernel)) (ascii ''/'')"
    by (simp_all add: sample_kernel_screen path_ok_def)
  have "cstr [] (replicate 256 0)" by (simp add: cstr_def) (simp add: numeral_eq_Suc)
  then have b: "lineInputLength sample_kernel = 0" "lineInputCursorPos sample_kernel = 0" "length (lineInputBuffer sample_kernel) = TERMINAL_BUFFER_SIZE"
    "cstr [] (lineInputBuffer sample_kernel)" "goThroughHistoryCount sample_kernel = 0" "\<not> shift sample_kernel" "\<not> isExtendedScancode sample_kernel"
    by (simp_all add: sample_kernel_def TERMINAL_BUFFER_SIZE_def)
  from shell_started[OF sample_kernel_screen(1) w p b(1-4) sample_kernel_history b(5)] b(6,7) show ?thesis by fastforce
qed

end
