(* ===== verification/BootSpec.thy ===== *)
theory BootSpec
  imports Boot ShellStart EarlyPrint DeviceProps
begin

text \<open>
  The start of the kernel as a whole: from the zeroed globals and what the boot loader passes, through the
  stages of \<open>kernel_main\<close>, to the desk at which the first session begins. Printing moves the screen only, the layers
  touch everything but the screen; \<open>layer\<close> keeps the two apart.
\<close>

section \<open>The globals\<close>

text \<open>Printing and the layers on the parts of the state behind the screen.\<close>

lemma more_upd:
  fixes u v :: "'a boot_scheme"
  assumes "screen.more u = screen.more v"
  shows "screen.more (u\<lparr>storage := s\<rparr>) = screen.more (v\<lparr>storage := s\<rparr>)"
    "screen.more (u\<lparr>BAR_IDX_5 := b\<rparr>) = screen.more (v\<lparr>BAR_IDX_5 := b\<rparr>)"
    "screen.more (u\<lparr>heap := h\<rparr>) = screen.more (v\<lparr>heap := h\<rparr>)"
    "screen.more (u\<lparr>virtual_bitmap := m\<rparr>) = screen.more (v\<lparr>virtual_bitmap := m\<rparr>)"
    "screen.more (u\<lparr>found_pci_devices := p, PCIDeviceAmount := n\<rparr>) = screen.more (v\<lparr>found_pci_devices := p, PCIDeviceAmount := n\<rparr>)"
    "screen.more (u\<lparr>currentPath := c\<rparr>) = screen.more (v\<lparr>currentPath := c\<rparr>)"
  using assms by (cases u; cases v; simp)+

lemma more_fields:
  fixes u v :: "'a boot_scheme"
  assumes "screen.more u = screen.more v"
  shows "storage u = storage v" "heap u = heap v" "idt u = idt v" "BAR_IDX_5 u = BAR_IDX_5 v" "virtual_bitmap u = virtual_bitmap v"
    "found_pci_devices u = found_pci_devices v" "PCIDeviceAmount u = PCIDeviceAmount v" "terminal.more u = terminal.more v"
    "lineInputLength u = lineInputLength v" "lineInputCursorPos u = lineInputCursorPos v" "lineInputBuffer u = lineInputBuffer v"
    "commandHistory u = commandHistory v" "cmdHistCount u = cmdHistCount v" "goThroughHistoryCount u = goThroughHistoryCount v"
    "shift u = shift v" "isExtendedScancode u = isExtendedScancode v" "currentPath u = currentPath v"
  using assms by (cases u; cases v; simp)+

lemma kernel_fields:
  fixes u v :: "'a boot_scheme"
  assumes "terminal.more u = terminal.more v"
  shows "storage u = storage v" "heap u = heap v" "idt u = idt v" "found_pci_devices u = found_pci_devices v"
    "PCIDeviceAmount u = PCIDeviceAmount v"
  using assms by (cases u; cases v; simp)+

definition same_screen :: "'a screen_scheme \<Rightarrow> 'b screen_scheme \<Rightarrow> bool" where
  "same_screen u v \<longleftrightarrow> screen.truncate u = screen.truncate v"

lemma same_screen_fields:
  assumes "same_screen u v"
  shows "cursorAt_X u = cursorAt_X v" "cursorAt_Y u = cursorAt_Y v" "cursorRendered_X u = cursorRendered_X v"
    "cursorRendered_Y u = cursorRendered_Y v" "FONT_W u = FONT_W v" "FONT_H u = FONT_H v" "ADJUSTED_WIDTH u = ADJUSTED_WIDTH v"
    "MAX_CHARS u = MAX_CHARS v" "MAX_LINES u = MAX_LINES v" "useScreenBuffer u = useScreenBuffer v" "isRedrawing u = isRedrawing v"
    "screenBufferPtr u = screenBufferPtr v" "framebuffer u = framebuffer v"
  using assms by (simp_all add: same_screen_def screen.defs)

lemma same_screen_ok:
  assumes "same_screen u v"
  shows "geometry u \<longleftrightarrow> geometry v" "screen_ok u \<longleftrightarrow> screen_ok v" "stored_lines u = stored_lines v" "scrollback u = scrollback v"
    "early_at x y u \<longleftrightarrow> early_at x y v" "MAX_CHARS u = MAX_CHARS v"
proof -
  note f = same_screen_fields[OF assms]
  show g: "geometry u \<longleftrightarrow> geometry v" by (simp add: geometry_def f)
  show "screen_ok u \<longleftrightarrow> screen_ok v" by (simp add: screen_ok_def screen_base_def rendered_in_def at_end_def g f)
  show "stored_lines u = stored_lines v" "scrollback u = scrollback v" by (simp_all add: stored_lines_def scrollback_def f split: option.split)
  show "early_at x y u \<longleftrightarrow> early_at x y v" by (simp add: early_at_def g f)
  show "MAX_CHARS u = MAX_CHARS v" by (rule f(8))
qed

section \<open>Status lines\<close>

definition verdict :: "bool \<Rightarrow> piece list" where
  "verdict ok = [if ok then Txt Green (ascii '' [OK]'') else Txt Red (ascii '' [NOK]''), NL]"

definition loading :: "string \<Rightarrow> bool \<Rightarrow> piece list" where
  "loading title ok = [Txt LightBlue (ascii ''[LOADING]: ''), Txt White (ascii title), Txt White (ascii ''...'')] @ verdict ok"

definition plain :: "string \<Rightarrow> bool" where
  "plain s \<longleftrightarrow> (\<forall>c \<in> set s. 0 < (of_char c :: u8) \<and> (of_char c :: u8) < 128 \<and> (of_char c :: u8) \<notin> {0x0A, 0x0D})"

lemma prints_verdict: "prints (verdict ok) (printLoadingStatus ok)"
proof -
  have "prints ([Txt Green (ascii '' [OK]'')] @ [NL]) (\<lambda>st. print_inline (lit '' [OK]'') Green st \<bind> newline)"
    "prints ([Txt Red (ascii '' [NOK]'')] @ [NL]) (\<lambda>st. print_inline (lit '' [NOK]'') Red st \<bind> newline)"
    by (intro prints_bind prints_lit prints_newline; simp)+
  then show ?thesis by (cases ok) (simp_all add: verdict_def printLoadingStatus_def[abs_def])
qed

lemma prints_loading:
  assumes "plain title"
  shows "prints [Txt LightBlue (ascii ''[LOADING]: ''), Txt White (ascii title), Txt White (ascii ''...'')] (printLoadingStart (lit title))"
proof -
  have "prints ([Txt LightBlue (ascii ''[LOADING]: '')] @ [Txt White (ascii title)] @ [Txt White (ascii ''...'')])
      (\<lambda>st. print_inline (lit ''[LOADING]: '') LightBlue st \<bind> (\<lambda>st. print_inline (lit title) White st \<bind> print_inline (lit ''...'') White))"
    using assms by (intro prints_bind prints_lit) (simp_all add: plain_def)
  then show ?thesis by (simp add: printLoadingStart_def[abs_def])
qed

lemma early_plain:
  assumes "early_at x y st" and "plain s" and "z = x + length s" and "z < nat (MAX_CHARS st)"
  obtains st' where "print_inline (lit s) col st = Some st'" "moved st st'" "early_at z y st'" "MAX_CHARS st' = MAX_CHARS st"
  using early_lit[OF assms(1), of s col] assms(2-4) moved_fields(1) by (auto simp: plain_def)

lemma early_loading:
  assumes "early_at x y st" and "plain title" and "z = x + 14 + length title" and "z < nat (MAX_CHARS st)"
  shows "\<exists>st'. printLoadingStart (lit title) st = Some st' \<and> moved st st' \<and> early_at z y st'"
proof -
  obtain st1 where 1: "print_inline (lit ''[LOADING]: '') LightBlue st = Some st1" "moved st st1" "early_at (x + 11) y st1"
    "MAX_CHARS st1 = MAX_CHARS st" by (rule early_plain[OF assms(1), of "''[LOADING]: ''" "x + 11" LightBlue]) (use assms in \<open>simp_all add: plain_def\<close>)
  obtain st2 where 2: "print_inline (lit title) White st1 = Some st2" "moved st1 st2" "early_at (x + 11 + length title) y st2"
    "MAX_CHARS st2 = MAX_CHARS st1" by (rule early_plain[OF 1(3) assms(2) refl, of White]) (use 1 assms in simp_all)
  obtain st3 where 3: "print_inline (lit ''...'') White st2 = Some st3" "moved st2 st3" "early_at z y st3"
    by (rule early_plain[OF 2(3), of "''...''" z White]) (use 1 2 assms in \<open>simp_all add: plain_def\<close>)
  with 1 2 moved_trans[OF moved_trans[OF 1(2) 2(2)] 3(2)] show ?thesis by (simp add: printLoadingStart_def)
qed

lemma early_verdict:
  assumes "early_at x y st" and "x + 6 < nat (MAX_CHARS st)"
  shows "\<exists>st'. printLoadingStatus ok st = Some st' \<and> moved st st' \<and> early_at 0 (Suc y) st'"
proof -
  let ?s = "if ok then '' [OK]'' else '' [NOK]''"
  have "\<exists>st1. print_inline (lit ?s) (if ok then Green else Red) st = Some st1 \<and> moved st st1 \<and> early_at (x + length ?s) y st1"
    by (rule early_lit[OF assms(1)]) (use assms(2) in simp_all)
  then obtain st1 where 1: "print_inline (lit ?s) (if ok then Green else Red) st = Some st1" "moved st st1" "early_at (x + length ?s) y st1" by blast
  from early_newline[OF 1(3)] 1(1) moved_trans[OF 1(2)] show ?thesis by (cases ok) (auto simp: printLoadingStatus_def)
qed

section \<open>Layers\<close>

text \<open>A layer prints its pieces and leaves the globals behind the screen like those of \<open>u\<close>.\<close>

definition layer :: "piece list \<Rightarrow> 'a boot_scheme \<Rightarrow> 'a boot_scheme \<Rightarrow> 'a boot_scheme option \<Rightarrow> bool" where
  "layer ps st u r \<longleftrightarrow> (\<exists>st'. r = Some st' \<and> screen_ok st' \<and> MAX_CHARS st' = MAX_CHARS st \<and> stored_lines st' = stored_lines st \<and>
     scrollback st' = tty_pieces (nat (MAX_CHARS st)) (stored_lines st) ps (scrollback st) \<and> screen.more st' = screen.more u)"

lemma layer_cong: "screen.more u = screen.more v \<Longrightarrow> layer ps st u r \<longleftrightarrow> layer ps st v r"
  by (simp add: layer_def)

lemma layerI:
  fixes st :: "'a boot_scheme"
  assumes "screen_ok st" and "plain title"
    and work: "\<And>st1. screen.more st1 = screen.more st \<Longrightarrow>
      \<exists>st2. work st1 = Some (ok, st2) \<and> same_screen st2 st1 \<and> screen.more st2 = screen.more u"
  shows "layer (loading title ok) st u (printLoadingStart (lit title) st \<bind> (\<lambda>st. work st \<bind> (\<lambda>(ok, st). printLoadingStatus ok st)))"
proof -
  from printsD[OF prints_loading[OF assms(2)] assms(1)] obtain st1 where 1: "printLoadingStart (lit title) st = Some st1" "moved st st1"
    "screen_ok st1" "stored_lines st1 = stored_lines st" "scrollback st1 = tty_pieces (nat (MAX_CHARS st)) (stored_lines st)
      [Txt LightBlue (ascii ''[LOADING]: ''), Txt White (ascii title), Txt White (ascii ''...'')] (scrollback st)" by (auto simp: printed_def)
  from work[of st1] moved_fields(9)[OF 1(2)] obtain st2 where
    2: "work st1 = Some (ok, st2)" "same_screen st2 st1" "screen.more st2 = screen.more u" by auto
  note s = same_screen_ok[OF 2(2)]
  from printsD[OF prints_verdict, of st2 ok] 1(3) s(2) obtain st3 where 3: "printLoadingStatus ok st2 = Some st3" "moved st2 st3" "screen_ok st3"
    "stored_lines st3 = stored_lines st2" "scrollback st3 = tty_pieces (nat (MAX_CHARS st2)) (stored_lines st2) (verdict ok) (scrollback st2)"
    by (auto simp: printed_def)
  show ?thesis
    using 1 2 3 s moved_fields(1,9)[OF 3(2)] moved_fields(1)[OF 1(2)] by (simp add: layer_def loading_def)
qed

lemma layer_bind:
  fixes st :: "'a boot_scheme"
  assumes "layer ps st u r"
    and "\<And>st1. screen_ok st1 \<Longrightarrow> screen.more st1 = screen.more u \<Longrightarrow> layer qs st1 v (g st1)"
  shows "layer (ps @ qs) st v (r \<bind> g)"
proof -
  from assms(1) obtain st1 where 1: "r = Some st1" "screen_ok st1" "MAX_CHARS st1 = MAX_CHARS st" "stored_lines st1 = stored_lines st"
    "scrollback st1 = tty_pieces (nat (MAX_CHARS st)) (stored_lines st) ps (scrollback st)" "screen.more st1 = screen.more u"
    by (auto simp: layer_def)
  from assms(2)[OF 1(2,6)] 1 show ?thesis by (simp add: layer_def)
qed

section \<open>The layers of the kernel\<close>

definition pci_found :: "'m machine_scheme \<Rightarrow> PCI_Device list" where
  "pci_found m = map (\<lambda>(b, d, f). read_device (pci_config m) b d f) (present_functions (pci_config m))"

definition ahci_controller :: "'m machine_scheme \<Rightarrow> PCI_Device option" where
  "ahci_controller m = find (\<lambda>d. ClassCode d = 0x1 \<and> Subclass d = 0x6) (pci_found m)"

lemma pci_layer:
  fixes st :: "'a boot_scheme"
  assumes "screen_ok st" and "can_alloc m (int (64 * length (present_functions (pci_config m))))"
  shows "layer (loading ''PCI Bus Enumeration'' (pci_found m \<noteq> [])) st
    (st\<lparr>found_pci_devices := pci_found m, PCIDeviceAmount := length (pci_found m)\<rparr>) (init_pci_layer m st)"
proof -
  have i: "init_pci (pci_config m) (\<lambda>bytes. can_alloc m (int bytes)) (fresh_device m) = Some (pci_found m \<noteq> [], pci_found m, length (pci_found m))"
    using init_pci_eq[of "\<lambda>bytes. can_alloc m (int bytes)", OF assms(2)] by (simp add: pci_found_def)
  let ?work = "\<lambda>st :: 'a boot_scheme. Some (pci_found m \<noteq> [], st\<lparr>found_pci_devices := pci_found m, PCIDeviceAmount := length (pci_found m)\<rparr>)"
  have "layer (loading ''PCI Bus Enumeration'' (pci_found m \<noteq> [])) st
      (st\<lparr>found_pci_devices := pci_found m, PCIDeviceAmount := length (pci_found m)\<rparr>)
      (printLoadingStart (lit ''PCI Bus Enumeration'') st \<bind> (\<lambda>st. ?work st \<bind> (\<lambda>(ok, st). printLoadingStatus ok st)))"
    by (rule layerI[OF assms(1)])
      (auto simp: plain_def same_screen_def screen.defs intro: more_upd)
  then show ?thesis by (simp add: init_pci_layer_def i)
qed

lemma init_ahci_found:
  "init_ahci (pci_found m) (length (pci_found m)) =
    Some (ahci_controller m \<noteq> None, map_option (\<lambda>d. BAR d ! 5) (ahci_controller m))"
proof -
  have "length (BAR d) = 6" if "ahci_controller m = Some d" for d
  proof -
    from that have "d \<in> set (pci_found m)" by (auto simp: ahci_controller_def find_Some_iff)
    then show ?thesis by (auto simp: pci_found_def read_device_def Let_def)
  qed
  then show ?thesis
    by (auto simp: init_ahci_def find_ahci_controller_eq ahci_controller_def[symmetric] split: option.split)
qed

definition with_bar :: "PCI_Device option \<Rightarrow> 'a boot_scheme \<Rightarrow> 'a boot_scheme" where
  "with_bar c st = (case c of None \<Rightarrow> st | Some d \<Rightarrow> st\<lparr>BAR_IDX_5 := BAR d ! 5\<rparr>)"

lemma drive_layer:
  fixes st :: "'a boot_scheme"
  assumes "screen_ok st" and "found_pci_devices st = pci_found m" "PCIDeviceAmount st = length (pci_found m)"
  shows "layer (loading ''AHCI Controller'' (ahci_controller m \<noteq> None)) st (with_bar (ahci_controller m) st) (init_drive_layer m st)"
proof -
  let ?work = "\<lambda>st :: 'a boot_scheme. do {
     (ok, bar) \<leftarrow> init_ahci (found_pci_devices st) (PCIDeviceAmount st);
     Some (ok, case bar of None \<Rightarrow> st | Some b \<Rightarrow> st\<lparr>BAR_IDX_5 := b\<rparr>) }"
  have "layer (loading ''AHCI Controller'' (ahci_controller m \<noteq> None)) st (with_bar (ahci_controller m) st)
      (printLoadingStart (lit ''AHCI Controller'') st \<bind> (\<lambda>st. ?work st \<bind> (\<lambda>(ok, st). printLoadingStatus ok st)))"
  proof (rule layerI[OF assms(1)])
    fix st1 :: "'a boot_scheme" assume m: "screen.more st1 = screen.more st"
    from more_fields(6,7)[OF m] assms have "?work st1 = Some (ahci_controller m \<noteq> None, with_bar (ahci_controller m) st1)"
      by (cases "ahci_controller m") (simp_all add: init_ahci_found with_bar_def)
    moreover have "same_screen (with_bar (ahci_controller m) st1) st1" "screen.more (with_bar (ahci_controller m) st1) = screen.more (with_bar (ahci_controller m) st)"
      using more_upd(2)[OF m] m by (simp_all add: with_bar_def same_screen_def screen.defs split: option.split)
    ultimately show "\<exists>st2. ?work st1 = Some (ahci_controller m \<noteq> None, st2) \<and> same_screen st2 st1 \<and>
      screen.more st2 = screen.more (with_bar (ahci_controller m) st)" by blast
  qed (simp add: plain_def)
  moreover have "?work st \<bind> (\<lambda>(ok, st). printLoadingStatus ok st) = do {
     (ok, bar) \<leftarrow> init_ahci (found_pci_devices st) (PCIDeviceAmount st);
     let st = (case bar of None \<Rightarrow> st | Some b \<Rightarrow> st\<lparr>BAR_IDX_5 := b\<rparr>);
     printLoadingStatus ok st }" for st :: "'a boot_scheme"
    by (cases "init_ahci (found_pci_devices st) (PCIDeviceAmount st)") auto
  ultimately show ?thesis by (simp add: init_drive_layer_def)
qed

definition at_root :: "bool \<Rightarrow> storage_state \<Rightarrow> 'a boot_scheme \<Rightarrow> 'a boot_scheme" where
  "at_root ok s st =
     (if ok then st\<lparr>storage := s, currentPath := (currentPath st)[0 := 0x2F, 1 := 0]\<rparr> else st\<lparr>storage := s\<rparr>)"

lemma at_root_more: "screen.more u = screen.more v \<Longrightarrow> screen.more (at_root ok s u) = screen.more (at_root ok s v)"
  by (cases u; cases v) (simp add: at_root_def)

lemma filesystem_layer:
  fixes st :: "'a boot_scheme"
  assumes "screen_ok st" and "1 < length (currentPath st)"
    and s: "init_storage (controller m) (BAR_IDX_5 st) (stack_bytes m) (fresh_partitions m) (disks m) (storage st) = Some (ok, s)"
  shows "layer (loading ''Filesystem'' ok) st (at_root ok s st) (init_filesystem_layer m st)"
proof -
  let ?work = "\<lambda>st :: 'a boot_scheme. do {
     (ok, s) \<leftarrow> init_storage (controller m) (BAR_IDX_5 st) (stack_bytes m) (fresh_partitions m) (disks m) (storage st);
     init_filesystem ok (st\<lparr>storage := s\<rparr>) }"
  have "layer (loading ''Filesystem'' ok) st (at_root ok s st)
      (printLoadingStart (lit ''Filesystem'') st \<bind> (\<lambda>st. ?work st \<bind> (\<lambda>(ok, st). printLoadingStatus ok st)))"
  proof (rule layerI[OF assms(1)])
    fix st1 :: "'a boot_scheme" assume m: "screen.more st1 = screen.more st"
    from more_fields[OF m] s assms(2) have "?work st1 = Some (ok, at_root ok s st1)"
      by (auto simp: init_filesystem_def set_root_def at_root_def wr_def)
    moreover have "same_screen (at_root ok s st1) st1" by (simp add: at_root_def same_screen_def screen.defs)
    ultimately show "\<exists>st2. ?work st1 = Some (ok, st2) \<and> same_screen st2 st1 \<and> screen.more st2 = screen.more (at_root ok s st)"
      using at_root_more[OF m] by blast
  qed (simp add: plain_def)
  then show ?thesis by (simp add: init_filesystem_layer_def case_prod_unfold)
qed

section \<open>The first stages\<close>

text \<open>The globals before \<open>kernel_main\<close>: zero, as the loader clears them. The framebuffer is at least 32 characters wide and two
  rows high.\<close>

definition power_on :: "'a boot_scheme \<Rightarrow> bool" where
  "power_on st \<longleftrightarrow> \<not> useScreenBuffer st \<and> \<not> isRedrawing st \<and> cursorAt_X st = 0 \<and> cursorAt_Y st = 0 \<and> ADJUSTED_WIDTH st = 0 \<and>
     length (idt st) = 256 \<and> lineInputLength st = 0 \<and> lineInputCursorPos st = 0 \<and>
     lineInputBuffer st = replicate TERMINAL_BUFFER_SIZE 0 \<and>
     commandHistory st = replicate MAX_COMMAND_HISTORY (replicate TERMINAL_BUFFER_SIZE 0) \<and> cmdHistCount st = 0 \<and>
     goThroughHistoryCount st = 0 \<and> \<not> shift st \<and> \<not> isExtendedScancode st \<and> currentPath st = replicate (MAX_PATH_LENGTH + 1) 0"

definition fb_fits :: "'m machine_scheme \<Rightarrow> 'a screen_scheme \<Rightarrow> bool" where
  "fb_fits m st \<longleftrightarrow> 1024 \<le> fb_pitch m \<and> fb_pitch m < 2 ^ 29 \<and> 32 \<le> fb_height m \<and> fb_height m < 2 ^ 34 \<and>
     fb_height m * (fb_pitch m div 4) \<le> length (framebuffer st)"

definition chars :: "'m machine_scheme \<Rightarrow> nat" where "chars m = fb_pitch m div 32"
definition rows :: "'m machine_scheme \<Rightarrow> nat" where "rows m = fb_height m div 16"

lemma for_loop_skip: "(\<And>i. body i s = Some s) \<Longrightarrow> for_loop body lo n s = Some s"
  by (induction n arbitrary: lo) simp_all

text \<open>\<open>clearScreen\<close> runs before \<open>init_print\<close> sets the width of a row, so it clears nothing.\<close>

lemma early_clear_nothing: "power_on st \<Longrightarrow> clearScreen alloc h st = Some st"
  by (simp add: clearScreen_def power_on_def for_loop_skip)

lemma init_print_early:
  fixes st :: "'a boot_scheme"
  assumes "power_on st" and "fb_fits m st"
  shows "early_at 0 0 (init_print (fb_pitch m) (fb_height m) st)" "MAX_CHARS (init_print (fb_pitch m) (fb_height m) st) = int (chars m)"
    "MAX_LINES (init_print (fb_pitch m) (fb_height m) st) = int (rows m)" "screen.more (init_print (fb_pitch m) (fb_height m) st) = screen.more st"
proof -
  let ?w = "fb_pitch m div 4"
  have b: "1024 \<le> fb_pitch m" "fb_pitch m < 2 ^ 29" "32 \<le> fb_height m" "fb_height m * ?w \<le> length (framebuffer st)"
    using assms(2) by (simp_all add: fb_fits_def)
  have "rows m * 16 * ?w \<le> fb_height m * ?w" by (intro mult_right_mono) (simp_all add: rows_def)
  with b(4) have "rows m * 16 * ?w \<le> length (framebuffer st)" by (rule le_trans[rotated])
  then have area: "int (rows m) * 16 * int ?w \<le> int (length (framebuffer st))" by (metis of_nat_mult of_nat_le_iff of_nat_numeral)
  have c: "chars m = ?w div 8" by (simp add: chars_def div_mult2_eq[symmetric])
  show chars: "MAX_CHARS (init_print (fb_pitch m) (fb_height m) st) = int (chars m)"
    "MAX_LINES (init_print (fb_pitch m) (fb_height m) st) = int (rows m)"
    by (simp_all add: init_print_def Let_def FONT_SIZE_def c rows_def zdiv_int)
  have "0 < chars m" "chars m < 2 ^ 31" "0 < rows m" using b(1-3) by (auto simp: chars_def rows_def div_greater_zero_iff less_mult_imp_div_less)
  moreover have "chars m * 8 \<le> ?w" unfolding c by (rule div_times_less_eq_dividend)
  ultimately have "geometry (init_print (fb_pitch m) (fb_height m) st)"
    unfolding geometry_def chars using area by (simp add: init_print_def Let_def FONT_SIZE_def)
  then show "early_at 0 0 (init_print (fb_pitch m) (fb_height m) st)"
    using assms(1) by (simp add: early_at_def power_on_def init_print_def Let_def)
  show "screen.more (init_print (fb_pitch m) (fb_height m) st) = screen.more st" by (simp add: init_print_def Let_def)
qed

text \<open>What the first stages leave: the descriptor table, the controllers' ports, the memory managers.\<close>

definition with_memory :: "heap_state option \<Rightarrow> vmm_state \<Rightarrow> 'a boot_scheme \<Rightarrow> 'a boot_scheme" where
  "with_memory h v st = (let st = st\<lparr>storage := (storage st)\<lparr>ahci_state.paging := vmm_state.paging v\<rparr>, virtual_bitmap := vmm_bitmap v\<rparr>
     in case h of None \<Rightarrow> st | Some hs \<Rightarrow> st\<lparr>heap := hs\<rparr>)"

lemma with_memory_more: "screen.more u = screen.more v \<Longrightarrow> screen.more (with_memory h p u) = screen.more (with_memory h p v)"
  by (cases u; cases v; cases h) (simp_all add: with_memory_def)

lemma memory_stage:
  fixes st :: "'a boot_scheme"
  assumes e: "early_at 0 0 st" and w: "32 \<le> MAX_CHARS st"
    and mem: "memory_init (hhdm_offset m) (memmap m) (fresh_bytes m) (heap_bytes m) (boot_tables m) (boot_cr3 m) = Some (h, v)"
  shows "\<exists>st'. init_memory m st = Some st' \<and> early_at 0 1 st' \<and> MAX_CHARS st' = MAX_CHARS st \<and> MAX_LINES st' = MAX_LINES st \<and>
    screen.more st' = screen.more (with_memory h v st)"
proof -
  have w': "20 < nat (MAX_CHARS st)" "26 < nat (MAX_CHARS st)" using w by linarith+
  from early_loading[OF e, of "''Memory''" 20] w' obtain st1 where
    1: "printLoadingStart (lit ''Memory'') st = Some st1" "moved st st1" "early_at 20 0 st1" by (auto simp: plain_def)
  note f1 = moved_fields[OF 1(2)]
  have s: "same_screen (with_memory h v st1) st1" by (cases h) (simp_all add: with_memory_def same_screen_def screen.defs)
  from early_verdict[of 20 0 "with_memory h v st1" "h \<noteq> None"] 1(3) w' f1 same_screen_ok[OF s] obtain st2 where
    2: "printLoadingStatus (h \<noteq> None) (with_memory h v st1) = Some st2" "moved (with_memory h v st1) st2" "early_at 0 1 st2" by auto
  have "init_memory m st = Some st2" using 1(1) 2(1) mem by (simp add: init_memory_def with_memory_def Let_def)
  then show ?thesis
    using 2(3) moved_fields[OF 2(2)] f1 same_screen_fields[OF s] with_memory_more[OF f1(9)] by (intro exI[of _ st2]) simp
qed

lemma rendering_stage:
  fixes st :: "'a boot_scheme"
  assumes e: "early_at 0 1 st" and w: "32 \<le> MAX_CHARS st" and l: "2 \<le> MAX_LINES st" "MAX_LINES st < 2 ^ 30"
    and alloc: "can_alloc m (24 + 12 * (MAX_LINES st + 100) + 8 * (MAX_LINES st + 100) * MAX_CHARS st)"
  shows "\<exists>st'. init_rendering_full m st = Some st' \<and> screen_ok st' \<and> MAX_CHARS st' = MAX_CHARS st \<and>
    stored_lines st' = nat (MAX_LINES st) + 100 \<and> screen.more st' = screen.more st \<and>
    scrollback st' = tty_pieces (nat (MAX_CHARS st)) (nat (MAX_LINES st) + 100) (verdict True) [[], replicate 27 empty_cell]"
proof -
  have w': "27 < nat (MAX_CHARS st)" using w by linarith
  from early_loading[OF e, of "''Screen Buffer''" 27] w' obtain st1 where
    1: "printLoadingStart (lit ''Screen Buffer'') st = Some st1" "moved st st1" "early_at 27 1 st1" by (auto simp: plain_def)
  note f = moved_fields[OF 1(2)]
  from screen_opened[OF 1(3), where alloc = "can_alloc m"] w l alloc obtain st2 where
    2: "init_screen_buffer (can_alloc m) st1 = (True, st2)" "screen_ok (fill_gap st2)" "stored_lines (fill_gap st2) = nat (MAX_LINES st) + 100"
    "scrollback (fill_gap st2) = [[], replicate 27 empty_cell]" "MAX_CHARS st2 = MAX_CHARS st" "screen.more st2 = screen.more st"
    "\<forall>c s buf col. cstr (c # s) buf \<longrightarrow> c \<notin> {0x0A, 0x0D} \<longrightarrow> print_inline buf col (fill_gap st2) = print_inline buf col st2"
    by (auto simp: f)
  have "cstr (0x20 # ascii ''[OK]'') (lit '' [OK]'')" using cstr_lit[of "'' [OK]''"] by simp
  with 2(7) have same: "printLoadingStatus True st2 = printLoadingStatus True (fill_gap st2)" by (simp add: printLoadingStatus_def)
  note g = moved_fields[OF moved_fill_gap[of st2]]
  from printsD[OF prints_verdict 2(2), of True] obtain st3 where
    3: "printLoadingStatus True st2 = Some st3" "moved (fill_gap st2) st3" "screen_ok st3" "stored_lines st3 = stored_lines (fill_gap st2)"
    "scrollback st3 = tty_pieces (nat (MAX_CHARS (fill_gap st2))) (stored_lines (fill_gap st2)) (verdict True) (scrollback (fill_gap st2))"
    unfolding same by (auto simp: printed_def)
  have "init_rendering_full m st = Some st3" using 1(1) 2(1) 3(1) by (simp add: init_rendering_full_def)
  then show ?thesis
    using 2 3 g moved_fields[OF 3(2)] by (intro exI[of _ st3]) simp
qed

section \<open>The whole start\<close>

text \<open>The state behind the screen that the layers build up, without the shell.\<close>

definition handler_address :: "'m machine_scheme \<Rightarrow> nat \<Rightarrow> u64" where
  "handler_address m n = (if n < 32 then isr_stubs m n else if n = 32 then timer_isr m else keyboard_isr m)"

definition driver_input :: "'m machine_scheme \<Rightarrow> vmm_state \<Rightarrow> 'a boot_scheme \<Rightarrow> PCI_BAR \<times> storage_state" where
  "driver_input m v st = (case ahci_controller m of None \<Rightarrow> BAR_IDX_5 st | Some d \<Rightarrow> BAR d ! 5,
     (storage st)\<lparr>ahci_state.paging := vmm_state.paging v\<rparr>)"

definition boot_pieces :: "'m machine_scheme \<Rightarrow> bool \<Rightarrow> piece list" where
  "boot_pieces m ok = verdict True @ loading ''PCI Bus Enumeration'' (pci_found m \<noteq> []) @
     loading ''AHCI Controller'' (ahci_controller m \<noteq> None) @ loading ''Filesystem'' ok"

definition rendering_up :: "'m machine_scheme \<Rightarrow> 'a boot_scheme \<Rightarrow> 'a boot_scheme option" where
  "rendering_up m st = init_interrupts m st \<bind> init_rendering_early m \<bind> init_memory m \<bind> init_rendering_full m"

definition layers_up :: "'m machine_scheme \<Rightarrow> 'a boot_scheme \<Rightarrow> 'a boot_scheme option" where
  "layers_up m st = init_pci_layer m st \<bind> init_drive_layer m \<bind> init_filesystem_layer m"

lemma kernel_main_stages: "kernel_main m st = rendering_up m st \<bind> layers_up m \<bind> init_shell"
  by (simp add: kernel_main_def rendering_up_def layers_up_def Option.bind_assoc)

lemma rendering_up_effect:
  fixes st :: "'a boot_scheme"
  assumes p: "power_on st" and f: "fb_fits m st"
    and buf: "can_alloc m (24 + 12 * (int (rows m) + 100) + 8 * (int (rows m) + 100) * int (chars m))"
    and mem: "memory_init (hhdm_offset m) (memmap m) (fresh_bytes m) (heap_bytes m) (boot_tables m) (boot_cr3 m) = Some (h, v)"
  shows "\<exists>st' t. rendering_up m st = Some st' \<and> screen_ok st' \<and> MAX_CHARS st' = int (chars m) \<and> stored_lines st' = rows m + 100 \<and>
    scrollback st' = tty_pieces (chars m) (rows m + 100) (verdict True) [[], replicate 27 empty_cell] \<and>
    (\<forall>n < 34. entry_address (t ! n) = handler_address m n) \<and>
    screen.more st' = screen.more (with_memory h v (st\<lparr>idt := t, port_writes := port_writes st @ pit_init @ pic_init\<rparr>))"
proof -
  from p have "length (idt st) = 256" by (simp add: power_on_def)
  from idt_set_up[OF this, of "isr_stubs m" "timer_isr m" "keyboard_isr m"] obtain t where
    t: "do { idt \<leftarrow> idt_init (idt st); populate_idt_entries (isr_stubs m) (timer_isr m) (keyboard_isr m) idt } = Some t"
    "\<forall>n < 34. entry_address (t ! n) = handler_address m n" "length t = 256" unfolding handler_address_def by blast
  let ?st = "st\<lparr>idt := t, port_writes := port_writes st @ pit_init @ pic_init\<rparr>"
  have 1: "init_interrupts m st = Some ?st" using t(1) by (auto simp: init_interrupts_def split: Option.bind_splits)
  have p': "power_on ?st" "fb_fits m ?st" using p f t(3) by (simp_all add: power_on_def fb_fits_def)
  note e = init_print_early[OF p']
  let ?st2 = "init_print (fb_pitch m) (fb_height m) ?st"
  have 2: "init_rendering_early m ?st = Some ?st2" using early_clear_nothing[OF p'(1)] by (simp add: init_rendering_early_def)
  have b: "32 \<le> chars m" "2 \<le> rows m" "rows m < 2 ^ 30"
    using f div_le_mono[of 1024 "fb_pitch m" 32] div_le_mono[of 32 "fb_height m" 16]
    by (simp_all add: fb_fits_def chars_def rows_def less_mult_imp_div_less)
  from memory_stage[OF e(1) _ mem] b(1) obtain st3 where
    3: "init_memory m ?st2 = Some st3" "early_at 0 1 st3" "MAX_CHARS st3 = int (chars m)" "MAX_LINES st3 = int (rows m)"
    "screen.more st3 = screen.more (with_memory h v ?st2)" by (auto simp: e)
  from rendering_stage[OF 3(2)] b buf obtain st4 where
    4: "init_rendering_full m st3 = Some st4" "screen_ok st4" "MAX_CHARS st4 = int (chars m)" "stored_lines st4 = rows m + 100"
    "screen.more st4 = screen.more st3" "scrollback st4 = tty_pieces (chars m) (rows m + 100) (verdict True) [[], replicate 27 empty_cell]"
    by (auto simp: 3)
  have "rendering_up m st = Some st4" using 1 2 3(1) 4(1) by (simp add: rendering_up_def)
  then show ?thesis using t(2) 4 3(5) with_memory_more[OF e(4)] by (intro exI[of _ st4] exI[of _ t]) simp
qed

lemma layers_up_effect:
  fixes st :: "'a boot_scheme"
  assumes ok: "screen_ok st" and p: "1 < length (currentPath st)"
    and pci: "can_alloc m (int (64 * length (present_functions (pci_config m))))"
    and s: "init_storage (controller m) (case ahci_controller m of None \<Rightarrow> BAR_IDX_5 st | Some d \<Rightarrow> BAR d ! 5) (stack_bytes m)
      (fresh_partitions m) (disks m) (storage st) = Some (fine, s)"
  shows "layer (loading ''PCI Bus Enumeration'' (pci_found m \<noteq> []) @ loading ''AHCI Controller'' (ahci_controller m \<noteq> None) @
      loading ''Filesystem'' fine) st
    (at_root fine s (with_bar (ahci_controller m) (st\<lparr>found_pci_devices := pci_found m, PCIDeviceAmount := length (pci_found m)\<rparr>)))
    (layers_up m st)"
proof -
  let ?u = "st\<lparr>found_pci_devices := pci_found m, PCIDeviceAmount := length (pci_found m)\<rparr>"
  let ?v = "with_bar (ahci_controller m) ?u"
  have bar: "screen.more (with_bar c a) = screen.more (with_bar c b)" if "screen.more a = screen.more b" for c and a b :: "'a boot_scheme"
    using that more_upd(2)[OF that] by (cases c) (simp_all add: with_bar_def)
  note 1 = pci_layer[OF ok pci]
  have 2: "layer (loading ''AHCI Controller'' (ahci_controller m \<noteq> None)) st1 ?v (init_drive_layer m st1)"
    if a: "screen_ok st1" "screen.more st1 = screen.more ?u" for st1
  proof -
    have "found_pci_devices st1 = pci_found m" "PCIDeviceAmount st1 = length (pci_found m)"
      unfolding more_fields(6,7)[OF a(2)] by simp_all
    from drive_layer[OF a(1) this] show ?thesis unfolding layer_cong[OF bar[OF a(2)]] .
  qed
  have 3: "layer (loading ''Filesystem'' fine) st2 (at_root fine s ?v) (init_filesystem_layer m st2)"
    if a: "screen_ok st2" "screen.more st2 = screen.more ?v" for st2
  proof -
    have v: "BAR_IDX_5 ?v = (case ahci_controller m of None \<Rightarrow> BAR_IDX_5 st | Some d \<Rightarrow> BAR d ! 5)" "storage ?v = storage st"
      "currentPath ?v = currentPath st" by (simp_all add: with_bar_def split: option.split)
    have "1 < length (currentPath st2)" unfolding more_fields(17)[OF a(2)] v by (rule p)
    moreover have "init_storage (controller m) (BAR_IDX_5 st2) (stack_bytes m) (fresh_partitions m) (disks m) (storage st2) = Some (fine, s)"
      unfolding more_fields(1,4)[OF a(2)] v by (rule s)
    ultimately show ?thesis using filesystem_layer[OF a(1)] unfolding layer_cong[OF at_root_more[OF a(2)]] by blast
  qed
  have 12: "layer (loading ''PCI Bus Enumeration'' (pci_found m \<noteq> []) @ loading ''AHCI Controller'' (ahci_controller m \<noteq> None)) st ?v
      (init_pci_layer m st \<bind> init_drive_layer m)" by (rule layer_bind[OF 1]) (rule 2)
  show ?thesis unfolding layers_up_def append_assoc[symmetric] by (rule layer_bind[OF 12]) (rule 3)
qed

text \<open>The fields of the built-up state.\<close>

lemma with_memory_fields:
  "currentPath (with_memory h v st) = currentPath st" "BAR_IDX_5 (with_memory h v st) = BAR_IDX_5 st" "idt (with_memory h v st) = idt st"
  "storage (with_memory h v st) = (storage st)\<lparr>ahci_state.paging := vmm_state.paging v\<rparr>"
  "heap (with_memory h v st) = (case h of None \<Rightarrow> heap st | Some hs \<Rightarrow> hs)" "lineInputLength (with_memory h v st) = lineInputLength st"
  "lineInputCursorPos (with_memory h v st) = lineInputCursorPos st" "lineInputBuffer (with_memory h v st) = lineInputBuffer st"
  "commandHistory (with_memory h v st) = commandHistory st" "cmdHistCount (with_memory h v st) = cmdHistCount st"
  "goThroughHistoryCount (with_memory h v st) = goThroughHistoryCount st" "shift (with_memory h v st) = shift st"
  "isExtendedScancode (with_memory h v st) = isExtendedScancode st"
  by (cases h; simp add: with_memory_def)+

lemma layered_fields:
  fixes st :: "'a boot_scheme" and p :: "PCI_Device list" and n :: nat and c :: "PCI_Device option" and s :: storage_state and ok :: bool
  defines "w \<equiv> \<lambda>st :: 'a boot_scheme. at_root ok s (with_bar c (st\<lparr>found_pci_devices := p, PCIDeviceAmount := n\<rparr>))"
  shows "currentPath (w st) = (if ok then (currentPath st)[0 := 0x2F, 1 := 0] else currentPath st)" "idt (w st) = idt st" "storage (w st) = s"
    "heap (w st) = heap st" "found_pci_devices (w st) = p" "PCIDeviceAmount (w st) = n" "lineInputLength (w st) = lineInputLength st"
    "lineInputCursorPos (w st) = lineInputCursorPos st" "lineInputBuffer (w st) = lineInputBuffer st"
    "commandHistory (w st) = commandHistory st" "cmdHistCount (w st) = cmdHistCount st"
    "goThroughHistoryCount (w st) = goThroughHistoryCount st" "shift (w st) = shift st"
    "isExtendedScancode (w st) = isExtendedScancode st"
  unfolding w_def by (cases c; cases ok; simp add: with_bar_def at_root_def)+

text \<open>The kernel at rest: at the prompt of the root, or of the empty path when there is no file system, with what the
  drivers found.\<close>

definition boot_path :: "bool \<Rightarrow> u8 list" where
  "boot_path ok = (if ok then ascii ''/'' else [])"

definition boot_rows :: "'m machine_scheme \<Rightarrow> bool \<Rightarrow> Cell list list" where
  "boot_rows m ok = tty_pieces (chars m) (rows m + 100) (boot_pieces m ok @ header_pieces (chars m)) [[], replicate 27 empty_cell]"

definition at_rest :: "'m machine_scheme \<Rightarrow> heap_state option \<Rightarrow> bool \<Rightarrow> storage_state \<Rightarrow> 'a boot_scheme \<Rightarrow> 'a boot_scheme \<Rightarrow> bool" where
  "at_rest m h ok s st st' \<longleftrightarrow> at_desk (fresh_desk (boot_path ok) [] False False) st' \<and>
     (\<exists>older. older @ [[]] = boot_rows m ok \<and> scrollback st' = older @ [prompt_cells (boot_path ok)]) \<and>
     (\<forall>n < 34. entry_address (idt st' ! n) = handler_address m n) \<and> heap st' = (case h of None \<Rightarrow> heap st | Some hs \<Rightarrow> hs) \<and>
     storage st' = s \<and> found_pci_devices st' = pci_found m \<and> PCIDeviceAmount st' = length (pci_found m) \<and>
     MAX_CHARS st' = int (chars m) \<and> length (currentPath st') = MAX_PATH_LENGTH + 1"

lemma boot_path_cstr: "cstr (boot_path ok) (if ok then (replicate (MAX_PATH_LENGTH + 1) 0)[0 := 0x2F, 1 := 0] else replicate (MAX_PATH_LENGTH + 1) 0)"
proof -
  have "replicate (MAX_PATH_LENGTH + 1) (0 :: u8) = 0 # 0 # replicate 4095 0"
    by (simp add: MAX_PATH_LENGTH_def) (simp add: numeral_eq_Suc)
  then show ?thesis using cstrI[of "[]" "0 # replicate 4095 0"] cstrI[of "[0x2F]" "replicate 4095 0"] by (simp add: boot_path_def)
qed

lemma kernel_main_rest:
  fixes st :: "'a boot_scheme"
  assumes p: "power_on st" and f: "fb_fits m st"
    and buf: "can_alloc m (24 + 12 * (int (rows m) + 100) + 8 * (int (rows m) + 100) * int (chars m))"
    and pci: "can_alloc m (int (64 * length (present_functions (pci_config m))))"
    and mem: "memory_init (hhdm_offset m) (memmap m) (fresh_bytes m) (heap_bytes m) (boot_tables m) (boot_cr3 m) = Some (h, v)"
    and s: "init_storage (controller m) (fst (driver_input m v st)) (stack_bytes m) (fresh_partitions m) (disks m) (snd (driver_input m v st)) = Some (ok, s)"
  shows "\<exists>st'. kernel_main m st = Some st' \<and> at_rest m h ok s st st'"
proof -
  from rendering_up_effect[OF p f buf mem] obtain st4 t where
    4: "rendering_up m st = Some st4" "screen_ok st4" "MAX_CHARS st4 = int (chars m)" "stored_lines st4 = rows m + 100"
    "scrollback st4 = tty_pieces (chars m) (rows m + 100) (verdict True) [[], replicate 27 empty_cell]"
    "\<forall>n < 34. entry_address (t ! n) = handler_address m n"
    "screen.more st4 = screen.more (with_memory h v (st\<lparr>idt := t, port_writes := port_writes st @ pit_init @ pic_init\<rparr>))" by blast
  note f4 = more_fields[OF 4(7)]
  have p4: "1 < length (currentPath st4)" using p by (simp add: f4 with_memory_fields power_on_def MAX_PATH_LENGTH_def)
  have "init_storage (controller m) (case ahci_controller m of None \<Rightarrow> BAR_IDX_5 st4 | Some d \<Rightarrow> BAR d ! 5) (stack_bytes m)
      (fresh_partitions m) (disks m) (storage st4) = Some (ok, s)"
    using s by (simp add: driver_input_def f4 with_memory_fields cong: option.case_cong)
  from layers_up_effect[OF 4(2) p4 pci this] obtain st5 where
    5: "layers_up m st4 = Some st5" "screen_ok st5" "MAX_CHARS st5 = int (chars m)" "stored_lines st5 = rows m + 100"
    "scrollback st5 = tty_pieces (chars m) (rows m + 100) (boot_pieces m ok) [[], replicate 27 empty_cell]"
    "screen.more st5 = screen.more (at_root ok s (with_bar (ahci_controller m)
       (st4\<lparr>found_pci_devices := pci_found m, PCIDeviceAmount := length (pci_found m)\<rparr>)))"
    by (auto simp: layer_def 4(3-5) boot_pieces_def)
  note f5 = more_fields[OF 5(6), unfolded layered_fields f4 with_memory_fields]
  have w: "MAX_CHARS st5 < 2 ^ 24" "path_ok (nat (MAX_CHARS st5)) (boot_path ok)"
    using f div_le_mono[of 1024 "fb_pitch m" 32]
    by (auto simp: 5(3) chars_def fb_fits_def less_mult_imp_div_less path_ok_def boot_path_def)
  have "currentPath st = replicate (MAX_PATH_LENGTH + 1) 0" using p by (simp add: power_on_def)
  moreover have "currentPath (st\<lparr>idt := t, port_writes := port_writes st @ pit_init @ pic_init\<rparr>) = currentPath st" by simp
  ultimately have len: "length (currentPath st5) = MAX_PATH_LENGTH + 1" and path: "cstr (boot_path ok) (currentPath st5)"
    unfolding f5(17) by (simp_all only: boot_path_cstr) simp
  have "cstr [] (replicate 256 0)" by (simp add: cstr_def) (simp add: numeral_eq_Suc)
  then have line: "lineInputLength st5 = 0" "lineInputCursorPos st5 = 0" "length (lineInputBuffer st5) = TERMINAL_BUFFER_SIZE"
    "cstr [] (lineInputBuffer st5)" using p by (simp_all add: f5 power_on_def TERMINAL_BUFFER_SIZE_def)
  have hist: "history_ok [] st5" "goThroughHistoryCount st5 = 0" "\<not> shift st5" "\<not> isExtendedScancode st5"
    using p by (simp_all add: f5 power_on_def history_ok_def)
  from terminal_init_desk[OF 5(2) w path line hist(1,2)] hist(3,4) obtain st6 older where
    6: "terminal_init st5 = Some st6" "at_desk (fresh_desk (boot_path ok) [] False False) st6" "older @ [[]] = boot_rows m ok"
    "scrollback st6 = older @ [prompt_cells (boot_path ok)]" "terminal.more st6 = terminal.more st5"
    "MAX_CHARS st6 = int (chars m)" "currentPath st6 = currentPath st5"
    by (auto simp: 5(3-5) boot_rows_def)
  have "kernel_main m st = Some st6" using 4(1) 5(1) 6(1) by (simp add: kernel_main_stages init_shell_def)
  moreover have "at_rest m h ok s st st6"
    using 6(2-4,6,7) 4(6) len kernel_fields[OF 6(5)] by (auto simp: at_rest_def f5 split: option.split)
  ultimately show ?thesis by blast
qed

end
