(* ===== verification/MemoryStart.thy ===== *)
theory MemoryStart
  imports MemoryProps PMMProps
begin

text \<open>
  The start of the memory managers as a whole, \<^verbatim>\<open>memory/init/memory_init.cpp\<close>: the frames out of the memory map, the virtual
  pages on top of them and the kernel heap in the first of these.
\<close>

section \<open>The bitmaps\<close>

definition bitmap_frame_count :: "memmap_entry list \<Rightarrow> nat" where
  "bitmap_frame_count memmap = (bitmap_bytes memmap + 4095) div 4096"

text \<open>An interval three times as long keeps a part as long as the one that is removed from it.\<close>

lemma run_outside:
  fixes a l n p :: nat
  assumes "3 * n \<le> l"
  shows "\<exists>s. {s ..< s + n} \<subseteq> {a ..< a + l} - {p ..< p + n}"
proof (cases "a + n \<le> p")
  case True
  with assms show ?thesis by (intro exI[of _ a]) auto
next
  case False
  with assms show ?thesis by (intro exI[of _ "a + 2 * n"]) auto
qed

lemma bitmap_frames_interval: "\<exists>p. bitmap_frames memmap b = {p ..< p + bitmap_frame_count memmap}"
  unfolding bitmap_frames_def bitmap_frame_count_def by blast

lemma pages_for_bitmap:
  assumes "top_address memmap div 4096 \<le> 2 ^ 32"
  shows "unat (divide_round_up (of_nat (top_address memmap div 4096)) 8) = bitmap_bytes memmap"
    "pages_for (divide_round_up (of_nat (top_address memmap div 4096)) 8) = bitmap_frame_count memmap"
proof -
  let ?cnt = "top_address memmap div 4096"
  have u: "unat (of_nat ?cnt :: u64) = ?cnt" using assms by (simp add: unat_of_nat_small)
  show b: "unat (divide_round_up (of_nat ?cnt) 8) = bitmap_bytes memmap"
    unfolding bitmap_bytes_def using assms u by (subst unat_divide_round_up) simp_all
  have "bitmap_bytes memmap \<le> 2 ^ 32" using assms unfolding bitmap_bytes_def by linarith
  then show "pages_for (divide_round_up (of_nat ?cnt) 8) = bitmap_frame_count memmap"
    unfolding bitmap_frame_count_def by (subst unat_divide_round_up) (simp_all add: b)
qed

text \<open>The bitmap of the virtual pages gets its own frames, mapped by the boot loader at the offset \<open>hhdm\<close>.\<close>

lemma init_vmm_effect:
  assumes ok: "pmm_ok fr" and cnt: "count (pmm_bitmap fr) = cnt" "0 < cnt" "cnt \<le> 2 ^ 32"
    and run: "{s ..< s + n} \<subseteq> free_pages fr" and n: "pages_for (divide_round_up (of_nat cnt) 8) = n" "0 < n"
    and low: "\<forall>p \<in> free_pages fr. 0 < p" and hhdm: "unat hhdm + 4096 * cnt < 2 ^ 64"
    and contents: "\<forall>a k. length (contents a k) = k"
  shows "\<exists>fr' bm q. init_vmm hhdm contents \<lparr>paging = \<lparr>pt_mem = tables, cr3 = root, invalidated = [], frames = fr\<rparr>, vmm_bitmap = junk\<rparr> =
      Some (True, \<lparr>paging = \<lparr>pt_mem = tables, cr3 = root, invalidated = [], frames = fr'\<rparr>, vmm_bitmap = bm\<rparr>) \<and>
    pmm_ok fr' \<and> free_pages fr' = free_pages fr - {q ..< q + n} \<and> count bm = cnt \<and> bitmap_wf bm \<and> free_run bm 0 cnt"
proof -
  let ?bytes = "divide_round_up (of_nat cnt) 8 :: u64"
  have ub: "unat ?bytes = (cnt + 7) div 8" using cnt by (subst unat_divide_round_up) (simp_all add: unat_of_nat_small)
  from ok obtain q fr' where q: "pmm_malloc ?bytes fr = Some (of_nat q * PAGE_SIZE, fr')" "{q ..< q + n} \<subseteq> free_pages fr"
    "q + n \<le> cnt" "pmm_malloc_page_range q n fr = Some (True, fr')"
  proof (cases rule: pmm_malloc_cases[where bytes = ?bytes])
    case (success q fr')
    with that show thesis by (simp only: n(1) cnt(1))
  next
    case failure
    with run n show thesis by auto
  qed
  have "q \<in> {q ..< q + n}" using n(2) by simp
  with q(2) low have q0: "0 < q" by blast
  have q32: "q < 2 ^ 32" using q(3) n(2) cnt(3) by simp
  then have "q < 2 ^ 52" by simp
  then have nf: "of_nat q * PAGE_SIZE \<noteq> PMM_MALLOC_FAILED" by (rule page_addr_not_failed)
  have uq: "unat (of_nat q * PAGE_SIZE :: u64) = q * 4096" using q32 by (simp add: unat_word_ariths unat_of_nat_small)
  then have "unat (of_nat q * PAGE_SIZE + hhdm) = q * 4096 + unat hhdm"
    using hhdm q(3) n(2) by (subst unat_add_small) simp_all
  with q0 have a: "of_nat q * PAGE_SIZE + hhdm \<noteq> 0" by (metis add_is_0 mult_is_0 neq0_conv unat_0 zero_neq_numeral)
  have "bitmap_wf \<lparr>bitmap = contents (of_nat q * PAGE_SIZE + hhdm) (unat ?bytes), count = cnt\<rparr>"
    unfolding bitmap_wf_def using cnt(3) by (simp add: contents ub)
  from bitmap_clear_all[OF this] obtain bm where
    bm: "bitmap_clear \<lparr>bitmap = contents (of_nat q * PAGE_SIZE + hhdm) (unat ?bytes), count = cnt\<rparr> = Some bm" "count bm = cnt" "bitmap_wf bm"
    "\<forall>p < cnt. page_free bm p" by auto
  have "pmm_malloc_addr hhdm ?bytes fr = Some (of_nat q * PAGE_SIZE + hhdm, fr')" using q(1) nf by (simp add: pmm_malloc_addr_def)
  with a bm(1) cnt(1,2) have "init_vmm hhdm contents \<lparr>paging = \<lparr>pt_mem = tables, cr3 = root, invalidated = [], frames = fr\<rparr>, vmm_bitmap = junk\<rparr> =
      Some (True, \<lparr>paging = \<lparr>pt_mem = tables, cr3 = root, invalidated = [], frames = fr'\<rparr>, vmm_bitmap = bm\<rparr>)"
    by (simp add: init_vmm_def Let_def)
  moreover have "pmm_ok fr' \<and> free_pages fr' = free_pages fr - {q ..< q + n}"
    using pmm_malloc_range_free_pages[OF ok _ q(4)] q(3) cnt(1) by simp
  moreover have "free_run bm 0 cnt" using bm(4) by (simp add: free_run_def)
  ultimately show ?thesis using bm(2,3) by blast
qed

section \<open>The heap\<close>

text \<open>A memory map the kernel can start from: frames below \<open>2 ^ 40\<close> without frame zero, one region with room for both bitmaps,
  and four frames for each of the 4096 pages of the heap besides.\<close>

definition enough_memory :: "u64 \<Rightarrow> memmap_entry list \<Rightarrow> bool" where
  "enough_memory hhdm memmap \<longleftrightarrow> memmap_ok memmap \<and> (\<forall>p \<in> usable_pages memmap. 0 < p \<and> p < 2 ^ 40) \<and>
     top_address memmap div 4096 \<le> 2 ^ 32 \<and> 4096 \<le> top_address memmap div 4096 \<and> unat hhdm + top_address memmap < 2 ^ 64 \<and>
     (\<exists>e \<in> set memmap. entry_usable e \<and> 3 * 4096 * bitmap_frame_count memmap \<le> unat (entry_length e)) \<and>
     4 * 4096 + 2 * bitmap_frame_count memmap \<le> card (usable_pages memmap)"

lemma entry_pages_interval:
  assumes "memmap_ok memmap" and "e \<in> set memmap" and "entry_usable e"
  shows "entry_pages e = {unat (entry_base e) div 4096 ..< unat (entry_base e) div 4096 + unat (entry_length e) div 4096}"
proof -
  from assms obtain b l where "unat (entry_base e) = 4096 * b" "unat (entry_length e) = 4096 * l"
    by (auto simp: memmap_ok_def elim!: dvdE dest!: mod_0_imp_dvd)
  with assms(3) show ?thesis by (simp add: entry_pages_def entry_end_def)
qed

lemma init_heap_alloc_effect:
  assumes ok: "vmm_ok {} st" and run: "free_run (vmm_bitmap st) 0 (count (vmm_bitmap st))" "4096 \<le> count (vmm_bitmap st)"
    and frames: "4 * 4096 \<le> free_count (paging st)"
  shows "\<exists>h v s fs. init_heap_alloc m st = Some (Some h, v) \<and> heap_live h Map.empty \<and> heapStartPtr h = unat (vmm_addr s) \<and>
    heapEndPtr h = unat (vmm_addr s) + INIT_HEAP_SIZE \<and> length fs = 4096 \<and> distinct fs \<and>
    set fs \<subseteq> free_pages (frames (paging st)) \<and> page_maps (paging v) s fs \<and> vmm_ok (set fs) v"
  using ok
proof (cases rule: vmm_malloc_cases[where bytes = "of_nat INIT_HEAP_SIZE"])
  case (mapped s fs v)
  have c: "count (vmm_bitmap st) \<le> 2 ^ 32" using ok by (simp add: vmm_ok_def)
  have "s < 2 ^ 32" using free_run_bound[OF mapped(2,3)] mapped(3) c by simp
  then have "init_heap_alloc m st = Some (Some (heap_setup (unat (vmm_addr s)) INIT_HEAP_SIZE m), v)"
    using mapped(1) vmm_addr_nonzero by (simp add: init_heap_alloc_def)
  moreover have "heap_live (heap_setup (unat (vmm_addr s)) INIT_HEAP_SIZE m) Map.empty"
    by (rule heap_setup_live) (simp_all add: INIT_HEAP_SIZE_def)
  moreover have "heapStartPtr (heap_setup (unat (vmm_addr s)) INIT_HEAP_SIZE m) = unat (vmm_addr s)"
    "heapEndPtr (heap_setup (unat (vmm_addr s)) INIT_HEAP_SIZE m) = unat (vmm_addr s) + INIT_HEAP_SIZE"
    by (simp_all add: heap_setup_def Let_def)
  ultimately show ?thesis using mapped(5-9) unfolding heap_pages by auto
next
  case no_range
  moreover have "free_run (vmm_bitmap st) 0 4096" using run by (auto simp: free_run_def)
  ultimately show ?thesis using run(2) unfolding heap_pages by auto
next
  case (no_frame s st')
  with frames show ?thesis unfolding heap_pages by simp
qed

lemma memory_init_effect:
  assumes enough: "enough_memory hhdm memmap" and tree: "tree_ok tables root (usable_pages memmap)"
    and contents: "\<forall>a k. length (contents a k) = k"
  shows "\<exists>h v s fs. memory_init hhdm memmap contents m tables root = Some (Some h, v) \<and>
    heap_live h Map.empty \<and> heapStartPtr h = unat (vmm_addr s) \<and> heapEndPtr h = unat (vmm_addr s) + INIT_HEAP_SIZE \<and>
    length fs = 4096 \<and> distinct fs \<and> set fs \<subseteq> usable_pages memmap \<and> page_maps (paging v) s fs \<and> vmm_ok (set fs) v"
proof -
  let ?cnt = "top_address memmap div 4096" and ?n = "bitmap_frame_count memmap"
  from enough obtain e where mm: "memmap_ok memmap" and low: "\<forall>p \<in> usable_pages memmap. 0 < p \<and> p < 2 ^ 40"
    and cnt: "?cnt \<le> 2 ^ 32" "4096 \<le> ?cnt" and hhdm: "unat hhdm + top_address memmap < 2 ^ 64"
    and e: "e \<in> set memmap" "entry_usable e" "3 * 4096 * ?n \<le> unat (entry_length e)"
    and card: "4 * 4096 + 2 * ?n \<le> card (usable_pages memmap)" by (auto simp: enough_memory_def)
  have "bitmap_bytes memmap \<le> 4096 * ?n" unfolding bitmap_frame_count_def by linarith
  with e(3) have "bitmap_bytes memmap \<le> unat (entry_length e)" by simp
  from memory_init_pmm_effect[OF mm e(1,2) this] obtain fr b where
    fr: "memory_init_pmm hhdm memmap = Some fr" "pmm_ok fr" "count (pmm_bitmap fr) = ?cnt"
      "free_pages fr = usable_pages memmap - bitmap_frames memmap b" by blast
  obtain p where p: "bitmap_frames memmap b = {p ..< p + ?n}" using bitmap_frames_interval by blast
  have "3 * ?n \<le> unat (entry_length e) div 4096" using e(3) div_le_mono[of "3 * 4096 * ?n" "unat (entry_length e)" 4096] by simp
  from run_outside[OF this] obtain s where "{s ..< s + ?n} \<subseteq> entry_pages e - {p ..< p + ?n}"
    using entry_pages_interval[OF mm e(1,2)] by metis
  then have run: "{s ..< s + ?n} \<subseteq> free_pages fr" using e(1) by (auto simp: fr(4) p usable_pages_def)
  have n0: "0 < ?n" using cnt(2) unfolding bitmap_frame_count_def bitmap_bytes_def by linarith
  have low': "\<forall>p \<in> free_pages fr. 0 < p" using low by (auto simp: fr(4))
  have hh: "unat hhdm + 4096 * ?cnt < 2 ^ 64" using hhdm by (simp add: order_le_less_trans[OF add_left_mono])
  have c0: "0 < ?cnt" using cnt(2) by simp
  obtain fr' bm q where v: "init_vmm hhdm contents \<lparr>paging = \<lparr>pt_mem = tables, cr3 = root, invalidated = [], frames = fr\<rparr>,
        vmm_bitmap = \<lparr>bitmap = [], count = 0\<rparr>\<rparr> =
      Some (True, \<lparr>paging = \<lparr>pt_mem = tables, cr3 = root, invalidated = [], frames = fr'\<rparr>, vmm_bitmap = bm\<rparr>)"
    and fr': "pmm_ok fr'" "free_pages fr' = free_pages fr - {q ..< q + ?n}" and bm: "count bm = ?cnt" "bitmap_wf bm" "free_run bm 0 ?cnt"
    using init_vmm_effect[OF fr(2,3) c0 cnt(1) run pages_for_bitmap(2)[OF cnt(1)] n0 low' hh contents,
      where tables = tables and root = root and junk = "\<lparr>bitmap = [], count = 0\<rparr>"] by blast
  let ?v = "\<lparr>paging = \<lparr>pt_mem = tables, cr3 = root, invalidated = [], frames = fr'\<rparr>, vmm_bitmap = bm\<rparr>"
  have sub: "free_pages fr' \<subseteq> usable_pages memmap" by (auto simp: fr'(2) fr(4))
  have ok: "vmm_ok {} ?v"
    using fr'(1) low sub tree_mono[OF tree sub] bm(1,2) cnt(1) by (auto simp: vmm_ok_def paging_ok_def)
  have fin: "finite (usable_pages memmap)" by (simp add: usable_pages_def entry_pages_def)
  have "card (usable_pages memmap) - card {p ..< p + ?n} - card {q ..< q + ?n} \<le> card (free_pages fr')"
    unfolding fr'(2) fr(4) p by (intro order_trans[OF diff_le_mono diff_card_le_card_Diff] diff_card_le_card_Diff) simp_all
  then have "4 * 4096 \<le> free_count (paging ?v)" using card by simp
  from init_heap_alloc_effect[OF ok _ _ this, of m] bm(1,3) cnt(2) obtain h w t fs where
    h: "init_heap_alloc m ?v = Some (Some h, w)" "heap_live h Map.empty" "heapStartPtr h = unat (vmm_addr t)"
      "heapEndPtr h = unat (vmm_addr t) + INIT_HEAP_SIZE" "length fs = 4096" "distinct fs" "set fs \<subseteq> free_pages fr'"
      "page_maps (paging w) t fs" "vmm_ok (set fs) w" by auto
  have "memory_init hhdm memmap contents m tables root = Some (Some h, w)"
    using fr(1) v h(1) by (simp add: memory_init_def)
  with h(2-9) sub show ?thesis by blast
qed


text \<open>A machine with 256 megabytes, all but the first frame usable, whose page tables lie outside of them.\<close>

definition start_memmap :: "memmap_entry list" where
  "start_memmap = [\<lparr>entry_base = 0, entry_length = 0x1000, entry_usable = False\<rparr>,
     \<lparr>entry_base = 0x1000, entry_length = 0x0FFFF000, entry_usable = True\<rparr>]"

lemma start_pages: "usable_pages start_memmap = {1 ..< 65536}"
  by (simp add: usable_pages_def start_memmap_def entry_pages_def entry_end_def)

lemma start_memory: "enough_memory 0xFFFF800000000000 start_memmap"
proof -
  have t: "top_address start_memmap = 0x10000000" by (simp add: top_address_def start_memmap_def entry_end_def)
  have n: "bitmap_frame_count start_memmap = 2" by (simp add: bitmap_frame_count_def bitmap_bytes_def t)
  have "memmap_ok start_memmap" by (simp add: memmap_ok_def start_memmap_def)
  then show ?thesis unfolding enough_memory_def start_pages t n by (simp add: start_memmap_def)
qed

lemma start_tree: "tree_ok (\<lambda>_. empty_entry) (frame_addr 0x20000) (usable_pages start_memmap)"
  unfolding tree_ok_def
proof (intro conjI allI impI)
  fix p t assume "walk (\<lambda>_. empty_entry) (frame_addr 0x20000) p = Some t"
  then have "t = frame_addr 0x20000" by (auto dest: walk_empty)
  then show "\<exists>k. t = frame_addr k \<and> 0 < k \<and> k < 2 ^ 52 \<and> k \<notin> usable_pages start_memmap"
    by (intro exI[of _ "0x20000"]) (simp add: start_pages)
qed (auto dest: walk_empty)


end
