(* ===== verification/BootProps.thy ===== *)
theory BootProps
  imports BootSpec MemoryStart
begin

text \<open>
  The entry of the kernel, from the answers of the boot loader to a served session, and a small machine on which
  it happens.
\<close>

section \<open>Entry\<close>

text \<open>What \<open>kmain\<close> takes over from the first framebuffer.\<close>

definition boot_info_of :: "limine_framebuffer \<Rightarrow> BootInfo" where
  "boot_info_of fb = \<lparr>bi_framebuffer = fb_address fb, bi_width = width fb, bi_height = height fb, bi_pitch = pitch fb, bi_bpp = bpp fb\<rparr>"

definition shown_on :: "limine_framebuffer \<Rightarrow> 'm machine_scheme \<Rightarrow> 'm machine_scheme" where
  "shown_on fb m = m\<lparr>fb_height := unat (height fb), fb_pitch := unat (pitch fb)\<rparr>"

lemma kmain_halts:
  assumes "\<not> base_revision_supported l \<or> framebuffers l = None \<or> framebuffers l = Some []"
  shows "kmain l m st = Some (boot_info_initial, st)"
  using assms by (auto simp: kmain_def)

lemma kmain_starts:
  assumes "base_revision_supported l" and "framebuffers l = Some (fb # fbs)"
  shows "kmain l m st = map_option (Pair (boot_info_of fb)) (kernel_main (shown_on fb m) (st\<lparr>framebuffer := pixels_at l (fb_address fb)\<rparr>))"
  using assms by (simp add: kmain_def boot_info_of_def shown_on_def map_option_case) (simp split: option.split)


section \<open>A machine that boots\<close>

text \<open>Mapping pages never faults, so a controller without implemented ports ends the search for drives.\<close>

lemma map_pages_total:
  assumes "paging_ok X pg"
  shows "\<exists>ok pg'. map_pages va pa flags n pg = Some (ok, pg')"
proof -
  let ?body = "\<lambda>i (success, st). do {
        let addressOffset = of_nat i * PAGE_SIZE;
        (ok, st) \<leftarrow> map_page (va + addressOffset) (pa + addressOffset) flags st;
        Some (if \<not> ok then False else success, st) }"
  have "\<exists>r. for_loop ?body 0 (unat (divide_round_up n PAGE_SIZE)) (True, pg) = Some r \<and> paging_ok X (snd r)"
  proof (rule for_loop_rule[where I = "\<lambda>_ r. paging_ok X (snd r)"])
    fix i and r :: "bool \<times> paging_state" assume "paging_ok X (snd r)"
    then show "\<exists>r'. ?body i r = Some r' \<and> paging_ok X (snd r')"
      by (cases rule: map_page_spec[where va = "va + of_nat i * PAGE_SIZE" and pa = "pa + of_nat i * PAGE_SIZE" and flags = flags])
        (auto simp: same_view_def split: prod.split)
  qed (use assms in simp)
  then show ?thesis by (auto simp: map_pages_def)
qed

lemma no_drives:
  assumes "paging_ok X (ahci_state.paging st)" and "PI st = 0"
  shows "\<exists>s. init_storage dev bar stack junk ds st = Some (False, s)"
proof -
  from map_pages_total[OF assms(1)] obtain ok pg where
    pg: "map_pages (get_virtual_membar_address bar) (get_physical_membar_address bar) PAGE_FLAG_WRITE_NO_CACHE 4352 (ahci_state.paging st) = Some (ok, pg)"
    by blast
  then have "\<exists>r a. find_ready_ports dev bar [] (ahci_state.truncate st) = Some (r, [], a)"
    using assms(2) by (cases ok) (auto simp: find_ready_ports_def ahci_state.defs for_loop_skip)
  then obtain r a where "find_ready_ports dev bar [] (ahci_state.truncate st) = Some (r, [], a)" by blast
  then show ?thesis by (simp add: init_storage_def setup_storage_devices_def with_ahci_def ahci_state.defs storage_state.defs)
qed

text \<open>256 megabytes, a controller without drives and a screen of 32 by 2 characters.\<close>

definition sample_machine :: machine where
  "sample_machine = \<lparr>controller = (\<lambda>st. st), disks = (\<lambda>_. sample_disk), stack_bytes = replicate 512 0, can_alloc = (\<lambda>_. True), fb_height = 0,
     hhdm_offset = 0xFFFF800000000000, memmap = start_memmap, fresh_bytes = (\<lambda>_ k. replicate k 0xFF), heap_bytes = (\<lambda>_. 0),
     boot_tables = (\<lambda>_. empty_entry), boot_cr3 = frame_addr 0x20000, fb_pitch = 0, pci_config = sample_config,
     fresh_device = read_device sample_config 0 0 0, fresh_partitions = [], isr_stubs = (\<lambda>n. 0xFFFFFFFF80001000 + of_nat n),
     timer_isr = 1, keyboard_isr = 2\<rparr>"

definition sample_fb :: limine_framebuffer where
  "sample_fb = \<lparr>fb_address = 0xFFFF8000FD000000, width = 256, height = 32, pitch = 1024, bpp = 32\<rparr>"

definition sample_loader :: loader where
  "sample_loader = \<lparr>base_revision_supported = True, framebuffers = Some [sample_fb], pixels_at = (\<lambda>_. replicate 8192 0)\<rparr>"

definition zeroed :: boot where
  "zeroed = \<lparr>cursorAt_X = 0, cursorAt_Y = 0, cursorRendered_X = 0, cursorRendered_Y = 0, cursor_visible = True,
     FONT_W = 0, FONT_H = 0, ADJUSTED_WIDTH = 0, MAX_CHARS = 0, MAX_LINES = 0, useScreenBuffer = False, isRedrawing = False,
     screenBufferPtr = None, framebuffer = [], lineInputLength = 0, lineInputBuffer = replicate TERMINAL_BUFFER_SIZE 0, lineInputCursorPos = 0,
     lineInputStart_X = 0, commandHistory = replicate MAX_COMMAND_HISTORY (replicate TERMINAL_BUFFER_SIZE 0), cmdHistCount = 0,
     goThroughHistoryCount = 0, shift = False, isExtendedScancode = False, currentPath = replicate (MAX_PATH_LENGTH + 1) 0,
     storage = ahci_state.extend (sample_ahci\<lparr>PI := 0\<rparr>) (storage_state.fields [] 0 None None),
     heap = heap_setup 0 0 (\<lambda>_. 0), ticks = 0, found_pci_devices = [], PCIDeviceAmount = 0, port_writes = [],
     idt = replicate 256 \<lparr>base_low = 0, idt_selector = 0, ist = 0, idt_flags = 0, base_mid = 0, base_high = 0, idt_reserved = 0\<rparr>,
     virtual_bitmap = \<lparr>bitmap = [], count = 0\<rparr>, BAR_IDX_5 = 0\<rparr>"


end
