(* ===== verification/StorageProps.thy ===== *)
theory StorageProps
  imports Storage AhciProps
begin

text \<open>
  The first thing the storage layer does with a drive: the partition scan, from the read
  command of the controller to the entries of the device.
\<close>

lemma fill_partitions:
  assumes d: "length (Partitions d) = 4" "PartitionCount d = 0" and parsed: "parse_mbr sector junk = Some (True, ps)" "length ps = 4"
  shows "fill_partition_infos sector junk d = Some (True, d\<lparr>Partitions := ps, PartitionCount := 4\<rparr>)"
proof -
  obtain a b c e where ps: "ps = [a, b, c, e]" using list_four[OF parsed(2)] by blast
  obtain w x y z where old: "Partitions d = [w, x, y, z]" using list_four[OF d(1)] by blast
  show ?thesis unfolding fill_partition_infos_def for_four by (simp add: parsed(1) ps old d(2))
qed


text \<open>The same disk and controller with one table, read on a machine whose frames 2 to 7 are free.\<close>

definition sample_entry :: Partition_Entry where
  "sample_entry = \<lparr>Boot_Flag = 0x80, CHS_Address_Start = [1, 2, 3], Partition_Type = 0x0C, CHS_Address_End = [4, 5, 6],
    pe_Start_LBA = 2048, Sector_Amount = 100\<rparr>"

definition table_disk :: disk where
  "table_disk lba = mbr_sector (replicate 446 0) (replicate 4 sample_entry)"

definition sample_drive :: storage_device where
  "sample_drive = \<lparr>Partitions = replicate 4 \<lparr>Start_LBA = 0, Sector_Count = 0, Type = FsEmpty, Bootable = False\<rparr>,
    PartitionCount = 0, Identified = True, Ready = True, Port = 0, PortIndex = 0, Signature = 0x101, SpeedGen = 3,
    IdentificationInformation = []\<rparr>"

lemma table_disk_ok: "disk_ok table_disk"
  by (simp add: disk_ok_def table_disk_def mbr_sector_def sample_entry_def length_entries entry_ok_def del: map_replicate)


end
